(* ===== verification/Prelude.thy ===== *)
theory Prelude
  imports Main "HOL-Library.Char_ord" "HOL-Library.List_Lexorder" "HOL-Library.Product_Lexorder"
    "HOL-Library.Word" "HOL-Library.Multiset"
begin

text \<open>
  Shared vocabulary of the development: the integer widths and results of the Rust code, the
  ordered map of its standard library, and the generic lemmas the component theories use.

  \<^item> A Rust \<open>String\<close> is its byte sequence, a HOL \<open>string\<close>; the order on strings is the
    byte-lexicographic order of \<open>str\<close>, which is the list order of \<open>List_Lexorder\<close>.
  \<^item> \<open>u32\<close> and \<open>u64\<close> values are \<open>nat\<close>; where the code adds with saturation the bound is
    written out by \<open>sat_add32\<close> and \<open>sat_add64\<close>.
  \<^item> \<open>Result<T, E>\<close> is \<open>'e + 't\<close> with the error on the left.
  \<^item> \<open>BTreeMap<K, V>\<close> is an association list kept sorted by key, so that iteration order is
    the list order, as it is in Rust.
\<close>

named_theorems btree_simps \<open>look-up and invariant laws of the ordered map\<close>
named_theorems result_simps \<open>case analysis of results\<close>

section \<open>Integers\<close>

type_synonym u32 = nat
type_synonym u64 = nat
type_synonym usize = nat

definition u32_max :: nat where
  "u32_max = 4294967295"

definition u64_max :: nat where
  "u64_max = 18446744073709551615"

definition sat_add32 :: "u32 \<Rightarrow> u32 \<Rightarrow> u32" where
  "sat_add32 a b = min (a + b) u32_max"

definition sat_add64 :: "u64 \<Rightarrow> u64 \<Rightarrow> u64" where
  "sat_add64 a b = min (a + b) u64_max"

text \<open>\<open>Option::unwrap_or\<close>.\<close>

definition or_default :: "'a \<Rightarrow> 'a option \<Rightarrow> 'a" where
  "or_default d x = (case x of None \<Rightarrow> d | Some y \<Rightarrow> y)"

definition sat_mul64 :: "u64 \<Rightarrow> u64 \<Rightarrow> u64" where
  "sat_mul64 a b = min (a * b) u64_max"

lemma sat_add64_bound: "sat_add64 a b \<le> u64_max"
  by (simp add: sat_add64_def)

lemma sat_add64_exact: "a + b \<le> u64_max \<Longrightarrow> sat_add64 a b = a + b"
  by (simp add: sat_add64_def)

lemma sat_add64_mono: "a \<le> u64_max \<Longrightarrow> a \<le> sat_add64 a b"
  by (simp add: sat_add64_def)

section \<open>Results\<close>

type_synonym ('a, 'e) result = "'e + 'a"

definition res_bind :: "('a, 'e) result \<Rightarrow> ('a \<Rightarrow> ('b, 'e) result) \<Rightarrow> ('b, 'e) result" where
  "res_bind r f = (case r of Inl e \<Rightarrow> Inl e | Inr x \<Rightarrow> f x)"

definition ok_or :: "'a option \<Rightarrow> 'e \<Rightarrow> ('a, 'e) result" where
  "ok_or o' e = (case o' of None \<Rightarrow> Inl e | Some x \<Rightarrow> Inr x)"

lemma res_bind_Inr [simp, result_simps]: "res_bind (Inr x) f = f x"
  by (simp add: res_bind_def)

lemma res_bind_Inl [simp, result_simps]: "res_bind (Inl e) f = Inl e"
  by (simp add: res_bind_def)

lemma res_bind_eq_Inr: "res_bind r f = Inr y \<longleftrightarrow> (\<exists>x. r = Inr x \<and> f x = Inr y)"
  by (cases r) auto

lemma ok_or_simps [simp, result_simps]: "ok_or None e = Inl e" "ok_or (Some x) e = Inr x"
  by (simp_all add: ok_or_def)

lemma ok_or_eq_Inr: "ok_or x e = Inr y \<longleftrightarrow> x = Some y"
  by (cases x) auto

text \<open>A loop that stops at the first error, with the state it threads.\<close>

fun res_fold :: "('a \<Rightarrow> 's \<Rightarrow> ('s, 'e) result) \<Rightarrow> 'a list \<Rightarrow> 's \<Rightarrow> ('s, 'e) result" where
  "res_fold f [] s = Inr s"
| "res_fold f (x # xs) s = res_bind (f x s) (res_fold f xs)"

lemma res_fold_invariant:
  assumes "res_fold f xs s = Inr s'" "P s" "\<And>x s s'. x \<in> set xs \<Longrightarrow> P s \<Longrightarrow> f x s = Inr s' \<Longrightarrow> P s'"
  shows "P s'"
  using assms
proof (induction xs arbitrary: s)
  case (Cons x xs)
  then obtain t where t: "f x s = Inr t" "res_fold f xs t = Inr s'" by (auto simp: res_bind_eq_Inr)
  show ?case by (rule Cons.IH [OF t(2)]) (use Cons.prems t(1) in auto)
qed simp

lemma res_fold_append: "res_fold f (xs @ ys) s = res_bind (res_fold f xs s) (res_fold f ys)"
proof (induction xs arbitrary: s)
  case (Cons x xs)
  then show ?case by (cases "f x s") simp_all
qed simp

section \<open>Ordered maps\<close>

type_synonym ('k, 'v) btree = "('k \<times> 'v) list"

definition bt_ok :: "('k::linorder, 'v) btree \<Rightarrow> bool" where
  "bt_ok m \<longleftrightarrow> sorted_wrt (<) (map fst m)"

abbreviation bt_get :: "('k, 'v) btree \<Rightarrow> 'k \<Rightarrow> 'v option" where
  "bt_get m k \<equiv> map_of m k"

fun bt_insert :: "'k::linorder \<Rightarrow> 'v \<Rightarrow> ('k, 'v) btree \<Rightarrow> ('k, 'v) btree" where
  "bt_insert k v [] = [(k, v)]"
| "bt_insert k v ((k', v') # m) =
     (if k < k' then (k, v) # (k', v') # m
      else if k = k' then (k, v) # m
      else (k', v') # bt_insert k v m)"

definition bt_remove :: "'k \<Rightarrow> ('k, 'v) btree \<Rightarrow> ('k, 'v) btree" where
  "bt_remove k m = filter (\<lambda>p. fst p \<noteq> k) m"

text \<open>\<open>entry(k).or_insert(v)\<close>: the first value stored for a key stays.\<close>

definition bt_or_insert :: "'k::linorder \<Rightarrow> 'v \<Rightarrow> ('k, 'v) btree \<Rightarrow> ('k, 'v) btree" where
  "bt_or_insert k v m = (case bt_get m k of Some _ \<Rightarrow> m | None \<Rightarrow> bt_insert k v m)"

text \<open>\<open>entry(k).or_default().push(v)\<close> on a map of vectors.\<close>

definition bt_push :: "'k::linorder \<Rightarrow> 'v \<Rightarrow> ('k, 'v list) btree \<Rightarrow> ('k, 'v list) btree" where
  "bt_push k v m = bt_insert k ((case bt_get m k of Some vs \<Rightarrow> vs | None \<Rightarrow> []) @ [v]) m"

definition bt_keys :: "('k, 'v) btree \<Rightarrow> 'k list" where
  "bt_keys m = map fst m"

definition bt_values :: "('k, 'v) btree \<Rightarrow> 'v list" where
  "bt_values m = map snd m"

lemma bt_get_insert [simp, btree_simps]:
  "bt_get (bt_insert k v m) k' = (if k' = k then Some v else bt_get m k')"
  by (induction m) auto

lemma map_of_bt_insert: "map_of (bt_insert k v m) = (map_of m)(k \<mapsto> v)"
  by (rule ext) simp

lemma keys_bt_insert: "set (map fst (bt_insert k v m)) = insert k (set (map fst m))"
  by (induction k v m rule: bt_insert.induct) auto

lemma bt_ok_insert [simp, intro, btree_simps]: "bt_ok m \<Longrightarrow> bt_ok (bt_insert k v m)"
proof (induction k v m rule: bt_insert.induct)
  case (1 k v)
  then show ?case by (simp add: bt_ok_def)
next
  case (2 k v k' v' m)
  then show ?case
    using keys_bt_insert [of k v m] by (auto simp: bt_ok_def dest: order_less_trans)
qed

lemma bt_ok_Nil [simp, btree_simps]: "bt_ok []"
  by (simp add: bt_ok_def)

lemma bt_ok_remove [simp, btree_simps]: "bt_ok m \<Longrightarrow> bt_ok (bt_remove k m)"
  by (induction m) (auto simp: bt_ok_def bt_remove_def)

lemma bt_get_remove [simp, btree_simps]:
  "bt_get (bt_remove k m) k' = (if k' = k then None else bt_get m k')"
  by (induction m) (auto simp: bt_remove_def)

lemma bt_ok_distinct: "bt_ok m \<Longrightarrow> distinct (map fst m)"
  by (simp add: bt_ok_def strict_sorted_iff)

lemma bt_ok_or_insert [simp, btree_simps]: "bt_ok m \<Longrightarrow> bt_ok (bt_or_insert k v m)"
  by (simp add: bt_or_insert_def split: option.split)

lemma bt_get_or_insert [btree_simps]:
  "bt_get (bt_or_insert k v m) k' =
     (if k' = k \<and> bt_get m k = None then Some v else bt_get m k')"
  by (auto simp: bt_or_insert_def split: option.splits)

lemma bt_ok_push [simp, btree_simps]: "bt_ok m \<Longrightarrow> bt_ok (bt_push k v m)"
  by (simp add: bt_push_def)

text \<open> Two ordered maps with the same look-ups are the same map, iteration order included.\<close>

lemma bt_ext:
  assumes "bt_ok m" and "bt_ok n" and "\<And>k. bt_get m k = bt_get n k"
  shows "m = n"
proof -
  have "map_of m = map_of n" by (rule ext) (rule assms(3))
  then have "set m = set n"
    using assms(1,2) by (simp add: map_of_inject_set bt_ok_distinct)
  moreover have "inj_on fst (set m)"
    using bt_ok_distinct [OF assms(1)] by (simp add: distinct_map)
  ultimately show ?thesis
    using assms(1,2) by (intro map_sorted_distinct_set_unique [of fst])
      (simp_all add: bt_ok_def strict_sorted_iff)
qed

text \<open>The map interface the components rely on, and its discharge on the ordered map.\<close>

locale map_store =
  fixes empty :: "'m" and put :: "'k \<Rightarrow> 'v \<Rightarrow> 'm \<Rightarrow> 'm" and del :: "'k \<Rightarrow> 'm \<Rightarrow> 'm"
    and get :: "'m \<Rightarrow> 'k \<Rightarrow> 'v option" and ok :: "'m \<Rightarrow> bool"
  assumes get_empty: "get empty k = None"
    and get_put: "ok m \<Longrightarrow> get (put k v m) k' = (if k' = k then Some v else get m k')"
    and get_del: "ok m \<Longrightarrow> get (del k m) k' = (if k' = k then None else get m k')"
    and ok_empty: "ok empty" and ok_put: "ok m \<Longrightarrow> ok (put k v m)" and ok_del: "ok m \<Longrightarrow> ok (del k m)"
begin

lemma ok_fold_put: "ok m \<Longrightarrow> ok (fold (\<lambda>p. put (fst p) (snd p)) ps m)"
  by (induction ps arbitrary: m) (auto intro: ok_put)

lemma get_fold_put:
  "ok m \<Longrightarrow> get (fold (\<lambda>p. put (fst p) (snd p)) ps m) k =
     (case map_of (rev ps) k of Some v \<Rightarrow> Some v | None \<Rightarrow> get m k)"
  by (induction ps arbitrary: m) (auto simp: ok_put get_put map_add_def split: option.splits)

lemma put_absorbs_del: "ok m \<Longrightarrow> get (put k v (del k m)) = get (put k v m)"
  by (rule ext) (simp add: get_put get_del ok_del)

end

text \<open>A sum over the values of an ordered map, and its size, under updates.\<close>

definition bt_weight :: "('v \<Rightarrow> nat) \<Rightarrow> ('k, 'v) btree \<Rightarrow> nat" where
  "bt_weight f m = sum_list (map (f \<circ> snd) m)"

lemma bt_remove_absent: "k \<notin> fst ` set m \<Longrightarrow> bt_remove k m = m"
  by (force simp: bt_remove_def filter_id_conv)

lemma bt_weight_remove:
  "bt_ok m \<Longrightarrow> bt_weight f (bt_remove k m) = bt_weight f m - (case bt_get m k of None \<Rightarrow> 0 | Some v \<Rightarrow> f v)"
  and bt_weight_get: "bt_get m k = Some v \<Longrightarrow> f v \<le> bt_weight f m"
proof -
  show "bt_get m k = Some v \<Longrightarrow> f v \<le> bt_weight f m"
    by (induction m) (auto simp: bt_weight_def split: if_splits)
  show "bt_ok m \<Longrightarrow> bt_weight f (bt_remove k m) = bt_weight f m - (case bt_get m k of None \<Rightarrow> 0 | Some v \<Rightarrow> f v)"
  proof (induction m)
    case (Cons x m)
    then have ok: "bt_ok m" and new: "fst x \<notin> fst ` set m" by (auto simp: bt_ok_def)
    show ?case
    proof (cases "fst x = k")
      case True
      then show ?thesis using bt_remove_absent [of k m] new by (simp add: bt_weight_def bt_remove_def)
    next
      case False
      then have "bt_weight f (bt_remove k (x # m)) = f (snd x) + bt_weight f (bt_remove k m)"
        by (simp add: bt_weight_def bt_remove_def)
      moreover have "(case bt_get m k of None \<Rightarrow> 0 | Some v \<Rightarrow> f v) \<le> bt_weight f m"
        by (induction m) (auto simp: bt_weight_def split: option.split)
      ultimately show ?thesis using Cons.IH [OF ok] False by (cases x) (simp add: bt_weight_def)
    qed
  qed (simp add: bt_weight_def bt_remove_def)
qed

lemma bt_weight_insert: "bt_ok m \<Longrightarrow> bt_weight f (bt_insert k v m) = f v + bt_weight f (bt_remove k m)"
proof (induction k v m rule: bt_insert.induct)
  case (2 k v k' v' m)
  then have "\<forall>x \<in> set m. k' < fst x" "bt_ok m" by (auto simp: bt_ok_def)
  then have "bt_remove k m = m" if "k \<le> k'" using that by (force simp: bt_remove_def filter_id_conv)
  then show ?case using 2 \<open>bt_ok m\<close> by (auto simp: bt_weight_def bt_remove_def)
qed (simp add: bt_weight_def bt_remove_def)

lemma bt_length_insert: "length (bt_insert k v m) \<le> Suc (length m)"
  by (induction k v m rule: bt_insert.induct) auto

lemma bt_length_insert_old: "bt_ok m \<Longrightarrow> bt_get m k \<noteq> None \<Longrightarrow> length (bt_insert k v m) = length m"
proof (induction k v m rule: bt_insert.induct)
  case (2 k v k' v' m)
  then have "\<forall>x \<in> set m. k' < fst x" and ok: "bt_ok m" by (auto simp: bt_ok_def)
  then have "bt_get m k \<noteq> None \<Longrightarrow> k' < k" by (force dest: map_of_SomeD)
  then show ?case using 2 ok by (cases "k = k'") (auto dest: less_asym)
qed simp

lemma bt_length_remove: "length (bt_remove k m) \<le> length m"
  by (simp add: bt_remove_def)

lemma bt_set_insert: "set (bt_insert k v m) \<subseteq> insert (k, v) (set m)"
  by (induction k v m rule: bt_insert.induct) auto

interpretation btree: map_store "[]" bt_insert bt_remove bt_get bt_ok
  by unfold_locales simp_all

section \<open>Sorting and lists\<close>

lemma sort_key_distinct_keys: "distinct (map f xs) \<Longrightarrow> sorted_wrt (\<lambda>x y. f x < f y) (sort_key f xs)"
  for f :: "'a \<Rightarrow> 'b::linorder"
proof -
  assume d: "distinct (map f xs)"
  have "mset (map f (sort_key f xs)) = mset (map f xs)" by (simp only: mset_map mset_sort)
  with d have "distinct (map f (sort_key f xs))" by (metis mset_eq_imp_distinct_iff)
  moreover have "sorted (map f (sort_key f xs))" by simp
  ultimately have "sorted_wrt (<) (map f (sort_key f xs))" by (simp add: strict_sorted_iff)
  then show ?thesis by (simp add: sorted_wrt_map)
qed

lemma sort_key_id_sorted: "sorted (map f xs) \<Longrightarrow> sort_key f xs = xs"
  for f :: "'a \<Rightarrow> 'b::linorder"
  by (rule sort_key_id_if_sorted)

end
