(* ===== verification/Topology.thy ===== *)
theory Topology
  imports Text
begin

text \<open>
  \<open>src/topology.rs\<close>, \<open>src/topology/model.rs\<close> and the endpoint check of
  \<open>src/compat/netbat.rs\<close>: the journals of a workspace, their roles, and the validation that
  runs before a journal is opened.  Parsing a socket address is standard-library code, the
  parameter \<open>parse_addr\<close>; its classification into private and public ranges is modelled.
\<close>

section \<open>Data\<close>

datatype JournalId = JournalId (journal_str: string)

datatype JournalRole = Canonical | Replica

datatype ReplicaMode = ExactFork | ImportedReadModel

datatype TopologyError =
    TopologyEmpty
  | InvalidJournalId string
  | MissingJournal string
  | PrimaryNotCanonical string
  | EmptyStorePath string
  | CanonicalHasReplicaFields string
  | ReplicaMissingSource string
  | ReplicaMissingMode string
  | InvalidRemoteSource string
  | RemoteExactFork string
  | MissingSource string string
  | ReplicaCycle string
  | DuplicateStorePath string string string

record JournalEntry =
  je_role :: JournalRole
  je_store_path :: string
  je_source_journal :: "string option"
  je_replica_mode :: "ReplicaMode option"
  je_source_endpoint :: "string option"
  je_source_token_env :: "string option"

record ResolvedJournal =
  rj_id :: JournalId
  rj_role :: JournalRole
  rj_store_path :: string
  rj_source_journal :: "JournalId option"
  rj_replica_mode :: "ReplicaMode option"
  rj_source_endpoint :: "string option"
  rj_source_token_env :: "string option"

definition journal_canonical :: "string \<Rightarrow> JournalEntry" where
  "journal_canonical store_path =
     \<lparr>je_role = Canonical, je_store_path = store_path, je_source_journal = None,
      je_replica_mode = None, je_source_endpoint = None, je_source_token_env = None\<rparr>"

definition journal_replica :: "string \<Rightarrow> string \<Rightarrow> ReplicaMode \<Rightarrow> JournalEntry" where
  "journal_replica store_path source_journal replica_mode =
     \<lparr>je_role = Replica, je_store_path = store_path, je_source_journal = Some source_journal,
      je_replica_mode = Some replica_mode, je_source_endpoint = None, je_source_token_env = None\<rparr>"

definition journal_remote_replica :: "string \<Rightarrow> string \<Rightarrow> string \<Rightarrow> string \<Rightarrow> JournalEntry" where
  "journal_remote_replica store_path source_journal source_endpoint source_token_env =
     \<lparr>je_role = Replica, je_store_path = store_path, je_source_journal = Some source_journal,
      je_replica_mode = Some ImportedReadModel, je_source_endpoint = Some source_endpoint,
      je_source_token_env = Some source_token_env\<rparr>"

section \<open>Identifiers, environment names, endpoints\<close>

definition journal_id_new :: "string \<Rightarrow> (JournalId, TopologyError) result" where
  "journal_id_new v =
     (if v = [] \<or> length v > 128
         \<or> \<not> list_all (\<lambda>c. is_alnum c \<or> c = CHR ''-'' \<or> c = CHR ''_'' \<or> c = CHR ''.'') v
      then Inl (InvalidJournalId v) else Inr (JournalId v))"

definition valid_env_name :: "string \<Rightarrow> bool" where
  "valid_env_name v \<longleftrightarrow> v \<noteq> [] \<and> list_all (\<lambda>c. is_upper c \<or> is_digit c \<or> c = CHR ''_'') v"

text \<open>A parsed \<open>SocketAddr\<close>: four octets or eight 16-bit segments, and the port.\<close>

datatype SocketAddr = V4 nat nat nat nat nat | V6 "nat list" nat

datatype ClientError =
    InvalidEndpoint string
  | PublicEndpoint string
  | Transport string string
  | Deadline
  | Malformed string
  | Remote string string
  | TooLarge nat

fun private_addr :: "SocketAddr \<Rightarrow> bool" where
  "private_addr (V4 a b c d p) \<longleftrightarrow>
     a = 127
     \<or> a = 10 \<or> a = 172 \<and> 16 \<le> b \<and> b \<le> 31 \<or> a = 192 \<and> b = 168
     \<or> a = 169 \<and> b = 254"
| "private_addr (V6 segs p) \<longleftrightarrow>
     segs = [0, 0, 0, 0, 0, 0, 0, 1]
     \<or> (case segs of [] \<Rightarrow> False
         | s # _ \<Rightarrow> 0xfc00 \<le> s \<and> s \<le> 0xfdff \<or> 0xfe80 \<le> s \<and> s \<le> 0xfebf)"

definition private_socket_addr ::
  "(string \<Rightarrow> SocketAddr option) \<Rightarrow> string \<Rightarrow> (SocketAddr, ClientError) result" where
  "private_socket_addr parse_addr endpoint =
     res_bind (ok_or (parse_addr endpoint) (InvalidEndpoint endpoint))
       (\<lambda>a. if private_addr a then Inr a else Inl (PublicEndpoint endpoint))"

section \<open>Validation\<close>

definition remote_fields_ok :: "(string \<Rightarrow> SocketAddr option) \<Rightarrow> JournalEntry \<Rightarrow> bool" where
  "remote_fields_ok parse_addr e =
     (case (je_source_endpoint e, je_source_token_env e) of
        (Some endpoint, Some token_env) \<Rightarrow>
          (case private_socket_addr parse_addr endpoint of Inr _ \<Rightarrow> valid_env_name token_env | Inl _ \<Rightarrow> False)
      | (None, None) \<Rightarrow> True
      | _ \<Rightarrow> False)"

definition validate_role ::
  "(string \<Rightarrow> SocketAddr option) \<Rightarrow> (string, JournalEntry) btree \<Rightarrow> string \<Rightarrow> JournalEntry
    \<Rightarrow> (unit, TopologyError) result" where
  "validate_role parse_addr journals i e =
     (case je_role e of
        Canonical \<Rightarrow>
          if je_source_journal e \<noteq> None \<or> je_replica_mode e \<noteq> None
             \<or> je_source_endpoint e \<noteq> None \<or> je_source_token_env e \<noteq> None
          then Inl (CanonicalHasReplicaFields i) else Inr ()
      | Replica \<Rightarrow>
          res_bind (ok_or (je_source_journal e) (ReplicaMissingSource i)) (\<lambda>source.
          res_bind (journal_id_new source) (\<lambda>_.
          if source = i then Inl (ReplicaCycle i)
          else if bt_get journals source = None then Inl (MissingSource i source)
          else if je_replica_mode e = None then Inl (ReplicaMissingMode i)
          else if \<not> remote_fields_ok parse_addr e then Inl (InvalidRemoteSource i)
          else if je_source_endpoint e \<noteq> None \<and> je_replica_mode e = Some ExactFork
            then Inl (RemoteExactFork i)
          else Inr ())))"

fun validate_entries ::
  "(string \<Rightarrow> SocketAddr option) \<Rightarrow> (string, JournalEntry) btree \<Rightarrow> (string, string) btree
    \<Rightarrow> (string, JournalEntry) btree \<Rightarrow> (unit, TopologyError) result" where
  "validate_entries parse_addr journals paths [] = Inr ()"
| "validate_entries parse_addr journals paths ((i, e) # rest) =
     res_bind (journal_id_new i) (\<lambda>_.
       if trim (je_store_path e) = [] then Inl (EmptyStorePath i)
       else (case bt_get paths (je_store_path e) of
           Some first \<Rightarrow> Inl (DuplicateStorePath first i (je_store_path e))
         | None \<Rightarrow>
             res_bind (validate_role parse_addr journals i e) (\<lambda>_.
               validate_entries parse_addr journals (bt_insert (je_store_path e) i paths) rest)))"

definition source_of :: "(string, JournalEntry) btree \<Rightarrow> string \<Rightarrow> string option" where
  "source_of journals cursor = Option.bind (bt_get journals cursor) je_source_journal"

function lineage_ends :: "(string, JournalEntry) btree \<Rightarrow> string list \<Rightarrow> string \<Rightarrow> bool" where
  "lineage_ends journals seen cursor =
     (case source_of journals cursor of
        None \<Rightarrow> True
      | Some source \<Rightarrow>
          if cursor \<in> set seen then False
          else lineage_ends journals (cursor # seen) source)"
  by pat_completeness auto
termination
proof (relation "measure (\<lambda>(journals, seen, cursor). length (filter (\<lambda>k. k \<notin> set seen) (map fst journals)))",
    goal_cases)
  case (2 journals seen cursor source)
  then have "cursor \<in> set (map fst journals)"
    by (auto simp: source_of_def bind_eq_Some_conv dest: map_of_SomeD intro: rev_image_eqI)
  with 2 have "filter (\<lambda>k. k \<notin> set (cursor # seen)) (map fst journals)
      = filter (\<lambda>k. k \<noteq> cursor) (filter (\<lambda>k. k \<notin> set seen) (map fst journals))"
    and "cursor \<in> set (filter (\<lambda>k. k \<notin> set seen) (map fst journals))"
    by (auto simp: filter_filter intro: filter_cong)
  then show ?case
    by (simp only: in_measure case_prod_conv) (rule length_filter_less, auto)
qed simp

declare lineage_ends.simps [simp del]

fun validate_lineages ::
  "(string, JournalEntry) btree \<Rightarrow> string list \<Rightarrow> (unit, TopologyError) result" where
  "validate_lineages journals [] = Inr ()"
| "validate_lineages journals (i # ids) =
     (if lineage_ends journals [] i then validate_lineages journals ids else Inl (ReplicaCycle i))"

definition validate_all ::
  "(string \<Rightarrow> SocketAddr option) \<Rightarrow> (string, JournalEntry) btree \<Rightarrow> (unit, TopologyError) result" where
  "validate_all parse_addr journals =
     (if journals = [] then Inl TopologyEmpty
      else res_bind (validate_entries parse_addr journals [] journals)
        (\<lambda>_. validate_lineages journals (bt_keys journals)))"

definition resolve_journal ::
  "(string \<Rightarrow> SocketAddr option) \<Rightarrow> string \<Rightarrow> (string, JournalEntry) btree \<Rightarrow> string option
    \<Rightarrow> (ResolvedJournal, TopologyError) result" where
  "resolve_journal parse_addr primary_journal journals selected =
     res_bind (journal_id_new primary_journal) (\<lambda>primary.
     res_bind (ok_or (bt_get journals (journal_str primary)) (MissingJournal (journal_str primary))) (\<lambda>pe.
     if je_role pe \<noteq> Canonical then Inl (PrimaryNotCanonical (journal_str primary))
     else res_bind (validate_all parse_addr journals) (\<lambda>_.
     res_bind (journal_id_new (case selected of Some s \<Rightarrow> s | None \<Rightarrow> journal_str primary)) (\<lambda>i.
     res_bind (ok_or (bt_get journals (journal_str i)) (MissingJournal (journal_str i))) (\<lambda>e.
     res_bind (case je_source_journal e of
                 None \<Rightarrow> Inr None | Some s \<Rightarrow> map_sum id Some (journal_id_new s)) (\<lambda>src.
     Inr \<lparr>rj_id = i, rj_role = je_role e, rj_store_path = je_store_path e,
          rj_source_journal = src, rj_replica_mode = je_replica_mode e,
          rj_source_endpoint = je_source_endpoint e,
          rj_source_token_env = je_source_token_env e\<rparr>))))))"

section \<open>Lineages\<close>

inductive follows :: "(string, JournalEntry) btree \<Rightarrow> string \<Rightarrow> string \<Rightarrow> bool" for journals where
  follow: "source_of journals a = Some b \<Longrightarrow> follows journals a b"

inductive_simps follows_iff: "follows journals a b"

lemma lineage_ends_sound:
  "lineage_ends journals seen cursor \<Longrightarrow>
   \<exists>t. (follows journals)\<^sup>*\<^sup>* cursor t \<and> source_of journals t = None"
proof (induction journals seen cursor rule: lineage_ends.induct)
  case (1 journals seen cursor)
  show ?case
  proof (cases "source_of journals cursor")
    case None
    then show ?thesis by blast
  next
    case (Some s)
    with "1.prems" have "cursor \<notin> set seen" and "lineage_ends journals (cursor # seen) s"
      by (auto simp: lineage_ends.simps [of journals seen cursor] split: if_splits)
    then obtain t where "(follows journals)\<^sup>*\<^sup>* s t" and "source_of journals t = None"
      using "1.IH" [OF Some] by blast
    with Some show ?thesis
      by (meson converse_rtranclp_into_rtranclp follow)
  qed
qed

lemma follows_cycle_step:
  "(follows journals)\<^sup>+\<^sup>+ x x \<Longrightarrow> follows journals x y \<Longrightarrow> (follows journals)\<^sup>+\<^sup>+ y y"
proof -
  assume "(follows journals)\<^sup>+\<^sup>+ x x" and xy: "follows journals x y"
  then obtain z where "follows journals x z" and "(follows journals)\<^sup>*\<^sup>* z x"
    by (blast dest: tranclpD)
  with xy have "(follows journals)\<^sup>*\<^sup>* y x" by (simp add: follows_iff)
  then show ?thesis using xy by (rule rtranclp_into_tranclp1)
qed

lemma follows_cycle_closed:
  "(follows journals)\<^sup>*\<^sup>* x y \<Longrightarrow> (follows journals)\<^sup>+\<^sup>+ x x \<Longrightarrow> (follows journals)\<^sup>+\<^sup>+ y y"
  by (induction rule: rtranclp_induct) (auto dest: follows_cycle_step)

lemma cycle_has_source: "(follows journals)\<^sup>+\<^sup>+ x x \<Longrightarrow> source_of journals x \<noteq> None"
  by (auto dest!: tranclpD simp: follows_iff)

lemma lineage_ends_complete:
  "(follows journals)\<^sup>*\<^sup>* cursor t \<Longrightarrow> source_of journals t = None \<Longrightarrow>
   \<forall>x \<in> set seen. (follows journals)\<^sup>+\<^sup>+ x cursor \<Longrightarrow> lineage_ends journals seen cursor"
proof (induction journals seen cursor rule: lineage_ends.induct)
  case (1 journals seen cursor)
  show ?case
  proof (cases "source_of journals cursor")
    case None
    then show ?thesis by (simp add: lineage_ends.simps [of journals seen cursor])
  next
    case (Some s)
    have "cursor \<notin> set seen"
      using "1.prems" by (auto dest: follows_cycle_closed cycle_has_source)
    moreover have "(follows journals)\<^sup>*\<^sup>* s t"
      using "1.prems"(1,2) Some
      by (metis converse_rtranclpE follows.cases option.distinct(1) option.inject)
    moreover have "\<forall>x \<in> set (cursor # seen). (follows journals)\<^sup>+\<^sup>+ x s"
      using "1.prems"(3) Some by (auto intro: follow tranclp.trancl_into_trancl)
    ultimately show ?thesis
      using "1.IH" [OF Some] "1.prems"(2) Some
      by (simp add: lineage_ends.simps [of journals seen cursor])
  qed
qed

lemma lineage_ends_iff:
  "lineage_ends journals [] i \<longleftrightarrow>
   (\<exists>t. (follows journals)\<^sup>*\<^sup>* i t \<and> source_of journals t = None)"
  using lineage_ends_sound lineage_ends_complete [of journals i _ "[]"] by auto

lemma validate_lineages_ok:
  "validate_lineages journals ids = Inr () \<longleftrightarrow> (\<forall>i \<in> set ids. lineage_ends journals [] i)"
  by (induction ids) auto

section \<open>What validation guarantees\<close>

lemma validate_role_replica:
  assumes "validate_role P journals i e = Inr ()" and "je_role e = Replica"
  shows "\<exists>s. je_source_journal e = Some s \<and> s \<noteq> i \<and> bt_get journals s \<noteq> None
    \<and> je_replica_mode e \<noteq> None \<and> remote_fields_ok P e
    \<and> (je_source_endpoint e \<noteq> None \<longrightarrow> je_replica_mode e \<noteq> Some ExactFork)"
  using assms by (auto simp: validate_role_def res_bind_eq_Inr ok_or_eq_Inr split: if_splits)

lemma validate_role_canonical:
  assumes "validate_role P journals i e = Inr ()" and "je_role e = Canonical"
  shows "je_source_journal e = None" and "je_replica_mode e = None"
    and "je_source_endpoint e = None" and "je_source_token_env e = None"
  using assms by (auto simp: validate_role_def split: if_splits)

lemma validate_entries_each:
  "validate_entries P journals paths es = Inr () \<Longrightarrow> (i, e) \<in> set es \<Longrightarrow>
   validate_role P journals i e = Inr () \<and> journal_id_new i = Inr (JournalId i)
   \<and> trim (je_store_path e) \<noteq> []"
proof (induction P journals paths es rule: validate_entries.induct)
  case (2 P journals paths i' e' rest)
  then show ?case
    by (auto simp: res_bind_eq_Inr journal_id_new_def split: if_splits option.splits)
qed simp

lemma validate_entries_paths:
  "validate_entries P journals paths es = Inr () \<Longrightarrow>
   distinct (map (je_store_path \<circ> snd) es)
   \<and> (\<forall>e \<in> snd ` set es. bt_get paths (je_store_path e) = None)"
proof (induction P journals paths es rule: validate_entries.induct)
  case (2 P journals paths i e rest)
  from "2.prems" have fresh: "bt_get paths (je_store_path e) = None"
    and rest: "validate_entries P journals (bt_insert (je_store_path e) i paths) rest = Inr ()"
    and guards: "\<exists>x. journal_id_new i = Inr x" "trim (je_store_path e) \<noteq> []"
      "\<exists>y. validate_role P journals i e = Inr y"
    by (auto simp: res_bind_eq_Inr split: if_splits option.splits)
  from guards fresh rest "2.IH" have "distinct (map (je_store_path \<circ> snd) rest)"
    and "\<forall>e' \<in> snd ` set rest. bt_get (bt_insert (je_store_path e) i paths) (je_store_path e') = None"
    by (auto simp: o_def)
  with fresh show ?case by (auto simp: o_def split: if_splits)
qed simp

lemma validated_chain_target:
  assumes ok: "validate_all P journals = Inr ()"
    and "(follows journals)\<^sup>*\<^sup>* i c" and "bt_get journals i \<noteq> None"
  shows "bt_get journals c \<noteq> None"
  using assms(2,3)
proof (induction rule: rtranclp_induct)
  case (step b c)
  then obtain e where e: "bt_get journals b = Some e" and s: "je_source_journal e = Some c"
    by (auto simp: follows_iff source_of_def bind_eq_Some_conv)
  have "validate_role P journals b e = Inr ()"
    using ok map_of_SomeD [OF e] validate_entries_each
    by (fastforce simp: validate_all_def res_bind_eq_Inr split: if_splits)
  with s show ?case
    using validate_role_replica [of P journals b e] validate_role_canonical(1) [of P journals b e]
    by (cases "je_role e") auto
qed simp

text \<open>
  C10: in a topology that validation accepts, every declared journal is canonical or follows,
  through its chain of sources, a declared canonical journal; so every replica has an authority.
\<close>

theorem validated_lineage_reaches_canonical:
  assumes ok: "validate_all P journals = Inr ()" and decl: "bt_get journals i \<noteq> None"
  shows "\<exists>c e. (follows journals)\<^sup>*\<^sup>* i c \<and> bt_get journals c = Some e \<and> je_role e = Canonical"
proof -
  have "validate_lineages journals (bt_keys journals) = Inr ()"
    using ok by (auto simp: validate_all_def res_bind_eq_Inr split: if_splits)
  moreover have "i \<in> set (bt_keys journals)"
    using decl by (force simp: bt_keys_def dest: map_of_SomeD)
  ultimately obtain c where c: "(follows journals)\<^sup>*\<^sup>* i c" and none: "source_of journals c = None"
    by (auto simp: validate_lineages_ok lineage_ends_iff)
  then obtain e where e: "bt_get journals c = Some e"
    using validated_chain_target [OF ok c decl] by blast
  with ok none have "validate_role P journals c e = Inr ()" and "je_source_journal e = None"
    using validate_entries_each map_of_SomeD [OF e]
    by (fastforce simp: validate_all_def res_bind_eq_Inr source_of_def split: if_splits)+
  then have "je_role e = Canonical"
    using validate_role_replica [of P journals c e] by (cases "je_role e") auto
  with c e show ?thesis by blast
qed

definition demo_journals :: "(string, JournalEntry) btree" where
  "demo_journals =
     [(''canonical'', journal_canonical ''.texo/store''),
      (''codex'', journal_replica ''.texo/replicas/codex'' ''canonical'' ImportedReadModel)]"

theorem validated_lineage_reaches_canonical_witness:
  "\<exists>c e. (follows demo_journals)\<^sup>*\<^sup>* ''codex'' c \<and> bt_get demo_journals c = Some e
     \<and> je_role e = Canonical"
proof (rule validated_lineage_reaches_canonical)
  show "validate_all (\<lambda>_. None) demo_journals = Inr ()" by code_simp
  show "bt_get demo_journals ''codex'' \<noteq> None" by (simp add: demo_journals_def)
qed

text \<open>
  the cycle check is exact.  Once the entries are accepted, validation fails exactly when
  some journal's chain of sources never ends.
\<close>

theorem cycle_check_exact:
  assumes "journals \<noteq> []" and "validate_entries P journals [] journals = Inr ()"
  shows "validate_all P journals = Inr () \<longleftrightarrow>
    (\<forall>i \<in> set (bt_keys journals). \<exists>t. (follows journals)\<^sup>*\<^sup>* i t \<and> source_of journals t = None)"
  using assms by (simp add: validate_all_def validate_lineages_ok lineage_ends_iff)

definition cyclic_journals :: "(string, JournalEntry) btree" where
  "cyclic_journals =
     [(''left'', journal_replica ''l'' ''right'' ExactFork),
      (''right'', journal_replica ''r'' ''left'' ExactFork)]"

theorem cycle_check_exact_witness:
  "validate_all (\<lambda>_. None) cyclic_journals = Inr () \<longleftrightarrow>
    (\<forall>i \<in> set (bt_keys cyclic_journals).
       \<exists>t. (follows cyclic_journals)\<^sup>*\<^sup>* i t \<and> source_of cyclic_journals t = None)"
proof (rule cycle_check_exact)
  show "cyclic_journals \<noteq> []" by (simp add: cyclic_journals_def)
  show "validate_entries (\<lambda>_. None) cyclic_journals [] cyclic_journals = Inr ()" by code_simp
qed

text \<open>
  an accepted remote replica has a private endpoint and is an imported read model, and no two
  journals share a store path.
\<close>

theorem validated_remote_is_private:
  assumes ok: "validate_all P journals = Inr ()" and e: "bt_get journals i = Some e"
    and ep: "je_source_endpoint e = Some endpoint"
  shows "(\<exists>a. P endpoint = Some a \<and> private_addr a) \<and> je_replica_mode e = Some ImportedReadModel
    \<and> distinct (map (je_store_path \<circ> snd) journals)"
proof -
  have ents: "validate_entries P journals [] journals = Inr ()"
    using ok by (auto simp: validate_all_def res_bind_eq_Inr split: if_splits)
  with e have "validate_role P journals i e = Inr ()"
    using validate_entries_each map_of_SomeD by fastforce
  moreover from this ep have "je_role e = Replica"
    using validate_role_canonical(3) [of P journals i e] by (cases "je_role e") auto
  ultimately have "remote_fields_ok P e" and "je_replica_mode e \<noteq> None"
    and "je_replica_mode e \<noteq> Some ExactFork"
    using validate_role_replica ep by fastforce+
  then have "\<exists>a. private_socket_addr P endpoint = Inr a"
    and mode: "je_replica_mode e = Some ImportedReadModel"
    using ep ReplicaMode.exhaust by (auto simp: remote_fields_ok_def split: option.splits sum.splits)
  then show ?thesis
    using validate_entries_paths [OF ents] mode
    by (auto simp: private_socket_addr_def res_bind_eq_Inr ok_or_eq_Inr split: if_splits)
qed

definition remote_journals :: "(string, JournalEntry) btree" where
  "remote_journals =
     [(''canonical'', journal_canonical ''.texo/store''),
      (''remote'', journal_remote_replica ''.texo/replicas/remote'' ''canonical''
         ''127.0.0.1:9000'' ''TEXO_REPLICA_TOKEN'')]"

definition loopback_addr :: "string \<Rightarrow> SocketAddr option" where
  "loopback_addr s = (if s = ''127.0.0.1:9000'' then Some (V4 127 0 0 1 9000) else None)"

theorem validated_remote_is_private_witness:
  "(\<exists>a. loopback_addr ''127.0.0.1:9000'' = Some a \<and> private_addr a)
   \<and> je_replica_mode (snd (remote_journals ! 1)) = Some ImportedReadModel
   \<and> distinct (map (je_store_path \<circ> snd) remote_journals)"
proof (rule validated_remote_is_private [where i = "''remote''"])
  show "validate_all loopback_addr remote_journals = Inr ()" by code_simp
  show "bt_get remote_journals ''remote'' = Some (snd (remote_journals ! 1))"
    by (simp add: remote_journals_def)
  show "je_source_endpoint (snd (remote_journals ! 1)) = Some ''127.0.0.1:9000''"
    by (simp add: remote_journals_def journal_remote_replica_def)
qed

end
