(* ===== verification/Ids.thy ===== *)
theory Ids
  imports Text
begin

text \<open>
  \<open>src/events/ids.rs\<close>: branded identifiers, their parsers, and the identifiers derived from
  content.  BLAKE3 is third-party code: \<open>B\<close> stands for \<open>blake3::hash(..).to_hex()\<close>, and
  \<open>blake3_hex\<close> is its documented output format, 64 lower-case hexadecimal characters.
\<close>

section \<open>Parsing\<close>

datatype IdParseError = Empty | BadPrefix string | InvalidWorkspace | HashTooShort nat

datatype ClaimId = ClaimId (claim_str: string)
datatype SourceId = SourceId (source_str: string)
datatype ConflictId = ConflictId (conflict_str: string)
datatype DocId = DocId (doc_str: string)
datatype RelationPairId = RelationPairId (pair_str: string)
datatype WorkspaceId = WorkspaceId (ws_str: string)

definition expect_prefix :: "string \<Rightarrow> string \<Rightarrow> (string, IdParseError) result" where
  "expect_prefix value' prefix' =
     (if value' = [] then Inl Empty
      else if \<not> starts_with value' prefix' then Inl (BadPrefix prefix')
      else Inr value')"

definition validate_workspace :: "string \<Rightarrow> (unit, IdParseError) result" where
  "validate_workspace v =
     (if v = [] \<or> CHR ''/'' \<in> set v \<or> CHR 0x5C \<in> set v \<or> CHR 0x00 \<in> set v
      then Inl InvalidWorkspace else Inr ())"

definition claim_id_try_from :: "string \<Rightarrow> (ClaimId, IdParseError) result" where
  "claim_id_try_from v = map_sum id ClaimId (expect_prefix v ''claim_'')"

definition source_id_try_from :: "string \<Rightarrow> (SourceId, IdParseError) result" where
  "source_id_try_from v = map_sum id SourceId (expect_prefix v ''src_'')"

definition conflict_id_try_from :: "string \<Rightarrow> (ConflictId, IdParseError) result" where
  "conflict_id_try_from v = map_sum id ConflictId (expect_prefix v ''conflict_'')"

definition doc_id_try_from :: "string \<Rightarrow> (DocId, IdParseError) result" where
  "doc_id_try_from v = map_sum id DocId (expect_prefix v ''doc_'')"

definition relation_pair_id_try_from :: "string \<Rightarrow> (RelationPairId, IdParseError) result" where
  "relation_pair_id_try_from v = map_sum id RelationPairId (expect_prefix v ''pair_'')"

definition workspace_id_new :: "string \<Rightarrow> (WorkspaceId, IdParseError) result" where
  "workspace_id_new v = res_bind (validate_workspace v) (\<lambda>_. Inr (WorkspaceId v))"

definition workspace_scope :: "WorkspaceId \<Rightarrow> string" where
  "workspace_scope w = ''workspace:'' @ ws_str w"

section \<open>Order of claim identifiers\<close>

text \<open>\<open>ClaimId\<close> derives \<open>Ord\<close>: the order of the wrapped strings.\<close>

instantiation ClaimId :: linorder
begin

definition less_eq_ClaimId :: "ClaimId \<Rightarrow> ClaimId \<Rightarrow> bool" where
  "less_eq_ClaimId a b \<longleftrightarrow> claim_str a \<le> claim_str b"

definition less_ClaimId :: "ClaimId \<Rightarrow> ClaimId \<Rightarrow> bool" where
  "less_ClaimId a b \<longleftrightarrow> claim_str a < claim_str b"

instance
  by standard (auto simp: less_eq_ClaimId_def less_ClaimId_def intro: ClaimId.expand)

end

section \<open>Derived identifiers\<close>

definition blake3_hex :: "(string \<Rightarrow> string) \<Rightarrow> bool" where
  "blake3_hex B \<longleftrightarrow> (\<forall>s. length (B s) = 64 \<and> (\<forall>c \<in> set (B s). is_lower_hex c))"

definition blake3_hash_hex :: "(string \<Rightarrow> string) \<Rightarrow> string \<Rightarrow> string" where
  "blake3_hash_hex B input = B input"

definition SOURCE_ID_HASH_LEN :: nat where
  "SOURCE_ID_HASH_LEN = 12"

text \<open>\<open>str::get(..n)\<close>: the prefix, if \<open>n\<close> is in range and on a character boundary.\<close>

definition str_get_to :: "nat \<Rightarrow> string \<Rightarrow> string option" where
  "str_get_to n s =
     (if n \<le> length s \<and> (n = length s \<or> \<not> (128 \<le> code (s ! n) \<and> code (s ! n) < 192))
      then Some (take n s) else None)"

definition source_id_from_hash :: "string \<Rightarrow> (SourceId, IdParseError) result" where
  "source_id_from_hash h =
     res_bind (ok_or (str_get_to SOURCE_ID_HASH_LEN h) (HashTooShort SOURCE_ID_HASH_LEN))
       (\<lambda>p. Inr (SourceId (''src_'' @ p)))"

definition claim_id_from_parts :: "(string \<Rightarrow> string) \<Rightarrow> SourceId \<Rightarrow> u32 \<Rightarrow> string \<Rightarrow> ClaimId" where
  "claim_id_from_parts B src line_start normalized_text =
     (let material = source_str src @ show_nat line_start @ normalized_text;
          hash = blake3_hash_hex B material
      in ClaimId (''claim_'' @ take 12 hash))"

definition conflict_id_from_pair :: "(string \<Rightarrow> string) \<Rightarrow> ClaimId \<Rightarrow> ClaimId \<Rightarrow> ConflictId" where
  "conflict_id_from_pair B a b =
     (let (left, right) =
        (if claim_str a \<le> claim_str b then (claim_str a, claim_str b)
         else (claim_str b, claim_str a));
          hash = blake3_hash_hex B (left @ right)
      in ConflictId (''conflict_'' @ take 12 hash))"

definition relation_pair_material :: "WorkspaceId \<Rightarrow> ClaimId \<Rightarrow> ClaimId \<Rightarrow> string" where
  "relation_pair_material w older newer =
     ws_str w @ [CHR 0x1F] @ claim_str older @ [CHR 0x1F] @ claim_str newer"

definition relation_pair_id ::
  "(string \<Rightarrow> string) \<Rightarrow> WorkspaceId \<Rightarrow> ClaimId \<Rightarrow> ClaimId \<Rightarrow> RelationPairId" where
  "relation_pair_id B w older newer =
     RelationPairId (''pair_'' @ take 12 (blake3_hash_hex B (relation_pair_material w older newer)))"

section \<open>Properties\<close>

lemma expect_prefix_ok: "expect_prefix v p = Inr w \<longleftrightarrow> v \<noteq> [] \<and> starts_with v p \<and> w = v"
  by (auto simp: expect_prefix_def)

lemma workspace_id_new_ok:
  "workspace_id_new v = Inr w \<longleftrightarrow>
     w = WorkspaceId v \<and> v \<noteq> [] \<and> CHR ''/'' \<notin> set v \<and> CHR 0x5C \<notin> set v \<and> CHR 0x00 \<notin> set v"
  by (auto simp: workspace_id_new_def validate_workspace_def)

lemma claim_id_from_parts_prefix:
  "starts_with (claim_str (claim_id_from_parts B s l t)) ''claim_''"
  by (simp add: claim_id_from_parts_def Let_def starts_with_def)

lemma conflict_id_from_pair_commute:
  "conflict_id_from_pair B a b = conflict_id_from_pair B b a"
  by (auto simp: conflict_id_from_pair_def Let_def)

lemma relation_pair_material_inject:
  assumes "CHR 0x1F \<notin> set (ws_str w)" and "CHR 0x1F \<notin> set (ws_str w')"
    and "CHR 0x1F \<notin> set (claim_str o1)" and "CHR 0x1F \<notin> set (claim_str o2)"
    and "relation_pair_material w o1 n1 = relation_pair_material w' o2 n2"
  shows "w = w' \<and> o1 = o2 \<and> n1 = n2"
proof -
  let ?sep = "CHR 0x1F"
  have *: "x @ ?sep # s = y @ ?sep # t \<Longrightarrow> ?sep \<notin> set x \<Longrightarrow> ?sep \<notin> set y \<Longrightarrow> x = y \<and> s = t"
    for x y s t :: string
    by (auto simp: append_eq_append_conv2 append_eq_Cons_conv Cons_eq_append_conv)
  have "ws_str w = ws_str w' \<and>
      claim_str o1 @ ?sep # claim_str n1 = claim_str o2 @ ?sep # claim_str n2"
    using assms(1,2,5) by (intro *) (simp_all add: relation_pair_material_def)
  moreover from this have "claim_str o1 = claim_str o2 \<and> claim_str n1 = claim_str n2"
    using assms(3,4) by (intro *) simp_all
  ultimately show ?thesis by (auto intro: ClaimId.expand WorkspaceId.expand)
qed

text \<open> every derived claim identifier parses back, so the projections can re-brand it. \<close>

theorem derived_claim_id_parses:
  "claim_id_try_from (claim_str (claim_id_from_parts B s l t)) = Inr (claim_id_from_parts B s l t)"
proof -
  have "claim_str (claim_id_from_parts B s l t) \<noteq> []"
    by (simp add: claim_id_from_parts_def Let_def)
  then show ?thesis
    using claim_id_from_parts_prefix [of B s l t]
    by (simp add: claim_id_try_from_def expect_prefix_def ClaimId.collapse)
qed

end
