(* ===== verification/Knowledge.thy ===== *)
theory Knowledge
  imports Topology Ids
begin

text \<open>
  \<open>src/knowledge.rs\<close> and \<open>src/knowledge/contracts.rs\<close>: the contracts of snapshot-consistent
  evidence.  Content-addressed identifiers, snapshot tokens bound to one workspace and journal, Git
  object identities, source ranges, and the closed vocabularies of evidence and coverage.
\<close>

section \<open>Contract errors and identifiers\<close>

datatype KnowledgeContractError =
    InvalidIdentifier string
  | InvalidDigest string nat
  | ReversedRange u64 u64
  | InvalidLineRange u32 u32
  | ExcerptTooLarge nat nat

datatype RepositoryId = RepositoryId (repository_str: string)
datatype SourceSnapshotId = SourceSnapshotId (snapshot_str: string)
datatype EvidenceOccurrenceId = EvidenceOccurrenceId (occurrence_str: string)
datatype CodeIndexId = CodeIndexId (code_index_str: string)

text \<open>The \<open>knowledge_id!\<close> macro: \<open>derive\<close> and \<open>parse\<close>, for each prefix.\<close>

definition knowledge_derive :: "(string \<Rightarrow> string) \<Rightarrow> string \<Rightarrow> string \<Rightarrow> string" where
  "knowledge_derive B prefix' material = prefix' @ take 24 (blake3_hash_hex B material)"

definition knowledge_parse ::
  "string \<Rightarrow> string \<Rightarrow> string \<Rightarrow> (string, KnowledgeContractError) result" where
  "knowledge_parse kind prefix' v =
     (if \<not> starts_with v prefix' \<or> length v \<le> length prefix'
         \<or> \<not> list_all (\<lambda>c. is_alnum c \<or> c = CHR ''_'' \<or> c = CHR ''-'') v
      then Inl (InvalidIdentifier kind) else Inr v)"

definition snapshot_id_derive :: "(string \<Rightarrow> string) \<Rightarrow> string \<Rightarrow> SourceSnapshotId" where
  "snapshot_id_derive B m = SourceSnapshotId (knowledge_derive B ''snapshot_'' m)"

definition snapshot_id_parse :: "string \<Rightarrow> (SourceSnapshotId, KnowledgeContractError) result" where
  "snapshot_id_parse v =
     map_sum id SourceSnapshotId (knowledge_parse ''SourceSnapshotId'' ''snapshot_'' v)"

definition evidence_id_derive :: "(string \<Rightarrow> string) \<Rightarrow> string \<Rightarrow> EvidenceOccurrenceId" where
  "evidence_id_derive B m = EvidenceOccurrenceId (knowledge_derive B ''evidence_'' m)"

definition evidence_id_parse :: "string \<Rightarrow> (EvidenceOccurrenceId, KnowledgeContractError) result" where
  "evidence_id_parse v =
     map_sum id EvidenceOccurrenceId (knowledge_parse ''EvidenceOccurrenceId'' ''evidence_'' v)"

definition code_index_id_derive :: "(string \<Rightarrow> string) \<Rightarrow> string \<Rightarrow> CodeIndexId" where
  "code_index_id_derive B m = CodeIndexId (knowledge_derive B ''code_index_'' m)"

definition repository_id_derive :: "(string \<Rightarrow> string) \<Rightarrow> string \<Rightarrow> RepositoryId" where
  "repository_id_derive B m = RepositoryId (knowledge_derive B ''repo_'' m)"

text \<open>\<open>EvidenceOccurrenceId\<close> is the key of ordered maps: it derives \<open>Ord\<close>.\<close>

instantiation EvidenceOccurrenceId :: linorder
begin

definition less_eq_EvidenceOccurrenceId where
  "less_eq_EvidenceOccurrenceId a b \<longleftrightarrow> occurrence_str a \<le> occurrence_str b"

definition less_EvidenceOccurrenceId where
  "less_EvidenceOccurrenceId a b \<longleftrightarrow> occurrence_str a < occurrence_str b"

instance
  by standard (auto simp: less_eq_EvidenceOccurrenceId_def less_EvidenceOccurrenceId_def
      intro: EvidenceOccurrenceId.expand)

end

section \<open>Digests, object identities, ranges\<close>

definition validate_lower_hex :: "string \<Rightarrow> string \<Rightarrow> nat \<Rightarrow> (unit, KnowledgeContractError) result" where
  "validate_lower_hex field v len =
     (if length v \<noteq> len \<or> \<not> list_all is_lower_hex v then Inl (InvalidDigest field len) else Inr ())"

datatype GitObjectFormat = Sha1 | Sha256

fun hex_len :: "GitObjectFormat \<Rightarrow> nat" where
  "hex_len Sha1 = 40"
| "hex_len Sha256 = 64"

record GitObjectId =
  git_format :: GitObjectFormat
  git_hex :: string

definition git_object_id_new ::
  "GitObjectFormat \<Rightarrow> string \<Rightarrow> (GitObjectId, KnowledgeContractError) result" where
  "git_object_id_new fmt hex =
     res_bind (validate_lower_hex ''git object id'' hex (hex_len fmt))
       (\<lambda>_. Inr \<lparr>git_format = fmt, git_hex = hex\<rparr>)"

record ByteRange =
  br_start :: u64
  br_end :: u64

record LineRange =
  lr_start :: u32
  lr_end :: u32

definition line_range_new :: "u32 \<Rightarrow> u32 \<Rightarrow> (LineRange, KnowledgeContractError) result" where
  "line_range_new s e =
     (if s = 0 \<or> e = 0 \<or> s > e then Inl (InvalidLineRange s e)
      else Inr \<lparr>lr_start = s, lr_end = e\<rparr>)"

definition byte_range_new :: "u64 \<Rightarrow> u64 \<Rightarrow> (ByteRange, KnowledgeContractError) result" where
  "byte_range_new s e =
     (if s > e then Inl (ReversedRange s e) else Inr \<lparr>br_start = s, br_end = e\<rparr>)"

definition empty_byte_range :: ByteRange where
  "empty_byte_range = \<lparr>br_start = 0, br_end = 0\<rparr>"

definition first_line_range :: LineRange where
  "first_line_range = \<lparr>lr_start = 1, lr_end = 1\<rparr>"

section \<open>Closed vocabularies\<close>

datatype TemporalRelation = Same | Before | After | Concurrent | Unknown

datatype AnalysisQuality = Precise | Syntactic | Lexical | Unavailable

datatype AnswerState = Supported | Contradicted | Stale | Unverified | Incomparable

datatype TriangulationTarget =
    TargetClaim string
  | TargetPath string "u32 option" "u32 option"
  | TargetSymbol string

datatype UncertaintyReason =
    SourceSnapshotUnavailable | PartialCoverage | SettlementIncomplete | CodeIndexUnavailable
  | ConcurrentRevision | ExactEvidenceUnavailable

datatype EvidenceSourceKind = SkMarkdown | SkGitBlob | SkWorktreeOverlay | SkScip | SkSyntax | SkLexical

datatype EvidenceStance = Supports | Contradicts | Mentions

datatype EvidenceLinkMethod = Deterministic | SemanticPolicy

datatype CodeIndexFormat = FmtScip | FmtSyntax | FmtLexical

datatype CodeOccurrenceRole =
    Definition | Reference | Import | Write | Read | Generated | TestRole | ForwardDefinition
  | Implementation

datatype CoverageGapKind =
    GapSourceSnapshotUnavailable | GapCodeIndexUnavailable | BudgetExceeded | ShallowHistory
  | MissingObject | Gitlink | Symlink | LfsPointer | UnsupportedEncoding | SourceTooLarge
  | UnsupportedLanguage | WorktreeConflict | AnalysisIncomplete | OutOfScope

text \<open>\<open>AnalysisQuality\<close> derives \<open>Ord\<close> in constructor order: smaller is more precise.\<close>

fun quality_rank :: "AnalysisQuality \<Rightarrow> nat" where
  "quality_rank Precise = 0"
| "quality_rank Syntactic = 1"
| "quality_rank Lexical = 2"
| "quality_rank Unavailable = 3"

lemma quality_rank_inject: "quality_rank a = quality_rank b \<longleftrightarrow> a = b"
  by (cases a; cases b) auto

instantiation AnalysisQuality :: linorder
begin

definition less_eq_AnalysisQuality where
  "less_eq_AnalysisQuality a b \<longleftrightarrow> quality_rank a \<le> quality_rank b"

definition less_AnalysisQuality where
  "less_AnalysisQuality a b \<longleftrightarrow> quality_rank a < quality_rank b"

instance
  by standard (auto simp: less_eq_AnalysisQuality_def less_AnalysisQuality_def
      simp flip: quality_rank_inject)

end

section \<open>Coverage and evidence records\<close>

record CoverageGap =
  gap_path :: "string option"
  gap_kind :: CoverageGapKind

record KnowledgeCoverage =
  cov_analysis_quality :: AnalysisQuality
  cov_sources_examined :: u64
  cov_occurrences :: u64
  cov_truncated :: bool
  cov_gaps :: "CoverageGap list"

record CodeOccurrence =
  co_symbol :: string
  co_display_name :: string
  co_roles :: "CodeOccurrenceRole list"
  co_path :: string
  co_byte_range :: ByteRange
  co_line_range :: LineRange
  co_source_digest_hex :: string
  co_excerpt :: string
  co_context :: string
  co_context_byte_range :: ByteRange
  co_context_line_range :: LineRange
  co_analyzer_fingerprint :: string
  co_analysis_quality :: AnalysisQuality

record CodeIndexArtifact =
  art_schema :: string
  art_snapshot_id :: SourceSnapshotId
  art_index_id :: CodeIndexId
  art_format :: CodeIndexFormat
  art_analyzer_fingerprint :: string
  art_occurrences :: "CodeOccurrence list"
  art_coverage :: KnowledgeCoverage

record EvidenceOccurrence =
  occ_occurrence_id :: EvidenceOccurrenceId
  occ_snapshot_id :: SourceSnapshotId
  occ_source_kind :: EvidenceSourceKind
  occ_path :: string
  occ_byte_range :: ByteRange
  occ_line_range :: LineRange
  occ_git_blob :: "GitObjectId option"
  occ_source_digest_hex :: string
  occ_excerpt :: string
  occ_analyzer_fingerprint :: string
  occ_analysis_quality :: AnalysisQuality

record ReconciliationProvenance =
  rp_score_ppm :: u32
  rp_judge_fingerprint :: string
  rp_cache_key_hex :: string
  rp_policy_version :: string
  rp_observed_at_ms :: u64
  rp_acceptance_sequence :: u64

record ClaimEvidence =
  ce_claim_id :: string
  ce_occurrence :: EvidenceOccurrence
  ce_stance :: EvidenceStance
  ce_method :: EvidenceLinkMethod
  ce_occurrence_sequence :: u64
  ce_link_sequence :: u64
  ce_reconciliation :: "ReconciliationProvenance option"

definition MAX_EVIDENCE_EXCERPT_BYTES :: nat where
  "MAX_EVIDENCE_EXCERPT_BYTES = 4 * 1024"

definition occurrence_validate :: "EvidenceOccurrence \<Rightarrow> (unit, KnowledgeContractError) result" where
  "occurrence_validate o' =
     res_bind (validate_lower_hex ''source digest'' (occ_source_digest_hex o') 64) (\<lambda>_.
       let actual = length (occ_excerpt o')
       in if actual > MAX_EVIDENCE_EXCERPT_BYTES
          then Inl (ExcerptTooLarge actual MAX_EVIDENCE_EXCERPT_BYTES) else Inr ())"

section \<open>Snapshot tokens\<close>

record SnapshotDescriptor =
  sd_workspace_id :: WorkspaceId
  sd_journal_id :: JournalId
  sd_frontier :: u64
  sd_anchor_event_id_hex :: string
  sd_source_snapshot_id :: "SourceSnapshotId option"

datatype SnapshotToken = SnapshotToken (token_str: string)

record SnapshotRead =
  sr_token :: SnapshotToken
  sr_descriptor :: SnapshotDescriptor

abbreviation US :: char where
  "US \<equiv> CHR 0x1F"

definition token_material :: "WorkspaceId \<Rightarrow> JournalId \<Rightarrow> u64 \<Rightarrow> string \<Rightarrow> string \<Rightarrow> string" where
  "token_material w j frontier anchor source =
     ''texo.snapshot-token.v2'' @ [US] @ ws_str w @ [US] @ journal_str j @ [US] @ show_nat frontier
       @ [US] @ anchor @ [US] @ source"

definition snapshot_token_digest ::
  "(string \<Rightarrow> string) \<Rightarrow> WorkspaceId \<Rightarrow> JournalId \<Rightarrow> u64 \<Rightarrow> string \<Rightarrow> string \<Rightarrow> string" where
  "snapshot_token_digest B w j frontier anchor source =
     blake3_hash_hex B (token_material w j frontier anchor source)"

definition descriptor_source :: "SnapshotDescriptor \<Rightarrow> string" where
  "descriptor_source d =
     (case sd_source_snapshot_id d of None \<Rightarrow> ''none'' | Some s \<Rightarrow> snapshot_str s)"

definition descriptor_anchor :: "SnapshotDescriptor \<Rightarrow> string" where
  "descriptor_anchor d =
     (if sd_anchor_event_id_hex d = [] then ''-'' else sd_anchor_event_id_hex d)"

definition token_for_descriptor :: "(string \<Rightarrow> string) \<Rightarrow> SnapshotDescriptor \<Rightarrow> SnapshotToken" where
  "token_for_descriptor B d =
     (let source = descriptor_source d;
          anchor = descriptor_anchor d;
          digest = snapshot_token_digest B (sd_workspace_id d) (sd_journal_id d) (sd_frontier d) anchor source
      in SnapshotToken (''texo_snap_v2'' @ ''.'' @ show_nat (sd_frontier d) @ ''.'' @ anchor @ ''.''
           @ source @ ''.'' @ take 32 digest))"

definition snapshot_read_new :: "(string \<Rightarrow> string) \<Rightarrow> SnapshotDescriptor \<Rightarrow> SnapshotRead" where
  "snapshot_read_new B d = \<lparr>sr_token = token_for_descriptor B d, sr_descriptor = d\<rparr>"

text \<open>\<open>Iterator::next\<close> on the fields of the token.\<close>

definition next_field :: "string list \<Rightarrow> (string \<times> string list, KnowledgeContractError) result" where
  "next_field fs = (case fs of [] \<Rightarrow> Inl (InvalidIdentifier ''SnapshotToken'') | f # r \<Rightarrow> Inr (f, r))"

definition resolve_for_journal ::
  "(string \<Rightarrow> string) \<Rightarrow> string \<Rightarrow> WorkspaceId \<Rightarrow> JournalId
    \<Rightarrow> (SnapshotDescriptor, KnowledgeContractError) result" where
  "resolve_for_journal B v w j =
     (let invalid = InvalidIdentifier ''SnapshotToken'' in
      res_bind (next_field (split_on (CHR ''.'') v)) (\<lambda>(version, fs).
      if version \<noteq> ''texo_snap_v2'' then Inl invalid else
      res_bind (next_field fs) (\<lambda>(frontier_text, fs).
      res_bind (ok_or (parse_u64 frontier_text) invalid) (\<lambda>frontier.
      res_bind (next_field fs) (\<lambda>(anchor, fs).
      res_bind (if anchor \<noteq> ''-'' then validate_lower_hex ''snapshot anchor'' anchor 32 else Inr ()) (\<lambda>_.
      res_bind (next_field fs) (\<lambda>(source, fs).
      res_bind (next_field fs) (\<lambda>(checksum, fs).
      if fs \<noteq> [] then Inl invalid else
      res_bind (validate_lower_hex ''snapshot token checksum'' checksum 32) (\<lambda>_.
      let expected = snapshot_token_digest B w j frontier anchor source in
      if checksum \<noteq> take 32 expected then Inl invalid else
      res_bind (if source = ''none'' then Inr None else map_sum id Some (snapshot_id_parse source)) (\<lambda>sid.
      Inr \<lparr>sd_workspace_id = w, sd_journal_id = j, sd_frontier = frontier,
           sd_anchor_event_id_hex = (if anchor = ''-'' then [] else anchor),
           sd_source_snapshot_id = sid\<rparr>))))))))))"

section \<open>Properties of the identifiers and ranges\<close>

lemma knowledge_parse_ok:
  "knowledge_parse k p v = Inr w \<longleftrightarrow>
     w = v \<and> starts_with v p \<and> length p < length v
     \<and> list_all (\<lambda>c. is_alnum c \<or> c = CHR ''_'' \<or> c = CHR ''-'') v"
  by (auto simp: knowledge_parse_def)

lemma lower_hex_alnum: "is_lower_hex c \<Longrightarrow> is_alnum c"
  by (auto simp: is_lower_hex_def is_alnum_def is_lower_def)

lemma blake3_hex_take: "blake3_hex B \<Longrightarrow> list_all is_lower_hex (take n (B s))"
  by (auto simp: blake3_hex_def list_all_iff dest: in_set_takeD)

lemma blake3_hex_length: "blake3_hex B \<Longrightarrow> n \<le> 64 \<Longrightarrow> length (take n (B s)) = n"
  by (simp add: blake3_hex_def)

lemma list_all_alnum_hash:
  "blake3_hex B \<Longrightarrow> list_all (\<lambda>c. is_alnum c \<or> c = CHR ''_'' \<or> c = CHR ''-'') (take n (B s))"
  using blake3_hex_take [of B n s] by (auto simp: list_all_iff intro: lower_hex_alnum)

text \<open> every derived snapshot identifier is accepted by its own parser. \<close>

theorem snapshot_id_roundtrip:
  assumes "blake3_hex B"
  shows "snapshot_id_parse (snapshot_str (snapshot_id_derive B m)) = Inr (snapshot_id_derive B m)"
proof -
  have "list_all (\<lambda>c. is_alnum c \<or> c = CHR ''_'' \<or> c = CHR ''-'') ''snapshot_''"
    by code_simp
  then have "knowledge_parse ''SourceSnapshotId'' ''snapshot_'' (''snapshot_'' @ take 24 (B m))
      = Inr (''snapshot_'' @ take 24 (B m))"
    using blake3_hex_length [OF assms, of 24 m] list_all_alnum_hash [OF assms]
    by (simp add: knowledge_parse_ok starts_with_def)
  then show ?thesis
    by (simp add: snapshot_id_parse_def snapshot_id_derive_def knowledge_derive_def blake3_hash_hex_def)
qed

definition zero_hash :: "string \<Rightarrow> string" where
  "zero_hash s = replicate 64 (CHR ''0'')"

lemma blake3_hex_zero_hash: "blake3_hex zero_hash"
  by (simp add: blake3_hex_def zero_hash_def is_lower_hex_def is_digit_def code_def)

theorem snapshot_id_roundtrip_witness:
  "snapshot_id_parse (snapshot_str (snapshot_id_derive zero_hash ''left''))
     = Inr (snapshot_id_derive zero_hash ''left'')"
  by (rule snapshot_id_roundtrip) (rule blake3_hex_zero_hash)

end
