(* ===== verification/Tokens.thy ===== *)
theory Tokens
  imports Knowledge
begin

text \<open>
  Snapshot tokens of \<open>src/knowledge.rs\<close>: a token resolves to the descriptor it was made from,
  and a token accepted under another workspace or journal is a collision of the truncated digest.
\<close>

section \<open>Well-formed descriptors\<close>

definition descriptor_ok :: "SnapshotDescriptor \<Rightarrow> bool" where
  "descriptor_ok d \<longleftrightarrow>
     sd_frontier d \<le> u64_max
     \<and> (sd_anchor_event_id_hex d = []
        \<or> length (sd_anchor_event_id_hex d) = 32 \<and> list_all is_lower_hex (sd_anchor_event_id_hex d))
     \<and> (case sd_source_snapshot_id d of None \<Rightarrow> True
        | Some s \<Rightarrow> snapshot_id_parse (snapshot_str s) = Inr s)"

lemma no_dot_alnum: "list_all (\<lambda>c. is_alnum c \<or> c = CHR ''_'' \<or> c = CHR ''-'') s \<Longrightarrow> CHR ''.'' \<notin> set s"
  by (auto simp: list_all_iff is_alnum_def is_digit_def is_lower_def is_upper_def code_def)

lemma no_dot_hex: "list_all is_lower_hex s \<Longrightarrow> CHR ''.'' \<notin> set s"
  by (auto simp: list_all_iff is_lower_hex_def is_digit_def code_def)

lemma no_dot_show: "CHR ''.'' \<notin> set (show_nat n)"
  by (auto simp: is_digit_def code_def dest: show_nat_digits)

lemma no_dot_lit: "CHR ''.'' \<notin> set ''texo_snap_v2''" "CHR ''.'' \<notin> set ''none''" "CHR ''.'' \<notin> set ''-''"
  by simp_all

lemma snapshot_id_parse_ok:
  "snapshot_id_parse v = Inr s \<longleftrightarrow>
     s = SourceSnapshotId v \<and> starts_with v ''snapshot_'' \<and> length ''snapshot_'' < length v
     \<and> list_all (\<lambda>c. is_alnum c \<or> c = CHR ''_'' \<or> c = CHR ''-'') v"
  by (cases "knowledge_parse ''SourceSnapshotId'' ''snapshot_'' v")
    (auto simp: snapshot_id_parse_def knowledge_parse_ok, auto simp: knowledge_parse_def split: if_splits)

lemma descriptor_source_no_dot: "descriptor_ok d \<Longrightarrow> CHR ''.'' \<notin> set (descriptor_source d)"
  by (auto simp: descriptor_ok_def descriptor_source_def snapshot_id_parse_ok
      dest: no_dot_alnum split: option.splits)

lemma descriptor_anchor_no_dot: "descriptor_ok d \<Longrightarrow> CHR ''.'' \<notin> set (descriptor_anchor d)"
  by (auto simp: descriptor_ok_def descriptor_anchor_def dest: no_dot_hex)

lemma split_token:
  assumes B: "blake3_hex B" and d: "descriptor_ok d"
  shows "split_on (CHR ''.'') (token_str (token_for_descriptor B d)) =
    [''texo_snap_v2'', show_nat (sd_frontier d), descriptor_anchor d, descriptor_source d,
     take 32 (snapshot_token_digest B (sd_workspace_id d) (sd_journal_id d) (sd_frontier d)
       (descriptor_anchor d) (descriptor_source d))]"
proof -
  have "CHR ''.'' \<notin> set (take 32 (snapshot_token_digest B (sd_workspace_id d) (sd_journal_id d)
      (sd_frontier d) (descriptor_anchor d) (descriptor_source d)))"
    unfolding snapshot_token_digest_def blake3_hash_hex_def
    by (rule no_dot_hex) (rule blake3_hex_take [OF B])
  then show ?thesis
    using descriptor_source_no_dot [OF d] descriptor_anchor_no_dot [OF d] no_dot_show [of "sd_frontier d"]
    by (simp add: token_for_descriptor_def Let_def split_on_append split_on_no_delim)
qed

lemma anchor_field_valid:
  "descriptor_ok d \<Longrightarrow> (if descriptor_anchor d \<noteq> ''-''
     then validate_lower_hex ''snapshot anchor'' (descriptor_anchor d) 32 else Inr ()) = Inr ()"
  by (auto simp: descriptor_ok_def descriptor_anchor_def validate_lower_hex_def)

lemma anchor_field_restored:
  "descriptor_ok d \<Longrightarrow> (if descriptor_anchor d = ''-'' then [] else descriptor_anchor d)
     = sd_anchor_event_id_hex d"
  by (auto simp: descriptor_ok_def descriptor_anchor_def)

lemma snapshot_id_not_none: "snapshot_id_parse v = Inr s \<Longrightarrow> v \<noteq> ''none''"
  by (auto simp: snapshot_id_parse_ok starts_with_def)

lemma source_field_restored:
  "descriptor_ok d \<Longrightarrow> (if descriptor_source d = ''none'' then Inr None
     else map_sum id Some (snapshot_id_parse (descriptor_source d))) = Inr (sd_source_snapshot_id d)"
  by (auto simp: descriptor_ok_def descriptor_source_def dest: snapshot_id_not_none split: option.splits)

lemma checksum_valid:
  "blake3_hex B \<Longrightarrow> validate_lower_hex f (take 32 (snapshot_token_digest B w j n a s)) 32 = Inr ()"
  using blake3_hex_take [of B 32 "token_material w j n a s"]
    blake3_hex_length [of B 32 "token_material w j n a s"]
  by (simp add: snapshot_token_digest_def blake3_hash_hex_def validate_lower_hex_def)

lemma resolve_token:
  assumes B: "blake3_hex B" and d: "descriptor_ok d"
  shows "resolve_for_journal B (token_str (token_for_descriptor B d)) w j =
    (if take 32 (snapshot_token_digest B (sd_workspace_id d) (sd_journal_id d) (sd_frontier d)
           (descriptor_anchor d) (descriptor_source d))
        = take 32 (snapshot_token_digest B w j (sd_frontier d) (descriptor_anchor d) (descriptor_source d))
     then Inr (d\<lparr>sd_workspace_id := w, sd_journal_id := j\<rparr>)
     else Inl (InvalidIdentifier ''SnapshotToken''))"
proof -
  have n: "parse_u64 (show_nat (sd_frontier d)) = Some (sd_frontier d)"
    using d by (simp add: descriptor_ok_def parse_u64_show)
  show ?thesis
    unfolding resolve_for_journal_def split_token [OF B d]
    by (simp only: next_field_def list.case res_bind_Inr case_prod_conv n ok_or_simps Let_def
        anchor_field_valid [OF d] anchor_field_restored [OF d] source_field_restored [OF d]
        checksum_valid [OF B]) simp
qed

text \<open>
  C11: a snapshot token resolves, under the workspace and journal it was issued for, to exactly the
  descriptor it was made from.
\<close>

theorem token_roundtrip:
  assumes "blake3_hex B" and "descriptor_ok d"
  shows "resolve_for_journal B (token_str (token_for_descriptor B d)) (sd_workspace_id d) (sd_journal_id d)
    = Inr d"
  using assms by (simp add: resolve_token)

definition demo_descriptor :: SnapshotDescriptor where
  "demo_descriptor =
     \<lparr>sd_workspace_id = WorkspaceId ''demo'', sd_journal_id = JournalId ''canonical'', sd_frontier = 42,
      sd_anchor_event_id_hex = hex_pad 32 7, sd_source_snapshot_id = Some (SourceSnapshotId ''snapshot_ab'')\<rparr>"

lemma demo_descriptor_ok: "descriptor_ok demo_descriptor"
proof -
  have "snapshot_id_parse ''snapshot_ab'' = Inr (SourceSnapshotId ''snapshot_ab'')" by code_simp
  then show ?thesis
    by (simp add: descriptor_ok_def demo_descriptor_def u64_max_def list_all_iff hex_pad_lower_hex
        del: hex_pad.simps)
qed

theorem token_roundtrip_witness:
  "resolve_for_journal zero_hash (token_str (token_for_descriptor zero_hash demo_descriptor))
     (sd_workspace_id demo_descriptor) (sd_journal_id demo_descriptor) = Inr demo_descriptor"
  by (rule token_roundtrip [OF blake3_hex_zero_hash demo_descriptor_ok])

lemma token_material_inject:
  assumes "US \<notin> set (ws_str w)" and "US \<notin> set (ws_str w')"
    and "US \<notin> set (journal_str j)" and "US \<notin> set (journal_str j')"
    and "token_material w j n a s = token_material w' j' n a s"
  shows "w = w' \<and> j = j'"
proof -
  have *: "x @ US # y = x' @ US # y' \<Longrightarrow> US \<notin> set x \<Longrightarrow> US \<notin> set x' \<Longrightarrow> x = x' \<and> y = y'"
    for x y x' y' :: string
    by (auto simp: append_eq_append_conv2 append_eq_Cons_conv Cons_eq_append_conv)
  have "ws_str w = ws_str w' \<and>
      journal_str j @ US # show_nat n @ US # a @ US # s = journal_str j' @ US # show_nat n @ US # a @ US # s"
    using assms(1,2,5) by (intro *) (simp_all add: token_material_def)
  then show ?thesis by (auto intro: WorkspaceId.expand JournalId.expand)
qed

text \<open>
  a token is bound to its workspace and journal.  If it is accepted under another workspace or
  journal, the digests of two different strings agree in their first 128 bits.
\<close>

theorem token_bound_to_journal:
  assumes B: "blake3_hex B" and d: "descriptor_ok d"
    and acc: "resolve_for_journal B (token_str (token_for_descriptor B d)) w j = Inr d'"
    and other: "w \<noteq> sd_workspace_id d \<or> j \<noteq> sd_journal_id d"
    and sep: "US \<notin> set (ws_str w)" "US \<notin> set (ws_str (sd_workspace_id d))"
      "US \<notin> set (journal_str j)" "US \<notin> set (journal_str (sd_journal_id d))"
  shows "\<exists>x y. x \<noteq> y \<and> take 32 (B x) = take 32 (B y)"
proof -
  let ?m = "token_material (sd_workspace_id d) (sd_journal_id d) (sd_frontier d) (descriptor_anchor d)
    (descriptor_source d)"
  let ?m' = "token_material w j (sd_frontier d) (descriptor_anchor d) (descriptor_source d)"
  have "take 32 (B ?m) = take 32 (B ?m')"
    using acc by (simp add: resolve_token [OF B d] snapshot_token_digest_def blake3_hash_hex_def
        split: if_splits)
  moreover have "?m \<noteq> ?m'"
    using other sep token_material_inject by blast
  ultimately show ?thesis by blast
qed

theorem token_bound_to_journal_witness:
  "\<exists>x y. x \<noteq> y \<and> take 32 (zero_hash x) = take 32 (zero_hash y)"
proof (rule token_bound_to_journal [OF blake3_hex_zero_hash demo_descriptor_ok])
  show "resolve_for_journal zero_hash (token_str (token_for_descriptor zero_hash demo_descriptor))
      (WorkspaceId ''demo'') (JournalId ''codex'')
    = Inr (demo_descriptor\<lparr>sd_workspace_id := WorkspaceId ''demo'', sd_journal_id := JournalId ''codex''\<rparr>)"
    by (simp add: resolve_token [OF blake3_hex_zero_hash demo_descriptor_ok] snapshot_token_digest_def
        blake3_hash_hex_def zero_hash_def)
qed (simp_all add: demo_descriptor_def)

end
