(* ===== verification/Coordinates.thy ===== *)
theory Coordinates
  imports Ids
begin

unbundle bit_operations_syntax

text \<open>
  \<open>src/events/coordinate.rs\<close>: the BatPak coordinates of the entity streams.  A coordinate is an
  entity string in a workspace scope; \<open>Coordinate::new\<close> and its validation are BatPak code, the
  parameter \<open>mk\<close>.
\<close>

section \<open>Scopes and entities\<close>

definition scope_for_workspace :: "string \<Rightarrow> string" where
  "scope_for_workspace w = ''workspace:'' @ w"

definition entity_for_claim :: "string \<Rightarrow> string" where
  "entity_for_claim i = ''claim:'' @ i"

definition entity_for_conflict :: "string \<Rightarrow> string" where
  "entity_for_conflict i = ''conflict:'' @ i"

definition entity_for_source :: "string \<Rightarrow> string" where
  "entity_for_source i = ''source:'' @ i"

definition entity_for_onboarding_projection :: string where
  "entity_for_onboarding_projection = ''projection:onboarding''"

definition entity_for_workspace_meta :: "string \<Rightarrow> string" where
  "entity_for_workspace_meta w = ''workspace-meta:'' @ w"

definition entity_for_session :: "string \<Rightarrow> string" where
  "entity_for_session i = ''session:'' @ i"

definition entity_for_relation_pair :: "string \<Rightarrow> string" where
  "entity_for_relation_pair i = ''relation:'' @ i"

definition entity_for_relation_campaign :: "string \<Rightarrow> string" where
  "entity_for_relation_campaign w = ''relation-campaign:'' @ w"

definition entity_for_source_snapshot :: "string \<Rightarrow> string" where
  "entity_for_source_snapshot i = ''source-snapshot:'' @ i"

definition entity_for_evidence :: "string \<Rightarrow> string" where
  "entity_for_evidence i = ''evidence:'' @ i"

definition entity_for_code_index :: "string \<Rightarrow> string" where
  "entity_for_code_index i = ''code-index:'' @ i"

definition entity_for_source_relation :: "string \<Rightarrow> string \<Rightarrow> string" where
  "entity_for_source_relation l r = ''source-relation:'' @ l @ '':'' @ r"

lemmas entity_defs =
  entity_for_claim_def entity_for_conflict_def entity_for_source_def
  entity_for_onboarding_projection_def entity_for_workspace_meta_def entity_for_session_def
  entity_for_relation_pair_def entity_for_relation_campaign_def entity_for_source_snapshot_def
  entity_for_evidence_def entity_for_code_index_def entity_for_source_relation_def

section \<open>Coordinate builders\<close>

type_synonym ('c, 'e) coord_new = "string \<Rightarrow> string \<Rightarrow> ('c, 'e) result"

definition coordinate_for_claim :: "('c, 'e) coord_new \<Rightarrow> string \<Rightarrow> string \<Rightarrow> ('c, 'e) result" where
  "coordinate_for_claim mk w i = mk (entity_for_claim i) (scope_for_workspace w)"

definition coordinate_for_conflict :: "('c, 'e) coord_new \<Rightarrow> string \<Rightarrow> string \<Rightarrow> ('c, 'e) result" where
  "coordinate_for_conflict mk w i = mk (entity_for_conflict i) (scope_for_workspace w)"

definition coordinate_for_source :: "('c, 'e) coord_new \<Rightarrow> string \<Rightarrow> string \<Rightarrow> ('c, 'e) result" where
  "coordinate_for_source mk w i = mk (entity_for_source i) (scope_for_workspace w)"

definition coordinate_for_onboarding_projection ::
  "('c, 'e) coord_new \<Rightarrow> string \<Rightarrow> ('c, 'e) result" where
  "coordinate_for_onboarding_projection mk w =
     mk entity_for_onboarding_projection (scope_for_workspace w)"

definition coordinate_for_workspace_meta :: "('c, 'e) coord_new \<Rightarrow> string \<Rightarrow> ('c, 'e) result" where
  "coordinate_for_workspace_meta mk w = mk (entity_for_workspace_meta w) (scope_for_workspace w)"

definition coordinate_for_session :: "('c, 'e) coord_new \<Rightarrow> string \<Rightarrow> string \<Rightarrow> ('c, 'e) result" where
  "coordinate_for_session mk w i = mk (entity_for_session i) (scope_for_workspace w)"

definition coordinate_for_relation_pair ::
  "('c, 'e) coord_new \<Rightarrow> string \<Rightarrow> string \<Rightarrow> ('c, 'e) result" where
  "coordinate_for_relation_pair mk w i = mk (entity_for_relation_pair i) (scope_for_workspace w)"

definition coordinate_for_relation_campaign ::
  "('c, 'e) coord_new \<Rightarrow> string \<Rightarrow> ('c, 'e) result" where
  "coordinate_for_relation_campaign mk w =
     mk (entity_for_relation_campaign w) (scope_for_workspace w)"

definition coordinate_for_source_snapshot ::
  "('c, 'e) coord_new \<Rightarrow> string \<Rightarrow> string \<Rightarrow> ('c, 'e) result" where
  "coordinate_for_source_snapshot mk w i =
     mk (entity_for_source_snapshot i) (scope_for_workspace w)"

definition coordinate_for_evidence :: "('c, 'e) coord_new \<Rightarrow> string \<Rightarrow> string \<Rightarrow> ('c, 'e) result" where
  "coordinate_for_evidence mk w i = mk (entity_for_evidence i) (scope_for_workspace w)"

definition coordinate_for_code_index ::
  "('c, 'e) coord_new \<Rightarrow> string \<Rightarrow> string \<Rightarrow> ('c, 'e) result" where
  "coordinate_for_code_index mk w i = mk (entity_for_code_index i) (scope_for_workspace w)"

definition coordinate_for_source_relation ::
  "('c, 'e) coord_new \<Rightarrow> string \<Rightarrow> string \<Rightarrow> string \<Rightarrow> ('c, 'e) result" where
  "coordinate_for_source_relation mk w l r =
     mk (entity_for_source_relation l r) (scope_for_workspace w)"

lemmas coordinate_defs =
  coordinate_for_claim_def coordinate_for_conflict_def coordinate_for_source_def
  coordinate_for_onboarding_projection_def coordinate_for_workspace_meta_def
  coordinate_for_session_def coordinate_for_relation_pair_def
  coordinate_for_relation_campaign_def coordinate_for_source_snapshot_def
  coordinate_for_evidence_def coordinate_for_code_index_def coordinate_for_source_relation_def

section \<open>Session lanes\<close>

definition from_be_bytes32 :: "8 word \<Rightarrow> 8 word \<Rightarrow> 8 word \<Rightarrow> 8 word \<Rightarrow> 32 word" where
  "from_be_bytes32 b0 b1 b2 b3 =
     push_bit 24 (ucast b0) OR push_bit 16 (ucast b1) OR push_bit 8 (ucast b2) OR ucast b3"

text \<open>\<open>H\<close> is the raw 32-byte BLAKE3 digest; its first four bytes make the lane.\<close>

definition session_lane :: "(string \<Rightarrow> 8 word list) \<Rightarrow> string \<Rightarrow> 32 word" where
  "session_lane H session_id =
     (let bytes = H session_id
      in from_be_bytes32 (bytes ! 0) (bytes ! 1) (bytes ! 2) (bytes ! 3) OR 1)"

lemma session_lane_odd: "bit (session_lane H s) 0"
  by (simp add: session_lane_def Let_def bit_or_iff)

text \<open>
  a session lane is never lane 0, so session turns stay out of the default lane that the
  claim projections read.
\<close>

theorem session_lane_nonzero: "session_lane H s \<noteq> 0"
  using session_lane_odd [of H s] by auto

end
