(* ===== verification/Machines.thy ===== *)
theory Machines
  imports Coordinates
begin

text \<open>
  \<open>src/events/machines.rs\<close>: the claim and conflict state machines, the transition records kept
  in the payloads and their deterministic identifiers.  The zero-sized phase markers of the source
  become the constructors of \<open>ClaimPhase\<close> and \<open>ConflictPhase\<close>; BatPak's
  \<open>Transition<From, To, P>\<close> becomes a record that carries both ends of the edge.
\<close>

section \<open>Phases and edges\<close>

datatype ClaimPhase = Unrecorded | Current | Superseded

datatype ConflictPhase = Unopened | Open | Resolved | Ignored

fun claim_phase_code :: "ClaimPhase \<Rightarrow> u64" where
  "claim_phase_code Unrecorded = 0"
| "claim_phase_code Current = 1"
| "claim_phase_code Superseded = 2"

fun conflict_phase_code :: "ConflictPhase \<Rightarrow> u64" where
  "conflict_phase_code Unopened = 0"
| "conflict_phase_code Open = 1"
| "conflict_phase_code Resolved = 2"
| "conflict_phase_code Ignored = 3"

definition CLAIM_MACHINE :: string where
  "CLAIM_MACHINE = ''texo.claim.v2''"

definition CLAIM_EDGES :: "(u64 \<times> u64) list" where
  "CLAIM_EDGES = [(0, 1), (1, 2)]"

definition CONFLICT_MACHINE :: string where
  "CONFLICT_MACHINE = ''texo.conflict.v2''"

definition CONFLICT_EDGES :: "(u64 \<times> u64) list" where
  "CONFLICT_EDGES = [(0, 1), (1, 2), (1, 3)]"

record ('s, 'p) transition =
  tr_from :: 's
  tr_to :: 's
  tr_payload :: 'p

definition record_claim :: "'p \<Rightarrow> (ClaimPhase, 'p) transition" where
  "record_claim p = \<lparr>tr_from = Unrecorded, tr_to = Current, tr_payload = p\<rparr>"

definition supersede_claim :: "'p \<Rightarrow> (ClaimPhase, 'p) transition" where
  "supersede_claim p = \<lparr>tr_from = Current, tr_to = Superseded, tr_payload = p\<rparr>"

definition open_conflict :: "'p \<Rightarrow> (ConflictPhase, 'p) transition" where
  "open_conflict p = \<lparr>tr_from = Unopened, tr_to = Open, tr_payload = p\<rparr>"

definition resolve_conflict :: "'p \<Rightarrow> (ConflictPhase, 'p) transition" where
  "resolve_conflict p = \<lparr>tr_from = Open, tr_to = Resolved, tr_payload = p\<rparr>"

definition ignore_conflict :: "'p \<Rightarrow> (ConflictPhase, 'p) transition" where
  "ignore_conflict p = \<lparr>tr_from = Open, tr_to = Ignored, tr_payload = p\<rparr>"

section \<open>Transition records\<close>

record TransitionCauseV1 =
  cause_lane :: u32
  cause_key :: string

record TransitionRecordV1 =
  tr_schema_version :: u32
  tr_machine :: string
  tr_previous_state :: u64
  tr_next_state :: u64
  tr_transition_id_hex :: string
  tr_causes :: "TransitionCauseV1 list"

text \<open>\<open>u64::to_be_bytes\<close>: eight bytes, the most significant first.\<close>

fun be_bytes :: "nat \<Rightarrow> u64 \<Rightarrow> string" where
  "be_bytes 0 n = []"
| "be_bytes (Suc w) n = be_bytes w (n div 256) @ [char_of (n mod 256)]"

text \<open>
  \<open>blake3::Hasher::update\<close> absorbs its arguments one after another, so the digest is the hash
  of their concatenation (the documented behaviour of the incremental hasher).
\<close>

definition transition_id ::
  "(string \<Rightarrow> string) \<Rightarrow> string \<Rightarrow> string \<Rightarrow> u64 \<Rightarrow> u64 \<Rightarrow> TransitionCauseV1 list \<Rightarrow> u64 \<Rightarrow> string" where
  "transition_id B machine entity previous_state next_state causes observed_at_ms =
     (let cause_keys = sort (map cause_key causes)
      in B (machine @ entity @ be_bytes 8 previous_state @ be_bytes 8 next_state
            @ concat cause_keys @ be_bytes 8 observed_at_ms))"

definition transition_record ::
  "(string \<Rightarrow> string) \<Rightarrow> string \<Rightarrow> string \<Rightarrow> u64 \<Rightarrow> u64 \<Rightarrow> TransitionCauseV1 list \<Rightarrow> u64
    \<Rightarrow> TransitionRecordV1" where
  "transition_record B machine entity previous_state next_state causes observed_at_ms =
     \<lparr>tr_schema_version = 1, tr_machine = machine, tr_previous_state = previous_state,
      tr_next_state = next_state,
      tr_transition_id_hex =
        transition_id B machine entity previous_state next_state causes observed_at_ms,
      tr_causes = causes\<rparr>"

section \<open>The machines as step relations\<close>

text \<open>
  A machine is its list of edges over state codes.  \<open>edge_path\<close> follows a list of states along
  the edges; what every machine shares is proved once in the locale.
\<close>

fun edge_path :: "(u64 \<times> u64) list \<Rightarrow> u64 \<Rightarrow> u64 list \<Rightarrow> bool" where
  "edge_path edges s [] = True"
| "edge_path edges s (t # ts) \<longleftrightarrow> (s, t) \<in> set edges \<and> edge_path edges t ts"

definition terminal :: "(u64 \<times> u64) list \<Rightarrow> u64 \<Rightarrow> bool" where
  "terminal edges s \<longleftrightarrow> (\<forall>e \<in> set edges. fst e \<noteq> s)"

inductive edge_step :: "(u64 \<times> u64) list \<Rightarrow> u64 \<Rightarrow> u64 \<Rightarrow> bool" for edges where
  edge: "(s, t) \<in> set edges \<Longrightarrow> edge_step edges s t"

code_pred edge_step .

inductive_simps edge_step_iff: "edge_step edges s t"

inductive_cases edge_stepE: "edge_step edges s t"

locale ranked_machine =
  fixes edges :: "(u64 \<times> u64) list"
  assumes increasing: "(s, t) \<in> set edges \<Longrightarrow> s < t"
    and single_entry: "(s, t) \<in> set edges \<Longrightarrow> (s', t) \<in> set edges \<Longrightarrow> s = s'"
begin

lemma step_increases: "edge_step edges s t \<Longrightarrow> s < t"
  by (auto elim: edge_stepE dest: increasing)

lemma run_increases: "(edge_step edges)\<^sup>*\<^sup>* s t \<Longrightarrow> s \<le> t"
  by (induction rule: rtranclp_induct) (auto dest: step_increases)

lemma no_return: "(edge_step edges)\<^sup>+\<^sup>+ s t \<Longrightarrow> s \<noteq> t"
proof -
  assume "(edge_step edges)\<^sup>+\<^sup>+ s t"
  then have "s < t" by (induction rule: tranclp_induct) (auto dest: step_increases)
  then show ?thesis by simp
qed

lemma path_sorted: "edge_path edges s ts \<Longrightarrow> sorted_wrt (<) (s # ts)"
proof (induction ts arbitrary: s)
  case (Cons t ts)
  then have "s < t" and "sorted_wrt (<) (t # ts)" by (auto dest: increasing)
  then show ?case by (auto dest: order_less_trans)
qed simp

lemma previous_state_unique: "edge_step edges s t \<Longrightarrow> edge_step edges s' t \<Longrightarrow> s = s'"
  by (auto elim!: edge_stepE dest: single_entry)

end

interpretation claim_machine: ranked_machine CLAIM_EDGES
  by unfold_locales (auto simp: CLAIM_EDGES_def)

interpretation conflict_machine: ranked_machine CONFLICT_EDGES
  by unfold_locales (auto simp: CONFLICT_EDGES_def)

section \<open>Properties\<close>

lemma transition_id_cong:
  assumes "mset (map cause_key cs) = mset (map cause_key ds)"
  shows "transition_id B m e p n cs t = transition_id B m e p n ds t"
proof -
  have "sort (map cause_key cs) = sort (map cause_key ds)"
    using assms by (intro properties_for_sort) simp_all
  then show ?thesis by (simp only: transition_id_def)
qed

text \<open> the transition identifier does not depend on the order in which the causes are listed. \<close>

theorem transition_id_order_independent:
  "mset cs = mset ds \<Longrightarrow> transition_id B m e p n cs t = transition_id B m e p n ds t"
  by (rule transition_id_cong) (metis mset_map)

theorem transition_id_order_independent_witness:
  "transition_id id ''m'' ''e'' 1 2
     [\<lparr>cause_lane = 1, cause_key = ''b''\<rparr>, \<lparr>cause_lane = 0, cause_key = ''a''\<rparr>] 42 =
   transition_id id ''m'' ''e'' 1 2
     [\<lparr>cause_lane = 0, cause_key = ''a''\<rparr>, \<lparr>cause_lane = 1, cause_key = ''b''\<rparr>] 42"
  by (rule transition_id_order_independent) simp

text \<open> the five exported transition constructors are exactly edges of the declared machines, and
  every declared edge is the edge of one of them.
\<close>

theorem transitions_are_the_edges:
  "set CLAIM_EDGES =
     {(claim_phase_code (tr_from (record_claim p)), claim_phase_code (tr_to (record_claim p))),
      (claim_phase_code (tr_from (supersede_claim q)), claim_phase_code (tr_to (supersede_claim q)))}
   \<and> set CONFLICT_EDGES =
     {(conflict_phase_code (tr_from (open_conflict r)), conflict_phase_code (tr_to (open_conflict r))),
      (conflict_phase_code (tr_from (resolve_conflict u)), conflict_phase_code (tr_to (resolve_conflict u))),
      (conflict_phase_code (tr_from (ignore_conflict v)), conflict_phase_code (tr_to (ignore_conflict v)))}"
  by (auto simp: CLAIM_EDGES_def CONFLICT_EDGES_def record_claim_def supersede_claim_def
      open_conflict_def resolve_conflict_def ignore_conflict_def)

lemma claim_terminal: "terminal CLAIM_EDGES s \<longleftrightarrow> s \<noteq> 0 \<and> s \<noteq> 1"
  by (auto simp: terminal_def CLAIM_EDGES_def)

lemma conflict_terminal: "terminal CONFLICT_EDGES s \<longleftrightarrow> s \<noteq> 0 \<and> s \<noteq> 1"
  by (auto simp: terminal_def CONFLICT_EDGES_def)

end
