(* ===== verification/Settlement.thy ===== *)
theory Settlement
  imports Knowledge
begin

text \<open>
  \<open>src/relate/settlement.rs\<close> and the relation vocabulary of \<open>src/semantics/traits.rs\<close>: the
  closed verdicts, failure classes and held decisions shared by events, projections and the
  relation pipeline.  A model score is an \<open>f32\<close>, kept as its 32-bit pattern.
\<close>

type_synonym f32 = "32 word"

datatype ClaimRelation = RelSupersedes | RelConflict | RelDuplicate | RelUnrelated

record RelationVerdict =
  rv_relation :: ClaimRelation
  rv_score :: f32

datatype CampaignPhase = Partial u64 | Complete

datatype SettledRelation = SetSupersedes | SetConflicts | SetDuplicate | SetUnrelated

fun settled_of_relation :: "ClaimRelation \<Rightarrow> SettledRelation" where
  "settled_of_relation RelSupersedes = SetSupersedes"
| "settled_of_relation RelConflict = SetConflicts"
| "settled_of_relation RelDuplicate = SetDuplicate"
| "settled_of_relation RelUnrelated = SetUnrelated"

fun relation_of_settled :: "SettledRelation \<Rightarrow> ClaimRelation" where
  "relation_of_settled SetSupersedes = RelSupersedes"
| "relation_of_settled SetConflicts = RelConflict"
| "relation_of_settled SetDuplicate = RelDuplicate"
| "relation_of_settled SetUnrelated = RelUnrelated"

datatype RelationFailureClass =
    Truncated | HttpStatus | TransportFailure | DeadlineExceeded | ParseFailure | BudgetExhausted
  | TemporalConcurrent | TemporalUnknown

record PairFailureView =
  pf_class :: RelationFailureClass
  pf_endpoint :: "string option"
  pf_status :: "nat option"
  pf_attempts :: u32

record UnresolvedPair =
  up_old_claim :: ClaimId
  up_new_claim :: ClaimId
  up_old_ref :: string
  up_new_ref :: string
  up_failure :: PairFailureView

record AuthorityWarning =
  aw_old_claim :: ClaimId
  aw_new_claim :: ClaimId
  aw_prior_verdict :: SettledRelation
  aw_prior_fingerprint :: string
  aw_new_verdict :: SettledRelation
  aw_new_fingerprint :: string
  aw_message :: string

datatype HeldDecision =
    HeldSupersession ClaimId ClaimId string
  | HeldConflict ConflictId ClaimId ClaimId string

lemma settled_relation_inverse [simp]: "relation_of_settled (settled_of_relation r) = r"
  by (cases r) auto

lemma relation_settled_inverse [simp]: "settled_of_relation (relation_of_settled r) = r"
  by (cases r) auto

end
