(* ===== verification/Payloads.thy ===== *)
theory Payloads
  imports Machines Settlement
begin

text \<open>
  \<open>src/events/payloads.rs\<close> and its submodules: the versioned event payloads and the upcasts
  from their first versions.  Upcasts work on decoded MessagePack values, the \<open>rmpv\<close> value type.
\<close>

section \<open>Source, claim and conflict events\<close>

record SourceObservedV2 =
  so_source_id :: string
  so_workspace_id :: string
  so_source_kind :: string
  so_path :: string
  so_body_hash_hex :: string
  so_observed_at_ms :: u64

record ClaimRecordedV2 =
  cr_claim_id :: string
  cr_workspace_id :: string
  cr_source_id :: string
  cr_source_path :: string
  cr_line_start :: u32
  cr_line_end :: u32
  cr_char_start :: u32
  cr_char_end :: u32
  cr_text :: string
  cr_normalized_text :: string
  cr_subject_hint :: "string option"
  cr_predicate_hint :: "string option"
  cr_object_hint :: "string option"
  cr_confidence_ppm :: u32
  cr_extractor_kind :: string
  cr_extractor_model :: string
  cr_prompt_version :: string
  cr_observed_at_ms :: u64

record ClaimSupersededV2 =
  cs_old_claim_id :: string
  cs_new_claim_id :: string
  cs_workspace_id :: string
  cs_reason :: string
  cs_decided_by :: string
  cs_observed_at_ms :: u64
  cs_transition :: TransitionRecordV1

record ConflictOpenedV2 =
  op_conflict_id :: string
  op_workspace_id :: string
  op_claim_a :: string
  op_claim_b :: string
  op_reason :: string
  op_detector :: string
  op_observed_at_ms :: u64
  op_transition :: TransitionRecordV1

record OnboardingCompiledV2 =
  oc_doc_id :: string
  oc_workspace_id :: string
  oc_output_path :: string
  oc_source_claim_ids :: "string list"
  oc_replayed_through_sequence :: u64
  oc_compiled_at_ms :: u64

record ConflictResolvedV2 =
  rs_conflict_id :: string
  rs_workspace_id :: string
  rs_resolution :: string
  rs_resolved_by :: string
  rs_observed_at_ms :: u64
  rs_transition :: TransitionRecordV1

record WorkspaceInitializedV2 =
  wi_workspace_id :: string
  wi_schema :: string
  wi_config_digest_hex :: string
  wi_created_at_ms :: u64

record SessionTurnV1 =
  st_session_id :: string
  st_workspace_id :: string
  st_speaker :: string
  st_text :: string
  st_turn_no :: u32
  st_observed_at_ms :: u64

section \<open>Relation events\<close>

record RelationJudgedV1 =
  rj1_workspace_id :: WorkspaceId
  rj1_older_claim :: ClaimId
  rj1_newer_claim :: ClaimId
  rj1_relation :: SettledRelation
  rj1_score_ppm :: u32
  rj1_judge_fingerprint :: string
  rj1_cache_key_hex :: string
  rj1_observed_at_ms :: u64

record RelationDeferredV1 =
  rd_workspace_id :: WorkspaceId
  rd_older_claim :: ClaimId
  rd_newer_claim :: ClaimId
  rd_failure_class :: RelationFailureClass
  rd_attempts :: u32
  rd_observed_at_ms :: u64

record RelationCampaignCheckpointV1 =
  ck_workspace_id :: WorkspaceId
  ck_evaluated_basis_digest_hex :: string
  ck_result_basis_digest_hex :: string
  ck_candidate_policy_digest_hex :: string
  ck_phase :: CampaignPhase
  ck_observed_at_ms :: u64

section \<open>Evidence events\<close>

record SourceSnapshotRecordedV1 =
  sn_workspace_id :: WorkspaceId
  sn_repository_id :: RepositoryId
  sn_snapshot_id :: SourceSnapshotId
  sn_base_commit :: GitObjectId
  sn_base_tree :: GitObjectId
  sn_index_digest_hex :: string
  sn_overlay_digest_hex :: string
  sn_dirty :: bool
  sn_coverage :: KnowledgeCoverage
  sn_capture_max_files :: u64
  sn_capture_max_file_bytes :: u64
  sn_capture_max_total_bytes :: u64
  sn_observed_at_ms :: u64

record EvidenceOccurrenceRecordedV1 =
  eo_workspace_id :: WorkspaceId
  eo_occurrence :: EvidenceOccurrence
  eo_observed_at_ms :: u64

record ClaimEvidenceLinkedV1 =
  el_workspace_id :: WorkspaceId
  el_claim_id :: ClaimId
  el_occurrence_id :: EvidenceOccurrenceId
  el_stance :: EvidenceStance
  el_method :: EvidenceLinkMethod
  el_observed_at_ms :: u64

record CodeIndexRecordedV1 =
  ci_workspace_id :: WorkspaceId
  ci_snapshot_id :: SourceSnapshotId
  ci_index_id :: CodeIndexId
  ci_format :: CodeIndexFormat
  ci_analyzer_fingerprint :: string
  ci_artifact_digest_hex :: string
  ci_coverage :: KnowledgeCoverage
  ci_observed_at_ms :: u64

record SourceSnapshotRelationV1 =
  sl_workspace_id :: WorkspaceId
  sl_repository_id :: RepositoryId
  sl_left_snapshot_id :: SourceSnapshotId
  sl_right_snapshot_id :: SourceSnapshotId
  sl_left_commit :: GitObjectId
  sl_right_commit :: GitObjectId
  sl_relation :: TemporalRelation
  sl_observed_at_ms :: u64

record ReplicaSourceEventV1 =
  re_source_event_id_hex :: string
  re_source_global_sequence :: u64
  re_source_kind :: nat
  re_source_content_hash_hex :: string

record ReplicaBatchMaterializedV1 =
  rb_workspace_id :: string
  rb_source_journal :: string
  rb_replica_journal :: string
  rb_source_namespace :: string
  rb_events :: "ReplicaSourceEventV1 list"

record EvidenceReconciliationAcceptedV1 =
  ra_workspace_id :: WorkspaceId
  ra_claim_id :: ClaimId
  ra_occurrence_id :: EvidenceOccurrenceId
  ra_stance :: EvidenceStance
  ra_score_ppm :: u32
  ra_judge_fingerprint :: string
  ra_cache_key_hex :: string
  ra_policy_version :: string
  ra_observed_at_ms :: u64

section \<open>Upcasts\<close>

datatype msg_value =
    VNil | VBoolean bool | VInteger int | VF32 f32 | VF64 "64 word" | VString string
  | VBinary string | VArray "msg_value list" | VMap "(msg_value \<times> msg_value) list" | VExt int string

datatype UpcastError = ValueCodec string

fun value_as_str :: "msg_value \<Rightarrow> string option" where
  "value_as_str (VString s) = Some s"
| "value_as_str v = None"

fun value_as_u64 :: "msg_value \<Rightarrow> u64 option" where
  "value_as_u64 (VInteger i) = (if 0 \<le> i \<and> i \<le> int u64_max then Some (nat i) else None)"
| "value_as_u64 v = None"

type_synonym fields = "(msg_value \<times> msg_value) list"

definition map_fields :: "msg_value \<Rightarrow> string \<Rightarrow> (fields, UpcastError) result" where
  "map_fields v payload_name =
     (case v of VMap fs \<Rightarrow> Inr fs
      | _ \<Rightarrow> Inl (ValueCodec (payload_name @ '' v1 upcast expected msgpack map'')))"

definition has_key :: "fields \<Rightarrow> string \<Rightarrow> bool" where
  "has_key fs key \<longleftrightarrow> (\<exists>p \<in> set fs. value_as_str (fst p) = Some key)"

definition insert_if_missing :: "fields \<Rightarrow> string \<Rightarrow> msg_value \<Rightarrow> fields" where
  "insert_if_missing fs key v = (if has_key fs key then fs else fs @ [(VString key, v)])"

definition find_field :: "fields \<Rightarrow> string \<Rightarrow> msg_value option" where
  "find_field fs key = map_option snd (find (\<lambda>p. value_as_str (fst p) = Some key) fs)"

definition string_field :: "fields \<Rightarrow> string \<Rightarrow> (string, UpcastError) result" where
  "string_field fs key =
     ok_or (Option.bind (find_field fs key) value_as_str)
       (ValueCodec (''missing string field `'' @ key @ ''`''))"

definition u64_field :: "fields \<Rightarrow> string \<Rightarrow> (u64, UpcastError) result" where
  "u64_field fs key =
     ok_or (Option.bind (find_field fs key) value_as_u64)
       (ValueCodec (''missing u64 field `'' @ key @ ''`''))"

definition transition_value ::
  "(string \<Rightarrow> string) \<Rightarrow> string \<Rightarrow> string \<Rightarrow> u64 \<Rightarrow> u64 \<Rightarrow> u64 \<Rightarrow> msg_value" where
  "transition_value B machine entity previous_state next_state observed_at_ms =
     VMap
       [(VString ''schema_version'', VInteger 1),
        (VString ''machine'', VString machine),
        (VString ''previous_state'', VInteger (int previous_state)),
        (VString ''next_state'', VInteger (int next_state)),
        (VString ''transition_id_hex'',
           VString (transition_id B machine entity previous_state next_state [] observed_at_ms)),
        (VString ''causes'', VArray [])]"

definition upcast_source_observed :: "msg_value \<Rightarrow> (msg_value, UpcastError) result" where
  "upcast_source_observed v = Inr v"

definition upcast_claim_recorded :: "msg_value \<Rightarrow> (msg_value, UpcastError) result" where
  "upcast_claim_recorded v =
     res_bind (map_fields v ''ClaimRecordedV2'') (\<lambda>fs.
       let fs = insert_if_missing fs ''char_start'' (VInteger 0);
           fs = insert_if_missing fs ''char_end'' (VInteger 0);
           fs = insert_if_missing fs ''extractor_kind'' (VString ''unknown'');
           fs = insert_if_missing fs ''extractor_model'' (VString ''unknown'');
           fs = insert_if_missing fs ''prompt_version'' (VString ''unknown'')
       in Inr (VMap fs))"

definition upcast_claim_superseded :: "(string \<Rightarrow> string) \<Rightarrow> msg_value \<Rightarrow> (msg_value, UpcastError) result" where
  "upcast_claim_superseded B v =
     res_bind (map_fields v ''ClaimSupersededV2'') (\<lambda>fs.
     res_bind (string_field fs ''old_claim_id'') (\<lambda>old_claim_id.
     res_bind (u64_field fs ''observed_at_ms'') (\<lambda>observed_at_ms.
     Inr (VMap (insert_if_missing fs ''transition''
       (transition_value B CLAIM_MACHINE old_claim_id 1 2 observed_at_ms))))))"

definition upcast_conflict_opened :: "(string \<Rightarrow> string) \<Rightarrow> msg_value \<Rightarrow> (msg_value, UpcastError) result" where
  "upcast_conflict_opened B v =
     res_bind (map_fields v ''ConflictOpenedV2'') (\<lambda>fs.
     res_bind (string_field fs ''conflict_id'') (\<lambda>conflict_id.
     res_bind (u64_field fs ''observed_at_ms'') (\<lambda>observed_at_ms.
     let fs = insert_if_missing fs ''detector'' (VString ''unknown'') in
     Inr (VMap (insert_if_missing fs ''transition''
       (transition_value B CONFLICT_MACHINE conflict_id 0 1 observed_at_ms))))))"

definition upcast_onboarding_compiled :: "msg_value \<Rightarrow> (msg_value, UpcastError) result" where
  "upcast_onboarding_compiled v = Inr v"

lemma has_key_insert: "has_key (insert_if_missing fs k v) k' \<longleftrightarrow> has_key fs k' \<or> k' = k"
  by (auto simp: insert_if_missing_def has_key_def)

lemma insert_if_missing_present [simp]: "has_key fs k \<Longrightarrow> insert_if_missing fs k v = fs"
  by (simp add: insert_if_missing_def)

lemma find_field_append:
  "find_field (fs @ gs) k = (case find_field fs k of None \<Rightarrow> find_field gs k | Some v \<Rightarrow> Some v)"
  by (induction fs) (auto simp: find_field_def)

lemma has_key_find: "has_key fs k \<longleftrightarrow> find_field fs k \<noteq> None"
  by (induction fs) (auto simp: has_key_def find_field_def)

lemma find_field_single [simp]: "find_field [(VString k, v)] k' = (if k' = k then Some v else None)"
  by (simp add: find_field_def)

lemma find_field_insert:
  "find_field (insert_if_missing fs k v) k' =
     (if k' = k \<and> \<not> has_key fs k then Some v else find_field fs k')"
  by (auto simp: insert_if_missing_def find_field_append has_key_find split: option.splits)

lemmas upcast_defs = upcast_claim_recorded_def upcast_claim_superseded_def upcast_conflict_opened_def

text \<open>
  an upcast only adds fields: every field the stored version-1 event has keeps its value, and
  after the upcast the fields of version 2 are present.
\<close>

theorem upcast_claim_superseded_conservative:
  assumes "upcast_claim_superseded B (VMap fs) = Inr (VMap gs)"
  shows "(\<forall>k. has_key fs k \<longrightarrow> find_field gs k = find_field fs k)
    \<and> has_key gs ''transition'' \<and> has_key gs ''old_claim_id''
    \<and> upcast_claim_superseded B (VMap gs) = Inr (VMap gs)"
proof -
  obtain c t where c: "string_field fs ''old_claim_id'' = Inr c" and t: "u64_field fs ''observed_at_ms'' = Inr t"
    and gs: "gs = insert_if_missing fs ''transition'' (transition_value B CLAIM_MACHINE c 1 2 t)"
    using assms by (auto simp: upcast_defs map_fields_def res_bind_eq_Inr)
  have keep: "find_field gs k = find_field fs k" if "k \<noteq> ''transition''" for k
    using that by (simp add: gs find_field_insert)
  have "string_field gs ''old_claim_id'' = Inr c" and "u64_field gs ''observed_at_ms'' = Inr t"
    using c t keep by (simp_all add: string_field_def u64_field_def)
  moreover have "has_key gs ''transition''"
    by (simp add: gs has_key_insert)
  moreover have "has_key fs ''old_claim_id''"
    using c by (cases "find_field fs ''old_claim_id''") (simp_all add: string_field_def has_key_find)
  ultimately show ?thesis
    by (auto simp: upcast_defs map_fields_def gs find_field_insert has_key_insert)
qed

definition v1_supersede :: fields where
  "v1_supersede = [(VString ''old_claim_id'', VString ''claim_a''), (VString ''observed_at_ms'', VInteger 7)]"

theorem upcast_claim_superseded_conservative_witness:
  "\<exists>gs. has_key gs ''transition'' \<and> upcast_claim_superseded zero_hash (VMap gs) = Inr (VMap gs)
     \<and> find_field gs ''old_claim_id'' = Some (VString ''claim_a'')"
proof -
  have "upcast_claim_superseded zero_hash (VMap v1_supersede) =
      Inr (VMap (v1_supersede @
        [(VString ''transition'', transition_value zero_hash CLAIM_MACHINE ''claim_a'' 1 2 7)]))"
    by (simp add: upcast_claim_superseded_def map_fields_def string_field_def u64_field_def
        find_field_def v1_supersede_def u64_max_def insert_if_missing_def has_key_def)
  from upcast_claim_superseded_conservative [OF this] show ?thesis
    by (intro exI conjI) (auto simp: v1_supersede_def find_field_def has_key_def)
qed

end
