(* ===== verification/Projections.thy ===== *)
theory Projections
  imports Payloads
begin

text \<open>
  \<open>src/claims/\<close>: the per-entity cards that replay folds out of the journal (\<open>card.rs\<close>,
  \<open>conflict.rs\<close>, \<open>source.rs\<close>, \<open>compile_log.rs\<close>, \<open>session_log.rs\<close>, \<open>timeline.rs\<close>,
  \<open>settlement.rs\<close>, \<open>campaign.rs\<close>) and the derived statuses (\<open>status.rs\<close>).  A handler takes
  the event and the card and returns the card; replay is the fold of the handlers over the events of
  one entity stream, in commit order.
\<close>

section \<open>Replay\<close>

definition replay :: "('e \<Rightarrow> 's \<Rightarrow> 's) \<Rightarrow> 's \<Rightarrow> 'e list \<Rightarrow> 's" where
  "replay step s es = fold step es s"

lemma replay_Nil [simp]: "replay step s [] = s"
  by (simp add: replay_def)

lemma replay_Cons [simp]: "replay step s (e # es) = replay step (step e s) es"
  by (simp add: replay_def)

lemma replay_snoc: "replay step s (es @ [e]) = step e (replay step s es)"
  by (simp add: replay_def)

text \<open>
  The contract of an event-sourced card: handlers keep its well-formedness, so every replay of
  every history is well-formed, and resuming from a cached card is the same as replaying from the
  start.
\<close>

locale event_sourced =
  fixes step :: "'e \<Rightarrow> 's \<Rightarrow> 's" and start :: 's and wf :: "'s \<Rightarrow> bool"
  assumes wf_start: "wf start"
    and wf_step: "wf s \<Longrightarrow> wf (step e s)"
begin

lemma wf_replay_from: "wf s \<Longrightarrow> wf (replay step s es)"
  by (induction es arbitrary: s) (auto intro: wf_step)

lemma wf_replay: "wf (replay step start es)"
  by (rule wf_replay_from) (rule wf_start)

lemma resume: "replay step start (es @ fs) = replay step (replay step start es) fs"
  by (simp add: replay_def)

end

section \<open>Claim cards\<close>

record ClaimCard =
  cc_phase :: u64
  cc_claim_id :: string
  cc_workspace_id :: string
  cc_source_id :: string
  cc_source_path :: string
  cc_line_start :: u32
  cc_line_end :: u32
  cc_char_start :: u32
  cc_char_end :: u32
  cc_text :: string
  cc_normalized_text :: string
  cc_subject_hint :: "string option"
  cc_predicate_hint :: "string option"
  cc_object_hint :: "string option"
  cc_confidence_ppm :: u32
  cc_extractor_kind :: string
  cc_extractor_model :: string
  cc_prompt_version :: string
  cc_observed_at_ms :: u64
  cc_superseded_by :: "string option"
  cc_superseded_reason :: string
  cc_superseded_decided_by :: string
  cc_anomalies :: "string list"

definition claim_card_default :: ClaimCard where
  "claim_card_default =
     \<lparr>cc_phase = 0, cc_claim_id = [], cc_workspace_id = [], cc_source_id = [], cc_source_path = [],
      cc_line_start = 0, cc_line_end = 0, cc_char_start = 0, cc_char_end = 0, cc_text = [],
      cc_normalized_text = [], cc_subject_hint = None, cc_predicate_hint = None,
      cc_object_hint = None, cc_confidence_ppm = 0, cc_extractor_kind = [], cc_extractor_model = [],
      cc_prompt_version = [], cc_observed_at_ms = 0, cc_superseded_by = None,
      cc_superseded_reason = [], cc_superseded_decided_by = [], cc_anomalies = []\<rparr>"

definition claim_on_recorded :: "ClaimRecordedV2 \<Rightarrow> ClaimCard \<Rightarrow> ClaimCard" where
  "claim_on_recorded e c =
     (let c = (if cc_phase c \<noteq> 0 then c\<lparr>cc_anomalies := cc_anomalies c @ [''duplicate-record'']\<rparr> else c)
      in c\<lparr>cc_phase := 1, cc_claim_id := cr_claim_id e, cc_workspace_id := cr_workspace_id e,
           cc_source_id := cr_source_id e, cc_source_path := cr_source_path e,
           cc_line_start := cr_line_start e, cc_line_end := cr_line_end e,
           cc_char_start := cr_char_start e, cc_char_end := cr_char_end e, cc_text := cr_text e,
           cc_normalized_text := cr_normalized_text e, cc_subject_hint := cr_subject_hint e,
           cc_predicate_hint := cr_predicate_hint e, cc_object_hint := cr_object_hint e,
           cc_confidence_ppm := cr_confidence_ppm e, cc_extractor_kind := cr_extractor_kind e,
           cc_extractor_model := cr_extractor_model e, cc_prompt_version := cr_prompt_version e,
           cc_observed_at_ms := cr_observed_at_ms e\<rparr>)"

definition claim_on_superseded :: "ClaimSupersededV2 \<Rightarrow> ClaimCard \<Rightarrow> ClaimCard" where
  "claim_on_superseded e c =
     (let c = (if cc_phase c \<noteq> 1
               then c\<lparr>cc_anomalies := cc_anomalies c @ [''supersede-from-'' @ show_nat (cc_phase c)]\<rparr> else c)
      in if cc_superseded_by c \<noteq> None
         then c\<lparr>cc_anomalies := cc_anomalies c @ [''duplicate-supersede'']\<rparr>
         else c\<lparr>cc_phase := 2, cc_superseded_by := Some (cs_new_claim_id e),
                cc_superseded_reason := cs_reason e, cc_superseded_decided_by := cs_decided_by e\<rparr>)"

datatype claim_event = Recorded ClaimRecordedV2 | SupersededBy ClaimSupersededV2

fun claim_step :: "claim_event \<Rightarrow> ClaimCard \<Rightarrow> ClaimCard" where
  "claim_step (Recorded e) c = claim_on_recorded e c"
| "claim_step (SupersededBy e) c = claim_on_superseded e c"

abbreviation claim_replay :: "claim_event list \<Rightarrow> ClaimCard" where
  "claim_replay \<equiv> replay claim_step claim_card_default"

definition claim_wf :: "ClaimCard \<Rightarrow> bool" where
  "claim_wf c \<longleftrightarrow>
     cc_phase c \<le> 2
     \<and> (cc_phase c = 0 \<longrightarrow> c = claim_card_default)
     \<and> (cc_phase c = 2 \<longrightarrow> cc_superseded_by c \<noteq> None)
     \<and> (cc_anomalies c = [] \<longrightarrow> (cc_phase c = 2 \<longleftrightarrow> cc_superseded_by c \<noteq> None))"

lemmas claim_step_defs = claim_on_recorded_def claim_on_superseded_def

interpretation claim_card: event_sourced claim_step claim_card_default claim_wf
proof
  show "claim_wf claim_card_default" by (simp add: claim_wf_def claim_card_default_def)
  show "claim_wf (claim_step e s)" if "claim_wf s" for e s
    using that by (cases e) (auto simp: claim_wf_def claim_step_defs Let_def claim_card_default_def)
qed

section \<open>Conflict cards\<close>

record ConflictCard =
  cf_phase :: u64
  cf_conflict_id :: string
  cf_workspace_id :: string
  cf_claim_a :: string
  cf_claim_b :: string
  cf_reason :: string
  cf_detector :: string
  cf_resolution :: string
  cf_resolved_by :: string
  cf_opened_at_ms :: u64
  cf_resolved_at_ms :: u64
  cf_anomalies :: "string list"

definition conflict_card_default :: ConflictCard where
  "conflict_card_default =
     \<lparr>cf_phase = 0, cf_conflict_id = [], cf_workspace_id = [], cf_claim_a = [], cf_claim_b = [],
      cf_reason = [], cf_detector = [], cf_resolution = [], cf_resolved_by = [],
      cf_opened_at_ms = 0, cf_resolved_at_ms = 0, cf_anomalies = []\<rparr>"

definition conflict_on_opened :: "ConflictOpenedV2 \<Rightarrow> ConflictCard \<Rightarrow> ConflictCard" where
  "conflict_on_opened e c =
     (let c = (if cf_phase c \<noteq> 0 then c\<lparr>cf_anomalies := cf_anomalies c @ [''duplicate-open'']\<rparr> else c)
      in c\<lparr>cf_phase := 1, cf_conflict_id := op_conflict_id e, cf_workspace_id := op_workspace_id e,
           cf_claim_a := op_claim_a e, cf_claim_b := op_claim_b e, cf_reason := op_reason e,
           cf_detector := op_detector e, cf_opened_at_ms := op_observed_at_ms e\<rparr>)"

definition conflict_on_resolved :: "ConflictResolvedV2 \<Rightarrow> ConflictCard \<Rightarrow> ConflictCard" where
  "conflict_on_resolved e c =
     (let c = (if cf_phase c \<noteq> 1
               then c\<lparr>cf_anomalies := cf_anomalies c @ [''resolve-from-'' @ show_nat (cf_phase c)]\<rparr> else c);
          c = (if rs_resolution e = ''resolved'' then c\<lparr>cf_phase := 2\<rparr>
               else if rs_resolution e = ''ignored'' then c\<lparr>cf_phase := 3\<rparr>
               else c\<lparr>cf_anomalies := cf_anomalies c @ [''unknown-resolution'']\<rparr>)
      in c\<lparr>cf_conflict_id := rs_conflict_id e, cf_workspace_id := rs_workspace_id e,
           cf_resolution := rs_resolution e, cf_resolved_by := rs_resolved_by e,
           cf_resolved_at_ms := rs_observed_at_ms e\<rparr>)"

datatype conflict_event = Opened ConflictOpenedV2 | ResolvedBy ConflictResolvedV2

fun conflict_step :: "conflict_event \<Rightarrow> ConflictCard \<Rightarrow> ConflictCard" where
  "conflict_step (Opened e) c = conflict_on_opened e c"
| "conflict_step (ResolvedBy e) c = conflict_on_resolved e c"

abbreviation conflict_replay :: "conflict_event list \<Rightarrow> ConflictCard" where
  "conflict_replay \<equiv> replay conflict_step conflict_card_default"

definition conflict_wf :: "ConflictCard \<Rightarrow> bool" where
  "conflict_wf c \<longleftrightarrow>
     cf_phase c \<le> 3
     \<and> (cf_anomalies c = [] \<longrightarrow>
          (cf_phase c = 2 \<longrightarrow> cf_resolution c = ''resolved'')
          \<and> (cf_phase c = 3 \<longrightarrow> cf_resolution c = ''ignored''))"

lemmas conflict_step_defs = conflict_on_opened_def conflict_on_resolved_def

interpretation conflict_card: event_sourced conflict_step conflict_card_default conflict_wf
proof
  show "conflict_wf conflict_card_default" by (simp add: conflict_wf_def conflict_card_default_def)
  show "conflict_wf (conflict_step e s)" if "conflict_wf s" for e s
    using that by (cases e) (auto simp: conflict_wf_def conflict_step_defs Let_def)
qed

section \<open>Source cards and metadata\<close>

record SourceCard =
  sc_source_id :: string
  sc_workspace_id :: string
  sc_source_kind :: string
  sc_path :: string
  sc_body_hash_hex :: string
  sc_observed_at_ms :: u64
  sc_observations :: u32

definition source_card_default :: SourceCard where
  "source_card_default =
     \<lparr>sc_source_id = [], sc_workspace_id = [], sc_source_kind = [], sc_path = [],
      sc_body_hash_hex = [], sc_observed_at_ms = 0, sc_observations = 0\<rparr>"

definition source_on_observed :: "SourceObservedV2 \<Rightarrow> SourceCard \<Rightarrow> SourceCard" where
  "source_on_observed e c =
     c\<lparr>sc_source_id := so_source_id e, sc_workspace_id := so_workspace_id e,
       sc_source_kind := so_source_kind e, sc_path := so_path e,
       sc_body_hash_hex := so_body_hash_hex e, sc_observed_at_ms := so_observed_at_ms e,
       sc_observations := sat_add32 (sc_observations c) 1\<rparr>"

interpretation source_card:
  event_sourced source_on_observed source_card_default "\<lambda>c. sc_observations c \<le> u32_max"
  by unfold_locales (auto simp: source_card_default_def source_on_observed_def sat_add32_def)

record CompileEntry =
  cl_output_path :: string
  cl_replayed_through_sequence :: u64
  cl_compiled_at_ms :: u64

definition compile_on_compiled :: "OnboardingCompiledV2 \<Rightarrow> CompileEntry list \<Rightarrow> CompileEntry list" where
  "compile_on_compiled e log =
     log @ [\<lparr>cl_output_path = oc_output_path e,
             cl_replayed_through_sequence = oc_replayed_through_sequence e,
             cl_compiled_at_ms = oc_compiled_at_ms e\<rparr>]"

record WorkspaceCard =
  wc_workspace_id :: string
  wc_schema :: string
  wc_config_digest_hex :: string
  wc_created_at_ms :: u64

definition workspace_on_initialized :: "WorkspaceInitializedV2 \<Rightarrow> WorkspaceCard \<Rightarrow> WorkspaceCard" where
  "workspace_on_initialized e c =
     c\<lparr>wc_workspace_id := wi_workspace_id e, wc_schema := wi_schema e,
       wc_config_digest_hex := wi_config_digest_hex e, wc_created_at_ms := wi_created_at_ms e\<rparr>"

section \<open>Session log and timeline\<close>

record TurnEntry =
  te_session_id :: string
  te_workspace_id :: string
  te_speaker :: string
  te_text :: string
  te_turn_no :: u32
  te_observed_at_ms :: u64

definition turn_entry :: "SessionTurnV1 \<Rightarrow> TurnEntry" where
  "turn_entry e =
     \<lparr>te_session_id = st_session_id e, te_workspace_id = st_workspace_id e,
      te_speaker = st_speaker e, te_text = st_text e, te_turn_no = st_turn_no e,
      te_observed_at_ms = st_observed_at_ms e\<rparr>"

definition session_on_turn :: "SessionTurnV1 \<Rightarrow> TurnEntry list \<Rightarrow> TurnEntry list" where
  "session_on_turn e turns = sort_key te_turn_no (turns @ [turn_entry e])"

interpretation session_log: event_sourced session_on_turn "[]" "\<lambda>turns. sorted (map te_turn_no turns)"
  by unfold_locales (simp_all add: session_on_turn_def)

record TimelineEntry =
  tl_kind :: string
  tl_observed_at_ms :: u64
  tl_summary :: string

fun timeline_step :: "claim_event \<Rightarrow> TimelineEntry list \<Rightarrow> TimelineEntry list" where
  "timeline_step (Recorded e) entries =
     entries @ [\<lparr>tl_kind = ''recorded'', tl_observed_at_ms = cr_observed_at_ms e,
                 tl_summary = cr_claim_id e\<rparr>]"
| "timeline_step (SupersededBy e) entries =
     entries @ [\<lparr>tl_kind = ''superseded'', tl_observed_at_ms = cs_observed_at_ms e,
                 tl_summary = cs_old_claim_id e @ '' -> '' @ cs_new_claim_id e\<rparr>]"

section \<open>Settlement and campaign cards\<close>

record JudgmentRecord =
  jr_relation :: SettledRelation
  jr_score_ppm :: u32
  jr_judge_fingerprint :: string
  jr_cache_key_hex :: string
  jr_observed_at_ms :: u64

record DeferralRecord =
  dr_failure_class :: RelationFailureClass
  dr_attempts :: u32
  dr_observed_at_ms :: u64

record SettlementCard =
  sm_workspace_id :: string
  sm_older_claim :: string
  sm_newer_claim :: string
  sm_authoritative :: "JudgmentRecord option"
  sm_later_judgments :: "JudgmentRecord list"
  sm_deferrals :: "DeferralRecord list"

definition settlement_card_default :: SettlementCard where
  "settlement_card_default =
     \<lparr>sm_workspace_id = [], sm_older_claim = [], sm_newer_claim = [], sm_authoritative = None,
      sm_later_judgments = [], sm_deferrals = []\<rparr>"

definition judgment_record :: "RelationJudgedV1 \<Rightarrow> JudgmentRecord" where
  "judgment_record e =
     \<lparr>jr_relation = rj1_relation e, jr_score_ppm = rj1_score_ppm e,
      jr_judge_fingerprint = rj1_judge_fingerprint e, jr_cache_key_hex = rj1_cache_key_hex e,
      jr_observed_at_ms = rj1_observed_at_ms e\<rparr>"

definition settlement_on_judged :: "RelationJudgedV1 \<Rightarrow> SettlementCard \<Rightarrow> SettlementCard" where
  "settlement_on_judged e c =
     (let c = c\<lparr>sm_workspace_id := ws_str (rj1_workspace_id e),
                sm_older_claim := claim_str (rj1_older_claim e),
                sm_newer_claim := claim_str (rj1_newer_claim e)\<rparr>;
          r = judgment_record e
      in if sm_authoritative c = None then c\<lparr>sm_authoritative := Some r\<rparr>
         else c\<lparr>sm_later_judgments := sm_later_judgments c @ [r]\<rparr>)"

definition settlement_on_deferred :: "RelationDeferredV1 \<Rightarrow> SettlementCard \<Rightarrow> SettlementCard" where
  "settlement_on_deferred e c =
     c\<lparr>sm_workspace_id := ws_str (rd_workspace_id e),
       sm_older_claim := claim_str (rd_older_claim e),
       sm_newer_claim := claim_str (rd_newer_claim e),
       sm_deferrals := sm_deferrals c @
         [\<lparr>dr_failure_class = rd_failure_class e, dr_attempts = rd_attempts e,
           dr_observed_at_ms = rd_observed_at_ms e\<rparr>]\<rparr>"

datatype settlement_event = Judged RelationJudgedV1 | Deferred RelationDeferredV1

fun settlement_step :: "settlement_event \<Rightarrow> SettlementCard \<Rightarrow> SettlementCard" where
  "settlement_step (Judged e) c = settlement_on_judged e c"
| "settlement_step (Deferred e) c = settlement_on_deferred e c"

abbreviation settlement_replay :: "settlement_event list \<Rightarrow> SettlementCard" where
  "settlement_replay \<equiv> replay settlement_step settlement_card_default"

interpretation settlement_card: event_sourced settlement_step settlement_card_default
  "\<lambda>c. sm_authoritative c = None \<longrightarrow> sm_later_judgments c = []"
proof
  show "sm_authoritative settlement_card_default = None \<longrightarrow> sm_later_judgments settlement_card_default = []"
    by (simp add: settlement_card_default_def)
  show "sm_authoritative (settlement_step e s) = None \<longrightarrow> sm_later_judgments (settlement_step e s) = []"
    if "sm_authoritative s = None \<longrightarrow> sm_later_judgments s = []" for e s
    using that by (cases e) (auto simp: settlement_on_judged_def settlement_on_deferred_def Let_def)
qed

definition campaign_on_checkpoint ::
  "RelationCampaignCheckpointV1 \<Rightarrow> RelationCampaignCheckpointV1 option
    \<Rightarrow> RelationCampaignCheckpointV1 option" where
  "campaign_on_checkpoint e latest = Some e"

section \<open>Statuses\<close>

datatype ClaimStatus = StCurrent | StSuperseded | StConflicting

datatype ConflictStatus = CsOpen | CsResolved | CsIgnored

fun claim_status_str :: "ClaimStatus \<Rightarrow> string" where
  "claim_status_str StCurrent = ''current''"
| "claim_status_str StSuperseded = ''superseded''"
| "claim_status_str StConflicting = ''conflicting''"

fun conflict_status_str :: "ConflictStatus \<Rightarrow> string" where
  "conflict_status_str CsOpen = ''open''"
| "conflict_status_str CsResolved = ''resolved''"
| "conflict_status_str CsIgnored = ''ignored''"

definition claim_status :: "ClaimCard \<Rightarrow> bool \<Rightarrow> ClaimStatus" where
  "claim_status c in_open_conflict =
     (if cc_phase c = 2 then StSuperseded
      else if in_open_conflict then StConflicting else StCurrent)"

end
