(* ===== verification/Lifecycle.thy ===== *)
theory Lifecycle
  imports Projections
begin

text \<open>
  What replay of the cards guarantees: the anomalies a card records are exactly the departures from
  its state machine, the first supersession and the first judgment are authoritative, and a session
  log is the stable sort of its turns.
\<close>

named_theorems lifecycle_simps \<open>case analysis of one replay step\<close>

section \<open>Anomalies only accumulate\<close>

lemma claim_anomalies_step: "\<exists>xs. cc_anomalies (claim_step e c) = cc_anomalies c @ xs"
  by (cases e) (auto simp: claim_step_defs Let_def)

lemma claim_anomalies_replay: "\<exists>xs. cc_anomalies (replay claim_step c es) = cc_anomalies c @ xs"
proof (induction es arbitrary: c)
  case (Cons e es)
  then show ?case using claim_anomalies_step [of e c] by (metis append_assoc replay_Cons)
qed simp

lemma claim_anomalies_persist: "cc_anomalies c \<noteq> [] \<Longrightarrow> cc_anomalies (replay claim_step c es) \<noteq> []"
  using claim_anomalies_replay [of c es] by auto

lemma conflict_anomalies_step: "\<exists>xs. cf_anomalies (conflict_step e c) = cf_anomalies c @ xs"
  by (cases e) (auto simp: conflict_step_defs Let_def)

lemma conflict_anomalies_replay:
  "\<exists>xs. cf_anomalies (replay conflict_step c es) = cf_anomalies c @ xs"
proof (induction es arbitrary: c)
  case (Cons e es)
  then show ?case using conflict_anomalies_step [of e c] by (metis append_assoc replay_Cons)
qed simp

lemma conflict_anomalies_persist:
  "cf_anomalies c \<noteq> [] \<Longrightarrow> cf_anomalies (replay conflict_step c es) \<noteq> []"
  using conflict_anomalies_replay [of c es] by auto

section \<open>Anomalies are the departures from the state machine\<close>

fun claim_target :: "claim_event \<Rightarrow> u64" where
  "claim_target (Recorded e) = claim_phase_code (tr_to (record_claim e))"
| "claim_target (SupersededBy e) = claim_phase_code (tr_to (supersede_claim e))"

lemma claim_step_edge:
  assumes "claim_wf c" and "cc_anomalies c = []"
  shows "cc_anomalies (claim_step e c) = [] \<longleftrightarrow> (cc_phase c, claim_target e) \<in> set CLAIM_EDGES"
    and "cc_anomalies (claim_step e c) = [] \<Longrightarrow> cc_phase (claim_step e c) = claim_target e"
  using assms
  by (cases e; auto simp: claim_wf_def claim_step_defs Let_def CLAIM_EDGES_def record_claim_def
      supersede_claim_def claim_card_default_def split: if_splits)+

lemma claim_anomalies_path:
  "claim_wf c \<Longrightarrow> cc_anomalies c = [] \<Longrightarrow>
   cc_anomalies (replay claim_step c es) = [] \<longleftrightarrow> edge_path CLAIM_EDGES (cc_phase c) (map claim_target es)"
proof (induction es arbitrary: c)
  case (Cons e es)
  show ?case
  proof (cases "cc_anomalies (claim_step e c) = []")
    case True
    then show ?thesis
      using Cons.IH [of "claim_step e c"] claim_card.wf_step [OF Cons.prems(1)]
        claim_step_edge [OF Cons.prems, of e] by simp
  next
    case False
    then show ?thesis
      using claim_anomalies_persist claim_step_edge(1) [OF Cons.prems, of e] by simp
  qed
qed simp

text \<open>
  A claim card records no anomaly exactly when the events of its stream follow the edges of the
  claim state machine from the unrecorded state.
\<close>

theorem claim_anomalies_exact:
  "cc_anomalies (claim_replay es) = [] \<longleftrightarrow>
   edge_path CLAIM_EDGES (claim_phase_code Unrecorded) (map claim_target es)"
proof -
  have "cc_phase claim_card_default = claim_phase_code Unrecorded"
    and "cc_anomalies claim_card_default = []"
    by (simp_all add: claim_card_default_def)
  then show ?thesis
    using claim_anomalies_path [OF claim_card.wf_start] by simp
qed

fun conflict_target :: "conflict_event \<Rightarrow> u64" where
  "conflict_target (Opened e) = conflict_phase_code (tr_to (open_conflict e))"
| "conflict_target (ResolvedBy e) =
     (if rs_resolution e = ''resolved'' then conflict_phase_code (tr_to (resolve_conflict e))
      else if rs_resolution e = ''ignored'' then conflict_phase_code (tr_to (ignore_conflict e))
      else conflict_phase_code Unopened)"

lemma conflict_step_edge:
  assumes "cf_anomalies c = []"
  shows "cf_anomalies (conflict_step e c) = [] \<longleftrightarrow> (cf_phase c, conflict_target e) \<in> set CONFLICT_EDGES"
    and "cf_anomalies (conflict_step e c) = [] \<Longrightarrow> cf_phase (conflict_step e c) = conflict_target e"
  using assms
  by (cases e; auto simp: conflict_step_defs Let_def CONFLICT_EDGES_def open_conflict_def
      resolve_conflict_def ignore_conflict_def split: if_splits)+

lemma conflict_anomalies_path:
  "cf_anomalies c = [] \<Longrightarrow>
   cf_anomalies (replay conflict_step c es) = [] \<longleftrightarrow>
     edge_path CONFLICT_EDGES (cf_phase c) (map conflict_target es)"
proof (induction es arbitrary: c)
  case (Cons e es)
  show ?case
  proof (cases "cf_anomalies (conflict_step e c) = []")
    case True
    then show ?thesis
      using Cons.IH [of "conflict_step e c"] conflict_step_edge [OF Cons.prems, of e] by simp
  next
    case False
    then show ?thesis
      using conflict_anomalies_persist conflict_step_edge(1) [OF Cons.prems, of e] by simp
  qed
qed simp

text \<open>
  a conflict card records no anomaly exactly when its events follow the edges of the conflict
  state machine; an unknown resolution value is a departure.
\<close>

theorem conflict_anomalies_exact:
  "cf_anomalies (conflict_replay es) = [] \<longleftrightarrow>
   edge_path CONFLICT_EDGES (conflict_phase_code Unopened) (map conflict_target es)"
proof -
  have "cf_phase conflict_card_default = conflict_phase_code Unopened"
    and "cf_anomalies conflict_card_default = []"
    by (simp_all add: conflict_card_default_def)
  then show ?thesis
    using conflict_anomalies_path by simp
qed

section \<open>First writes are authoritative\<close>

fun superseding :: "claim_event \<Rightarrow> string option" where
  "superseding (Recorded e) = None"
| "superseding (SupersededBy e) = Some (cs_new_claim_id e)"

lemma claim_superseded_by_step:
  "cc_superseded_by (claim_step e c) =
     (case cc_superseded_by c of Some n \<Rightarrow> Some n | None \<Rightarrow> superseding e)"
  by (cases e) (auto simp: claim_step_defs Let_def split: option.splits)

lemma claim_superseded_by_replay:
  "cc_superseded_by (replay claim_step c es) =
     (case cc_superseded_by c of Some n \<Rightarrow> Some n
      | None \<Rightarrow> (case List.map_filter superseding es of [] \<Rightarrow> None | n # _ \<Rightarrow> Some n))"
  by (induction es arbitrary: c)
    (auto simp: claim_superseded_by_step map_filter_simps split: option.splits list.splits)

text \<open>
  the first supersession in commit order decides the replacement of a claim, whatever is
  recorded or superseded afterwards.
\<close>

theorem first_supersession_wins:
  "cc_superseded_by (claim_replay es) =
     (case List.map_filter superseding es of [] \<Rightarrow> None | n # _ \<Rightarrow> Some n)"
  by (simp add: claim_superseded_by_replay claim_card_default_def)

fun judged_of :: "settlement_event \<Rightarrow> JudgmentRecord option" where
  "judged_of (Judged e) = Some (judgment_record e)"
| "judged_of (Deferred e) = None"

definition judgments :: "SettlementCard \<Rightarrow> JudgmentRecord list" where
  "judgments c = (case sm_authoritative c of None \<Rightarrow> [] | Some r \<Rightarrow> r # sm_later_judgments c)"

lemma judgments_step:
  "(sm_authoritative c = None \<longrightarrow> sm_later_judgments c = []) \<Longrightarrow>
   judgments (settlement_step e c) = judgments c @ (case judged_of e of None \<Rightarrow> [] | Some r \<Rightarrow> [r])"
  by (cases e)
    (auto simp: judgments_def settlement_on_judged_def settlement_on_deferred_def Let_def
      split: option.splits)

lemma judgments_replay:
  "(sm_authoritative c = None \<longrightarrow> sm_later_judgments c = []) \<Longrightarrow>
   judgments (replay settlement_step c es) = judgments c @ List.map_filter judged_of es"
proof (induction es arbitrary: c)
  case (Cons e es)
  then show ?case
    using settlement_card.wf_step [OF Cons.prems, of e]
    by (simp add: judgments_step map_filter_simps split: option.split)
qed (simp add: map_filter_simps)

text \<open>
  a settlement card keeps every judgment of the pair in commit order, the first one as the
  authority and the later ones as history; no later judgment or deferral changes the authority.
\<close>

theorem first_judgment_authoritative:
  "sm_authoritative (settlement_replay es) =
     (case List.map_filter judged_of es of [] \<Rightarrow> None | r # _ \<Rightarrow> Some r)
   \<and> sm_later_judgments (settlement_replay es) = tl (List.map_filter judged_of es)"
proof -
  have "judgments (settlement_replay es) = List.map_filter judged_of es"
    using judgments_replay [of settlement_card_default es]
    by (simp add: judgments_def settlement_card_default_def)
  moreover have "sm_authoritative (settlement_replay es) = None \<longrightarrow> sm_later_judgments (settlement_replay es) = []"
    by (rule settlement_card.wf_replay)
  ultimately show ?thesis
    by (cases "sm_authoritative (settlement_replay es)"; cases "List.map_filter judged_of es")
      (auto simp: judgments_def)
qed

section \<open>Session logs\<close>

lemma sort_key_snoc: "sort_key f (sort_key f xs @ [x]) = sort_key f (xs @ [x])"
  for f :: "'a \<Rightarrow> 'b::linorder"
proof (rule properties_for_sort_key)
  show "mset (sort_key f (xs @ [x])) = mset (sort_key f xs @ [x])" by simp
  show "filter (\<lambda>y. f k = f y) (sort_key f (xs @ [x])) = filter (\<lambda>y. f k = f y) (sort_key f xs @ [x])"
    if "k \<in> set (sort_key f (xs @ [x]))" for k
    using sort_key_stable [of f "f k" "xs @ [x]"] sort_key_stable [of f "f k" xs]
    by (simp add: eq_commute)
qed simp

text \<open>
  a session log is its turns in turn order; turns with the same number keep their arrival
  order.
\<close>

theorem session_log_stable_sort:
  "replay session_on_turn [] es = sort_key te_turn_no (map turn_entry es)"
proof (induction es rule: rev_induct)
  case (snoc e es)
  then show ?case
    by (simp add: replay_snoc session_on_turn_def) (rule sort_key_snoc)
qed simp

section \<open>Sources\<close>

lemma observations_replay:
  "sc_observations c \<le> u32_max \<Longrightarrow>
   sc_observations (replay source_on_observed c es) = min (sc_observations c + length es) u32_max"
proof (induction es arbitrary: c)
  case (Cons e es)
  then show ?case
    using source_card.wf_step [OF Cons.prems, of e]
    by (simp add: source_on_observed_def sat_add32_def min_def)
qed simp

text \<open> a source card counts its observations, and the count saturates instead of wrapping. \<close>

theorem source_observation_count:
  "sc_observations (replay source_on_observed source_card_default es) = min (length es) u32_max"
  using observations_replay [of source_card_default es] by (simp add: source_card_default_def)

section \<open>Derived status\<close>

text \<open> A claim re-recorded after its supersession is current again while it keeps its replacement.\<close>

lemma rerecorded_claim_is_current:
  "cc_superseded_by (claim_replay [Recorded e, SupersededBy s, Recorded e']) = Some (cs_new_claim_id s)
   \<and> claim_status (claim_replay [Recorded e, SupersededBy s, Recorded e']) False = StCurrent"
  by (simp add: claim_step_defs claim_card_default_def claim_status_def Let_def)

lemma claim_status_superseded:
  assumes "cc_anomalies (claim_replay es) = []"
  shows "claim_status (claim_replay es) b = StSuperseded \<longleftrightarrow> cc_superseded_by (claim_replay es) \<noteq> None"
  using claim_card.wf_replay [of es] assms by (auto simp: claim_wf_def claim_status_def)

end
