(* ===== verification/Errors.thy ===== *)
theory Errors
  imports Text Ids
begin

text \<open>
  The crate-wide error (\<open>src/error.rs\<close>): its variants, the stable machine-readable code of
  each, the recovery facts every surface reports, and the message a handler failure carries to
  the runtime.  Errors of libraries (\<open>io\<close>, \<open>serde_json\<close>, the store) are their rendered text.
\<close>

section \<open>Vocabulary\<close>

datatype SurfaceKind = Http | Mcp | Cli

datatype Committed = CommittedNo | CommittedPartial | CommittedYes | CommittedUnknown

record FailureFacts =
  ff_committed :: Committed
  ff_retry_safe :: bool
  ff_resume :: "string option"

datatype SnapshotFailureKind = InvalidToken | SnapUnavailable | AnchorMismatch | SourceUnavailable

datatype ReplicationFailureKind =
  InvalidTopology | DestinationNotFresh | ModeMismatch | ReplAnchorMismatch | Verification
| Evidence | Substrate | Transport | Busy

fun replication_code :: "ReplicationFailureKind \<Rightarrow> string" where
  "replication_code InvalidTopology = ''replication.topology''"
| "replication_code DestinationNotFresh = ''replication.destination_not_fresh''"
| "replication_code ModeMismatch = ''replication.mode''"
| "replication_code ReplAnchorMismatch = ''replication.anchor''"
| "replication_code Verification = ''replication.verify''"
| "replication_code Evidence = ''replication.evidence''"
| "replication_code Substrate = ''replication.substrate''"
| "replication_code Transport = ''replication.transport''"
| "replication_code Busy = ''replication.busy''"

fun snapshot_code :: "SnapshotFailureKind \<Rightarrow> string" where
  "snapshot_code InvalidToken = ''snapshot.invalid''"
| "snapshot_code SnapUnavailable = ''snapshot.unavailable''"
| "snapshot_code AnchorMismatch = ''snapshot.anchor''"
| "snapshot_code SourceUnavailable = ''snapshot.source_unavailable''"

fun surface_code :: "SurfaceKind \<Rightarrow> string" where
  "surface_code Http = ''surface.http''"
| "surface_code Mcp = ''surface.mcp''"
| "surface_code Cli = ''surface.cli''"

section \<open>The error and its code\<close>

datatype TexoError =
  ErrConfig string
| ErrIo string
| ErrJson string
| ErrStore string
| ErrCoordinate string
| ErrRegistry string
| ErrDecode string string
| ErrReceiptInvalid string string
| ErrIdParse IdParseError
| ErrStatusParse string
| ErrTransition string u64 u64 "string option"
| ErrMissingEntity string
| ErrSource string string
| ErrExtract string
| ErrSemantics string string
| ErrVerify "string list"
| ErrOpInput string string
| ErrOpRuntime string string bool
| ErrHost string
| ErrSurface SurfaceKind string
| ErrModel string
| ErrSession string
| ErrBackup string
| ErrSnapshot SnapshotFailureKind string
| ErrReplication ReplicationFailureKind Committed string

fun error_code :: "TexoError \<Rightarrow> string" where
  "error_code (ErrConfig _) = ''config''"
| "error_code (ErrIo _) = ''io''"
| "error_code (ErrJson _) = ''json''"
| "error_code (ErrStore _) = ''store''"
| "error_code (ErrCoordinate _) = ''store.coordinate''"
| "error_code (ErrRegistry _) = ''store.registry''"
| "error_code (ErrDecode _ _) = ''journal.decode''"
| "error_code (ErrReceiptInvalid _ _) = ''journal.receipt''"
| "error_code (ErrIdParse _) = ''domain.id''"
| "error_code (ErrStatusParse _) = ''domain.status''"
| "error_code (ErrTransition _ _ _ _) = ''domain.transition''"
| "error_code (ErrMissingEntity _) = ''domain.missing''"
| "error_code (ErrSource _ _) = ''source''"
| "error_code (ErrExtract _) = ''extract''"
| "error_code (ErrSemantics _ _) = ''semantics''"
| "error_code (ErrVerify _) = ''verify''"
| "error_code (ErrOpInput _ _) = ''op.input''"
| "error_code (ErrOpRuntime _ _ denied) = (if denied then ''op.denied'' else ''op.runtime'')"
| "error_code (ErrHost _) = ''host''"
| "error_code (ErrSurface which _) = surface_code which"
| "error_code (ErrModel _) = ''agent.model''"
| "error_code (ErrSession _) = ''agent.session''"
| "error_code (ErrBackup _) = ''backup''"
| "error_code (ErrSnapshot kind _) = snapshot_code kind"
| "error_code (ErrReplication kind _ _) = replication_code kind"

section \<open>Recovery facts\<close>

definition facts_of :: "Committed \<Rightarrow> bool \<Rightarrow> string option \<Rightarrow> FailureFacts" where
  "facts_of c r m = \<lparr>ff_committed = c, ff_retry_safe = r, ff_resume = m\<rparr>"

fun replication_resume :: "ReplicationFailureKind \<Rightarrow> string" where
  "replication_resume InvalidTopology = ''fix the replica topology and retry''"
| "replication_resume DestinationNotFresh = ''fix the replica topology and retry''"
| "replication_resume ModeMismatch = ''fix the replica topology and retry''"
| "replication_resume ReplAnchorMismatch =
     ''inspect the source journal identity before resuming''"
| "replication_resume Verification =
     ''verify the replica and rebuild it from its canonical source''"
| "replication_resume Evidence = ''retry to persist the replica evidence cursor''"
| "replication_resume Substrate =
     ''inspect both journal frontiers and receipts before retrying''"
| "replication_resume Transport = ''resume the replica from its durable cursor''"
| "replication_resume Busy = ''retry after the current journal owner releases it''"

definition replication_facts :: "ReplicationFailureKind \<Rightarrow> Committed \<Rightarrow> FailureFacts" where
  "replication_facts kind committed =
     facts_of committed (kind \<in> {Evidence, Transport, Busy}) (Some (replication_resume kind))"

fun snapshot_resume :: "SnapshotFailureKind \<Rightarrow> string" where
  "snapshot_resume InvalidToken = ''fix the snapshot token and retry''"
| "snapshot_resume SnapUnavailable = ''request the latest workspace snapshot and retry''"
| "snapshot_resume AnchorMismatch = ''request the latest workspace snapshot and retry''"
| "snapshot_resume SourceUnavailable = ''request the latest workspace snapshot and retry''"

definition duplicate_turn :: string where
  "duplicate_turn = ''user turn already recorded; re-sending duplicates it''"

definition inspect_receipts :: string where
  "inspect_receipts = ''inspect receipts and run `texo verify` before retrying''"

abbreviation no_facts :: FailureFacts where
  "no_facts \<equiv> facts_of CommittedNo False None"

abbreviation unknown_facts :: FailureFacts where
  "unknown_facts \<equiv> facts_of CommittedUnknown False (Some inspect_receipts)"

text \<open>The \<open>OpRuntime\<close> arms, in the order the code tries them.\<close>

definition op_runtime_facts :: "string \<Rightarrow> string \<Rightarrow> bool \<Rightarrow> FailureFacts" where
  "op_runtime_facts op detail denied =
     (if denied then no_facts
      else if op = ''texo.agent.chat'' \<and> contains_sub detail ''agent.model''
      then facts_of CommittedYes False (Some duplicate_turn)
      else if op = ''texo.ingest.run'' \<and> contains_sub detail ''source'' then no_facts
      else if op \<in> {''texo.claim.supersede'', ''texo.conflict.resolve''} \<and>
              contains_sub detail ''domain.transition'' then no_facts
      else unknown_facts)"

fun failure_facts :: "TexoError \<Rightarrow> FailureFacts" where
  "failure_facts (ErrConfig _) = no_facts"
| "failure_facts (ErrJson _) = no_facts"
| "failure_facts (ErrCoordinate _) = no_facts"
| "failure_facts (ErrRegistry _) = no_facts"
| "failure_facts (ErrIdParse _) = no_facts"
| "failure_facts (ErrStatusParse _) = no_facts"
| "failure_facts (ErrTransition _ _ _ _) = no_facts"
| "failure_facts (ErrMissingEntity _) = no_facts"
| "failure_facts (ErrSource _ _) = no_facts"
| "failure_facts (ErrExtract _) = no_facts"
| "failure_facts (ErrVerify _) = no_facts"
| "failure_facts (ErrBackup _) = no_facts"
| "failure_facts (ErrSnapshot kind _) =
     facts_of CommittedNo True (Some (snapshot_resume kind))"
| "failure_facts (ErrReplication kind committed _) = replication_facts kind committed"
| "failure_facts (ErrOpInput _ _) =
     facts_of CommittedNo True (Some ''fix the input and retry'')"
| "failure_facts (ErrSemantics _ _) =
     facts_of CommittedNo True (Some ''run `texo relate` to resume unresolved pairs'')"
| "failure_facts (ErrModel _) = facts_of CommittedYes False (Some duplicate_turn)"
| "failure_facts (ErrOpRuntime op detail denied) = op_runtime_facts op detail denied"
| "failure_facts (ErrIo _) = unknown_facts"
| "failure_facts (ErrStore _) = unknown_facts"
| "failure_facts (ErrDecode _ _) = unknown_facts"
| "failure_facts (ErrReceiptInvalid _ _) = unknown_facts"
| "failure_facts (ErrHost _) = unknown_facts"
| "failure_facts (ErrSurface _ _) = unknown_facts"
| "failure_facts (ErrSession _) = unknown_facts"

section \<open>Handler errors\<close>

text \<open>
  \<open>From<TexoError> for HandlerError\<close>.  The rendered text of the error itself is the derived
  \<open>Display\<close>, a parameter here.
\<close>

datatype HandlerError = InvalidInput string | Failed string

definition handler_error :: "(TexoError \<Rightarrow> string) \<Rightarrow> TexoError \<Rightarrow> HandlerError" where
  "handler_error display e =
     (let message = error_code e @ '': '' @ display e
      in case e of ErrOpInput _ _ \<Rightarrow> InvalidInput message | _ \<Rightarrow> Failed message)"

fun handler_message :: "HandlerError \<Rightarrow> string" where
  "handler_message (InvalidInput m) = m"
| "handler_message (Failed m) = m"

section \<open>What the facts promise\<close>

lemma find_sub_append: "find_sub (pre @ p @ post) p \<noteq> None"
proof (induction pre)
  case Nil
  have "starts_with (p @ post) p" by simp
  then show ?case by (cases "p @ post") (auto simp: starts_with_def)
next
  case (Cons c pre)
  then show ?case by auto
qed

lemma contains_sub_append [simp]: "contains_sub (pre @ p @ post) p"
  using find_sub_append by (simp add: contains_sub_def)

lemma contains_sub_prefix [simp]: "contains_sub (p @ post) p"
  using contains_sub_append [of "[]" p post] by simp

text \<open>
  Retry advice is conservative.  A failure whose identical replay is declared safe either
  left nothing committed, or is one of the three replica-circuit failures whose replay is
  idempotent by design; and a failure whose commit state is unknown always carries an
  instruction and, outside the replica circuit, is never declared safe to replay.
\<close>
lemma retry_advice_conservative:
  "(ff_retry_safe (failure_facts e) \<longrightarrow>
      ff_committed (failure_facts e) = CommittedNo \<or>
      (\<exists>k c d. e = ErrReplication k c d \<and> k \<in> {Evidence, Transport, Busy}))
   \<and> (ff_committed (failure_facts e) = CommittedUnknown \<longrightarrow>
      ff_resume (failure_facts e) \<noteq> None \<and>
      (ff_retry_safe (failure_facts e) \<longrightarrow>
         (\<exists>k d. e = ErrReplication k CommittedUnknown d)))"
  by (cases e) (auto simp: facts_of_def replication_facts_def op_runtime_facts_def)

theorem retry_advice_conservative_witness:
  "ff_committed (failure_facts (ErrOpInput ''op'' ''bad'')) = CommittedNo
   \<and> ff_resume (failure_facts (ErrIo ''disk'')) \<noteq> None"
proof -
  have "ff_retry_safe (failure_facts (ErrOpInput ''op'' ''bad''))"
    and "ff_committed (failure_facts (ErrIo ''disk'')) = CommittedUnknown"
    by (simp_all add: facts_of_def)
  then show ?thesis
    using retry_advice_conservative [of "ErrOpInput ''op'' ''bad''"]
      retry_advice_conservative [of "ErrIo ''disk''"] by blast
qed

text \<open>
  The facts of a model failure survive the runtime.  When the chat operation fails in the
  model after its user turn was recorded, the handler error is rendered into the detail of an
  \<open>OpRuntime\<close> error, whatever the runtime writes around it; the facts reported for that error are
  still those of the model failure: committed, and not to be re-sent.
\<close>
lemma model_failure_disclosed:
  "failure_facts (ErrOpRuntime ''texo.agent.chat''
      (pre @ handler_message (handler_error display (ErrModel d)) @ post) False)
    = failure_facts (ErrModel d)"
proof -
  have "contains_sub (pre @ ''agent.model'' @ ('': '' @ display (ErrModel d) @ post))
          ''agent.model''"
    by (rule contains_sub_append)
  then show ?thesis
    by (simp add: op_runtime_facts_def handler_error_def Let_def)
qed

text \<open> The code separates input errors from failures as the handler error's constructor does.\<close>

lemma handler_error_input_iff:
  "(\<exists>m. handler_error display e = InvalidInput m) \<longleftrightarrow> error_code e = ''op.input''"
proof (cases e)
  case (ErrSnapshot k d)
  then show ?thesis by (cases k) (auto simp: handler_error_def Let_def)
next
  case (ErrReplication k c d)
  then show ?thesis by (cases k) (auto simp: handler_error_def Let_def)
next
  case (ErrSurface k d)
  then show ?thesis by (cases k) (auto simp: handler_error_def Let_def)
qed (auto simp: handler_error_def Let_def split: if_splits)

end
