(* ===== verification/Journal.thy ===== *)
theory Journal
  imports Payloads Errors
begin

text \<open>
  The journal as the code sees it (\<open>src/journal_store.rs\<close>).  The BatPak store itself is not in
  this repository: a \<open>journal\<close> is the record of the three reads of the trait \<open>JournalRead\<close>, and
  \<open>journal_of\<close> states the documented behaviour of a store whose scope holds a given list of
  entries (pages in sequence order after an exclusive sequence).  The theory then models the
  paging loop every projection of the crate runs, with its early exits, and shows that paging
  is invisible: the loop returns, and what it computes is the fold over the whole suffix.
\<close>

section \<open>Stored events\<close>

datatype domain_event =
  EvSourceObserved SourceObservedV2
| EvClaimRecorded ClaimRecordedV2
| EvClaimSuperseded ClaimSupersededV2
| EvConflictOpened ConflictOpenedV2
| EvConflictResolved ConflictResolvedV2
| EvOnboardingCompiled OnboardingCompiledV2
| EvWorkspaceInitialized WorkspaceInitializedV2
| EvSessionTurn SessionTurnV1
| EvRelationJudged RelationJudgedV1
| EvRelationDeferred RelationDeferredV1
| EvCampaignCheckpoint RelationCampaignCheckpointV1
| EvSourceSnapshotRecorded SourceSnapshotRecordedV1
| EvEvidenceOccurrence EvidenceOccurrenceRecordedV1
| EvClaimEvidenceLinked ClaimEvidenceLinkedV1
| EvCodeIndexRecorded CodeIndexRecordedV1
| EvSourceSnapshotRelation SourceSnapshotRelationV1
| EvReconciliationAccepted EvidenceReconciliationAcceptedV1
| EvReplicaBatchMaterialized ReplicaBatchMaterializedV1

datatype event_kind =
  KSourceObserved | KClaimRecorded | KClaimSuperseded | KConflictOpened | KConflictResolved
| KOnboardingCompiled | KWorkspaceInitialized | KSessionTurn | KRelationJudged
| KRelationDeferred | KCampaignCheckpoint | KSourceSnapshotRecorded | KEvidenceOccurrence
| KClaimEvidenceLinked | KCodeIndexRecorded | KSourceSnapshotRelation
| KReconciliationAccepted | KReplicaBatchMaterialized | KForeign nat

fun kind_of :: "domain_event \<Rightarrow> event_kind" where
  "kind_of (EvSourceObserved _) = KSourceObserved"
| "kind_of (EvClaimRecorded _) = KClaimRecorded"
| "kind_of (EvClaimSuperseded _) = KClaimSuperseded"
| "kind_of (EvConflictOpened _) = KConflictOpened"
| "kind_of (EvConflictResolved _) = KConflictResolved"
| "kind_of (EvOnboardingCompiled _) = KOnboardingCompiled"
| "kind_of (EvWorkspaceInitialized _) = KWorkspaceInitialized"
| "kind_of (EvSessionTurn _) = KSessionTurn"
| "kind_of (EvRelationJudged _) = KRelationJudged"
| "kind_of (EvRelationDeferred _) = KRelationDeferred"
| "kind_of (EvCampaignCheckpoint _) = KCampaignCheckpoint"
| "kind_of (EvSourceSnapshotRecorded _) = KSourceSnapshotRecorded"
| "kind_of (EvEvidenceOccurrence _) = KEvidenceOccurrence"
| "kind_of (EvClaimEvidenceLinked _) = KClaimEvidenceLinked"
| "kind_of (EvCodeIndexRecorded _) = KCodeIndexRecorded"
| "kind_of (EvSourceSnapshotRelation _) = KSourceSnapshotRelation"
| "kind_of (EvReconciliationAccepted _) = KReconciliationAccepted"
| "kind_of (EvReplicaBatchMaterialized _) = KReplicaBatchMaterialized"

text \<open>The bytes of one stored event: a payload of the domain, or bytes no payload decodes from.\<close>

datatype stored = Payload domain_event | Undecodable string

record IndexEntry =
  ie_seq :: u64
  ie_entity :: string
  ie_kind :: event_kind
  ie_id :: nat

section \<open>The read contract\<close>

record journal =
  jr_query :: "string \<Rightarrow> u64 option \<Rightarrow> usize \<Rightarrow> IndexEntry list"
  jr_read :: "nat \<Rightarrow> (stored, string) result"
  jr_generation :: "string \<Rightarrow> u64 option"

fun after_ok :: "u64 option \<Rightarrow> IndexEntry \<Rightarrow> bool" where
  "after_ok None e = True"
| "after_ok (Some a) e = (a < ie_seq e)"

definition journal_of :: "journal \<Rightarrow> string \<Rightarrow> IndexEntry list \<Rightarrow> bool" where
  "journal_of j scope log \<longleftrightarrow>
     sorted_wrt (\<lambda>d e. ie_seq d < ie_seq e) log \<and> (\<forall>e \<in> set log. 0 < ie_seq e) \<and>
     (\<forall>a n. jr_query j scope a n = take n (filter (after_ok a) log))"

text \<open>A journal held in memory; it meets the contract, so the hypothesis can be met.\<close>

definition memory_journal ::
  "string \<Rightarrow> (IndexEntry \<times> (stored, string) result) list \<Rightarrow> (string \<Rightarrow> u64 option) \<Rightarrow> journal" where
  "memory_journal scope rows gens =
     \<lparr>jr_query = (\<lambda>s a n. if s = scope then take n (filter (after_ok a) (map fst rows)) else []),
      jr_read = (\<lambda>i. case map_of (map (\<lambda>(e, r). (ie_id e, r)) rows) i of
                       Some r \<Rightarrow> r | None \<Rightarrow> Inl ''not found''),
      jr_generation = gens\<rparr>"

lemma memory_journal_of:
  assumes "sorted_wrt (\<lambda>d e. ie_seq d < ie_seq e) (map fst rows)"
    and "\<forall>e \<in> set (map fst rows). 0 < ie_seq e"
  shows "journal_of (memory_journal scope rows gens) scope (map fst rows)"
  using assms by (simp add: journal_of_def memory_journal_def)

section \<open>Write authority\<close>

text \<open>
  \<open>JournalStore\<close>: a canonical journal with a writer, or a replica without one.  Reads go to
  whichever store is wrapped; the append itself is the store's.
\<close>

datatype 's JournalStore = Writable 's | ReadOnly 's

fun writable_arc :: "'s JournalStore \<Rightarrow> 's option" where
  "writable_arc (Writable s) = Some s"
| "writable_arc (ReadOnly s) = None"

fun js_read :: "('s \<Rightarrow> 'r) \<Rightarrow> 's JournalStore \<Rightarrow> 'r" where
  "js_read f (Writable s) = f s"
| "js_read f (ReadOnly s) = f s"

definition js_journal :: "('s \<Rightarrow> journal) \<Rightarrow> 's JournalStore \<Rightarrow> journal" where
  "js_journal view js =
     \<lparr>jr_query = js_read (\<lambda>s. jr_query (view s)) js,
      jr_read = js_read (\<lambda>s. jr_read (view s)) js,
      jr_generation = js_read (\<lambda>s. jr_generation (view s)) js\<rparr>"

fun store_writer :: "'s JournalStore \<Rightarrow> ('s, string) result" where
  "store_writer (Writable s) = Inr s"
| "store_writer (ReadOnly _) = Inl ''read-only journal has no append capability''"

definition append_typed_with_options ::
  "('s \<Rightarrow> 'c \<Rightarrow> domain_event \<Rightarrow> 'o \<Rightarrow> ('r \<times> 's, string) result) \<Rightarrow>
   's JournalStore \<Rightarrow> 'c \<Rightarrow> domain_event \<Rightarrow> 'o \<Rightarrow> ('r \<times> 's JournalStore, string) result" where
  "append_typed_with_options app js c p opts =
     res_bind (store_writer js) (\<lambda>s. res_bind (app s c p opts) (\<lambda>(r, s'). Inr (r, Writable s')))"

lemma js_journal_reads: "js_journal view (Writable s) = view s" "js_journal view (ReadOnly s) = view s"
  by (simp_all add: js_journal_def)

lemma append_needs_writer:
  "append_typed_with_options app js c p opts = Inr (r, js') \<longleftrightarrow>
     (\<exists>s s'. js = Writable s \<and> app s c p opts = Inr (r, s') \<and> js' = Writable s')"
  by (cases js) (auto simp: append_typed_with_options_def res_bind_eq_Inr)

section \<open>The paging loop\<close>

text \<open>
  Every projection scans the journal with the same loop: query a page after the last sequence
  seen, stop on an empty page, process the page, move on.  The body of the loop either goes on,
  leaves the loop (\<open>break 'pages\<close>) or returns an error (\<open>?\<close>); the state it has built so far is
  kept in every case, because the code mutates it in place.
\<close>

datatype flow = Next | Break | Fail TexoError

definition PAGE_LIMIT :: usize where
  "PAGE_LIMIT = 256"

partial_function (option) pages ::
  "(u64 option \<Rightarrow> IndexEntry list) \<Rightarrow> (IndexEntry list \<Rightarrow> 's \<Rightarrow> 's \<times> flow) \<Rightarrow> u64 option \<Rightarrow>
   's \<Rightarrow> ('s \<times> flow) option" where
  "pages query body after s =
     (let page = query after in
      if page = [] then Some (s, Next)
      else case body page s of
             (s', Next) \<Rightarrow> pages query body (Some (ie_seq (last page))) s'
           | (s', f) \<Rightarrow> Some (s', f))"

text \<open>The inner \<open>for entry in &page\<close> loop, which the same three outcomes end.\<close>

fun entries_loop :: "(IndexEntry \<Rightarrow> 's \<Rightarrow> 's \<times> flow) \<Rightarrow> IndexEntry list \<Rightarrow> 's \<Rightarrow> 's \<times> flow" where
  "entries_loop step [] s = (s, Next)"
| "entries_loop step (e # es) s =
     (case step e s of (s', Next) \<Rightarrow> entries_loop step es s' | (s', f) \<Rightarrow> (s', f))"

lemma entries_loop_append:
  "entries_loop step (xs @ ys) s =
     (case entries_loop step xs s of (s', Next) \<Rightarrow> entries_loop step ys s' | (s', f) \<Rightarrow> (s', f))"
  by (induction xs arbitrary: s) (auto split: prod.splits flow.splits)

text \<open>The pages of a list: what the loop is expected to do, page by page.\<close>

function chunks :: "nat \<Rightarrow> 'a list \<Rightarrow> 'a list list" where
  "chunks n xs = (if n = 0 \<or> xs = [] then [] else take n xs # chunks n (drop n xs))"
  by pat_completeness auto
termination
  by (relation "measure (\<lambda>(n, xs). length xs)") auto

declare chunks.simps [simp del]

fun chunk_loop :: "(IndexEntry list \<Rightarrow> 's \<Rightarrow> 's \<times> flow) \<Rightarrow> IndexEntry list list \<Rightarrow> 's \<Rightarrow> 's \<times> flow" where
  "chunk_loop body [] s = (s, Next)"
| "chunk_loop body (p # ps) s =
     (case body p s of (s', Next) \<Rightarrow> chunk_loop body ps s' | (s', f) \<Rightarrow> (s', f))"

lemma concat_chunks: "0 < n \<Longrightarrow> concat (chunks n xs) = xs"
proof (induction n xs rule: chunks.induct)
  case (1 n xs)
  then show ?case by (subst chunks.simps) auto
qed

lemma chunks_nonempty: "p \<in> set (chunks n xs) \<Longrightarrow> p \<noteq> []"
proof (induction n xs rule: chunks.induct)
  case (1 n xs)
  then show ?case by (subst (asm) (2) chunks.simps) (auto split: if_splits)
qed

lemma after_last_page:
  assumes "sorted_wrt (\<lambda>d e. ie_seq d < ie_seq e) log" and "filter (after_ok a) log = xs"
    and "xs \<noteq> []" and "0 < n"
  shows "filter (after_ok (Some (ie_seq (last (take n xs))))) log = drop n xs"
proof -
  let ?l = "last (take n xs)"
  have srt: "sorted_wrt (\<lambda>d e. ie_seq d < ie_seq e) xs"
    using assms(1,2) sorted_wrt_filter by blast
  have split: "xs = take n xs @ drop n xs" by simp
  have ne: "take n xs \<noteq> []" using assms(3,4) by simp
  have lin: "?l \<in> set (take n xs)" using ne by simp
  then have "?l \<in> set xs" using set_take_subset by fastforce
  then have la: "after_ok a ?l" using assms(2) by auto
  have mono: "filter (after_ok (Some (ie_seq ?l))) log
                = filter (after_ok (Some (ie_seq ?l))) (filter (after_ok a) log)"
    using la by (cases a) (auto intro!: filter_cong)
  have srt2: "sorted_wrt (\<lambda>d e. ie_seq d < ie_seq e) (take n xs @ drop n xs)" using srt by simp
  have low: "\<forall>e \<in> set (take n xs). \<not> after_ok (Some (ie_seq ?l)) e"
  proof
    fix e assume e: "e \<in> set (take n xs)"
    have st: "sorted_wrt (\<lambda>d e. ie_seq d < ie_seq e) (butlast (take n xs) @ [?l])"
      using srt2 ne by (simp add: sorted_wrt_append)
    show "\<not> after_ok (Some (ie_seq ?l)) e"
    proof (cases "e = ?l")
      case False
      have eq: "take n xs = butlast (take n xs) @ [?l]" using ne by simp
      have "e \<in> set (butlast (take n xs) @ [?l])" using e eq by metis
      with False have "e \<in> set (butlast (take n xs))" by simp
      then have "ie_seq e < ie_seq ?l" using st by (auto simp: sorted_wrt_append)
      then show ?thesis by simp
    qed simp
  qed
  have high: "\<forall>e \<in> set (drop n xs). after_ok (Some (ie_seq ?l)) e"
    using srt2 lin unfolding sorted_wrt_append by simp
  have "filter (after_ok (Some (ie_seq ?l))) xs =
          filter (after_ok (Some (ie_seq ?l))) (take n xs) @
          filter (after_ok (Some (ie_seq ?l))) (drop n xs)"
    by (metis append_take_drop_id filter_append)
  also have "\<dots> = drop n xs" using low high by (simp add: filter_empty_conv filter_id_conv)
  finally show ?thesis using mono assms(2) by simp
qed

text \<open> The loop returns, and it is the walk over the pages of the suffix it starts from.\<close>

lemma pages_eq:
  assumes j: "journal_of j scope log" and n: "0 < n"
  shows "pages (\<lambda>a. jr_query j scope a n) body a s =
           Some (chunk_loop body (chunks n (filter (after_ok a) log)) s)"
proof (induction "length (filter (after_ok a) log)" arbitrary: a s rule: less_induct)
  case less
  let ?xs = "filter (after_ok a) log"
  have q: "jr_query j scope a n = take n ?xs" using j by (simp add: journal_of_def)
  have srt: "sorted_wrt (\<lambda>d e. ie_seq d < ie_seq e) log" using j by (simp add: journal_of_def)
  show ?case
  proof (cases "?xs = []")
    case True
    then show ?thesis by (subst pages.simps) (simp add: q chunks.simps)
  next
    case False
    let ?a' = "Some (ie_seq (last (take n ?xs)))"
    have d: "filter (after_ok ?a') log = drop n ?xs"
      using after_last_page [OF srt refl False n] .
    have c: "chunks n ?xs = take n ?xs # chunks n (drop n ?xs)"
      using False n by (subst chunks.simps) simp
    have ih: "pages (\<lambda>a. jr_query j scope a n) body ?a' s' =
                Some (chunk_loop body (chunks n (drop n ?xs)) s')" for s'
      using less [of ?a' s'] d False n by simp
    show ?thesis
      using False n ih by (subst pages.simps) (auto simp: q c Let_def split: prod.splits flow.splits)
  qed
qed

lemma chunk_entries: "chunk_loop (entries_loop step) ps s = entries_loop step (concat ps) s"
  by (induction ps arbitrary: s) (auto simp: entries_loop_append split: prod.splits flow.splits)

lemma pages_entries:
  assumes "journal_of j scope log" "0 < n"
  shows "pages (\<lambda>a. jr_query j scope a n) (entries_loop step) a s =
           Some (entries_loop step (filter (after_ok a) log) s)"
  using pages_eq [OF assms, of "entries_loop step" a s] assms(2) by (simp add: chunk_entries concat_chunks)

text \<open>
  Scanning to a frontier: a step that leaves the loop at the first entry past the frontier
  processes exactly the entries up to it.
\<close>

definition up_to :: "u64 \<Rightarrow> IndexEntry list \<Rightarrow> IndexEntry list" where
  "up_to fr log = filter (\<lambda>e. ie_seq e \<le> fr) log"

lemma upto_sorted_prefix:
  assumes "sorted_wrt (\<lambda>d e. ie_seq d < ie_seq e) (e # es)" "fr < ie_seq e"
  shows "up_to fr (e # es) = []"
  using assms by (auto simp: up_to_def filter_empty_conv)

lemma entries_loop_upto:
  assumes "sorted_wrt (\<lambda>d e. ie_seq d < ie_seq e) log"
    and "\<And>e s. fr < ie_seq e \<Longrightarrow> step e s = (s, Break)"
    and "\<And>e s. ie_seq e \<le> fr \<Longrightarrow> snd (step e s) \<noteq> Break"
  shows "fst (entries_loop step log s) = fst (entries_loop step (up_to fr log) s) \<and>
         (\<forall>err. snd (entries_loop step log s) = Fail err \<longleftrightarrow>
                snd (entries_loop step (up_to fr log) s) = Fail err)"
  using assms(1)
proof (induction log arbitrary: s)
  case Nil
  then show ?case by (simp add: up_to_def)
next
  case (Cons e es)
  show ?case
  proof (cases "fr < ie_seq e")
    case True
    then show ?thesis
      using upto_sorted_prefix [OF Cons.prems True] assms(2) [OF True] by simp
  next
    case False
    then have "up_to fr (e # es) = e # up_to fr es" by (simp add: up_to_def)
    then show ?thesis
      using Cons.IH Cons.prems assms(3) [of e s] False
      by (auto split: prod.splits flow.splits)
  qed
qed

text \<open>
  A scan to a frontier whose steps succeed is the fold over the entries up to it, on every
  store that meets the contract and for every page size.
\<close>

lemma entries_loop_fold:
  assumes "\<And>e s. e \<in> set es \<Longrightarrow> step e s = (f e s, Next)"
  shows "entries_loop step es s = (foldl (\<lambda>s e. f e s) s es, Next)"
  using assms by (induction es arbitrary: s) auto

lemma scan_exact:
  assumes j: "journal_of j scope log" and n: "0 < n"
    and past: "\<And>e s. fr < ie_seq e \<Longrightarrow> step e s = (s, Break)"
    and low: "\<And>e s. e \<in> set log \<Longrightarrow> ie_seq e \<le> fr \<Longrightarrow> step e s = (f e s, Next)"
  obtains fl where "pages (\<lambda>a. jr_query j scope a n) (entries_loop step) None s
      = Some (foldl (\<lambda>s e. f e s) s (up_to fr log), fl)" "fl = Next \<or> fl = Break"
proof -
  have srt: "sorted_wrt (\<lambda>d e. ie_seq d < ie_seq e) log" using j by (simp add: journal_of_def)
  have cut: "entries_loop step log s = (foldl (\<lambda>s e. f e s) s (up_to fr log), Next) \<or>
      entries_loop step log s = (foldl (\<lambda>s e. f e s) s (up_to fr log), Break)"
    using srt low
  proof (induction log arbitrary: s)
    case (Cons e es)
    show ?case
    proof (cases "fr < ie_seq e")
      case True
      then show ?thesis using upto_sorted_prefix [OF Cons.prems(1) True] past [OF True] by simp
    next
      case False
      have "up_to fr (e # es) = e # up_to fr es" using False by (simp add: up_to_def)
      moreover have "step e s = (f e s, Next)" using False Cons.prems(2) by simp
      ultimately show ?thesis using Cons.IH [of "f e s"] Cons.prems by simp
    qed
  qed (simp add: up_to_def)
  show ?thesis using pages_entries [OF j n, of step None s] cut that by auto
qed

text \<open>
  A journal is well typed when every entry can be read and a payload kind of the domain decodes
  to a payload of that kind.
\<close>

definition well_typed :: "journal \<Rightarrow> IndexEntry list \<Rightarrow> bool" where
  "well_typed j log \<longleftrightarrow>
     (\<forall>e \<in> set log. \<exists>raw. jr_read j (ie_id e) = Inr raw \<and>
        ((\<exists>n. ie_kind e = KForeign n) \<or> (\<exists>ev. raw = Payload ev \<and> kind_of ev = ie_kind e)))"

text \<open>The typed decode of one stored payload; \<open>sel\<close> picks the payload type asked for.\<close>

definition decode_payload ::
  "(domain_event \<Rightarrow> 'a option) \<Rightarrow> string \<Rightarrow> stored \<Rightarrow> ('a, TexoError) result" where
  "decode_payload sel entity raw =
     (case raw of
        Undecodable detail \<Rightarrow> Inl (ErrDecode entity detail)
      | Payload ev \<Rightarrow>
          (case sel ev of Some x \<Rightarrow> Inr x | None \<Rightarrow> Inl (ErrDecode entity ''payload of another type'')))"

text \<open>The step of a scan that collects the payloads of one kind.\<close>

definition collect_entry ::
  "journal \<Rightarrow> u64 option \<Rightarrow> event_kind \<Rightarrow> (domain_event \<Rightarrow> 'a option) \<Rightarrow> (IndexEntry \<Rightarrow> 'a \<Rightarrow> 's \<Rightarrow> 's) \<Rightarrow>
   IndexEntry \<Rightarrow> 's \<Rightarrow> 's \<times> flow" where
  "collect_entry j frontier k sel put e s =
     (if (case frontier of None \<Rightarrow> False | Some fr \<Rightarrow> fr < ie_seq e) then (s, Break)
      else if ie_kind e \<noteq> k then (s, Next)
      else case jr_read j (ie_id e) of
             Inl err \<Rightarrow> (s, Fail (ErrStore err))
           | Inr raw \<Rightarrow>
               (case decode_payload sel (ie_entity e) raw of
                  Inl err \<Rightarrow> (s, Fail err)
                | Inr x \<Rightarrow> (put e x s, Next)))"

definition payload_of :: "journal \<Rightarrow> IndexEntry \<Rightarrow> domain_event option" where
  "payload_of j e = (case jr_read j (ie_id e) of Inr (Payload ev) \<Rightarrow> Some ev | _ \<Rightarrow> None)"

end
