(* ===== verification/Workspace.thy ===== *)
theory Workspace
  imports Journal Projections Coordinates
begin

text \<open>
  The workspace projection (\<open>src/claims/workspace.rs\<close>): the cache of card states with its
  frontier and anchor, its sidecar file, the incremental fold over the journal, the full
  rebuild, the historical replay and the derived view.  \<open>bad\<close> is what the event-sourcing derive
  of the store library does to a card when a stored payload does not decode.
\<close>

section \<open>State\<close>

definition SIDECAR_VERSION :: u32 where
  "SIDECAR_VERSION = 3"

datatype ProjectionFreshness = PfFresh | PfStale | PfRebuilding | PfInvalid

record WorkspaceCacheCounters =
  wc_assemble_calls :: u64
  wc_discovery_entries_paged :: u64
  wc_folded_events :: u64
  wc_project_calls :: u64
  wc_view_rebuilds :: u64
  wc_warm_view_hits :: u64

definition counters_default :: WorkspaceCacheCounters where
  "counters_default =
     \<lparr>wc_assemble_calls = 0, wc_discovery_entries_paged = 0, wc_folded_events = 0,
      wc_project_calls = 0, wc_view_rebuilds = 0, wc_warm_view_hits = 0\<rparr>"

datatype CachedCard = CardClaim ClaimCard | CardConflict ConflictCard | CardSource SourceCard

record ClaimView =
  cv_card :: ClaimCard
  cv_status :: ClaimStatus
  cv_supersedes :: "string list"

record WorkspaceView =
  wv_workspace_id :: string
  wv_frontier :: u64
  wv_freshness :: ProjectionFreshness
  wv_claims :: "ClaimView list"
  wv_conflicts :: "ConflictCard list"
  wv_sources :: "SourceCard list"

type_synonym cards = "(string, u64 \<times> CachedCard) btree"

record WorkspaceCache =
  ca_cards :: cards
  ca_frontier :: u64
  ca_anchor_event_id_hex :: string
  ca_view :: "WorkspaceView option"
  ca_freshness :: ProjectionFreshness
  ca_project_misses :: u64
  ca_counters :: WorkspaceCacheCounters
  ca_dirty :: bool

definition cache_default :: WorkspaceCache where
  "cache_default =
     \<lparr>ca_cards = [], ca_frontier = 0, ca_anchor_event_id_hex = [], ca_view = None,
      ca_freshness = PfInvalid, ca_project_misses = 0, ca_counters = counters_default,
      ca_dirty = False\<rparr>"

section \<open>The sidecar\<close>

record PersistedWorkspace =
  pw_version :: u32
  pw_workspace_id :: string
  pw_journal_id :: string
  pw_frontier :: u64
  pw_anchor_event_id_hex :: string
  pw_cache :: cards

definition sidecar_path :: "string \<Rightarrow> string \<Rightarrow> string \<Rightarrow> string" where
  "sidecar_path root workspace_id journal_id =
     root @ ''/.texo/cache/workspace-view/'' @ workspace_id @ ''--'' @ journal_id @ ''.bin''"

definition persisted_ref :: "string \<Rightarrow> string \<Rightarrow> WorkspaceCache \<Rightarrow> PersistedWorkspace" where
  "persisted_ref workspace_id journal_id c =
     \<lparr>pw_version = SIDECAR_VERSION, pw_workspace_id = workspace_id, pw_journal_id = journal_id,
      pw_frontier = ca_frontier c, pw_anchor_event_id_hex = ca_anchor_event_id_hex c,
      pw_cache = ca_cards c\<rparr>"

text \<open>
  The file system is a map from paths to contents; \<open>encode\<close> and \<open>decode\<close> are the binary codec.
\<close>

definition save_journal ::
  "(PersistedWorkspace \<Rightarrow> 'b) \<Rightarrow> string \<Rightarrow> string \<Rightarrow> string \<Rightarrow> WorkspaceCache \<Rightarrow>
   (string \<rightharpoonup> 'b) \<Rightarrow> (string \<rightharpoonup> 'b)" where
  "save_journal encode root workspace_id journal_id c fs =
     fs(sidecar_path root workspace_id journal_id \<mapsto> encode (persisted_ref workspace_id journal_id c))"

definition load_journal ::
  "('b \<Rightarrow> PersistedWorkspace option) \<Rightarrow> string \<Rightarrow> string \<Rightarrow> string \<Rightarrow> (string \<rightharpoonup> 'b) \<Rightarrow>
   WorkspaceCache" where
  "load_journal decode root workspace_id journal_id fs =
     (case fs (sidecar_path root workspace_id journal_id) of
        None \<Rightarrow> cache_default
      | Some bytes \<Rightarrow>
          (case decode bytes of
             None \<Rightarrow> cache_default\<lparr>ca_freshness := PfInvalid\<rparr>
           | Some p \<Rightarrow>
               if pw_version p \<noteq> SIDECAR_VERSION \<or> pw_workspace_id p \<noteq> workspace_id \<or>
                  pw_journal_id p \<noteq> journal_id
               then cache_default\<lparr>ca_freshness := PfInvalid\<rparr>
               else \<lparr>ca_cards = pw_cache p, ca_frontier = pw_frontier p,
                     ca_anchor_event_id_hex = pw_anchor_event_id_hex p, ca_view = None,
                     ca_freshness = PfStale, ca_project_misses = 0,
                     ca_counters = counters_default, ca_dirty = False\<rparr>))"

definition mark_clean :: "WorkspaceCache \<Rightarrow> WorkspaceCache" where
  "mark_clean c = c\<lparr>ca_dirty := False\<rparr>"

section \<open>Folding one event\<close>

datatype CardFamily = FamClaim | FamConflict | FamSource

definition card_family :: "string \<Rightarrow> CardFamily option" where
  "card_family entity =
     (if starts_with entity ''claim:'' then Some FamClaim
      else if starts_with entity ''conflict:'' then Some FamConflict
      else if starts_with entity ''source:'' then Some FamSource
      else None)"

fun relevant :: "CardFamily \<Rightarrow> event_kind \<Rightarrow> bool" where
  "relevant FamClaim k = (k = KClaimRecorded \<or> k = KClaimSuperseded)"
| "relevant FamConflict k = (k = KConflictOpened \<or> k = KConflictResolved)"
| "relevant FamSource k = (k = KSourceObserved)"

fun default_card :: "CardFamily \<Rightarrow> CachedCard" where
  "default_card FamClaim = CardClaim claim_card_default"
| "default_card FamConflict = CardConflict conflict_card_default"
| "default_card FamSource = CardSource source_card_default"

text \<open>\<open>apply_event\<close>: dispatch on the payload; a kind the card does not register is a no-op.\<close>

fun apply_event :: "(CachedCard \<Rightarrow> CachedCard) \<Rightarrow> stored \<Rightarrow> CachedCard \<Rightarrow> CachedCard" where
  "apply_event bad (Payload (EvClaimRecorded e)) (CardClaim c) = CardClaim (claim_on_recorded e c)"
| "apply_event bad (Payload (EvClaimSuperseded e)) (CardClaim c) =
     CardClaim (claim_on_superseded e c)"
| "apply_event bad (Payload (EvConflictOpened e)) (CardConflict c) =
     CardConflict (conflict_on_opened e c)"
| "apply_event bad (Payload (EvConflictResolved e)) (CardConflict c) =
     CardConflict (conflict_on_resolved e c)"
| "apply_event bad (Payload (EvSourceObserved e)) (CardSource c) =
     CardSource (source_on_observed e c)"
| "apply_event bad (Payload _) c = c"
| "apply_event bad (Undecodable _) c = bad c"

fun card_matches :: "CachedCard \<Rightarrow> CardFamily \<Rightarrow> bool" where
  "card_matches (CardClaim _) f = (f = FamClaim)"
| "card_matches (CardConflict _) f = (f = FamConflict)"
| "card_matches (CardSource _) f = (f = FamSource)"

definition apply_matching ::
  "(CachedCard \<Rightarrow> CachedCard) \<Rightarrow> CardFamily \<Rightarrow> stored \<Rightarrow> CachedCard \<Rightarrow> CachedCard" where
  "apply_matching bad fam ev c = (if card_matches c fam then apply_event bad ev c else c)"

definition count_folded :: "WorkspaceCache \<Rightarrow> WorkspaceCache" where
  "count_folded c =
     c\<lparr>ca_counters := (ca_counters c)\<lparr>wc_folded_events :=
         sat_add64 (wc_folded_events (ca_counters c)) 1\<rparr>\<rparr>"

definition fold_event ::
  "(CachedCard \<Rightarrow> CachedCard) \<Rightarrow> string \<Rightarrow> CardFamily \<Rightarrow> event_kind \<Rightarrow> stored \<Rightarrow>
   WorkspaceCache \<Rightarrow> WorkspaceCache" where
  "fold_event bad entity fam kind ev c =
     (if \<not> relevant fam kind then c
      else
        let cards = bt_or_insert entity (0, default_card fam) (ca_cards c) in
        case bt_get cards entity of
          None \<Rightarrow> c\<lparr>ca_cards := cards\<rparr>
        | Some (g, cd) \<Rightarrow>
            count_folded (c\<lparr>ca_cards := bt_insert entity (g, apply_matching bad fam ev cd) cards\<rparr>))"

section \<open>Advancing the cache\<close>

datatype FoldOutcome = NoDelta | Folded | GenerationRegressed

definition anchor_hex :: "IndexEntry \<Rightarrow> string" where
  "anchor_hex e = hex_pad 32 (ie_id e)"

definition set_frontier :: "IndexEntry \<Rightarrow> WorkspaceCache \<Rightarrow> WorkspaceCache" where
  "set_frontier e c = c\<lparr>ca_frontier := ie_seq e, ca_anchor_event_id_hex := anchor_hex e\<rparr>"

type_synonym priors = "(string, u64) btree"

definition note_prior :: "string \<Rightarrow> WorkspaceCache \<Rightarrow> priors \<Rightarrow> priors" where
  "note_prior entity c ps =
     bt_or_insert entity (case bt_get (ca_cards c) entity of None \<Rightarrow> 0 | Some (g, _) \<Rightarrow> g) ps"

text \<open>The body of the inner loop of \<open>fold_after\<close>.\<close>

definition fold_after_entry ::
  "journal \<Rightarrow> (CachedCard \<Rightarrow> CachedCard) \<Rightarrow> IndexEntry \<Rightarrow> WorkspaceCache \<times> priors \<Rightarrow>
   (WorkspaceCache \<times> priors) \<times> flow" where
  "fold_after_entry j bad e s =
     (case s of (c, ps) \<Rightarrow>
       case card_family (ie_entity e) of
         None \<Rightarrow> ((c, ps), Next)
       | Some fam \<Rightarrow>
           let ps' = note_prior (ie_entity e) c ps in
           case jr_read j (ie_id e) of
             Inl err \<Rightarrow> ((c, ps'), Fail (ErrStore err))
           | Inr ev \<Rightarrow> ((fold_event bad (ie_entity e) fam (ie_kind e) ev c, ps'), Next))"

definition count_paged :: "nat \<Rightarrow> WorkspaceCache \<Rightarrow> WorkspaceCache" where
  "count_paged n c =
     c\<lparr>ca_counters := (ca_counters c)\<lparr>wc_discovery_entries_paged :=
         sat_add64 (wc_discovery_entries_paged (ca_counters c)) n\<rparr>\<rparr>"

definition fold_after_page ::
  "journal \<Rightarrow> (CachedCard \<Rightarrow> CachedCard) \<Rightarrow> IndexEntry list \<Rightarrow> WorkspaceCache \<times> priors \<Rightarrow>
   (WorkspaceCache \<times> priors) \<times> flow" where
  "fold_after_page j bad page s =
     (case entries_loop (fold_after_entry j bad) page (count_paged (length page) (fst s), snd s) of
        ((c, ps), Next) \<Rightarrow> ((set_frontier (last page) c, ps), Next)
      | (s', f) \<Rightarrow> (s', f))"

fun stamp_generations :: "journal \<Rightarrow> priors \<Rightarrow> WorkspaceCache \<Rightarrow> WorkspaceCache \<times> FoldOutcome" where
  "stamp_generations j [] c = (c, Folded)"
| "stamp_generations j ((entity, prior) # ps) c =
     (let g = (case jr_generation j entity of Some g \<Rightarrow> g | None \<Rightarrow> 0) in
      if g < prior then (c, GenerationRegressed)
      else stamp_generations j ps
             (case bt_get (ca_cards c) entity of
                None \<Rightarrow> c
              | Some (_, cd) \<Rightarrow> c\<lparr>ca_cards := bt_insert entity (g, cd) (ca_cards c)\<rparr>))"

definition fold_after ::
  "journal \<Rightarrow> string \<Rightarrow> (CachedCard \<Rightarrow> CachedCard) \<Rightarrow> u64 option \<Rightarrow> WorkspaceCache \<Rightarrow>
   (WorkspaceCache \<times> (FoldOutcome, TexoError) result) option" where
  "fold_after j scope bad initial c =
     (case pages (\<lambda>a. jr_query j scope a PAGE_LIMIT) (fold_after_page j bad) initial (c, []) of
        None \<Rightarrow> None
      | Some ((c', ps), Fail err) \<Rightarrow> Some (c', Inl err)
      | Some ((c', ps), _) \<Rightarrow>
          Some (if ps = [] then (c', Inr NoDelta)
                else case stamp_generations j ps c' of (c'', out) \<Rightarrow> (c'', Inr out)))"

definition anchor_matches :: "journal \<Rightarrow> string \<Rightarrow> WorkspaceCache \<Rightarrow> bool" where
  "anchor_matches j scope c =
     (case jr_query j scope (Some (ca_frontier c - 1)) 1 of
        [] \<Rightarrow> False
      | e # _ \<Rightarrow> ie_seq e = ca_frontier c \<and> anchor_hex e = ca_anchor_event_id_hex c)"

definition rebuild_cache ::
  "journal \<Rightarrow> string \<Rightarrow> (CachedCard \<Rightarrow> CachedCard) \<Rightarrow> WorkspaceCache \<Rightarrow>
   (WorkspaceCache \<times> (unit, TexoError) result) option" where
  "rebuild_cache j scope bad c =
     (let c0 = c\<lparr>ca_freshness := PfRebuilding, ca_cards := [], ca_frontier := 0,
                 ca_anchor_event_id_hex := [], ca_view := None\<rparr>
      in case fold_after j scope bad None c0 of
           None \<Rightarrow> None
         | Some (c', Inl err) \<Rightarrow> Some (c', Inl err)
         | Some (c', Inr _) \<Rightarrow> Some (c'\<lparr>ca_dirty := True, ca_freshness := PfStale\<rparr>, Inr ()))"

definition advance_cache ::
  "journal \<Rightarrow> string \<Rightarrow> (CachedCard \<Rightarrow> CachedCard) \<Rightarrow> WorkspaceCache \<Rightarrow>
   (WorkspaceCache \<times> (unit, TexoError) result) option" where
  "advance_cache j scope bad c =
     (case fold_after j scope bad (Some (ca_frontier c)) c of
        None \<Rightarrow> None
      | Some (c', Inl err) \<Rightarrow> Some (c', Inl err)
      | Some (c', Inr NoDelta) \<Rightarrow> Some (c'\<lparr>ca_freshness := PfFresh\<rparr>, Inr ())
      | Some (c', Inr Folded) \<Rightarrow>
          Some (c'\<lparr>ca_dirty := True, ca_freshness := PfStale, ca_view := None\<rparr>, Inr ())
      | Some (c', Inr GenerationRegressed) \<Rightarrow>
          rebuild_cache j scope bad (c'\<lparr>ca_freshness := PfInvalid\<rparr>))"

section \<open>The view\<close>

fun claim_cards :: "CachedCard list \<Rightarrow> ClaimCard list" where
  "claim_cards [] = []"
| "claim_cards (CardClaim c # cs) = c # claim_cards cs"
| "claim_cards (_ # cs) = claim_cards cs"

fun conflict_cards :: "CachedCard list \<Rightarrow> ConflictCard list" where
  "conflict_cards [] = []"
| "conflict_cards (CardConflict c # cs) = c # conflict_cards cs"
| "conflict_cards (_ # cs) = conflict_cards cs"

fun source_cards :: "CachedCard list \<Rightarrow> SourceCard list" where
  "source_cards [] = []"
| "source_cards (CardSource c # cs) = c # source_cards cs"
| "source_cards (_ # cs) = source_cards cs"

definition open_conflict_claims :: "ConflictCard list \<Rightarrow> string list" where
  "open_conflict_claims conflicts =
     concat (map (\<lambda>c. [cf_claim_a c, cf_claim_b c]) (filter (\<lambda>c. cf_phase c = 1) conflicts))"

definition supersedes_map :: "ClaimCard list \<Rightarrow> (string, string list) btree" where
  "supersedes_map claims =
     foldl (\<lambda>m c. case cc_superseded_by c of
                    None \<Rightarrow> m | Some new_id \<Rightarrow> bt_push new_id (cc_claim_id c) m) [] claims"

definition sorted_values :: "(string, string list) btree \<Rightarrow> (string, string list) btree" where
  "sorted_values m = map (\<lambda>(k, v). (k, sort v)) m"

fun claim_views ::
  "string list \<Rightarrow> (string, string list) btree \<Rightarrow> ClaimCard list \<Rightarrow> ClaimView list" where
  "claim_views open_claims m [] = []"
| "claim_views open_claims m (c # cs) =
     \<lparr>cv_card = c, cv_status = claim_status c (cc_claim_id c \<in> set open_claims),
      cv_supersedes = (case bt_get m (cc_claim_id c) of None \<Rightarrow> [] | Some ids \<Rightarrow> ids)\<rparr>
     # claim_views open_claims (bt_remove (cc_claim_id c) m) cs"

definition view_of :: "string \<Rightarrow> u64 \<Rightarrow> CachedCard list \<Rightarrow> WorkspaceView" where
  "view_of workspace_id frontier cards =
     (let claims = sort_key cc_claim_id (claim_cards cards);
          conflicts = sort_key cf_conflict_id (conflict_cards cards);
          sources = sort_key sc_source_id (source_cards cards)
      in \<lparr>wv_workspace_id = workspace_id, wv_frontier = frontier, wv_freshness = PfFresh,
          wv_claims = claim_views (open_conflict_claims conflicts)
                        (sorted_values (supersedes_map claims)) claims,
          wv_conflicts = conflicts, wv_sources = sources\<rparr>)"

definition build_view :: "string \<Rightarrow> WorkspaceCache \<Rightarrow> WorkspaceCache \<times> WorkspaceView" where
  "build_view workspace_id c =
     (let view = view_of workspace_id (ca_frontier c) (map snd (bt_values (ca_cards c)))
      in (c\<lparr>ca_view := Some view, ca_freshness := PfFresh,
            ca_counters := (ca_counters c)\<lparr>wc_view_rebuilds :=
               sat_add64 (wc_view_rebuilds (ca_counters c)) 1\<rparr>\<rparr>, view))"

section \<open>Assembly\<close>

definition count_call :: "WorkspaceCache \<Rightarrow> WorkspaceCache" where
  "count_call c =
     c\<lparr>ca_counters := (ca_counters c)\<lparr>wc_assemble_calls :=
         sat_add64 (wc_assemble_calls (ca_counters c)) 1\<rparr>\<rparr>"

definition count_warm :: "WorkspaceCache \<Rightarrow> WorkspaceCache" where
  "count_warm c =
     c\<lparr>ca_counters := (ca_counters c)\<lparr>wc_warm_view_hits :=
         sat_add64 (wc_warm_view_hits (ca_counters c)) 1\<rparr>\<rparr>"

definition serve_view :: "string \<Rightarrow> WorkspaceCache \<Rightarrow> WorkspaceCache \<times> WorkspaceView" where
  "serve_view workspace_id c =
     (case (ca_freshness c, ca_view c) of
        (PfFresh, Some view) \<Rightarrow>
          if wv_frontier view = ca_frontier c then (count_warm c, view) else build_view workspace_id c
      | _ \<Rightarrow> build_view workspace_id c)"

definition refresh_cache ::
  "journal \<Rightarrow> string \<Rightarrow> (CachedCard \<Rightarrow> CachedCard) \<Rightarrow> WorkspaceCache \<Rightarrow>
   (WorkspaceCache \<times> (unit, TexoError) result) option" where
  "refresh_cache j scope bad c =
     (let c1 = (if 0 < ca_frontier c \<and> \<not> anchor_matches j scope c
                then c\<lparr>ca_freshness := PfInvalid\<rparr> else c)
      in if ca_freshness c1 = PfInvalid then rebuild_cache j scope bad c1
         else advance_cache j scope bad c1)"

definition assemble ::
  "journal \<Rightarrow> string \<Rightarrow> (CachedCard \<Rightarrow> CachedCard) \<Rightarrow> WorkspaceCache \<Rightarrow>
   (WorkspaceCache \<times> (WorkspaceView, TexoError) result) option" where
  "assemble j workspace_id bad c =
     (case refresh_cache j (scope_for_workspace workspace_id) bad (count_call c) of
        None \<Rightarrow> None
      | Some (c', Inl err) \<Rightarrow> Some (c', Inl err)
      | Some (c', Inr _) \<Rightarrow> Some (apsnd Inr (serve_view workspace_id c')))"

text \<open>The historical replay through one exact frontier.\<close>

definition through_entry ::
  "journal \<Rightarrow> (CachedCard \<Rightarrow> CachedCard) \<Rightarrow> u64 \<Rightarrow> IndexEntry \<Rightarrow> WorkspaceCache \<Rightarrow>
   WorkspaceCache \<times> flow" where
  "through_entry j bad frontier e c =
     (if frontier < ie_seq e then (c, Break)
      else case card_family (ie_entity e) of
             None \<Rightarrow> (set_frontier e c, Next)
           | Some fam \<Rightarrow>
               (case jr_read j (ie_id e) of
                  Inl err \<Rightarrow> (c, Fail (ErrStore err))
                | Inr ev \<Rightarrow>
                    (set_frontier e (fold_event bad (ie_entity e) fam (ie_kind e) ev c), Next)))"

definition fold_through ::
  "journal \<Rightarrow> string \<Rightarrow> (CachedCard \<Rightarrow> CachedCard) \<Rightarrow> u64 \<Rightarrow> WorkspaceCache \<Rightarrow>
   (WorkspaceCache \<times> (unit, TexoError) result) option" where
  "fold_through j scope bad frontier c =
     (if frontier = 0 then Some (c\<lparr>ca_freshness := PfStale\<rparr>, Inr ())
      else case pages (\<lambda>a. jr_query j scope a PAGE_LIMIT)
                  (entries_loop (through_entry j bad frontier)) None c of
             None \<Rightarrow> None
           | Some (c', Fail err) \<Rightarrow> Some (c', Inl err)
           | Some (c', _) \<Rightarrow> Some (c'\<lparr>ca_freshness := PfStale\<rparr>, Inr ()))"

definition inexact_frontier :: "string \<Rightarrow> u64 \<Rightarrow> TexoError" where
  "inexact_frontier workspace_id frontier =
     ErrDecode (''workspace-snapshot:'' @ workspace_id)
       (''requested frontier '' @ show_nat frontier @ '' is not an exact workspace frontier'')"

definition assemble_through ::
  "journal \<Rightarrow> string \<Rightarrow> (CachedCard \<Rightarrow> CachedCard) \<Rightarrow> u64 \<Rightarrow> (WorkspaceView, TexoError) result option" where
  "assemble_through j workspace_id bad frontier =
     (case fold_through j (scope_for_workspace workspace_id) bad frontier
             (cache_default\<lparr>ca_freshness := PfRebuilding\<rparr>) of
        None \<Rightarrow> None
      | Some (c, Inl err) \<Rightarrow> Some (Inl err)
      | Some (c, Inr _) \<Rightarrow>
          Some (if ca_frontier c \<noteq> frontier then Inl (inexact_frontier workspace_id frontier)
                else Inr (snd (build_view workspace_id c))))"

end
