(* ===== verification/Assembly.thy ===== *)
theory Assembly
  imports Workspace
begin

text \<open>
  Correctness of the workspace projection: what the cards of a journal are (\<open>truth\<close>, the plain
  fold over the entries), that the incremental fold, the full rebuild and the historical replay
  compute them, and when a cached state may be advanced.
\<close>

section \<open>The plain fold\<close>

definition strip :: "cards \<Rightarrow> (string, CachedCard) btree" where
  "strip m = map (\<lambda>(k, g, c). (k, c)) m"

definition card_put ::
  "journal \<Rightarrow> (CachedCard \<Rightarrow> CachedCard) \<Rightarrow> IndexEntry \<Rightarrow> (string, CachedCard) btree \<Rightarrow>
   (string, CachedCard) btree" where
  "card_put j bad e m =
     (case (card_family (ie_entity e), jr_read j (ie_id e)) of
        (Some fam, Inr ev) \<Rightarrow>
          if relevant fam (ie_kind e)
          then bt_insert (ie_entity e)
                 (apply_matching bad fam ev
                    (case bt_get m (ie_entity e) of None \<Rightarrow> default_card fam | Some c \<Rightarrow> c)) m
          else m
      | _ \<Rightarrow> m)"

definition truth_from ::
  "journal \<Rightarrow> (CachedCard \<Rightarrow> CachedCard) \<Rightarrow> (string, CachedCard) btree \<Rightarrow> IndexEntry list \<Rightarrow>
   (string, CachedCard) btree" where
  "truth_from j bad = foldl (\<lambda>m e. card_put j bad e m)"

abbreviation truth ::
  "journal \<Rightarrow> (CachedCard \<Rightarrow> CachedCard) \<Rightarrow> IndexEntry list \<Rightarrow> (string, CachedCard) btree" where
  "truth j bad \<equiv> truth_from j bad []"

definition readable :: "journal \<Rightarrow> IndexEntry list \<Rightarrow> bool" where
  "readable j log \<longleftrightarrow>
     (\<forall>e \<in> set log. card_family (ie_entity e) \<noteq> None \<longrightarrow> (\<exists>ev. jr_read j (ie_id e) = Inr ev))"

lemma truth_from_simps [simp]:
  "truth_from j bad m [] = m"
  "truth_from j bad m (e # es) = truth_from j bad (card_put j bad e m) es"
  "truth_from j bad m (es @ fs) = truth_from j bad (truth_from j bad m es) fs"
  by (simp_all add: truth_from_def)

lemma bt_insert_insert [simp]: "bt_insert k v (bt_insert k w m) = bt_insert k v m"
  by (induction k w m rule: bt_insert.induct) auto

lemma strip_insert [simp]: "strip (bt_insert k (g, c) m) = bt_insert k c (strip m)"
  by (induction m) (auto simp: strip_def)

lemma strip_get [simp]: "bt_get (strip m) k = map_option snd (bt_get m k)"
  by (induction m) (auto simp: strip_def)

lemma keys_strip [simp]: "map fst (strip m) = map fst m"
  by (induction m) (auto simp: strip_def)

lemma bt_ok_strip [simp]: "bt_ok (strip m) = bt_ok m"
  by (simp add: bt_ok_def)

lemma values_strip: "map snd (bt_values m) = bt_values (strip m)"
  by (induction m) (auto simp: strip_def bt_values_def)

text \<open> Storing the card that is already there changes nothing but its generation.\<close>

lemma bt_insert_same: "bt_ok m \<Longrightarrow> bt_get m k = Some v \<Longrightarrow> bt_insert k v m = m"
  by (rule bt_ext) auto

lemma strip_or_insert [simp]: "strip (bt_or_insert k (g, c) m) = bt_or_insert k c (strip m)"
  by (auto simp: bt_or_insert_def split: option.splits)

lemma bt_ok_truth_from: "bt_ok m \<Longrightarrow> bt_ok (truth_from j bad m es)"
proof (induction es arbitrary: m)
  case (Cons e es)
  have "bt_ok (card_put j bad e m)"
    using Cons.prems by (auto simp: card_put_def split: option.splits sum.splits)
  then show ?case using Cons.IH by simp
qed simp

section \<open>Folding events into the cache\<close>

text \<open>What the fold of an event leaves alone.\<close>

definition same_frame :: "WorkspaceCache \<Rightarrow> WorkspaceCache \<Rightarrow> bool" where
  "same_frame c d \<longleftrightarrow>
     ca_frontier c = ca_frontier d \<and> ca_anchor_event_id_hex c = ca_anchor_event_id_hex d \<and>
     ca_view c = ca_view d \<and> ca_freshness c = ca_freshness d"

lemma same_frame_refl [simp]: "same_frame c c"
  by (simp add: same_frame_def)

lemma same_frame_trans: "same_frame a b \<Longrightarrow> same_frame b c \<Longrightarrow> same_frame a c"
  by (simp add: same_frame_def)

lemma fold_event_frame: "same_frame c (fold_event bad ent fam kind ev c)"
  by (auto simp: fold_event_def same_frame_def count_folded_def Let_def split: option.splits)

lemma fold_event_ok: "bt_ok (ca_cards c) \<Longrightarrow> bt_ok (ca_cards (fold_event bad ent fam kind ev c))"
  by (auto simp: fold_event_def count_folded_def Let_def split: option.splits)

lemma bt_get_or_insert_some: "\<exists>w. bt_get (bt_or_insert k v m) k = Some w"
  by (auto simp: bt_get_or_insert)

lemma fold_event_cards:
  assumes "card_family (ie_entity e) = Some fam" "jr_read j (ie_id e) = Inr ev"
  shows "strip (ca_cards (fold_event bad (ie_entity e) fam (ie_kind e) ev c))
           = card_put j bad e (strip (ca_cards c))"
  using assms
  by (cases "bt_get (ca_cards c) (ie_entity e)")
    (auto simp: fold_event_def card_put_def Let_def count_folded_def bt_or_insert_def
      split: option.splits)

lemma fold_entry_ok:
  assumes "readable j [e]" "bt_ok (ca_cards c)"
  obtains c' ps' where "fold_after_entry j bad e (c, ps) = ((c', ps'), Next)"
    "same_frame c c'" "bt_ok (ca_cards c')" "strip (ca_cards c') = card_put j bad e (strip (ca_cards c))"
proof (cases "card_family (ie_entity e)")
  case None
  then have "fold_after_entry j bad e (c, ps) = ((c, ps), Next)" by (simp add: fold_after_entry_def)
  moreover have "card_put j bad e (strip (ca_cards c)) = strip (ca_cards c)"
    using None by (simp add: card_put_def)
  ultimately show ?thesis using that assms(2) by simp
next
  case (Some fam)
  then obtain ev where ev: "jr_read j (ie_id e) = Inr ev" using assms(1) by (auto simp: readable_def)
  show ?thesis
  proof (rule that)
    show "fold_after_entry j bad e (c, ps) =
      ((fold_event bad (ie_entity e) fam (ie_kind e) ev c, note_prior (ie_entity e) c ps), Next)"
      using Some ev by (simp add: fold_after_entry_def Let_def)
  qed (auto simp: fold_event_frame fold_event_ok assms(2) fold_event_cards [OF Some ev])
qed

lemma fold_entries_ok:
  assumes "readable j es" "bt_ok (ca_cards c)"
  shows "\<exists>c' ps'. entries_loop (fold_after_entry j bad) es (c, ps) = ((c', ps'), Next) \<and>
    same_frame c c' \<and> bt_ok (ca_cards c') \<and>
    strip (ca_cards c') = truth_from j bad (strip (ca_cards c)) es"
  using assms
proof (induction es arbitrary: c ps)
  case (Cons e es)
  have r: "readable j [e]" "readable j es" using Cons.prems(1) by (auto simp: readable_def)
  obtain c1 ps1 where 1: "fold_after_entry j bad e (c, ps) = ((c1, ps1), Next)" "same_frame c c1"
    "bt_ok (ca_cards c1)" "strip (ca_cards c1) = card_put j bad e (strip (ca_cards c))"
    using fold_entry_ok [OF r(1) Cons.prems(2)] by blast
  with Cons.IH [OF r(2) 1(3), of ps1] show ?case by (auto dest: same_frame_trans)
qed simp

lemma count_paged_frame [simp]: "same_frame c (count_paged n c)" "ca_cards (count_paged n c) = ca_cards c"
  by (simp_all add: count_paged_def same_frame_def)

lemma set_frontier_simps [simp]:
  "ca_frontier (set_frontier e c) = ie_seq e" "ca_anchor_event_id_hex (set_frontier e c) = anchor_hex e"
  "ca_view (set_frontier e c) = ca_view c" "ca_freshness (set_frontier e c) = ca_freshness c"
  "ca_cards (set_frontier e c) = ca_cards c"
  by (simp_all add: set_frontier_def)

text \<open>All pages: the frontier and the anchor end at the last entry scanned.\<close>

definition frontier_from :: "u64 \<times> string \<Rightarrow> IndexEntry list \<Rightarrow> u64 \<times> string" where
  "frontier_from d es = (if es = [] then d else (ie_seq (last es), anchor_hex (last es)))"

lemma frontier_from_append:
  "ys \<noteq> [] \<Longrightarrow> frontier_from d (xs @ ys) = frontier_from (frontier_from d xs) ys"
  by (simp add: frontier_from_def)

definition folded_to :: "journal \<Rightarrow> (CachedCard \<Rightarrow> CachedCard) \<Rightarrow> WorkspaceCache \<Rightarrow> IndexEntry list \<Rightarrow>
    WorkspaceCache \<Rightarrow> bool" where
  "folded_to j bad c es c' \<longleftrightarrow>
     bt_ok (ca_cards c') \<and> strip (ca_cards c') = truth_from j bad (strip (ca_cards c)) es \<and>
     (ca_frontier c', ca_anchor_event_id_hex c') =
        frontier_from (ca_frontier c, ca_anchor_event_id_hex c) es \<and>
     ca_view c' = ca_view c \<and> ca_freshness c' = ca_freshness c"

lemma folded_to_trans:
  "folded_to j bad c xs d \<Longrightarrow> folded_to j bad d ys e \<Longrightarrow> folded_to j bad c (xs @ ys) e"
  by (auto simp: folded_to_def frontier_from_def split: if_splits)

lemma fold_page_ok:
  assumes "readable j page" "bt_ok (ca_cards c)" "page \<noteq> []"
  shows "\<exists>c' ps'. fold_after_page j bad page (c, ps) = ((c', ps'), Next) \<and> folded_to j bad c page c'"
proof -
  obtain c1 ps1 where 1:
    "entries_loop (fold_after_entry j bad) page (count_paged (length page) c, ps) = ((c1, ps1), Next)"
    "same_frame (count_paged (length page) c) c1" "bt_ok (ca_cards c1)"
    "strip (ca_cards c1) = truth_from j bad (strip (ca_cards c)) page"
    using fold_entries_ok [OF assms(1), of "count_paged (length page) c" bad ps] assms(2) by auto
  then show ?thesis
    using assms(3) same_frame_trans [OF count_paged_frame(1) 1(2)]
    by (auto simp: fold_after_page_def folded_to_def frontier_from_def same_frame_def)
qed

lemma fold_pages_ok:
  assumes "\<forall>p \<in> set pgs. p \<noteq> []" "readable j (concat pgs)" "bt_ok (ca_cards c)"
  shows "\<exists>c' ps'. chunk_loop (fold_after_page j bad) pgs (c, ps) = ((c', ps'), Next) \<and>
           folded_to j bad c (concat pgs) c'"
  using assms
proof (induction pgs arbitrary: c ps)
  case Nil
  then show ?case by (simp add: folded_to_def frontier_from_def)
next
  case (Cons p pgs)
  have r: "readable j p" "readable j (concat pgs)" "p \<noteq> []"
    using Cons.prems by (auto simp: readable_def)
  obtain c1 ps1 where 1: "fold_after_page j bad p (c, ps) = ((c1, ps1), Next)" "folded_to j bad c p c1"
    using fold_page_ok [OF r(1) Cons.prems(3) r(3)] by blast
  have ok: "bt_ok (ca_cards c1)" using 1(2) by (simp add: folded_to_def)
  have ne: "\<forall>p \<in> set pgs. p \<noteq> []" using Cons.prems(1) by simp
  obtain c2 ps2 where 2: "chunk_loop (fold_after_page j bad) pgs (c1, ps1) = ((c2, ps2), Next)"
    "folded_to j bad c1 (concat pgs) c2"
    using Cons.IH [OF ne r(2) ok, of ps1] by blast
  have "folded_to j bad c (concat (p # pgs)) c2" using folded_to_trans [OF 1(2) 2(2)] by simp
  moreover have "chunk_loop (fold_after_page j bad) (p # pgs) (c, ps) = ((c2, ps2), Next)"
    using 1(1) 2(1) by simp
  ultimately show ?case by blast
qed

text \<open> Stamping generations keeps every card.\<close>

lemma stamp_ok:
  assumes "bt_ok (ca_cards c)"
  shows "same_frame c (fst (stamp_generations j ps c)) \<and>
    bt_ok (ca_cards (fst (stamp_generations j ps c))) \<and>
    strip (ca_cards (fst (stamp_generations j ps c))) = strip (ca_cards c)"
  using assms
proof (induction j ps c rule: stamp_generations.induct)
  case (2 j entity prior ps c)
  let ?g = "case jr_generation j entity of Some g \<Rightarrow> g | None \<Rightarrow> 0"
  let ?c = "case bt_get (ca_cards c) entity of None \<Rightarrow> c
            | Some (_, cd) \<Rightarrow> c\<lparr>ca_cards := bt_insert entity (?g, cd) (ca_cards c)\<rparr>"
  have c: "same_frame c ?c" "bt_ok (ca_cards ?c)" "strip (ca_cards ?c) = strip (ca_cards c)"
    using 2(2) by (auto simp: same_frame_def bt_insert_same split: option.split)
  show ?case
  proof (cases "?g < prior")
    case True
    then show ?thesis using 2(2) by (simp add: Let_def)
  next
    case False
    then show ?thesis
      using "2.IH" [OF refl False c(2)] c by (auto simp: Let_def dest: same_frame_trans)
  qed
qed simp

section \<open>Rebuild and advance\<close>

definition suffix :: "u64 option \<Rightarrow> IndexEntry list \<Rightarrow> IndexEntry list" where
  "suffix a log = filter (after_ok a) log"

lemma fold_after_ok:
  assumes j: "journal_of j scope log" and r: "readable j log" and ok: "bt_ok (ca_cards c)"
  shows "\<exists>c' out. fold_after j scope bad a c = Some (c', Inr out) \<and> folded_to j bad c (suffix a log) c'"
proof -
  let ?pgs = "chunks PAGE_LIMIT (suffix a log)"
  have lim: "0 < PAGE_LIMIT" by (simp add: PAGE_LIMIT_def)
  have cc: "concat ?pgs = suffix a log" by (rule concat_chunks [OF lim])
  have rs: "readable j (concat ?pgs)" using r cc by (auto simp: readable_def suffix_def)
  obtain c1 ps1 where 1: "chunk_loop (fold_after_page j bad) ?pgs (c, []) = ((c1, ps1), Next)"
    "folded_to j bad c (suffix a log) c1"
    using fold_pages_ok [OF _ rs ok, of bad "[]"] chunks_nonempty cc by metis
  have p: "pages (\<lambda>a. jr_query j scope a PAGE_LIMIT) (fold_after_page j bad) a (c, []) =
      Some ((c1, ps1), Next)"
    using pages_eq [OF j lim, of "fold_after_page j bad" a "(c, [])"] 1(1) by (simp add: suffix_def)
  have ok1: "bt_ok (ca_cards c1)" using 1(2) by (simp add: folded_to_def)
  obtain c2 out where s: "stamp_generations j ps1 c1 = (c2, out)" by fastforce
  have "folded_to j bad c (suffix a log) c2"
    using stamp_ok [OF ok1, of j ps1] s 1(2) by (auto simp: folded_to_def same_frame_def)
  then show ?thesis using p 1(2) s by (simp add: fold_after_def)
qed

definition frontier_of :: "IndexEntry list \<Rightarrow> u64" where
  "frontier_of log = (if log = [] then 0 else ie_seq (last log))"

definition view_at ::
  "journal \<Rightarrow> (CachedCard \<Rightarrow> CachedCard) \<Rightarrow> string \<Rightarrow> IndexEntry list \<Rightarrow> WorkspaceView" where
  "view_at j bad ws log = view_of ws (frontier_of log) (bt_values (truth j bad log))"

text \<open>
  A cache is in sync with a journal when its cards are those of the entries up to its frontier,
  and a view it still holds is the view of the journal at that view's own frontier.
\<close>

definition in_sync ::
  "journal \<Rightarrow> (CachedCard \<Rightarrow> CachedCard) \<Rightarrow> string \<Rightarrow> IndexEntry list \<Rightarrow> WorkspaceCache \<Rightarrow> bool" where
  "in_sync j bad ws log c \<longleftrightarrow>
     strip (ca_cards c) = truth j bad (up_to (ca_frontier c) log) \<and>
     (\<forall>v. ca_view c = Some v \<longrightarrow>
        wv_frontier v \<le> ca_frontier c \<and>
        v = view_of ws (wv_frontier v) (bt_values (truth j bad (up_to (wv_frontier v) log))))"

definition synced ::
  "journal \<Rightarrow> (CachedCard \<Rightarrow> CachedCard) \<Rightarrow> string \<Rightarrow> IndexEntry list \<Rightarrow> WorkspaceCache \<Rightarrow> bool" where
  "synced j bad ws log c \<longleftrightarrow>
     in_sync j bad ws log c \<and> ca_frontier c = frontier_of log \<and>
     strip (ca_cards c) = truth j bad log \<and> ca_freshness c \<noteq> PfInvalid"

lemma upto_frontier [simp]:
  assumes "sorted_wrt (\<lambda>d e. ie_seq d < ie_seq e) log"
  shows "up_to (frontier_of log) log = log"
proof (cases log rule: rev_cases)
  case (snoc es e)
  then show ?thesis
    using assms by (auto simp: up_to_def frontier_of_def sorted_wrt_append filter_id_conv less_imp_le)
qed (simp add: up_to_def)

lemma upto_suffix:
  "sorted_wrt (\<lambda>d e. ie_seq d < ie_seq e) log \<Longrightarrow> up_to f log @ suffix (Some f) log = log"
proof (induction log)
  case (Cons e es)
  show ?case
  proof (cases "ie_seq e \<le> f")
    case True
    then show ?thesis using Cons by (simp add: up_to_def suffix_def)
  next
    case False
    then have "up_to f (e # es) = []" using upto_sorted_prefix [OF Cons.prems] by simp
    moreover have "suffix (Some f) (e # es) = e # es"
      using False Cons.prems by (auto simp: suffix_def filter_id_conv)
    ultimately show ?thesis by simp
  qed
qed (simp add: up_to_def suffix_def)

lemma upto_zero: "journal_of j scope log \<Longrightarrow> up_to 0 log = []"
  by (auto simp: up_to_def journal_of_def filter_empty_conv)

lemma sorted_of: "journal_of j scope log \<Longrightarrow> sorted_wrt (\<lambda>d e. ie_seq d < ie_seq e) log"
  by (simp add: journal_of_def)

lemma rebuild_ok:
  assumes j: "journal_of j scope log" and r: "readable j log"
  shows "\<exists>c'. rebuild_cache j scope bad c = Some (c', Inr ()) \<and> synced j bad ws log c'"
proof -
  let ?c0 = "c\<lparr>ca_freshness := PfRebuilding, ca_cards := [], ca_frontier := 0,
               ca_anchor_event_id_hex := [], ca_view := None\<rparr>"
  obtain c1 out where 1: "fold_after j scope bad None ?c0 = Some (c1, Inr out)"
    "folded_to j bad ?c0 (suffix None log) c1"
    using fold_after_ok [OF j r, of ?c0 bad None] by auto
  have s: "suffix None log = log" by (simp add: suffix_def)
  have st: "strip [] = []" by (simp add: strip_def)
  have f: "ca_frontier c1 = frontier_of log" "strip (ca_cards c1) = truth j bad log" "ca_view c1 = None"
    using 1(2) s st by (auto simp: folded_to_def frontier_from_def frontier_of_def split: if_splits)
  then show ?thesis
    using 1(1) upto_frontier [OF sorted_of [OF j]]
    by (simp add: rebuild_cache_def Let_def synced_def in_sync_def)
qed

lemma frontier_after:
  assumes j: "journal_of j scope log" and f: "f = 0 \<or> f \<in> ie_seq ` set log"
  shows "fst (frontier_from (f, a) (suffix (Some f) log)) = frontier_of log"
proof (cases "suffix (Some f) log = []")
  case True
  have srt: "sorted_wrt (\<lambda>d e. ie_seq d < ie_seq e) log" by (rule sorted_of [OF j])
  have low: "\<forall>e \<in> set log. ie_seq e \<le> f" using True by (auto simp: suffix_def filter_empty_conv)
  show ?thesis
  proof (cases log rule: rev_cases)
    case Nil
    then show ?thesis using f by (simp add: frontier_from_def frontier_of_def suffix_def)
  next
    case (snoc es e)
    have "f \<le> ie_seq e"
      using f srt snoc j by (auto simp: sorted_wrt_append journal_of_def less_imp_le)
    then have "f = ie_seq e" using low snoc by (simp add: order_antisym)
    then show ?thesis using True snoc by (simp add: frontier_from_def frontier_of_def)
  qed
next
  case False
  have "last log = last (suffix (Some f) log)"
    using upto_suffix [OF sorted_of [OF j], of f] False by (metis last_append)
  moreover have "log \<noteq> []" using False by (auto simp: suffix_def)
  ultimately show ?thesis using False by (simp add: frontier_from_def frontier_of_def)
qed

lemma frontier_bound:
  assumes j: "journal_of j scope log" and f: "f = 0 \<or> f \<in> ie_seq ` set log"
  shows "f \<le> frontier_of log"
proof (cases log rule: rev_cases)
  case (snoc es e)
  then show ?thesis
    using f j by (auto simp: frontier_of_def journal_of_def sorted_wrt_append less_imp_le)
qed (use f in auto)

lemma advance_ok:
  assumes j: "journal_of j scope log" and r: "readable j log" and c: "in_sync j bad ws log c"
    and f: "ca_frontier c = 0 \<or> ca_frontier c \<in> ie_seq ` set log"
  shows "\<exists>c'. advance_cache j scope bad c = Some (c', Inr ()) \<and> synced j bad ws log c'"
proof -
  let ?f = "ca_frontier c"
  have srt: "sorted_wrt (\<lambda>d e. ie_seq d < ie_seq e) log" by (rule sorted_of [OF j])
  have st: "strip (ca_cards c) = truth j bad (up_to ?f log)" using c by (simp add: in_sync_def)
  then have ok: "bt_ok (ca_cards c)" using bt_ok_truth_from [of "[]"] by (metis bt_ok_Nil bt_ok_strip)
  obtain c1 out where 1: "fold_after j scope bad (Some ?f) c = Some (c1, Inr out)"
    "folded_to j bad c (suffix (Some ?f) log) c1"
    using fold_after_ok [OF j r ok] by blast
  have cards: "strip (ca_cards c1) = truth j bad log"
    using 1(2) st upto_suffix [OF srt, of ?f] truth_from_simps(3) by (metis folded_to_def)
  have fr: "ca_frontier c1 = frontier_of log"
    using 1(2) frontier_after [OF j f, of "ca_anchor_event_id_hex c"]
    by (metis folded_to_def fst_conv)
  have view: "ca_view c1 = ca_view c" using 1(2) by (simp add: folded_to_def)
  have up: "ca_frontier c \<le> frontier_of log" by (rule frontier_bound [OF j f])
  have sync: "in_sync j bad ws log c1"
    using c cards fr view upto_frontier [OF srt] up by (auto simp: in_sync_def)
  show ?thesis
  proof (cases out)
    case GenerationRegressed
    then show ?thesis using 1(1) rebuild_ok [OF j r] by (auto simp: advance_cache_def)
  next
    case Folded
    then show ?thesis using 1(1) sync cards fr by (simp add: advance_cache_def synced_def in_sync_def)
  next
    case NoDelta
    then show ?thesis using 1(1) sync cards fr by (simp add: advance_cache_def synced_def in_sync_def)
  qed
qed

section \<open>The assembled view\<close>

text \<open>
  What a cached state must satisfy to be used: nothing when it is marked invalid or when its
  anchor does not name an entry of the journal, and otherwise that it is in sync.
\<close>

definition faithful ::
  "journal \<Rightarrow> (CachedCard \<Rightarrow> CachedCard) \<Rightarrow> string \<Rightarrow> IndexEntry list \<Rightarrow> WorkspaceCache \<Rightarrow> bool" where
  "faithful j bad ws log c \<longleftrightarrow>
     ca_freshness c \<noteq> PfInvalid \<and>
     (0 < ca_frontier c \<longrightarrow> anchor_matches j (scope_for_workspace ws) c) \<longrightarrow> in_sync j bad ws log c"

lemma anchor_matches_iff:
  assumes "journal_of j scope log" "0 < ca_frontier c"
  shows "anchor_matches j scope c \<longleftrightarrow>
    (\<exists>e \<in> set log. ie_seq e = ca_frontier c \<and> anchor_hex e = ca_anchor_event_id_hex c)"
proof -
  let ?xs = "filter (\<lambda>e. ca_frontier c - 1 < ie_seq e) log"
  have q: "jr_query j scope (Some (ca_frontier c - 1)) 1 = take 1 ?xs"
    using assms(1) by (simp add: journal_of_def after_ok.simps [abs_def])
  have srt: "sorted_wrt (\<lambda>d e. ie_seq d < ie_seq e) ?xs"
    using sorted_of [OF assms(1)] sorted_wrt_filter by blast
  show ?thesis
  proof (cases ?xs)
    case Nil
    then have "\<forall>e \<in> set log. ie_seq e \<noteq> ca_frontier c"
      using assms(2) by (auto simp: filter_empty_conv)
    then show ?thesis using Nil q by (simp add: anchor_matches_def)
  next
    case (Cons e es)
    have m: "anchor_matches j scope c \<longleftrightarrow>
        ie_seq e = ca_frontier c \<and> anchor_hex e = ca_anchor_event_id_hex c"
      using q Cons by (simp add: anchor_matches_def)
    have e: "e \<in> set log" using Cons by (metis filter_is_subset list.set_intros(1) subsetD)
    have "d = e" if d: "d \<in> set log" "ie_seq d = ca_frontier c" for d
    proof -
      have "d \<in> set ?xs" using d assms(2) by simp
      then have "d \<in> set (e # es)" by (simp only: Cons)
      then have "d = e \<or> ie_seq e < ie_seq d" using srt Cons by auto
      moreover have "ca_frontier c \<le> ie_seq e"
        using Cons by (metis (mono_tags, lifting) Suc_pred' assms(2) filter_eq_Cons_iff less_eq_Suc_le)
      ultimately show ?thesis using d(2) by simp
    qed
    then show ?thesis using m e by auto
  qed
qed

lemma refresh_ok:
  assumes j: "journal_of j (scope_for_workspace ws) log" and r: "readable j log"
    and f: "faithful j bad ws log c"
  shows "\<exists>c'. refresh_cache j (scope_for_workspace ws) bad c = Some (c', Inr ()) \<and> synced j bad ws log c'"
proof (cases "ca_freshness c = PfInvalid \<or>
    0 < ca_frontier c \<and> \<not> anchor_matches j (scope_for_workspace ws) c")
  case True
  then show ?thesis using rebuild_ok [OF j r] by (auto simp: refresh_cache_def Let_def)
next
  case False
  then have s: "in_sync j bad ws log c" using f by (auto simp: faithful_def)
  have "ca_frontier c = 0 \<or> ca_frontier c \<in> ie_seq ` set log"
    using False anchor_matches_iff [OF j] by force
  then show ?thesis using False advance_ok [OF j r s] by (auto simp: refresh_cache_def Let_def)
qed

lemma serve_ok:
  assumes j: "journal_of j scope log" and s: "synced j bad ws log c"
  shows "snd (serve_view ws c) = view_at j bad ws log \<and>
    in_sync j bad ws log (fst (serve_view ws c)) \<and> ca_freshness (fst (serve_view ws c)) = PfFresh \<and>
    ca_frontier (fst (serve_view ws c)) = frontier_of log"
proof -
  have srt: "sorted_wrt (\<lambda>d e. ie_seq d < ie_seq e) log" by (rule sorted_of [OF j])
  have b: "snd (build_view ws c) = view_at j bad ws log \<and> in_sync j bad ws log (fst (build_view ws c)) \<and>
      ca_freshness (fst (build_view ws c)) = PfFresh \<and> ca_frontier (fst (build_view ws c)) = frontier_of log"
    using s upto_frontier [OF srt]
    by (auto simp: build_view_def Let_def synced_def in_sync_def view_at_def values_strip view_of_def)
  have w: "view = view_at j bad ws log \<and> in_sync j bad ws log (count_warm c)"
    if "ca_view c = Some view" "wv_frontier view = ca_frontier c" for view
    using that s upto_frontier [OF srt] by (auto simp: synced_def in_sync_def view_at_def count_warm_def)
  show ?thesis
    using b w s by (auto simp: serve_view_def synced_def count_warm_def split: option.split ProjectionFreshness.split)
qed

lemma count_call_simps [simp]:
  "ca_frontier (count_call c) = ca_frontier c" "ca_view (count_call c) = ca_view c"
  "ca_anchor_event_id_hex (count_call c) = ca_anchor_event_id_hex c"
  "ca_freshness (count_call c) = ca_freshness c" "ca_cards (count_call c) = ca_cards c"
  by (simp_all add: count_call_def)

lemma faithful_count_call: "faithful j bad ws log (count_call c) = faithful j bad ws log c"
  by (simp add: faithful_def anchor_matches_def in_sync_def split: list.split)

text \<open> Assembly as the other theories use it: refresh, then serve.\<close>

lemma assemble_synced:
  assumes "journal_of j (scope_for_workspace ws) log" and "readable j log"
    and "faithful j bad ws log c"
  shows "\<exists>c1. synced j bad ws log c1 \<and>
    assemble j ws bad c = Some (fst (serve_view ws c1), Inr (snd (serve_view ws c1)))"
  using refresh_ok [OF assms(1,2), of bad "count_call c"] assms(3) faithful_count_call
  by (auto simp: assemble_def apsnd_def map_prod_def split: prod.split)

text \<open>
  C1: Incremental assembly is the full replay.  For every readable journal and every cache that
  is invalid, anchored to an event the journal does not have, or in sync with the journal,
  assembly returns, its view is the one the plain fold over the whole journal gives (cold
  start, stale sidecar, warm delta, generation regression and warm hit included), and the cache
  it leaves is again in sync at the journal's frontier.
\<close>
theorem assemble_exact:
  assumes "journal_of j (scope_for_workspace ws) log" and "readable j log"
    and "faithful j bad ws log c"
  shows "\<exists>c'. assemble j ws bad c = Some (c', Inr (view_at j bad ws log)) \<and>
    in_sync j bad ws log c' \<and> ca_freshness c' = PfFresh \<and> ca_frontier c' = frontier_of log"
  using assemble_synced [OF assms] serve_ok [OF assms(1)] by metis

section \<open>Historical views\<close>

lemma through_ok:
  assumes "readable j es" "bt_ok (ca_cards c)" "\<forall>e \<in> set es. ie_seq e \<le> fr"
  shows "\<exists>c'. entries_loop (through_entry j bad fr) es c = (c', Next) \<and> folded_to j bad c es c'"
  using assms
proof (induction es arbitrary: c)
  case Nil
  then show ?case by (simp add: folded_to_def frontier_from_def)
next
  case (Cons e es)
  have r: "readable j [e]" "readable j es" using Cons.prems(1) by (auto simp: readable_def)
  have fr: "\<not> fr < ie_seq e" "\<forall>e \<in> set es. ie_seq e \<le> fr" using Cons.prems(3) by auto
  obtain c1 where 1: "through_entry j bad fr e c = (c1, Next)" "folded_to j bad c [e] c1"
  proof (cases "card_family (ie_entity e)")
    case None
    show ?thesis
      by (rule that [of "set_frontier e c"])
        (use None fr Cons.prems(2) in \<open>auto simp: through_entry_def folded_to_def frontier_from_def card_put_def\<close>)
  next
    case (Some fam)
    then obtain ev where ev: "jr_read j (ie_id e) = Inr ev" using r(1) by (auto simp: readable_def)
    show ?thesis
      by (rule that [of "set_frontier e (fold_event bad (ie_entity e) fam (ie_kind e) ev c)"])
        (use Some ev fr Cons.prems(2) fold_event_frame [of c bad "ie_entity e" fam "ie_kind e" ev] in
         \<open>auto simp: through_entry_def folded_to_def frontier_from_def fold_event_ok
            fold_event_cards same_frame_def\<close>)
  qed
  have ok: "bt_ok (ca_cards c1)" using 1(2) by (simp add: folded_to_def)
  obtain c2 where 2: "entries_loop (through_entry j bad fr) es c1 = (c2, Next)" "folded_to j bad c1 es c2"
    using Cons.IH [OF r(2) ok fr(2)] by blast
  show ?case using 1(1) 2(1) folded_to_trans [OF 1(2) 2(2)] by simp
qed

lemma through_step_facts:
  "fr < ie_seq e \<Longrightarrow> through_entry j bad fr e c = (c, Break)"
  "ie_seq e \<le> fr \<Longrightarrow> snd (through_entry j bad fr e c) \<noteq> Break"
  by (auto simp: through_entry_def split: option.split sum.split)

lemma fold_through_ok:
  assumes j: "journal_of j scope log" and r: "readable j log" and fr: "0 < fr"
  shows "\<exists>c'. fold_through j scope bad fr (cache_default\<lparr>ca_freshness := PfRebuilding\<rparr>) = Some (c', Inr ()) \<and>
    ca_frontier c' = frontier_of (up_to fr log) \<and> strip (ca_cards c') = truth j bad (up_to fr log)"
proof -
  let ?c0 = "cache_default\<lparr>ca_freshness := PfRebuilding\<rparr>"
  let ?step = "through_entry j bad fr"
  have lim: "0 < PAGE_LIMIT" by (simp add: PAGE_LIMIT_def)
  have ru: "readable j (up_to fr log)" using r by (auto simp: readable_def up_to_def)
  have "\<forall>e \<in> set (up_to fr log). ie_seq e \<le> fr" by (simp add: up_to_def)
  then obtain c1 where 1: "entries_loop ?step (up_to fr log) ?c0 = (c1, Next)"
    "folded_to j bad ?c0 (up_to fr log) c1"
    using through_ok [OF ru, of ?c0 fr bad] by (auto simp: cache_default_def)
  have l: "fst (entries_loop ?step log ?c0) = c1" "\<And>err. snd (entries_loop ?step log ?c0) \<noteq> Fail err"
    using entries_loop_upto [OF sorted_of [OF j], of fr ?step ?c0] 1(1) through_step_facts by auto
  have p: "pages (\<lambda>a. jr_query j scope a PAGE_LIMIT) (entries_loop ?step) None ?c0 =
      Some (entries_loop ?step log ?c0)"
    using pages_entries [OF j lim, of ?step None ?c0] by simp
  obtain f where f: "entries_loop ?step log ?c0 = (c1, f)" "\<And>err. f \<noteq> Fail err"
    using l by (metis prod.collapse)
  have "fold_through j scope bad fr ?c0 = Some (c1\<lparr>ca_freshness := PfStale\<rparr>, Inr ())"
    using p f fr by (cases f) (auto simp: fold_through_def)
  then show ?thesis
    using 1(2) by (auto simp: folded_to_def frontier_from_def frontier_of_def cache_default_def strip_def split: if_splits)
qed

lemma frontier_upto:
  assumes "journal_of j scope log"
  shows "frontier_of (up_to fr log) = fr \<longleftrightarrow> fr = 0 \<or> fr \<in> ie_seq ` set log"
proof -
  have srt: "sorted_wrt (\<lambda>d e. ie_seq d < ie_seq e) log" by (rule sorted_of [OF assms])
  have su: "sorted_wrt (\<lambda>d e. ie_seq d < ie_seq e) (up_to fr log)"
    unfolding up_to_def using srt sorted_wrt_filter by blast
  show ?thesis
  proof (cases "up_to fr log" rule: rev_cases)
    case Nil
    then have "fr \<notin> ie_seq ` set log" by (auto simp: up_to_def filter_empty_conv)
    then show ?thesis using Nil by (auto simp: frontier_of_def)
  next
    case (snoc es e)
    have mem: "d \<in> set (up_to fr log) \<Longrightarrow> d \<in> set log \<and> ie_seq d \<le> fr" for d by (simp add: up_to_def)
    have e: "e \<in> set log" "ie_seq e \<le> fr"
      using snoc mem [of e] by auto
    have "fr \<in> ie_seq ` set log \<Longrightarrow> ie_seq e = fr"
    proof -
      assume "fr \<in> ie_seq ` set log"
      then obtain d where d: "d \<in> set log" "ie_seq d = fr" by auto
      then have "d \<in> set (up_to fr log)" by (simp add: up_to_def)
      then have "ie_seq d \<le> ie_seq e" using su snoc by (auto simp: sorted_wrt_append less_imp_le)
      then show ?thesis using d e by simp
    qed
    moreover have "0 < ie_seq e" using assms e by (simp add: journal_of_def)
    ultimately show ?thesis using snoc e by (auto simp: frontier_of_def)
  qed
qed

lemma assemble_through_cut:
  assumes j: "journal_of j (scope_for_workspace ws) log" and r: "readable j log"
  shows "assemble_through j ws bad fr =
    Some (if fr = 0 \<or> fr \<in> ie_seq ` set log then Inr (view_at j bad ws (up_to fr log))
          else Inl (inexact_frontier ws fr))"
proof (cases "fr = 0")
  case True
  have "up_to 0 log = []" by (rule upto_zero [OF j])
  then show ?thesis
    using True by (simp add: assemble_through_def fold_through_def cache_default_def build_view_def
        Let_def view_at_def frontier_of_def bt_values_def)
next
  case False
  obtain c1 where 1: "fold_through j (scope_for_workspace ws) bad fr
      (cache_default\<lparr>ca_freshness := PfRebuilding\<rparr>) = Some (c1, Inr ())"
    "ca_frontier c1 = frontier_of (up_to fr log)" "strip (ca_cards c1) = truth j bad (up_to fr log)"
    using fold_through_ok [OF j r, of fr bad] False by blast
  then show ?thesis
    using False frontier_upto [OF j, of fr]
    by (auto simp: assemble_through_def build_view_def Let_def view_at_def values_strip)
qed

text \<open>
  Historical reads are exact.  A replay through a frontier returns the view of the journal
  cut at that frontier when the frontier is zero or names an entry, whatever was appended
  later, and a decode error otherwise; it never answers with a nearby frontier.
\<close>
theorem assemble_through_exact:
  assumes j: "journal_of j (scope_for_workspace ws) log" and r: "readable j log"
  shows "assemble_through j ws bad fr =
    Some (if fr = 0 \<or> fr \<in> ie_seq ` set log then Inr (view_at j bad ws (up_to fr log))
          else Inl (inexact_frontier ws fr))"
  by (rule assemble_through_cut [OF assms])

end
