(* ===== verification/Views.thy ===== *)
theory Views
  imports Assembly
begin

text \<open>
  What the assembled view says of the journal, and the life of the cache across processes: the
  statuses and the supersession inversion of \<open>build_view\<close>, restarts through the sidecar, growth
  of the journal, and what an assembly that failed leaves behind.
\<close>

section \<open>Journals in memory\<close>

lemma chunks_short: "xs \<noteq> [] \<Longrightarrow> length xs \<le> n \<Longrightarrow> chunks n xs = [xs]"
  by (cases "n = 0") (auto simp: chunks.simps)

definition demo_claim :: "string \<Rightarrow> ClaimRecordedV2" where
  "demo_claim i =
     \<lparr>cr_claim_id = i, cr_workspace_id = ''demo'', cr_source_id = ''src_1'',
      cr_source_path = ''notes.md'', cr_line_start = 1, cr_line_end = 1, cr_char_start = 0,
      cr_char_end = 4, cr_text = ''text'', cr_normalized_text = ''text'', cr_subject_hint = None,
      cr_predicate_hint = None, cr_object_hint = None, cr_confidence_ppm = 1,
      cr_extractor_kind = ''markdown'', cr_extractor_model = [], cr_prompt_version = [],
      cr_observed_at_ms = 1\<rparr>"

definition demo_entry :: "nat \<Rightarrow> string \<Rightarrow> IndexEntry" where
  "demo_entry n i = \<lparr>ie_seq = n, ie_entity = ''claim:'' @ i, ie_kind = KClaimRecorded, ie_id = n\<rparr>"

definition demo_log :: "IndexEntry list" where
  "demo_log = [demo_entry 1 ''a'', demo_entry 2 ''b'']"

definition demo_event :: "string \<Rightarrow> (stored, string) result" where
  "demo_event i = Inr (Payload (EvClaimRecorded (demo_claim i)))"

definition demo_journal :: journal where
  "demo_journal = memory_journal ''workspace:demo''
     [(demo_entry 1 ''a'', demo_event ''a''), (demo_entry 2 ''b'', demo_event ''b'')] (\<lambda>_. Some 1)"

text \<open>The same journal while its second event cannot be read.\<close>

definition faulty_journal :: journal where
  "faulty_journal = memory_journal ''workspace:demo''
     [(demo_entry 1 ''a'', demo_event ''a''), (demo_entry 2 ''b'', Inl ''io'')] (\<lambda>_. Some 1)"

lemma demo_journal_of: "journal_of demo_journal (scope_for_workspace ''demo'') demo_log"
  and faulty_journal_of: "journal_of faulty_journal (scope_for_workspace ''demo'') demo_log"
  by (simp_all add: journal_of_def demo_journal_def faulty_journal_def memory_journal_def
      demo_log_def demo_entry_def scope_for_workspace_def)

lemma demo_reads:
  "jr_read demo_journal (Suc 0) = demo_event ''a''" "jr_read demo_journal 2 = demo_event ''b''"
  "jr_read faulty_journal (Suc 0) = demo_event ''a''" "jr_read faulty_journal 2 = Inl ''io''"
  by (simp_all add: demo_journal_def faulty_journal_def memory_journal_def demo_entry_def)

lemma demo_readable: "readable demo_journal demo_log"
  using demo_reads by (auto simp: readable_def demo_log_def demo_entry_def demo_event_def)

theorem assemble_exact_witness:
  "\<exists>c'. assemble demo_journal ''demo'' id cache_default =
       Some (c', Inr (view_at demo_journal id ''demo'' demo_log)) \<and>
     in_sync demo_journal id ''demo'' demo_log c' \<and> ca_freshness c' = PfFresh \<and>
     ca_frontier c' = frontier_of demo_log"
  by (rule assemble_exact [OF demo_journal_of demo_readable])
    (simp add: faithful_def cache_default_def)

theorem assemble_through_exact_witness:
  "assemble_through demo_journal ''demo'' id 1 =
     Some (Inr (view_at demo_journal id ''demo'' [demo_entry 1 ''a'']))
   \<and> assemble_through demo_journal ''demo'' id 7 = Some (Inl (inexact_frontier ''demo'' 7))"
  using assemble_through_exact [OF demo_journal_of demo_readable, of id 1]
    assemble_through_exact [OF demo_journal_of demo_readable, of id 7]
  by (simp add: demo_log_def demo_entry_def up_to_def)

section \<open>Statuses and relations of a view\<close>

lemma claim_views_map:
  "distinct (map cc_claim_id cs) \<Longrightarrow>
   claim_views ids m cs =
     map (\<lambda>c. \<lparr>cv_card = c, cv_status = claim_status c (cc_claim_id c \<in> set ids),
               cv_supersedes = (case bt_get m (cc_claim_id c) of None \<Rightarrow> [] | Some xs \<Rightarrow> xs)\<rparr>) cs"
proof (induction cs arbitrary: m)
  case (Cons c cs)
  have "bt_get (bt_remove (cc_claim_id c) m) (cc_claim_id d) = bt_get m (cc_claim_id d)"
    if "d \<in> set cs" for d
    using that Cons.prems by (auto simp: image_iff)
  then show ?case using Cons by (auto intro!: map_cong)
qed simp

lemma map_cv_card [simp]: "map cv_card (claim_views ids m cs) = cs"
  by (induction cs arbitrary: m) auto

definition superseded_ids :: "ClaimCard list \<Rightarrow> string \<Rightarrow> string list" where
  "superseded_ids claims k = map cc_claim_id (filter (\<lambda>c. cc_superseded_by c = Some k) claims)"

lemma supersedes_map_get:
  "bt_get (supersedes_map claims) k =
     (if superseded_ids claims k = [] then None else Some (superseded_ids claims k))"
proof (induction claims rule: rev_induct)
  case Nil
  then show ?case by (simp add: supersedes_map_def superseded_ids_def)
next
  case (snoc c claims)
  have step: "supersedes_map (claims @ [c]) =
      (case cc_superseded_by c of None \<Rightarrow> supersedes_map claims
       | Some n \<Rightarrow> bt_push n (cc_claim_id c) (supersedes_map claims))"
    by (simp add: supersedes_map_def split: option.split)
  show ?case
  proof (cases "cc_superseded_by c")
    case None
    then show ?thesis using snoc step by (simp add: superseded_ids_def)
  next
    case (Some n)
    then show ?thesis using snoc step by (auto simp: superseded_ids_def bt_push_def)
  qed
qed

lemma sorted_values_get: "bt_get (sorted_values m) k = map_option sort (bt_get m k)"
  by (induction m) (auto simp: sorted_values_def)

lemma open_conflict_claims_iff:
  "i \<in> set (open_conflict_claims ks) \<longleftrightarrow>
     (\<exists>k \<in> set ks. cf_phase k = 1 \<and> (i = cf_claim_a k \<or> i = cf_claim_b k))"
  by (auto simp: open_conflict_claims_def)

text \<open>
  C9: A view states exactly the relations of its cards.  When claim ids are distinct, the claims
  of the view are the claim cards in id order; each is superseded exactly when its card is in
  the superseded phase, conflicting exactly when it is not and some open conflict names it,
  current otherwise; and its \<open>supersedes\<close> list is the sorted list of the ids of exactly the
  claims whose card names it as successor.
\<close>
theorem view_relations_exact:
  assumes "distinct (map cc_claim_id (claim_cards cards))" and "cv \<in> set (wv_claims (view_of ws fr cards))"
  shows "cv_card cv \<in> set (claim_cards cards)
    \<and> (cv_status cv = StSuperseded \<longleftrightarrow> cc_phase (cv_card cv) = 2)
    \<and> (cv_status cv = StConflicting \<longleftrightarrow> cc_phase (cv_card cv) \<noteq> 2 \<and>
         (\<exists>k \<in> set (conflict_cards cards). cf_phase k = 1 \<and>
            (cc_claim_id (cv_card cv) = cf_claim_a k \<or> cc_claim_id (cv_card cv) = cf_claim_b k)))
    \<and> sorted (cv_supersedes cv)
    \<and> mset (cv_supersedes cv) = mset (superseded_ids (claim_cards cards) (cc_claim_id (cv_card cv)))"
proof -
  let ?claims = "sort_key cc_claim_id (claim_cards cards)"
  let ?ks = "sort_key cf_conflict_id (conflict_cards cards)"
  let ?m = "sorted_values (supersedes_map ?claims)"
  have d: "distinct (map cc_claim_id ?claims)"
    using assms(1) by (metis mset_map mset_sort mset_eq_imp_distinct_iff)
  obtain c where c: "c \<in> set ?claims"
    "cv = \<lparr>cv_card = c, cv_status = claim_status c (cc_claim_id c \<in> set (open_conflict_claims ?ks)),
           cv_supersedes = (case bt_get ?m (cc_claim_id c) of None \<Rightarrow> [] | Some xs \<Rightarrow> xs)\<rparr>"
    using assms(2) claim_views_map [OF d] by (auto simp: view_of_def Let_def)
  have s: "cv_supersedes cv = sort (superseded_ids ?claims (cc_claim_id c))"
    using c(2) by (simp add: sorted_values_get supersedes_map_get)
  have m: "mset (superseded_ids ?claims k) = mset (superseded_ids (claim_cards cards) k)" for k
    by (simp add: superseded_ids_def)
  show ?thesis
    using c s m by (auto simp: claim_status_def open_conflict_claims_iff)
qed

text \<open> The claims of a view are the claim cards in id order.\<close>

lemma view_claims_sorted: "map cv_card (wv_claims (view_of ws fr cards)) = sort_key cc_claim_id (claim_cards cards)"
  by (simp add: view_of_def Let_def)

lemma demo_cards: "truth demo_journal id demo_log =
    [(''claim:a'', CardClaim (claim_on_recorded (demo_claim ''a'') claim_card_default)),
     (''claim:b'', CardClaim (claim_on_recorded (demo_claim ''b'') claim_card_default))]"
  by (simp add: demo_log_def truth_from_def card_put_def card_family_def demo_entry_def demo_reads
      demo_event_def apply_matching_def starts_with_def less_list_code)

theorem view_relations_exact_witness:
  "\<exists>cv. cv \<in> set (wv_claims (view_of ''demo'' 2 [CardClaim (claim_on_recorded (demo_claim ''a'') claim_card_default)]))
     \<and> cv_status cv \<noteq> StSuperseded"
proof -
  let ?c = "claim_on_recorded (demo_claim ''a'') claim_card_default"
  let ?v = "view_of ''demo'' 2 [CardClaim ?c]"
  have d: "distinct (map cc_claim_id (claim_cards [CardClaim ?c]))" by simp
  have "map cv_card (wv_claims ?v) = [?c]" by (simp add: view_claims_sorted)
  then obtain cv where cv: "cv \<in> set (wv_claims ?v)" "cv_card cv = ?c" by (cases "wv_claims ?v") auto
  have "cv_status cv = StSuperseded \<longleftrightarrow> cc_phase (cv_card cv) = 2"
    using view_relations_exact [OF d cv(1)] by blast
  then show ?thesis using cv by (auto simp: claim_on_recorded_def claim_card_default_def)
qed

section \<open>Growth and restarts\<close>

lemma up_to_append:
  assumes "sorted_wrt (\<lambda>d e. ie_seq d < ie_seq e) (log @ new)" "f \<le> frontier_of log"
    "\<forall>e \<in> set new. 0 < ie_seq e"
  shows "up_to f (log @ new) = up_to f log"
proof -
  have "f < ie_seq e" if "e \<in> set new" for e
    using that assms by (cases log rule: rev_cases) (auto simp: frontier_of_def sorted_wrt_append)
  then have "\<forall>e \<in> set new. \<not> ie_seq e \<le> f" using leD by blast
  then show ?thesis by (simp add: up_to_def filter_empty_conv)
qed

definition same_reads :: "journal \<Rightarrow> journal \<Rightarrow> IndexEntry list \<Rightarrow> bool" where
  "same_reads j j' log \<longleftrightarrow> (\<forall>e \<in> set log. jr_read j' (ie_id e) = jr_read j (ie_id e))"

lemma truth_same_reads: "same_reads j j' es \<Longrightarrow> truth_from j' bad m es = truth_from j bad m es"
proof (induction es arbitrary: m)
  case (Cons e es)
  then have "card_put j' bad e m = card_put j bad e m" by (simp add: same_reads_def card_put_def)
  then show ?case using Cons by (simp add: same_reads_def)
qed simp

lemma in_sync_grows:
  assumes "journal_of j' scope (log @ new)" "same_reads j j' log"
    and "in_sync j bad ws log c" "ca_frontier c \<le> frontier_of log"
  shows "in_sync j' bad ws (log @ new) c"
proof -
  have srt: "sorted_wrt (\<lambda>d e. ie_seq d < ie_seq e) (log @ new)" and pos: "\<forall>e \<in> set new. 0 < ie_seq e"
    using assms(1) by (auto simp: journal_of_def)
  have same: "truth j' bad (up_to f (log @ new)) = truth j bad (up_to f log)"
    if "f \<le> frontier_of log" for f
  proof -
    have "same_reads j j' (up_to f log)" using assms(2) by (simp add: same_reads_def up_to_def)
    then show ?thesis using up_to_append [OF srt that pos] truth_same_reads by simp
  qed
  have "truth j' bad (up_to (wv_frontier v) (log @ new)) = truth j bad (up_to (wv_frontier v) log)"
    if "wv_frontier v \<le> ca_frontier c" for v :: WorkspaceView
    using that same assms(4) by simp
  then show ?thesis
    using assms(3) same [OF assms(4)] unfolding in_sync_def by (intro conjI allI impI) auto
qed

text \<open>
  C2: A cache survives growth and restarts.  After an assembly, let the journal grow by any
  entries.  Assembling again with the warm cache, and assembling in a fresh process from the
  sidecar that cache was saved to, both return the full replay of the grown journal; a sidecar
  loaded under any other workspace or journal name is an invalid cache, so the next assembly
  rebuilds from the journal.
\<close>
theorem restart_equivalence:
  assumes "journal_of j (scope_for_workspace ws) log" "readable j log" "faithful j bad ws log c"
    and "journal_of j' (scope_for_workspace ws) (log @ new)" "readable j' (log @ new)"
    and "same_reads j j' log" "\<And>p. decode (encode p) = Some p"
  shows "\<exists>c1 v1 c2 c3. assemble j ws bad c = Some (c1, Inr v1)
    \<and> assemble j' ws bad c1 = Some (c2, Inr (view_at j' bad ws (log @ new)))
    \<and> assemble j' ws bad (load_journal decode root ws jid (save_journal encode root ws jid c1 fs))
        = Some (c3, Inr (view_at j' bad ws (log @ new)))
    \<and> (\<forall>ws' jid'. (ws', jid') \<noteq> (ws, jid) \<longrightarrow>
         sidecar_path root ws' jid' = sidecar_path root ws jid \<longrightarrow>
         ca_freshness (load_journal decode root ws' jid' (save_journal encode root ws jid c1 fs)) = PfInvalid)"
proof -
  obtain c1 where 1: "assemble j ws bad c = Some (c1, Inr (view_at j bad ws log))"
    "in_sync j bad ws log c1" "ca_frontier c1 = frontier_of log"
    using assemble_synced [OF assms(1-3)] serve_ok [OF assms(1)] by metis
  let ?l = "load_journal decode root ws jid (save_journal encode root ws jid c1 fs)"
  have g: "in_sync j' bad ws (log @ new) c1"
    by (rule in_sync_grows [OF assms(4,6) 1(2)]) (simp add: 1(3))
  have l: "ca_cards ?l = ca_cards c1" "ca_frontier ?l = ca_frontier c1" "ca_view ?l = None"
    by (simp_all add: load_journal_def save_journal_def assms(7) persisted_ref_def)
  have gl: "in_sync j' bad ws (log @ new) ?l" using g l by (simp add: in_sync_def)
  have fa: "\<exists>d. assemble j' ws bad x = Some (d, Inr (view_at j' bad ws (log @ new)))"
    if "in_sync j' bad ws (log @ new) x" for x
    using assemble_synced [OF assms(4,5), of bad x] serve_ok [OF assms(4)] that faithful_def by metis
  have inv: "ca_freshness (load_journal decode root ws' jid' (save_journal encode root ws jid c1 fs)) = PfInvalid"
    if "(ws', jid') \<noteq> (ws, jid)" "sidecar_path root ws' jid' = sidecar_path root ws jid" for ws' jid'
    using that by (auto simp: load_journal_def save_journal_def assms(7) persisted_ref_def)
  show ?thesis using 1(1) fa [OF g] fa [OF gl] inv by blast
qed

text \<open>The demo journal before its second event was appended.\<close>

definition young_journal :: journal where
  "young_journal = memory_journal ''workspace:demo'' [(demo_entry 1 ''a'', demo_event ''a'')] (\<lambda>_. Some 1)"

theorem restart_equivalence_witness:
  "\<exists>c1 v1 c2 c3. assemble young_journal ''demo'' id cache_default = Some (c1, Inr v1)
    \<and> assemble demo_journal ''demo'' id c1 =
        Some (c2, Inr (view_at demo_journal id ''demo'' ([demo_entry 1 ''a''] @ [demo_entry 2 ''b''])))
    \<and> assemble demo_journal ''demo'' id
          (load_journal Some ''/w'' ''demo'' ''canonical''
             (save_journal id ''/w'' ''demo'' ''canonical'' c1 (\<lambda>_. None)))
        = Some (c3, Inr (view_at demo_journal id ''demo'' ([demo_entry 1 ''a''] @ [demo_entry 2 ''b''])))
    \<and> (\<forall>ws' jid'. (ws', jid') \<noteq> (''demo'', ''canonical'') \<longrightarrow>
         sidecar_path ''/w'' ws' jid' = sidecar_path ''/w'' ''demo'' ''canonical'' \<longrightarrow>
         ca_freshness (load_journal Some ''/w'' ws' jid'
            (save_journal id ''/w'' ''demo'' ''canonical'' c1 (\<lambda>_. None))) = PfInvalid)"
proof (rule restart_equivalence)
  have y: "jr_read young_journal (Suc 0) = demo_event ''a''"
    by (simp add: young_journal_def memory_journal_def demo_entry_def)
  show "journal_of young_journal (scope_for_workspace ''demo'') [demo_entry 1 ''a'']"
    by (simp add: journal_of_def young_journal_def memory_journal_def demo_entry_def scope_for_workspace_def)
  show "readable young_journal [demo_entry 1 ''a'']"
    by (simp add: readable_def demo_entry_def y demo_event_def)
  show "faithful young_journal id ''demo'' [demo_entry 1 ''a''] cache_default"
    by (simp add: faithful_def cache_default_def)
  show "journal_of demo_journal (scope_for_workspace ''demo'') ([demo_entry 1 ''a''] @ [demo_entry 2 ''b''])"
    using demo_journal_of by (simp add: demo_log_def)
  show "readable demo_journal ([demo_entry 1 ''a''] @ [demo_entry 2 ''b''])"
    using demo_readable by (simp add: demo_log_def)
  show "same_reads young_journal demo_journal [demo_entry 1 ''a'']"
    using y demo_reads by (simp add: same_reads_def demo_entry_def)
qed simp

section \<open>After a failed scan\<close>

text \<open>
  The generation a journal reports for an entity, and the bounds under which stamping does not find a
  regression: no cached card, and no prior noted during the fold, is ahead of it.
\<close>

definition generation_at :: "journal \<Rightarrow> string \<Rightarrow> u64" where
  "generation_at j k = (case jr_generation j k of Some g \<Rightarrow> g | None \<Rightarrow> 0)"

definition cards_within :: "(string \<Rightarrow> u64) \<Rightarrow> cards \<Rightarrow> bool" where
  "cards_within G m \<longleftrightarrow> (\<forall>k g cd. bt_get m k = Some (g, cd) \<longrightarrow> g \<le> G k)"

definition priors_within :: "(string \<Rightarrow> u64) \<Rightarrow> priors \<Rightarrow> bool" where
  "priors_within G ps \<longleftrightarrow> (\<forall>(k, p) \<in> set ps. p \<le> G k)"

lemma set_bt_insert: "set (bt_insert k v m) \<subseteq> insert (k, v) (set m)"
  by (induction k v m rule: bt_insert.induct) auto

lemma bt_insert_ne: "bt_insert k v m \<noteq> []"
  by (induction k v m rule: bt_insert.induct) auto

lemma note_prior_within:
  assumes "cards_within G (ca_cards c)" "priors_within G ps"
  shows "priors_within G (note_prior k c ps) \<and> note_prior k c ps \<noteq> []"
proof -
  let ?p = "case bt_get (ca_cards c) k of None \<Rightarrow> 0 | Some (g, _) \<Rightarrow> g"
  have "?p \<le> G k" using assms(1) by (auto simp: cards_within_def split: option.split)
  then show ?thesis
    using assms(2) set_bt_insert [of k ?p ps] bt_insert_ne [of k ?p ps]
    by (auto simp: note_prior_def bt_or_insert_def priors_within_def split: option.splits)
qed

lemma fold_event_within: "cards_within G (ca_cards c) \<Longrightarrow> cards_within G (ca_cards (fold_event bad k fam kind ev c))"
  by (auto simp: fold_event_def cards_within_def count_folded_def bt_get_or_insert Let_def split: option.splits if_splits)

lemma fold_entries_within:
  assumes "entries_loop (fold_after_entry j bad) es (c, ps) = ((c', ps'), fl)" "cards_within G (ca_cards c)" "priors_within G ps"
  shows "cards_within G (ca_cards c') \<and> priors_within G ps' \<and>
    (fl = Next \<longrightarrow> ps \<noteq> [] \<or> (\<exists>e \<in> set es. card_family (ie_entity e) \<noteq> None) \<longrightarrow> ps' \<noteq> [])"
  using assms
proof (induction es arbitrary: c ps)
  case (Cons e es)
  obtain c1 ps1 f1 where 1: "fold_after_entry j bad e (c, ps) = ((c1, ps1), f1)" by (metis surj_pair)
  have w: "cards_within G (ca_cards c1) \<and> priors_within G ps1 \<and>
      (ps \<noteq> [] \<or> card_family (ie_entity e) \<noteq> None \<longrightarrow> ps1 \<noteq> [])"
    using 1 Cons.prems(2,3) note_prior_within [OF Cons.prems(2,3), of "ie_entity e"] fold_event_within [OF Cons.prems(2)]
    by (auto simp: fold_after_entry_def Let_def split: option.splits sum.splits)
  show ?case
  proof (cases f1)
    case Next
    then show ?thesis using 1 Cons.prems(1) Cons.IH [of c1 ps1] w by auto
  qed (use 1 Cons.prems(1) w in auto)
qed simp

lemma stamp_folds: "priors_within (generation_at j) ps \<Longrightarrow> snd (stamp_generations j ps c) = Folded"
proof (induction j ps c rule: stamp_generations.induct)
  case (2 j k prior ps c)
  have g: "\<not> (case jr_generation j k of Some g \<Rightarrow> g | None \<Rightarrow> 0) < prior"
    using 2(2) by (auto simp: priors_within_def generation_at_def)
  have "priors_within (generation_at j) ps" using 2(2) by (simp add: priors_within_def)
  then show ?case using "2.IH" [OF refl g] g by (simp add: Let_def)
qed simp

text \<open>The first page after a frontier, when it holds all that is new.\<close>

lemma one_batch:
  assumes "journal_of j scope log" "filter (after_ok a) log = batch" "batch \<noteq> []" "length batch \<le> PAGE_LIMIT"
  shows "pages (\<lambda>a. jr_query j scope a PAGE_LIMIT) body a s = Some (chunk_loop body [batch] s)"
  using pages_eq [OF assms(1), of PAGE_LIMIT body a s] assms(2) chunks_short [OF assms(3,4)] by (simp add: PAGE_LIMIT_def)

lemma fold_after_fails:
  assumes j: "journal_of j scope log" "filter (after_ok a) log = pre @ e # post" "length (pre @ e # post) \<le> PAGE_LIMIT"
    and c: "bt_ok (ca_cards c)" "cards_within G (ca_cards c)"
    and r: "readable j pre" "card_family (ie_entity e) \<noteq> None" "jr_read j (ie_id e) = Inl err"
  obtains c1 where "fold_after j scope bad a c = Some (c1, Inl (ErrStore err))" "same_frame c c1" "bt_ok (ca_cards c1)"
    "cards_within G (ca_cards c1)" "strip (ca_cards c1) = truth_from j bad (strip (ca_cards c)) pre"
proof -
  let ?c = "count_paged (length (pre @ e # post)) c"
  obtain c1 ps1 where 1: "entries_loop (fold_after_entry j bad) pre (?c, []) = ((c1, ps1), Next)"
    "same_frame ?c c1" "bt_ok (ca_cards c1)" "strip (ca_cards c1) = truth_from j bad (strip (ca_cards ?c)) pre"
    using fold_entries_ok [OF r(1), of ?c bad "[]"] c(1) by auto
  have w: "cards_within G (ca_cards c1)"
    using fold_entries_within [OF 1(1), of G] c(2) by (simp add: priors_within_def)
  obtain fam where fam: "card_family (ie_entity e) = Some fam" using r(2) by blast
  have "fold_after_entry j bad e (c1, ps1) = ((c1, note_prior (ie_entity e) c1 ps1), Fail (ErrStore err))"
    using fam r(3) by (simp add: fold_after_entry_def Let_def)
  then have "entries_loop (fold_after_entry j bad) (pre @ e # post) (?c, []) = ((c1, note_prior (ie_entity e) c1 ps1), Fail (ErrStore err))"
    unfolding entries_loop_append 1(1) by simp
  then have "fold_after_page j bad (pre @ e # post) (c, []) = ((c1, note_prior (ie_entity e) c1 ps1), Fail (ErrStore err))"
    unfolding fold_after_page_def fst_conv snd_conv by (simp only: prod.case flow.case)
  then have "fold_after j scope bad a c = Some (c1, Inl (ErrStore err))"
    using one_batch [OF j(1,2) _ j(3), of "fold_after_page j bad" "(c, [])"] by (simp add: fold_after_def)
  moreover have "same_frame c c1" using same_frame_trans [OF count_paged_frame(1) 1(2)] .
  ultimately show thesis using that 1(3,4) w by simp
qed

lemma fold_after_folds:
  assumes j: "journal_of j scope log" "filter (after_ok a) log = batch" "length batch \<le> PAGE_LIMIT" "readable j batch"
    and c: "bt_ok (ca_cards c)" "cards_within (generation_at j) (ca_cards c)"
    and e: "e \<in> set batch" "card_family (ie_entity e) \<noteq> None"
  obtains c1 where "fold_after j scope bad a c = Some (c1, Inr Folded)" "folded_to j bad c batch c1"
proof -
  let ?c = "count_paged (length batch) c"
  have ne: "batch \<noteq> []" using e(1) by auto
  obtain c1 ps1 where 1: "entries_loop (fold_after_entry j bad) batch (?c, []) = ((c1, ps1), Next)"
    using fold_entries_ok [OF j(4), of ?c bad "[]"] c(1) by auto
  have w: "priors_within (generation_at j) ps1" "ps1 \<noteq> []"
    using fold_entries_within [OF 1, of "generation_at j"] c(2) e by (auto simp: priors_within_def)
  have page: "fold_after_page j bad batch (c, []) = ((set_frontier (last batch) c1, ps1), Next)"
    using 1 by (simp add: fold_after_page_def)
  obtain c2 ps2 where 2: "fold_after_page j bad batch (c, []) = ((c2, ps2), Next)" "folded_to j bad c batch c2"
    using fold_page_ok [OF j(4) c(1) ne] by blast
  then have to: "folded_to j bad c batch (set_frontier (last batch) c1)" using page by simp
  obtain c3 where st: "stamp_generations j ps1 (set_frontier (last batch) c1) = (c3, Folded)"
    using stamp_folds [OF w(1)] by (metis prod.collapse)
  have "bt_ok (ca_cards (set_frontier (last batch) c1))" using to by (simp add: folded_to_def)
  from stamp_ok [OF this, of j ps1] have "folded_to j bad c batch c3" using st to by (auto simp: folded_to_def same_frame_def)
  moreover have "fold_after j scope bad a c = Some (c3, Inr Folded)"
    using one_batch [OF j(1,2) ne j(3), of "fold_after_page j bad" "(c, [])"] page st w(2) by (simp add: fold_after_def)
  ultimately show thesis by (rule that [rotated])
qed

text \<open>
  A cache that is about to fold \<open>batch\<close>: invalid, so that it is rebuilt and nothing is done yet, or anchored at
  the last entry of \<open>before\<close> with the cards of those entries, none of them ahead of the journal's generations.
\<close>

definition due ::
  "journal \<Rightarrow> (CachedCard \<Rightarrow> CachedCard) \<Rightarrow> string \<Rightarrow> (string \<Rightarrow> u64) \<Rightarrow> IndexEntry list \<Rightarrow> WorkspaceCache \<Rightarrow> bool" where
  "due j bad ws G before c \<longleftrightarrow>
     ca_freshness c = PfInvalid \<and> before = [] \<or>
     ca_freshness c \<noteq> PfInvalid \<and> ca_frontier c = frontier_of before \<and>
       (0 < ca_frontier c \<longrightarrow> anchor_matches j (scope_for_workspace ws) c) \<and>
       strip (ca_cards c) = truth j bad before \<and> cards_within G (ca_cards c)"

lemma suffix_batch:
  assumes "journal_of j scope (before @ batch)"
  shows "filter (after_ok (Some (frontier_of before))) (before @ batch) = batch"
proof -
  have "0 < ie_seq e" if "e \<in> set batch" for e using assms that by (simp add: journal_of_def)
  moreover have "ie_seq d \<le> frontier_of before" if "d \<in> set before" for d
  proof (cases before rule: rev_cases)
    case (snoc es e)
    then show ?thesis using that sorted_of [OF assms] by (auto simp: frontier_of_def sorted_wrt_append less_imp_le)
  qed (use that in simp)
  moreover have "frontier_of before < ie_seq e" if "e \<in> set batch" for e
    using that sorted_of [OF assms] \<open>\<And>e. e \<in> set batch \<Longrightarrow> 0 < ie_seq e\<close>
    by (cases before rule: rev_cases) (auto simp: frontier_of_def sorted_wrt_append)
  ultimately show ?thesis by (force simp: filter_id_conv filter_empty_conv)
qed

lemma truth_ok: "strip (ca_cards c) = truth j bad es \<Longrightarrow> bt_ok (ca_cards c)"
  using bt_ok_truth_from [of "[]" j bad es] by (metis bt_ok_Nil bt_ok_strip)

lemma anchor_matches_same:
  "ca_frontier c = ca_frontier d \<Longrightarrow> ca_anchor_event_id_hex c = ca_anchor_event_id_hex d \<Longrightarrow>
     anchor_matches j scope c = anchor_matches j scope d"
  by (simp add: anchor_matches_def split: list.split)

lemma failed_attempt:
  assumes j: "journal_of j (scope_for_workspace ws) (before @ pre @ e # post)" "length (pre @ e # post) \<le> PAGE_LIMIT"
    and c: "due j bad ws G before c"
    and r: "readable j pre" "card_family (ie_entity e) \<noteq> None" "jr_read j (ie_id e) = Inl err"
  obtains c1 where "assemble j ws bad c = Some (c1, Inl (ErrStore err))" "ca_frontier c1 = frontier_of before"
    "ca_freshness c1 \<noteq> PfInvalid" "0 < frontier_of before \<longrightarrow> anchor_matches j (scope_for_workspace ws) c1"
    "strip (ca_cards c1) = truth j bad (before @ pre)" "cards_within G (ca_cards c1)"
proof (cases "ca_freshness c = PfInvalid")
  case True
  then have b: "before = []" using c by (simp add: due_def)
  let ?c1 = "if 0 < ca_frontier c \<and> \<not> anchor_matches j (scope_for_workspace ws) (count_call c)
             then (count_call c)\<lparr>ca_freshness := PfInvalid\<rparr> else count_call c"
  let ?c0 = "?c1\<lparr>ca_freshness := PfRebuilding, ca_cards := [], ca_frontier := 0, ca_anchor_event_id_hex := [], ca_view := None\<rparr>"
  have all: "filter (after_ok None) (before @ pre @ e # post) = pre @ e # post" by (simp add: b)
  have c0: "bt_ok (ca_cards ?c0)" "cards_within G (ca_cards ?c0)" by (simp_all add: cards_within_def)
  obtain c1 where 1: "fold_after j (scope_for_workspace ws) bad None ?c0 = Some (c1, Inl (ErrStore err))" "same_frame ?c0 c1"
    "cards_within G (ca_cards c1)" "strip (ca_cards c1) = truth_from j bad (strip (ca_cards ?c0)) pre"
    by (rule fold_after_fails [OF j(1) all j(2) c0 r])
  have "ca_freshness ?c1 = PfInvalid" using True by simp
  then have "assemble j ws bad c = Some (c1, Inl (ErrStore err))"
    using 1(1) by (simp add: assemble_def refresh_cache_def rebuild_cache_def Let_def)
  then show thesis using that 1(2-4) b by (simp add: same_frame_def frontier_of_def strip_def)
next
  case False
  then have d: "ca_frontier c = frontier_of before" "0 < ca_frontier c \<longrightarrow> anchor_matches j (scope_for_workspace ws) c"
    "strip (ca_cards c) = truth j bad before" "cards_within G (ca_cards c)" using c by (auto simp: due_def)
  have rest: "filter (after_ok (Some (ca_frontier (count_call c)))) (before @ pre @ e # post) = pre @ e # post"
    using suffix_batch [OF j(1)] d(1) by simp
  have ok: "bt_ok (ca_cards (count_call c))" "cards_within G (ca_cards (count_call c))" using truth_ok [OF d(3)] d(4) by simp_all
  obtain c1 where 1: "fold_after j (scope_for_workspace ws) bad (Some (ca_frontier (count_call c))) (count_call c) = Some (c1, Inl (ErrStore err))"
    "same_frame (count_call c) c1" "cards_within G (ca_cards c1)" "strip (ca_cards c1) = truth_from j bad (strip (ca_cards (count_call c))) pre"
    by (rule fold_after_fails [OF j(1) rest j(2) ok r])
  have anchored: "anchor_matches j (scope_for_workspace ws) c1 = anchor_matches j (scope_for_workspace ws) c"
    "anchor_matches j (scope_for_workspace ws) (count_call c) = anchor_matches j (scope_for_workspace ws) c"
    by (rule anchor_matches_same; use 1(2) in \<open>simp add: same_frame_def\<close>)+
  have "assemble j ws bad c = Some (c1, Inl (ErrStore err))"
    using 1(1) d(2) False anchored(2) by (auto simp: assemble_def refresh_cache_def advance_cache_def)
  then show thesis using that 1(2-4) d False anchored(1) by (simp add: same_frame_def)
qed

lemma retried_assembly:
  assumes j: "journal_of j (scope_for_workspace ws) (before @ batch)" "length batch \<le> PAGE_LIMIT" "readable j batch"
    and c: "ca_frontier c = frontier_of before" "ca_freshness c \<noteq> PfInvalid" "0 < ca_frontier c \<longrightarrow> anchor_matches j (scope_for_workspace ws) c"
      "bt_ok (ca_cards c)" "cards_within (generation_at j) (ca_cards c)"
    and e: "e \<in> set batch" "card_family (ie_entity e) \<noteq> None"
  obtains c2 where "assemble j ws bad c =
      Some (c2, Inr (view_of ws (frontier_of (before @ batch)) (bt_values (truth_from j bad (strip (ca_cards c)) batch))))"
    "ca_frontier c2 = frontier_of (before @ batch)"
proof -
  have rest: "filter (after_ok (Some (ca_frontier (count_call c)))) (before @ batch) = batch" using suffix_batch [OF j(1)] c(1) by simp
  have ok: "bt_ok (ca_cards (count_call c))" "cards_within (generation_at j) (ca_cards (count_call c))" using c(4,5) by simp_all
  obtain c1 where 1: "fold_after j (scope_for_workspace ws) bad (Some (ca_frontier (count_call c))) (count_call c) = Some (c1, Inr Folded)"
    "folded_to j bad (count_call c) batch c1"
    by (rule fold_after_folds [OF j(1) rest j(2,3) ok e])
  let ?c2 = "c1\<lparr>ca_dirty := True, ca_freshness := PfStale, ca_view := None\<rparr>"
  have anchored: "anchor_matches j (scope_for_workspace ws) (count_call c) = anchor_matches j (scope_for_workspace ws) c"
    by (rule anchor_matches_same) simp_all
  have "refresh_cache j (scope_for_workspace ws) bad (count_call c) = Some (?c2, Inr ())"
    using 1(1) c(2,3) anchored by (auto simp: refresh_cache_def advance_cache_def)
  then have a: "assemble j ws bad c = Some (apsnd Inr (build_view ws ?c2))" by (simp add: assemble_def serve_view_def)
  have fr: "ca_frontier c1 = frontier_of (before @ batch)"
  proof -
    have "batch \<noteq> []" using e(1) by auto
    then show ?thesis using 1(2) by (simp add: folded_to_def frontier_from_def frontier_of_def)
  qed
  have v: "snd (build_view ws ?c2) = view_of ws (frontier_of (before @ batch)) (bt_values (truth_from j bad (strip (ca_cards c)) batch))"
    using 1(2) fr by (simp add: build_view_def Let_def values_strip folded_to_def)
  show thesis
    by (rule that [of "fst (build_view ws ?c2)"]) (use a v fr in \<open>simp_all add: build_view_def Let_def\<close>)
qed

text \<open>
  C40: A failed scan is not rolled back.  Let an assembly fail while it reads one page of new entries, at an entry after
  \<open>pre\<close>, in a cold start or at any frontier that is anchored.  Then the frontier has not moved and the cache is not
  marked invalid, but the cards of \<open>pre\<close> are folded; the next assembly, on the journal that is readable again and
  whose generations did not go back, answers with the view of a journal in which the entries of \<open>pre\<close> occur twice.
\<close>

theorem failed_scan_folds_twice:
  assumes "journal_of j (scope_for_workspace ws) (before @ pre @ e # post)" "length (pre @ e # post) \<le> PAGE_LIMIT"
    and "due j bad ws (generation_at j') before c"
    and "readable j pre" "card_family (ie_entity e) \<noteq> None" "jr_read j (ie_id e) = Inl err"
    and "journal_of j' (scope_for_workspace ws) (before @ pre @ e # post)" "readable j' (before @ pre @ e # post)"
    and "same_reads j j' (before @ pre)"
  shows "\<exists>c1 c2. assemble j ws bad c = Some (c1, Inl (ErrStore err)) \<and>
    ca_frontier c1 = frontier_of before \<and> ca_freshness c1 \<noteq> PfInvalid \<and> strip (ca_cards c1) = truth j bad (before @ pre) \<and>
    assemble j' ws bad c1 =
      Some (c2, Inr (view_of ws (frontier_of (before @ pre @ e # post)) (bt_values (truth j' bad (before @ pre @ pre @ e # post)))))"
proof -
  obtain c1 where 1: "assemble j ws bad c = Some (c1, Inl (ErrStore err))" "ca_frontier c1 = frontier_of before"
    "ca_freshness c1 \<noteq> PfInvalid" "0 < frontier_of before \<longrightarrow> anchor_matches j (scope_for_workspace ws) c1"
    "strip (ca_cards c1) = truth j bad (before @ pre)" "cards_within (generation_at j') (ca_cards c1)"
    by (rule failed_attempt [OF assms(1-6)])
  have r: "readable j' (pre @ e # post)" using assms(8) by (auto simp: readable_def)
  have anchored: "0 < ca_frontier c1 \<longrightarrow> anchor_matches j' (scope_for_workspace ws) c1"
    using 1(2,4) anchor_matches_iff [OF assms(1), of c1] anchor_matches_iff [OF assms(7), of c1] by simp
  have e: "e \<in> set (pre @ e # post)" by simp
  obtain c2 where "assemble j' ws bad c1 = Some (c2, Inr (view_of ws (frontier_of (before @ pre @ e # post))
      (bt_values (truth_from j' bad (strip (ca_cards c1)) (pre @ e # post)))))"
    by (rule retried_assembly [OF assms(7,2) r 1(2,3) anchored truth_ok [OF 1(5)] 1(6) e assms(5)])
  moreover have "strip (ca_cards c1) = truth j' bad (before @ pre)"
    using 1(5) truth_same_reads [OF assms(9)] by simp
  ultimately show ?thesis using 1(1-3,5) by (intro exI [of _ c1] exI [of _ c2]) simp
qed

text \<open>
  In the demo journal the second event cannot be read at first: the view assembled afterwards shows a
  duplicate-record anomaly that the journal does not contain.
\<close>

abbreviation twice_a :: ClaimCard where
  "twice_a \<equiv> claim_on_recorded (demo_claim ''a'') (claim_on_recorded (demo_claim ''a'') claim_card_default)"

theorem failed_scan_folds_twice_witness:
  "\<exists>c1 c2 v. assemble faulty_journal ''demo'' id cache_default = Some (c1, Inl (ErrStore ''io''))
     \<and> assemble demo_journal ''demo'' id c1 = Some (c2, Inr v)
     \<and> map (cc_anomalies \<circ> cv_card) (wv_claims v) = [[''duplicate-record''], []]
     \<and> map (cc_anomalies \<circ> cv_card) (wv_claims (view_at demo_journal id ''demo'' demo_log)) = [[], []]"
proof -
  let ?a = "demo_entry 1 ''a''" and ?b = "demo_entry 2 ''b''"
  have log: "demo_log = [] @ [?a] @ ?b # []" by (simp add: demo_log_def)
  have due: "due faulty_journal id ''demo'' (generation_at demo_journal) [] cache_default" by (simp add: due_def cache_default_def)
  have len: "length ([?a] @ ?b # []) \<le> PAGE_LIMIT" by (simp add: PAGE_LIMIT_def)
  have fault: "readable faulty_journal [?a]" "card_family (ie_entity ?b) \<noteq> None" "jr_read faulty_journal (ie_id ?b) = Inl ''io''"
    "same_reads faulty_journal demo_journal ([] @ [?a])"
    using demo_reads by (simp_all add: readable_def demo_entry_def demo_event_def card_family_def starts_with_def same_reads_def)
  from failed_scan_folds_twice [OF faulty_journal_of [unfolded log] len due fault(1-3) demo_journal_of [unfolded log]
      demo_readable [unfolded log] fault(4)]
  obtain c1 c2 where c: "assemble faulty_journal ''demo'' id cache_default = Some (c1, Inl (ErrStore ''io''))"
    "assemble demo_journal ''demo'' id c1 =
      Some (c2, Inr (view_of ''demo'' (frontier_of ([] @ [?a] @ ?b # [])) (bt_values (truth demo_journal id ([] @ [?a] @ [?a] @ ?b # [])))))"
    by blast
  have twice: "truth demo_journal id ([] @ [?a] @ [?a] @ ?b # []) =
      [(''claim:a'', CardClaim twice_a), (''claim:b'', CardClaim (claim_on_recorded (demo_claim ''b'') claim_card_default))]"
    by (simp add: truth_from_def card_put_def card_family_def demo_entry_def demo_reads
        demo_event_def apply_matching_def starts_with_def less_list_code)
  have v: "map cv_card (wv_claims (view_of ''demo'' n (bt_values (truth demo_journal id ([] @ [?a] @ [?a] @ ?b # []))))) =
      [twice_a, claim_on_recorded (demo_claim ''b'') claim_card_default]" for n
    unfolding twice
    by (simp add: bt_values_def view_claims_sorted claim_on_recorded_def demo_claim_def claim_card_default_def less_list_code)
  have t: "map cv_card (wv_claims (view_at demo_journal id ''demo'' demo_log)) =
      [claim_on_recorded (demo_claim ''a'') claim_card_default,
       claim_on_recorded (demo_claim ''b'') claim_card_default]"
    by (simp add: view_at_def demo_cards bt_values_def view_claims_sorted claim_on_recorded_def
        demo_claim_def claim_card_default_def less_list_code)
  have da: "cc_anomalies twice_a = [''duplicate-record'']"
    "cc_anomalies (claim_on_recorded (demo_claim x) claim_card_default) = []" for x
    by (simp_all add: claim_on_recorded_def claim_card_default_def Let_def)
  have m1: "map (cc_anomalies \<circ> cv_card) (wv_claims (view_of ''demo'' n (bt_values (truth demo_journal id ([] @ [?a] @ [?a] @ ?b # []))))) =
      [[''duplicate-record''], []]" for n
    using arg_cong [OF v, of "map cc_anomalies"] by (simp add: da)
  have m2: "map (cc_anomalies \<circ> cv_card) (wv_claims (view_at demo_journal id ''demo'' demo_log)) = [[], []]"
    using arg_cong [OF t, of "map cc_anomalies"] by (simp add: da)
  show ?thesis by (intro exI) (rule conjI [OF c(1) conjI [OF c(2) conjI [OF m1 m2]]])
qed

end
