(* ===== verification/Replay.thy ===== *)
theory Replay
  imports Journal Coordinates
begin

text \<open>
  Two replays through a frontier: the order of source snapshots (\<open>src/claims/temporal.rs\<close>) and
  the evidence joined to claims (\<open>src/claims/evidence.rs\<close>).
\<close>

section \<open>Source-snapshot order\<close>

type_synonym TemporalProjection = "(string \<times> string, TemporalRelation) btree"

fun invert :: "TemporalRelation \<Rightarrow> TemporalRelation" where
  "invert Before = After"
| "invert After = Before"
| "invert Same = Same"
| "invert Concurrent = Concurrent"
| "invert Unknown = Unknown"

definition temporal_compare ::
  "TemporalProjection \<Rightarrow> SourceSnapshotId \<Rightarrow> SourceSnapshotId \<Rightarrow> TemporalRelation" where
  "temporal_compare p left right =
     (if left = right then Same
      else case bt_get p (snapshot_str left, snapshot_str right) of
             Some r \<Rightarrow> r
           | None \<Rightarrow>
               (case bt_get p (snapshot_str right, snapshot_str left) of
                  Some r \<Rightarrow> invert r | None \<Rightarrow> Unknown))"

definition temporal_insert :: "SourceSnapshotRelationV1 \<Rightarrow> TemporalProjection \<Rightarrow> TemporalProjection" where
  "temporal_insert r p =
     bt_or_insert (snapshot_str (sl_left_snapshot_id r), snapshot_str (sl_right_snapshot_id r))
       (sl_relation r) p"

fun as_relation :: "domain_event \<Rightarrow> SourceSnapshotRelationV1 option" where
  "as_relation (EvSourceSnapshotRelation r) = Some r"
| "as_relation _ = None"

definition temporal_entry ::
  "journal \<Rightarrow> u64 \<Rightarrow> IndexEntry \<Rightarrow> TemporalProjection \<Rightarrow> TemporalProjection \<times> flow" where
  "temporal_entry j frontier =
     collect_entry j (Some frontier) KSourceSnapshotRelation as_relation (\<lambda>e. temporal_insert)"

definition temporal_through ::
  "journal \<Rightarrow> string \<Rightarrow> u64 \<Rightarrow> (TemporalProjection, TexoError) result option" where
  "temporal_through j workspace_id frontier =
     (case pages (\<lambda>a. jr_query j (scope_for_workspace workspace_id) a PAGE_LIMIT)
             (entries_loop (temporal_entry j frontier)) None [] of
        None \<Rightarrow> None
      | Some (p, Fail err) \<Rightarrow> Some (Inl err)
      | Some (p, _) \<Rightarrow> Some (Inr p))"

text \<open>The relation facts of a journal, in journal order, and the first fact for a directed pair.\<close>

definition relation_facts :: "journal \<Rightarrow> IndexEntry list \<Rightarrow> SourceSnapshotRelationV1 list" where
  "relation_facts j log =
     List.map_filter (\<lambda>e. if ie_kind e = KSourceSnapshotRelation
                          then Option.bind (payload_of j e) as_relation else None) log"

definition first_fact ::
  "SourceSnapshotRelationV1 list \<Rightarrow> SourceSnapshotId \<Rightarrow> SourceSnapshotId \<Rightarrow> TemporalRelation option" where
  "first_fact fs l r =
     map_option sl_relation
       (find (\<lambda>f. sl_left_snapshot_id f = l \<and> sl_right_snapshot_id f = r) fs)"

lemma well_typed_read:
  assumes "well_typed j log" "e \<in> set log" "ie_kind e = k" "\<And>n. k \<noteq> KForeign n"
  obtains ev where "jr_read j (ie_id e) = Inr (Payload ev)" "kind_of ev = k"
  using assms by (fastforce simp: well_typed_def)

lemma collect_step:
  assumes "well_typed j log" "e \<in> set log" "\<And>n. k \<noteq> KForeign n"
    and sel: "\<And>ev. kind_of ev = k \<Longrightarrow> \<exists>x. sel ev = Some x"
    and low: "\<And>fr'. fr = Some fr' \<Longrightarrow> ie_seq e \<le> fr'"
  shows "collect_entry j fr k sel put e s =
    (case (if ie_kind e = k then Option.bind (payload_of j e) sel else None) of
       None \<Rightarrow> s | Some x \<Rightarrow> put e x s, Next)"
proof (cases "ie_kind e = k")
  case True
  obtain ev where ev: "jr_read j (ie_id e) = Inr (Payload ev)" "kind_of ev = k"
    using well_typed_read [OF assms(1,2) True assms(3)] by blast
  obtain x where "sel ev = Some x" using sel [OF ev(2)] by blast
  then show ?thesis
    using True ev low by (auto simp: collect_entry_def payload_of_def decode_payload_def split: option.splits)
next
  case False
  then show ?thesis using low by (auto simp: collect_entry_def split: option.splits)
qed

lemma as_relation_total: "kind_of ev = KSourceSnapshotRelation \<Longrightarrow> \<exists>x. as_relation ev = Some x"
  by (cases ev) auto

lemma foldl_map_filter:
  "foldl (\<lambda>s e. case g e of None \<Rightarrow> s | Some x \<Rightarrow> put x s) s es = foldl (\<lambda>s x. put x s) s (List.map_filter g es)"
  by (induction es arbitrary: s) (auto simp: map_filter_simps split: option.split)

lemma temporal_fold_get:
  "bt_get (foldl (\<lambda>p f. temporal_insert f p) p fs) (snapshot_str l, snapshot_str r) =
     (case bt_get p (snapshot_str l, snapshot_str r) of Some v \<Rightarrow> Some v | None \<Rightarrow> first_fact fs l r)"
proof (induction fs arbitrary: p)
  case Nil
  then show ?case by (simp add: first_fact_def split: option.split)
next
  case (Cons f fs)
  then show ?case
    by (auto simp: first_fact_def temporal_insert_def bt_get_or_insert SourceSnapshotId.expand
        split: option.split)
qed

text \<open>
  Snapshot order is replayed from first facts.  On a well-typed journal the replay through a
  frontier returns, and comparing two different snapshots answers with the first recorded fact
  for that direction up to the frontier, else with the inverse of the first fact for the other
  direction, else with unknown; facts after the frontier do not count.
\<close>
theorem temporal_first_fact_wins:
  assumes j: "journal_of j (scope_for_workspace ws) log" and t: "well_typed j log"
  shows "\<exists>p. temporal_through j ws fr = Some (Inr p) \<and>
    (\<forall>l r. temporal_compare p l r =
       (if l = r then Same
        else case first_fact (relation_facts j (up_to fr log)) l r of
               Some v \<Rightarrow> v
             | None \<Rightarrow> (case first_fact (relation_facts j (up_to fr log)) r l of
                          Some v \<Rightarrow> invert v | None \<Rightarrow> Unknown)))"
proof -
  let ?g = "\<lambda>e. if ie_kind e = KSourceSnapshotRelation then Option.bind (payload_of j e) as_relation else None"
  let ?f = "\<lambda>e s. case ?g e of None \<Rightarrow> s | Some x \<Rightarrow> temporal_insert x s"
  let ?p = "foldl (\<lambda>s e. ?f e s) [] (up_to fr log)"
  have n: "0 < PAGE_LIMIT" by (simp add: PAGE_LIMIT_def)
  have past: "temporal_entry j fr e s = (s, Break)" if "fr < ie_seq e" for e s
    using that by (simp add: temporal_entry_def collect_entry_def)
  have low: "temporal_entry j fr e s = (?f e s, Next)" if "e \<in> set log" "ie_seq e \<le> fr" for e s
    unfolding temporal_entry_def
    by (subst collect_step [OF t that(1)]) (use that as_relation_total in auto)
  obtain fl where p: "pages (\<lambda>a. jr_query j (scope_for_workspace ws) a PAGE_LIMIT)
      (entries_loop (temporal_entry j fr)) None [] = Some (?p, fl)" "fl = Next \<or> fl = Break"
    using scan_exact [where f = ?f and s = "[]", OF j n past low] by blast
  have pf: "?p = foldl (\<lambda>p f. temporal_insert f p) [] (relation_facts j (up_to fr log))"
    by (simp add: foldl_map_filter relation_facts_def)
  have "temporal_through j ws fr = Some (Inr ?p)" using p by (auto simp: temporal_through_def)
  then show ?thesis
    using temporal_fold_get [of "[]"] pf by (auto simp: temporal_compare_def split: option.split)
qed

text \<open>A comparison is antisymmetric as long as only one direction of a pair is recorded.\<close>

lemma invert_invert [simp]: "invert (invert r) = r"
  by (cases r) auto

lemma temporal_compare_inverse:
  assumes "bt_get p (snapshot_str l, snapshot_str r) = None \<or> bt_get p (snapshot_str r, snapshot_str l) = None"
  shows "temporal_compare p r l = invert (temporal_compare p l r)"
  using assms by (auto simp: temporal_compare_def split: option.split)

section \<open>Evidence of claims\<close>

record EvidenceProjection =
  ep_by_claim :: "(string, ClaimEvidence list) btree"
  ep_incomplete :: bool

definition evidence_default :: EvidenceProjection where
  "evidence_default = \<lparr>ep_by_claim = [], ep_incomplete = False\<rparr>"

definition take_claim :: "string \<Rightarrow> EvidenceProjection \<Rightarrow> ClaimEvidence list \<times> EvidenceProjection" where
  "take_claim claim_id p =
     (case bt_get (ep_by_claim p) claim_id of None \<Rightarrow> [] | Some es \<Rightarrow> es,
      p\<lparr>ep_by_claim := bt_remove claim_id (ep_by_claim p)\<rparr>)"

definition for_claim :: "string \<Rightarrow> EvidenceProjection \<Rightarrow> ClaimEvidence list" where
  "for_claim claim_id p = (case bt_get (ep_by_claim p) claim_id of None \<Rightarrow> [] | Some es \<Rightarrow> es)"

type_synonym occurrences = "(EvidenceOccurrenceId, EvidenceOccurrence \<times> u64) btree"
type_synonym reconciliations = "(string \<times> string, EvidenceReconciliationAcceptedV1 \<times> u64) btree"
type_synonym evidence_links = "(ClaimEvidenceLinkedV1 \<times> u64) list"

fun as_occurrence :: "domain_event \<Rightarrow> EvidenceOccurrenceRecordedV1 option" where
  "as_occurrence (EvEvidenceOccurrence p) = Some p"
| "as_occurrence _ = None"

fun as_link :: "domain_event \<Rightarrow> ClaimEvidenceLinkedV1 option" where
  "as_link (EvClaimEvidenceLinked p) = Some p"
| "as_link _ = None"

fun as_acceptance :: "domain_event \<Rightarrow> EvidenceReconciliationAcceptedV1 option" where
  "as_acceptance (EvReconciliationAccepted p) = Some p"
| "as_acceptance _ = None"

definition put_occurrence ::
  "IndexEntry \<Rightarrow> EvidenceOccurrenceRecordedV1 \<Rightarrow> occurrences \<times> reconciliations \<times> evidence_links \<Rightarrow>
   occurrences \<times> reconciliations \<times> evidence_links" where
  "put_occurrence e p = (\<lambda>(occs, recs, links).
     (bt_insert (occ_occurrence_id (eo_occurrence p)) (eo_occurrence p, ie_seq e) occs, recs, links))"

definition put_link ::
  "IndexEntry \<Rightarrow> ClaimEvidenceLinkedV1 \<Rightarrow> occurrences \<times> reconciliations \<times> evidence_links \<Rightarrow>
   occurrences \<times> reconciliations \<times> evidence_links" where
  "put_link e p = (\<lambda>(occs, recs, links). (occs, recs, links @ [(p, ie_seq e)]))"

definition acceptance_key :: "ClaimId \<Rightarrow> EvidenceOccurrenceId \<Rightarrow> string \<times> string" where
  "acceptance_key c o' = (claim_str c, occurrence_str o')"

definition put_acceptance ::
  "IndexEntry \<Rightarrow> EvidenceReconciliationAcceptedV1 \<Rightarrow> occurrences \<times> reconciliations \<times> evidence_links \<Rightarrow>
   occurrences \<times> reconciliations \<times> evidence_links" where
  "put_acceptance e p = (\<lambda>(occs, recs, links).
     (occs, bt_or_insert (acceptance_key (ra_claim_id p) (ra_occurrence_id p)) (p, ie_seq e) recs, links))"

text \<open>The body of the scan: three kinds are collected, every other kind is passed over.\<close>

definition evidence_entry ::
  "journal \<Rightarrow> u64 \<Rightarrow> IndexEntry \<Rightarrow> occurrences \<times> reconciliations \<times> evidence_links \<Rightarrow>
   (occurrences \<times> reconciliations \<times> evidence_links) \<times> flow" where
  "evidence_entry j frontier e s =
     (if ie_kind e = KEvidenceOccurrence
      then collect_entry j (Some frontier) KEvidenceOccurrence as_occurrence put_occurrence e s
      else if ie_kind e = KClaimEvidenceLinked
      then collect_entry j (Some frontier) KClaimEvidenceLinked as_link put_link e s
      else collect_entry j (Some frontier) KReconciliationAccepted as_acceptance put_acceptance e s)"

definition provenance :: "EvidenceReconciliationAcceptedV1 \<times> u64 \<Rightarrow> ReconciliationProvenance" where
  "provenance r = (case r of (a, acceptance_sequence) \<Rightarrow>
     \<lparr>rp_score_ppm = ra_score_ppm a, rp_judge_fingerprint = ra_judge_fingerprint a,
      rp_cache_key_hex = ra_cache_key_hex a, rp_policy_version = ra_policy_version a,
      rp_observed_at_ms = ra_observed_at_ms a, rp_acceptance_sequence = acceptance_sequence\<rparr>)"

definition claim_evidence ::
  "reconciliations \<Rightarrow> ClaimEvidenceLinkedV1 \<Rightarrow> u64 \<Rightarrow> EvidenceOccurrence \<Rightarrow> u64 \<Rightarrow> ClaimEvidence" where
  "claim_evidence recs l link_sequence occ occurrence_sequence =
     \<lparr>ce_claim_id = claim_str (el_claim_id l), ce_occurrence = occ, ce_stance = el_stance l,
      ce_method = el_method l, ce_occurrence_sequence = occurrence_sequence,
      ce_link_sequence = link_sequence,
      ce_reconciliation = map_option provenance
         (bt_get recs (acceptance_key (el_claim_id l) (el_occurrence_id l)))\<rparr>"

definition join_link ::
  "occurrences \<Rightarrow> reconciliations \<Rightarrow> ClaimEvidenceLinkedV1 \<times> u64 \<Rightarrow> EvidenceProjection \<Rightarrow> EvidenceProjection" where
  "join_link occs recs l p =
     (case l of (link, link_sequence) \<Rightarrow>
       case bt_get occs (el_occurrence_id link) of
         None \<Rightarrow> p\<lparr>ep_incomplete := True\<rparr>
       | Some (occ, occurrence_sequence) \<Rightarrow>
           p\<lparr>ep_by_claim := bt_push (claim_str (el_claim_id link))
               (claim_evidence recs link link_sequence occ occurrence_sequence) (ep_by_claim p)\<rparr>)"

definition evidence_key :: "ClaimEvidence \<Rightarrow> string \<times> u64 \<times> u64" where
  "evidence_key e =
     (occ_path (ce_occurrence e), br_start (occ_byte_range (ce_occurrence e)), ce_link_sequence e)"

definition evidence_join :: "occurrences \<Rightarrow> reconciliations \<Rightarrow> evidence_links \<Rightarrow> EvidenceProjection" where
  "evidence_join occs recs links =
     (let p = foldl (\<lambda>p l. join_link occs recs l p) evidence_default links
      in p\<lparr>ep_by_claim := map (\<lambda>(k, es). (k, sort_key evidence_key es)) (ep_by_claim p)\<rparr>)"

definition evidence_through ::
  "journal \<Rightarrow> string \<Rightarrow> u64 \<Rightarrow> (EvidenceProjection, TexoError) result option" where
  "evidence_through j workspace_id frontier =
     (case pages (\<lambda>a. jr_query j (scope_for_workspace workspace_id) a PAGE_LIMIT)
             (entries_loop (evidence_entry j frontier)) None ([], [], []) of
        None \<Rightarrow> None
      | Some (s, Fail err) \<Rightarrow> Some (Inl err)
      | Some ((occs, recs, links), _) \<Rightarrow> Some (Inr (evidence_join occs recs links)))"

text \<open>The links of one claim whose occurrence is available, joined.\<close>

definition joined_for ::
  "occurrences \<Rightarrow> reconciliations \<Rightarrow> string \<Rightarrow> evidence_links \<Rightarrow> ClaimEvidence list" where
  "joined_for occs recs c links =
     List.map_filter (\<lambda>(l, n). if claim_str (el_claim_id l) = c
        then map_option (\<lambda>(occ, m). claim_evidence recs l n occ m) (bt_get occs (el_occurrence_id l))
        else None) links"

lemma join_fold_incomplete:
  "ep_incomplete (foldl (\<lambda>p l. join_link occs recs l p) p links) \<longleftrightarrow>
     ep_incomplete p \<or> (\<exists>(l, n) \<in> set links. bt_get occs (el_occurrence_id l) = None)"
  by (induction links arbitrary: p) (auto simp: join_link_def split: option.splits prod.splits)

lemma join_fold_get:
  "bt_get (ep_by_claim (foldl (\<lambda>p l. join_link occs recs l p) p links)) c =
     (case (bt_get (ep_by_claim p) c, joined_for occs recs c links) of
        (None, []) \<Rightarrow> None
      | (None, es) \<Rightarrow> Some es
      | (Some ds, es) \<Rightarrow> Some (ds @ es))"
proof (induction links arbitrary: p)
  case Nil
  then show ?case by (simp add: joined_for_def map_filter_simps split: option.split)
next
  case (Cons l links)
  obtain k n where l: "l = (k, n)" by fastforce
  show ?case
    using Cons [of "join_link occs recs l p"]
    by (auto simp: l joined_for_def map_filter_simps join_link_def bt_push_def
        split: option.splits list.splits prod.splits)
qed

lemma get_sorted_map: "bt_get (map (\<lambda>(k, es). (k, f es)) m) c = map_option f (bt_get m c)"
  by (induction m) auto

lemma for_claim_join:
  "for_claim c (evidence_join occs recs links) = sort_key evidence_key (joined_for occs recs c links)"
  by (auto simp: for_claim_def evidence_join_def Let_def get_sorted_map join_fold_get evidence_default_def
      split: option.splits list.splits)

lemma joined_link_sequence:
  "distinct (map snd links) \<Longrightarrow> distinct (map ce_link_sequence (joined_for occs recs c links))
     \<and> set (map ce_link_sequence (joined_for occs recs c links)) \<subseteq> set (map snd links)"
proof (induction links)
  case Nil
  then show ?case by (simp add: joined_for_def map_filter_simps)
next
  case (Cons l links)
  obtain k n where l: "l = (k, n)" by fastforce
  from Cons show ?case
    by (auto simp: l joined_for_def map_filter_simps claim_evidence_def split: option.splits)
qed

lemma sort_key_unique:
  fixes k :: "'a \<Rightarrow> 'b::linorder"
  assumes m: "mset xs = mset ys" and inj: "inj_on k (set xs)"
  shows "sort_key k xs = sort_key k ys"
proof -
  have eq: "sort (map k xs) = map k (sort_key k zs)" if "mset zs = mset xs" for zs
  proof (rule properties_for_sort)
    show "mset (map k (sort_key k zs)) = mset (map k xs)" using that by simp
  qed simp
  have "map k (sort_key k xs) = map k (sort_key k ys)"
    using eq [of xs] eq [of ys] m by simp
  moreover have "set (sort_key k xs) \<union> set (sort_key k ys) = set xs"
    using m by (auto dest: mset_eq_setD)
  ultimately show ?thesis using inj by (metis map_inj_on)
qed

lemma mset_map_filter: "mset xs = mset ys \<Longrightarrow> mset (List.map_filter f xs) = mset (List.map_filter f ys)"
proof -
  assume m: "mset xs = mset ys"
  have "mset (List.map_filter f zs) = image_mset (the \<circ> f) (filter_mset (\<lambda>x. f x \<noteq> None) (mset zs))" for zs
    by (induction zs) (auto simp: map_filter_simps split: option.split)
  then show ?thesis using m by simp
qed

text \<open>
  The order in which links are discovered does not matter.  Joining any permutation of the
  links, each with its own journal sequence, gives every claim the same evidence in the same
  order (path, then start offset, then link sequence), loses no link whose occurrence is known,
  and reports the projection incomplete exactly when some link names an unknown occurrence.
\<close>
theorem evidence_join_order_independent:
  assumes "mset links = mset links'" and "distinct (map snd links)"
  shows "for_claim c (evidence_join occs recs links) = for_claim c (evidence_join occs recs links')
    \<and> mset (for_claim c (evidence_join occs recs links)) = mset (joined_for occs recs c links)
    \<and> sorted (map evidence_key (for_claim c (evidence_join occs recs links)))
    \<and> (ep_incomplete (evidence_join occs recs links) \<longleftrightarrow>
         (\<exists>(l, n) \<in> set links. bt_get occs (el_occurrence_id l) = None))
    \<and> ep_incomplete (evidence_join occs recs links') = ep_incomplete (evidence_join occs recs links)"
proof -
  let ?J = "joined_for occs recs c"
  have m: "mset (?J links) = mset (?J links')"
    unfolding joined_for_def by (rule mset_map_filter [OF assms(1)])
  have "distinct (map ce_link_sequence (?J links))" using joined_link_sequence [OF assms(2)] by blast
  then have inj: "inj_on evidence_key (set (?J links))"
    by (auto simp: inj_on_def distinct_map evidence_key_def)
  have "sort_key evidence_key (?J links) = sort_key evidence_key (?J links')"
    by (rule sort_key_unique [OF m inj])
  moreover have "ep_incomplete (evidence_join occs recs ks) \<longleftrightarrow>
      (\<exists>(l, n) \<in> set ks. bt_get occs (el_occurrence_id l) = None)" for ks
    using join_fold_incomplete [of occs recs evidence_default ks]
    by (simp add: evidence_join_def Let_def evidence_default_def)
  moreover have "set links = set links'" using assms(1) by (rule mset_eq_setD)
  ultimately show ?thesis by (simp add: for_claim_join m)
qed

definition demo_link :: "string \<Rightarrow> ClaimEvidenceLinkedV1" where
  "demo_link c =
     \<lparr>el_workspace_id = WorkspaceId ''demo'', el_claim_id = ClaimId c,
      el_occurrence_id = EvidenceOccurrenceId ''evidence_1'', el_stance = Supports,
      el_method = Deterministic, el_observed_at_ms = 1\<rparr>"

theorem evidence_join_order_independent_witness:
  "for_claim ''claim_a'' (evidence_join [] [] [(demo_link ''claim_a'', 4), (demo_link ''claim_b'', 7)])
     = for_claim ''claim_a'' (evidence_join [] [] [(demo_link ''claim_b'', 7), (demo_link ''claim_a'', 4)])
   \<and> ep_incomplete (evidence_join [] [] [(demo_link ''claim_a'', 4), (demo_link ''claim_b'', 7)])"
proof -
  let ?a = "[(demo_link ''claim_a'', 4), (demo_link ''claim_b'', 7)] :: evidence_links"
  let ?b = "[(demo_link ''claim_b'', 7), (demo_link ''claim_a'', 4)]"
  have "mset ?a = mset ?b" "distinct (map snd ?a)" by simp_all
  from evidence_join_order_independent [OF this, of "''claim_a''" "[]" "[]"] show ?thesis by auto
qed

definition demo_relation :: SourceSnapshotRelationV1 where
  "demo_relation =
     (let g = \<lparr>git_format = Sha1, git_hex = replicate 40 (CHR ''a'')\<rparr> in
      \<lparr>sl_workspace_id = WorkspaceId ''demo'', sl_repository_id = RepositoryId ''repo_1'',
       sl_left_snapshot_id = SourceSnapshotId ''snapshot_a'',
       sl_right_snapshot_id = SourceSnapshotId ''snapshot_b'',
       sl_left_commit = g, sl_right_commit = g, sl_relation = Before, sl_observed_at_ms = 1\<rparr>)"

definition relation_entry :: IndexEntry where
  "relation_entry = \<lparr>ie_seq = 3, ie_entity = ''source-relation:a:b'',
     ie_kind = KSourceSnapshotRelation, ie_id = 3\<rparr>"

definition relation_journal :: journal where
  "relation_journal = memory_journal ''workspace:demo''
     [(relation_entry, Inr (Payload (EvSourceSnapshotRelation demo_relation)))] (\<lambda>_. None)"

theorem temporal_first_fact_wins_witness:
  "\<exists>p. temporal_through relation_journal ''demo'' 9 = Some (Inr p)
     \<and> temporal_compare p (SourceSnapshotId ''snapshot_b'') (SourceSnapshotId ''snapshot_a'') = After"
proof -
  have j: "journal_of relation_journal (scope_for_workspace ''demo'') [relation_entry]"
    and t: "well_typed relation_journal [relation_entry]"
    by (simp_all add: journal_of_def well_typed_def relation_journal_def memory_journal_def
        relation_entry_def scope_for_workspace_def)
  have r: "jr_read relation_journal 3 = Inr (Payload (EvSourceSnapshotRelation demo_relation))"
    by (simp add: relation_journal_def memory_journal_def relation_entry_def)
  have f: "relation_facts relation_journal (up_to 9 [relation_entry]) = [demo_relation]"
    by (simp add: relation_facts_def up_to_def relation_entry_def payload_of_def r map_filter_simps)
  show ?thesis
    using temporal_first_fact_wins [OF j t, of 9]
    by (auto simp: f first_fact_def demo_relation_def Let_def)
qed

section \<open>The evidence scan\<close>

definition evidence_put ::
  "journal \<Rightarrow> IndexEntry \<Rightarrow> occurrences \<times> reconciliations \<times> evidence_links \<Rightarrow>
   occurrences \<times> reconciliations \<times> evidence_links" where
  "evidence_put j e s =
     (if ie_kind e = KEvidenceOccurrence
      then case Option.bind (payload_of j e) as_occurrence of None \<Rightarrow> s | Some p \<Rightarrow> put_occurrence e p s
      else if ie_kind e = KClaimEvidenceLinked
      then case Option.bind (payload_of j e) as_link of None \<Rightarrow> s | Some p \<Rightarrow> put_link e p s
      else if ie_kind e = KReconciliationAccepted
      then case Option.bind (payload_of j e) as_acceptance of None \<Rightarrow> s | Some p \<Rightarrow> put_acceptance e p s
      else s)"

lemma evidence_payloads_total:
  "kind_of ev = KEvidenceOccurrence \<Longrightarrow> \<exists>x. as_occurrence ev = Some x"
  "kind_of ev = KClaimEvidenceLinked \<Longrightarrow> \<exists>x. as_link ev = Some x"
  "kind_of ev = KReconciliationAccepted \<Longrightarrow> \<exists>x. as_acceptance ev = Some x"
  by (cases ev; simp)+

lemma evidence_entry_step:
  assumes t: "well_typed j log" and e: "e \<in> set log" "ie_seq e \<le> fr"
  shows "evidence_entry j fr e s = (evidence_put j e s, Next)"
proof -
  have c1: "collect_entry j (Some fr) KEvidenceOccurrence as_occurrence put_occurrence e s =
      (case (if ie_kind e = KEvidenceOccurrence then Option.bind (payload_of j e) as_occurrence else None)
       of None \<Rightarrow> s | Some x \<Rightarrow> put_occurrence e x s, Next)"
    by (rule collect_step [OF t e(1)]) (use e(2) evidence_payloads_total in auto)
  have c2: "collect_entry j (Some fr) KClaimEvidenceLinked as_link put_link e s =
      (case (if ie_kind e = KClaimEvidenceLinked then Option.bind (payload_of j e) as_link else None)
       of None \<Rightarrow> s | Some x \<Rightarrow> put_link e x s, Next)"
    by (rule collect_step [OF t e(1)]) (use e(2) evidence_payloads_total in auto)
  have c3: "collect_entry j (Some fr) KReconciliationAccepted as_acceptance put_acceptance e s =
      (case (if ie_kind e = KReconciliationAccepted then Option.bind (payload_of j e) as_acceptance else None)
       of None \<Rightarrow> s | Some x \<Rightarrow> put_acceptance e x s, Next)"
    by (rule collect_step [OF t e(1)]) (use e(2) evidence_payloads_total in auto)
  show ?thesis by (simp add: evidence_entry_def evidence_put_def c1 c2 c3)
qed

text \<open>The evidence replay returns on every well-typed journal, and is the join of its fold.\<close>

lemma evidence_through_returns:
  assumes j: "journal_of j (scope_for_workspace ws) log" and t: "well_typed j log"
  shows "\<exists>occs recs links. foldl (\<lambda>s e. evidence_put j e s) ([], [], []) (up_to fr log) = (occs, recs, links)
    \<and> evidence_through j ws fr = Some (Inr (evidence_join occs recs links))"
proof -
  let ?s = "foldl (\<lambda>s e. evidence_put j e s) ([], [], []) (up_to fr log)"
  have n: "0 < PAGE_LIMIT" by (simp add: PAGE_LIMIT_def)
  have past: "evidence_entry j fr e s = (s, Break)" if "fr < ie_seq e" for e s
    using that by (simp add: evidence_entry_def collect_entry_def)
  obtain fl where p: "pages (\<lambda>a. jr_query j (scope_for_workspace ws) a PAGE_LIMIT)
      (entries_loop (evidence_entry j fr)) None ([], [], []) = Some (?s, fl)" "fl = Next \<or> fl = Break"
    using scan_exact [where f = "evidence_put j" and s = "([], [], [])", OF j n past evidence_entry_step [OF t]]
    by blast
  obtain occs recs links where s: "?s = (occs, recs, links)" by (cases ?s) auto
  show ?thesis using p s by (auto simp: evidence_through_def)
qed

end
