(* ===== verification/Snapshots.thy ===== *)
theory Snapshots
  imports Tokens Replay Views
begin

text \<open>
  Snapshot-consistent reads (\<open>src/ops/handlers/common.rs\<close>): the anchor at a frontier, the source
  snapshots recorded through a frontier, the token issued with a view, and the read of an older
  view by its token.  The operation environment is its store, workspace and journal identity.
\<close>

section \<open>Reading the environment\<close>

record OpEnv =
  env_store :: journal
  env_workspace_id :: string
  env_journal_id :: JournalId

definition frontier_unavailable :: "u64 \<Rightarrow> TexoError" where
  "frontier_unavailable frontier =
     ErrSnapshot SnapUnavailable (''workspace frontier '' @ show_nat frontier @ '' is unavailable'')"

definition anchor_at_frontier :: "journal \<Rightarrow> string \<Rightarrow> u64 \<Rightarrow> (string, TexoError) result" where
  "anchor_at_frontier j workspace_id frontier =
     (if frontier = 0 then Inr []
      else case jr_query j (scope_for_workspace workspace_id) (Some (frontier - 1)) 1 of
             [] \<Rightarrow> Inl (frontier_unavailable frontier)
           | e # _ \<Rightarrow>
               if ie_seq e = frontier then Inr (anchor_hex e) else Inl (frontier_unavailable frontier))"

definition validate_snapshot_anchor ::
  "journal \<Rightarrow> string \<Rightarrow> SnapshotDescriptor \<Rightarrow> (unit, TexoError) result" where
  "validate_snapshot_anchor j workspace_id d =
     res_bind (anchor_at_frontier j workspace_id (sd_frontier d)) (\<lambda>actual.
       if actual \<noteq> sd_anchor_event_id_hex d
       then Inl (ErrSnapshot AnchorMismatch
              (''journal anchor at frontier '' @ show_nat (sd_frontier d) @ '' differs from the token''))
       else Inr ())"

fun as_snapshot :: "domain_event \<Rightarrow> SourceSnapshotRecordedV1 option" where
  "as_snapshot (EvSourceSnapshotRecorded p) = Some p"
| "as_snapshot _ = None"

definition source_snapshots_through ::
  "OpEnv \<Rightarrow> u64 option \<Rightarrow> (SourceSnapshotRecordedV1 list, TexoError) result option" where
  "source_snapshots_through env frontier =
     (case pages (\<lambda>a. jr_query (env_store env) (scope_for_workspace (env_workspace_id env)) a 256)
             (entries_loop (collect_entry (env_store env) frontier KSourceSnapshotRecorded as_snapshot
                (\<lambda>e p ps. ps @ [p]))) None [] of
        None \<Rightarrow> None
      | Some (ps, Fail err) \<Rightarrow> Some (Inl err)
      | Some (ps, _) \<Rightarrow> Some (Inr ps))"

text \<open>\<open>Vec::pop\<close> of the snapshots read.\<close>

definition latest_source_snapshot ::
  "OpEnv \<Rightarrow> u64 option \<Rightarrow> (SourceSnapshotRecordedV1 option, TexoError) result option" where
  "latest_source_snapshot env frontier =
     map_option (map_sum id (\<lambda>ps. if ps = [] then None else Some (last ps)))
       (source_snapshots_through env frontier)"

definition source_snapshot_by_id ::
  "OpEnv \<Rightarrow> SourceSnapshotId \<Rightarrow> (SourceSnapshotRecordedV1 option, TexoError) result option" where
  "source_snapshot_by_id env i =
     map_option (map_sum id (\<lambda>ps. find (\<lambda>p. sn_snapshot_id p = i) (rev ps)))
       (source_snapshots_through env None)"

section \<open>Issuing and resolving a snapshot\<close>

definition snapshot_for_view ::
  "(string \<Rightarrow> string) \<Rightarrow> OpEnv \<Rightarrow> WorkspaceView \<Rightarrow> (SnapshotRead, TexoError) result option" where
  "snapshot_for_view B env view =
     (case map_sum ErrIdParse id (workspace_id_new (wv_workspace_id view)) of
        Inl err \<Rightarrow> Some (Inl err)
      | Inr w \<Rightarrow>
          (case anchor_at_frontier (env_store env) (env_workspace_id env) (wv_frontier view) of
             Inl err \<Rightarrow> Some (Inl err)
           | Inr anchor \<Rightarrow>
               map_option (\<lambda>r. res_bind r (\<lambda>latest.
                   Inr (snapshot_read_new B
                     \<lparr>sd_workspace_id = w, sd_journal_id = env_journal_id env,
                      sd_frontier = wv_frontier view, sd_anchor_event_id_hex = anchor,
                      sd_source_snapshot_id = map_option sn_snapshot_id latest\<rparr>)))
                 (latest_source_snapshot env (Some (wv_frontier view)))))"

definition source_unavailable :: TexoError where
  "source_unavailable =
     ErrSnapshot SourceUnavailable
       ''the token's source snapshot is unavailable at its journal frontier''"

text \<open>
  The read of a view, latest or by token.  \<open>show_contract\<close> and \<open>display\<close> are the \<open>Display\<close> of
  the two error types.
\<close>

definition read_requested ::
  "(string \<Rightarrow> string) \<Rightarrow> (KnowledgeContractError \<Rightarrow> string) \<Rightarrow> (TexoError \<Rightarrow> string) \<Rightarrow>
   (CachedCard \<Rightarrow> CachedCard) \<Rightarrow> OpEnv \<Rightarrow> string \<Rightarrow> (WorkspaceView \<times> SnapshotRead, TexoError) result option" where
  "read_requested B show_contract display bad env requested =
     (case map_sum ErrIdParse id (workspace_id_new (env_workspace_id env)) of
        Inl err \<Rightarrow> Some (Inl err)
      | Inr w \<Rightarrow>
          (case resolve_for_journal B requested w (env_journal_id env) of
             Inl err \<Rightarrow> Some (Inl (ErrSnapshot InvalidToken (show_contract err)))
           | Inr d \<Rightarrow>
               (case latest_source_snapshot env (Some (sd_frontier d)) of
                  None \<Rightarrow> None
                | Some (Inl err) \<Rightarrow> Some (Inl err)
                | Some (Inr latest) \<Rightarrow>
                    if map_option sn_snapshot_id latest \<noteq> sd_source_snapshot_id d
                    then Some (Inl source_unavailable)
                    else (case validate_snapshot_anchor (env_store env) (env_workspace_id env) d of
                            Inl err \<Rightarrow> Some (Inl err)
                          | Inr _ \<Rightarrow>
                              map_option (\<lambda>r. case r of
                                  Inl err \<Rightarrow> Inl (ErrSnapshot SnapUnavailable (display err))
                                | Inr view \<Rightarrow> Inr (view, snapshot_read_new B d))
                                (assemble_through (env_store env) (env_workspace_id env) bad (sd_frontier d))))))"

definition assemble_snapshot_view ::
  "(string \<Rightarrow> string) \<Rightarrow> (KnowledgeContractError \<Rightarrow> string) \<Rightarrow> (TexoError \<Rightarrow> string) \<Rightarrow>
   (CachedCard \<Rightarrow> CachedCard) \<Rightarrow> OpEnv \<Rightarrow> string option \<Rightarrow> WorkspaceCache \<Rightarrow>
   (WorkspaceCache \<times> (WorkspaceView \<times> SnapshotRead, TexoError) result) option" where
  "assemble_snapshot_view B show_contract display bad env requested c =
     (case requested of
        None \<Rightarrow>
          (case assemble (env_store env) (env_workspace_id env) bad c of
             None \<Rightarrow> None
           | Some (c', Inl err) \<Rightarrow> Some (c', Inl err)
           | Some (c', Inr view) \<Rightarrow>
               map_option (\<lambda>r. (c', res_bind r (\<lambda>snap. Inr (view, snap)))) (snapshot_for_view B env view))
      | Some token \<Rightarrow>
          map_option (Pair c) (read_requested B show_contract display bad env token))"

section \<open>The scan of source snapshots\<close>

definition snapshots_of :: "journal \<Rightarrow> IndexEntry list \<Rightarrow> SourceSnapshotRecordedV1 list" where
  "snapshots_of j log =
     List.map_filter (\<lambda>e. if ie_kind e = KSourceSnapshotRecorded
                          then Option.bind (payload_of j e) as_snapshot else None) log"

lemma foldl_snoc_map_filter:
  "foldl (\<lambda>s e. case g e of None \<Rightarrow> s | Some x \<Rightarrow> s @ [x]) s es = s @ List.map_filter g es"
  by (induction es arbitrary: s) (auto simp: map_filter_simps split: option.split)

lemma as_snapshot_total: "kind_of ev = KSourceSnapshotRecorded \<Longrightarrow> \<exists>x. as_snapshot ev = Some x"
  by (cases ev) auto

lemma snapshots_through_exact:
  assumes j: "journal_of (env_store env) (scope_for_workspace (env_workspace_id env)) log"
    and t: "well_typed (env_store env) log"
  shows "source_snapshots_through env (Some fr) = Some (Inr (snapshots_of (env_store env) (up_to fr log)))"
proof -
  let ?j = "env_store env"
  let ?g = "\<lambda>e. if ie_kind e = KSourceSnapshotRecorded then Option.bind (payload_of ?j e) as_snapshot else None"
  let ?step = "collect_entry ?j (Some fr) KSourceSnapshotRecorded as_snapshot (\<lambda>e p ps. ps @ [p])"
  let ?f = "\<lambda>e s. case ?g e of None \<Rightarrow> s | Some x \<Rightarrow> s @ [x]"
  have n: "0 < (256::nat)" by simp
  have past: "?step e s = (s, Break)" if "fr < ie_seq e" for e s
    using that by (simp add: collect_entry_def)
  have low: "?step e s = (?f e s, Next)" if "e \<in> set log" "ie_seq e \<le> fr" for e s
    by (rule collect_step [OF t that(1)]) (use that as_snapshot_total in auto)
  obtain fl where p: "pages (\<lambda>a. jr_query ?j (scope_for_workspace (env_workspace_id env)) a 256)
      (entries_loop ?step) None [] = Some (foldl (\<lambda>s e. ?f e s) [] (up_to fr log), fl)"
    "fl = Next \<or> fl = Break"
    using scan_exact [where f = ?f and s = "[]", OF j n past low] by blast
  then show ?thesis
    by (auto simp: source_snapshots_through_def snapshots_of_def foldl_snoc_map_filter)
qed

lemma latest_exact:
  assumes "journal_of (env_store env) (scope_for_workspace (env_workspace_id env)) log"
    and "well_typed (env_store env) log"
  shows "latest_source_snapshot env (Some fr) =
    (let ps = snapshots_of (env_store env) (up_to fr log) in
     Some (Inr (if ps = [] then None else Some (last ps))))"
  using snapshots_through_exact [OF assms, of fr] by (simp add: latest_source_snapshot_def Let_def)

lemma well_typed_readable: "well_typed j log \<Longrightarrow> readable j log"
  by (auto simp: well_typed_def readable_def)

lemma snapshots_same_reads: "same_reads j j' es \<Longrightarrow> snapshots_of j' es = snapshots_of j es"
  by (induction es)
    (auto simp: snapshots_of_def map_filter_simps same_reads_def payload_of_def split: option.split)

section \<open>Anchors\<close>

lemma anchor_at_last:
  assumes "journal_of j (scope_for_workspace ws) (log @ new)"
  shows "anchor_at_frontier j ws (frontier_of log) = Inr (if log = [] then [] else anchor_hex (last log))"
proof (cases log rule: rev_cases)
  case (snoc es e)
  have srt: "sorted_wrt (\<lambda>d e. ie_seq d < ie_seq e) (es @ e # new)"
    and q: "jr_query j (scope_for_workspace ws) (Some (ie_seq e - 1)) 1 =
      take 1 (filter (after_ok (Some (ie_seq e - 1))) (es @ e # new))"
    and pos: "0 < ie_seq e"
    using assms snoc by (auto simp: journal_of_def)
  have "filter (after_ok (Some (ie_seq e - 1))) es = []"
    using srt by (auto simp: filter_empty_conv sorted_wrt_append)
  then have "jr_query j (scope_for_workspace ws) (Some (ie_seq e - 1)) 1 = [e]"
    using q pos by simp
  then show ?thesis using snoc pos by (simp add: anchor_at_frontier_def frontier_of_def)
qed (simp add: anchor_at_frontier_def frontier_of_def)

lemma anchor_at_frontier_ok: "anchor_at_frontier j ws f = Inr a \<Longrightarrow>
    a = [] \<or> length a = 32 \<and> list_all is_lower_hex a"
  by (auto simp: anchor_at_frontier_def anchor_hex_def list_all_iff split: list.splits if_splits
      dest: hex_pad_lower_hex)

section \<open>Repeatable reads\<close>

definition snapshot_ids_ok :: "journal \<Rightarrow> IndexEntry list \<Rightarrow> bool" where
  "snapshot_ids_ok j log \<longleftrightarrow>
     (\<forall>p \<in> set (snapshots_of j log). snapshot_id_parse (snapshot_str (sn_snapshot_id p)) = Inr (sn_snapshot_id p))"

text \<open>
  A snapshot token keeps reading the same view.  A latest read returns the view of the whole
  journal together with a token; after the journal has grown by any entries, the read by that
  token succeeds and returns exactly the same view and the same snapshot, in any process whose
  store still has the old events.
\<close>
theorem snapshot_read_repeatable:
  assumes B: "blake3_hex B" and w: "workspace_id_new ws = Inr (WorkspaceId ws)"
    and j: "journal_of j (scope_for_workspace ws) log" "well_typed j log" "snapshot_ids_ok j log"
    and c: "faithful j bad ws log c" and fr: "frontier_of log \<le> u64_max"
    and j': "journal_of j' (scope_for_workspace ws) (log @ new)" "well_typed j' (log @ new)" "same_reads j j' log"
  shows "\<exists>c' view snap.
    assemble_snapshot_view B sc dp bad \<lparr>env_store = j, env_workspace_id = ws, env_journal_id = jid\<rparr> None c
      = Some (c', Inr (view, snap))
    \<and> view = view_at j bad ws log
    \<and> assemble_snapshot_view B sc dp bad \<lparr>env_store = j', env_workspace_id = ws, env_journal_id = jid\<rparr>
        (Some (token_str (sr_token snap))) c''
      = Some (c'', Inr (view, snap))"
proof -
  let ?e = "\<lparr>env_store = j, env_workspace_id = ws, env_journal_id = jid\<rparr>"
  let ?e' = "\<lparr>env_store = j', env_workspace_id = ws, env_journal_id = jid\<rparr>"
  let ?f = "frontier_of log"
  let ?ps = "snapshots_of j log"
  let ?a = "if log = [] then [] else anchor_hex (last log)"
  let ?d = "\<lparr>sd_workspace_id = WorkspaceId ws, sd_journal_id = jid, sd_frontier = ?f,
    sd_anchor_event_id_hex = ?a,
    sd_source_snapshot_id = map_option sn_snapshot_id (if ?ps = [] then None else Some (last ?ps))\<rparr>"
  let ?view = "view_at j bad ws log"
  have up: "up_to ?f log = log" "up_to ?f (log @ new) = log"
    using upto_frontier [OF sorted_of [OF j(1)]] up_to_append [OF sorted_of [OF j'(1)]] j'(1)
    by (auto simp: journal_of_def)
  obtain c' where c': "assemble j ws bad c = Some (c', Inr ?view)"
    using assemble_synced [OF j(1) well_typed_readable [OF j(2)] c] serve_ok [OF j(1)] by metis
  have vw: "wv_workspace_id ?view = ws" "wv_frontier ?view = ?f"
    by (simp_all add: view_at_def view_of_def Let_def)
  have a: "anchor_at_frontier j ws ?f = Inr ?a" "anchor_at_frontier j' ws ?f = Inr ?a"
    using anchor_at_last [of j ws log "[]"] anchor_at_last [OF j'(1)] j(1) by simp_all
  have l: "latest_source_snapshot ?e (Some ?f) = Some (Inr (if ?ps = [] then None else Some (last ?ps)))"
    using latest_exact [of ?e log ?f] j up by (simp add: Let_def)
  have l': "latest_source_snapshot ?e' (Some ?f) = Some (Inr (if ?ps = [] then None else Some (last ?ps)))"
    using latest_exact [of ?e' "log @ new" ?f] j' up snapshots_same_reads [OF j'(3)] by (simp add: Let_def)
  have s: "snapshot_for_view B ?e ?view = Some (Inr (snapshot_read_new B ?d))"
    by (simp add: snapshot_for_view_def vw w a l)
  have dok: "descriptor_ok ?d"
    using fr j(3) anchor_at_frontier_ok [OF a(1)]
    by (auto simp: descriptor_ok_def snapshot_ids_ok_def split: if_splits)
  have r: "resolve_for_journal B (token_str (token_for_descriptor B ?d)) (WorkspaceId ws) jid = Inr ?d"
    using resolve_token [OF B dok] by simp
  have t: "truth j' bad log = truth j bad log" by (rule truth_same_reads [OF j'(3)])
  have ex: "?f = 0 \<or> ?f \<in> ie_seq ` set (log @ new)" by (auto simp: frontier_of_def)
  have th: "assemble_through j' ws bad ?f = Some (Inr ?view)"
    using assemble_through_cut [OF j'(1) well_typed_readable [OF j'(2)], of bad ?f] ex up(2) t
    by (simp add: view_at_def)
  have q: "read_requested B sc dp bad ?e' (token_str (token_for_descriptor B ?d)) =
      Some (Inr (?view, snapshot_read_new B ?d))"
    by (simp add: read_requested_def w r l' validate_snapshot_anchor_def a th)
  show ?thesis
    using c' s q by (simp add: assemble_snapshot_view_def snapshot_read_new_def)
qed

theorem snapshot_read_repeatable_witness:
  "\<exists>c' view snap.
    assemble_snapshot_view zero_hash (\<lambda>_. []) (\<lambda>_. []) id
      \<lparr>env_store = young_journal, env_workspace_id = ''demo'', env_journal_id = JournalId ''canonical''\<rparr>
      None cache_default = Some (c', Inr (view, snap))
    \<and> view = view_at young_journal id ''demo'' [demo_entry 1 ''a'']
    \<and> assemble_snapshot_view zero_hash (\<lambda>_. []) (\<lambda>_. []) id
        \<lparr>env_store = demo_journal, env_workspace_id = ''demo'', env_journal_id = JournalId ''canonical''\<rparr>
        (Some (token_str (sr_token snap))) cache_default
      = Some (cache_default, Inr (view, snap))"
proof (rule snapshot_read_repeatable [OF blake3_hex_zero_hash])
  have y: "jr_read young_journal (Suc 0) = demo_event ''a''"
    by (simp add: young_journal_def memory_journal_def demo_entry_def)
  show "workspace_id_new ''demo'' = Inr (WorkspaceId ''demo'')"
    by code_simp
  show "journal_of young_journal (scope_for_workspace ''demo'') [demo_entry 1 ''a'']"
    by (simp add: journal_of_def young_journal_def memory_journal_def demo_entry_def scope_for_workspace_def)
  show "well_typed young_journal [demo_entry 1 ''a'']"
    by (simp add: well_typed_def demo_entry_def y demo_event_def)
  show "snapshot_ids_ok young_journal [demo_entry 1 ''a'']"
    by (simp add: snapshot_ids_ok_def snapshots_of_def demo_entry_def map_filter_simps)
  show "faithful young_journal id ''demo'' [demo_entry 1 ''a''] cache_default"
    by (simp add: faithful_def cache_default_def)
  show "frontier_of [demo_entry 1 ''a''] \<le> u64_max"
    by (simp add: frontier_of_def demo_entry_def u64_max_def)
  show "journal_of demo_journal (scope_for_workspace ''demo'') ([demo_entry 1 ''a''] @ [demo_entry 2 ''b''])"
    using demo_journal_of by (simp add: demo_log_def)
  show "well_typed demo_journal ([demo_entry 1 ''a''] @ [demo_entry 2 ''b''])"
    using demo_reads by (simp add: well_typed_def demo_entry_def demo_event_def)
  show "same_reads young_journal demo_journal [demo_entry 1 ''a'']"
    using y demo_reads by (simp add: same_reads_def demo_entry_def)
qed

end
