(* ===== verification/Candidates.thy ===== *)
theory Candidates
  imports Settlement Knowledge Replay
begin

text \<open>
  Candidate generation of the semantic pipeline (\<open>src/semantics/pipeline.rs\<close>,
  \<open>src/semantics/pipeline/candidate.rs\<close>): the source-order policy, the enumeration of the global
  pair space behind the cursor, the bounded page of candidate pairs and the acquisition of one
  verdict.  Embeddings and their cosine are floating-point arithmetic on the output of an
  external model; whether a pair of claims clears the floor is the parameter \<open>clears\<close>.
\<close>

section \<open>Data\<close>

datatype PipelineClaimStatus = PsCurrent | PsSuperseded | PsConflicting | PsUnknown

datatype PipelineConflictStatus = PcOpen | PcResolved

text \<open>The claim projection the pipeline consumes; its receipt is the local sequence.\<close>

record PipelineClaim =
  pv_claim_id :: ClaimId
  pv_workspace_id :: string
  pv_source_id :: SourceId
  pv_source_path :: string
  pv_line_start :: u32
  pv_line_end :: u32
  pv_text :: string
  pv_normalized_text :: string
  pv_subject_hint :: string
  pv_predicate_hint :: string
  pv_object_hint :: string
  pv_confidence_ppm :: u32
  pv_extractor_kind :: string
  pv_status :: PipelineClaimStatus
  pv_receipt_sequence :: u64
  pv_supersedes :: "ClaimId list"
  pv_superseded_by :: "ClaimId option"

record ConflictEntry =
  cn_conflict_id :: ConflictId
  cn_claim_a :: ClaimId
  cn_claim_b :: ClaimId
  cn_subject_hint :: string
  cn_reason :: string
  cn_status :: PipelineConflictStatus

type_synonym claims = "(ClaimId \<times> PipelineClaim) list"
type_synonym settled = "(ClaimId \<times> ClaimId, RelationVerdict) btree"

definition embedding_text :: "PipelineClaim \<Rightarrow> string" where
  "embedding_text v = (if pv_normalized_text v = [] then pv_text v else pv_normalized_text v)"

definition sequence_rank :: "PipelineClaim \<Rightarrow> u64" where
  "sequence_rank v = pv_receipt_sequence v"

definition DEFAULT_CANDIDATE_PAIR_BUDGET :: usize where
  "DEFAULT_CANDIDATE_PAIR_BUDGET = 4096"

section \<open>Source-order policy\<close>

record RelateTemporalPolicy =
  tp_claim_snapshots :: "(string, string) btree"
  tp_snapshot_relations :: "(string \<times> string, TemporalRelation) btree"

definition policy_default :: RelateTemporalPolicy where
  "policy_default = \<lparr>tp_claim_snapshots = [], tp_snapshot_relations = []\<rparr>"

definition bind_claim :: "ClaimId \<Rightarrow> SourceSnapshotId \<Rightarrow> RelateTemporalPolicy \<Rightarrow> RelateTemporalPolicy" where
  "bind_claim c s p =
     p\<lparr>tp_claim_snapshots := bt_insert (claim_str c) (snapshot_str s) (tp_claim_snapshots p)\<rparr>"

definition insert_relation_ids ::
  "string \<Rightarrow> string \<Rightarrow> TemporalRelation \<Rightarrow> RelateTemporalPolicy \<Rightarrow> RelateTemporalPolicy" where
  "insert_relation_ids left right r p =
     p\<lparr>tp_snapshot_relations := bt_or_insert (left, right) r (tp_snapshot_relations p)\<rparr>"

definition insert_relation ::
  "SourceSnapshotId \<Rightarrow> SourceSnapshotId \<Rightarrow> TemporalRelation \<Rightarrow> RelateTemporalPolicy \<Rightarrow> RelateTemporalPolicy" where
  "insert_relation left right r p = insert_relation_ids (snapshot_str left) (snapshot_str right) r p"

definition compare_claims :: "RelateTemporalPolicy \<Rightarrow> ClaimId \<Rightarrow> ClaimId \<Rightarrow> TemporalRelation option" where
  "compare_claims p left right =
     (case (bt_get (tp_claim_snapshots p) (claim_str left), bt_get (tp_claim_snapshots p) (claim_str right)) of
        (None, None) \<Rightarrow> None
      | (Some l, Some r) \<Rightarrow>
          if l = r then Some Same
          else Some (case bt_get (tp_snapshot_relations p) (l, r) of
                       Some rel \<Rightarrow> rel
                     | None \<Rightarrow>
                         (case bt_get (tp_snapshot_relations p) (r, l) of
                            Some rel \<Rightarrow> invert rel | None \<Rightarrow> Unknown))
      | _ \<Rightarrow> Some Unknown)"

text \<open>The identity digest of the policy: length-prefixed fields, then one tag byte per relation.\<close>

fun temporal_relation_tag :: "TemporalRelation \<Rightarrow> nat" where
  "temporal_relation_tag Before = 1"
| "temporal_relation_tag After = 2"
| "temporal_relation_tag Same = 3"
| "temporal_relation_tag Concurrent = 4"
| "temporal_relation_tag Unknown = 5"

definition identity_field :: "string \<Rightarrow> string" where
  "identity_field v = be_bytes 8 (length v) @ v"

definition campaign_identity_material :: "RelateTemporalPolicy \<Rightarrow> string" where
  "campaign_identity_material p =
     identity_field ''texo.relate.temporal-policy.v1'' @
     concat (map (\<lambda>(c, s). identity_field c @ identity_field s) (tp_claim_snapshots p)) @
     concat (map (\<lambda>((l, r), rel). identity_field l @ identity_field r @ [char_of (temporal_relation_tag rel)])
               (tp_snapshot_relations p))"

definition campaign_identity_digest :: "(string \<Rightarrow> string) \<Rightarrow> RelateTemporalPolicy \<Rightarrow> string" where
  "campaign_identity_digest B p = B (campaign_identity_material p)"

section \<open>The pair space\<close>

definition pair_count :: "usize \<Rightarrow> u64" where
  "pair_count len = sat_mul64 len (len - 1) div 2"

text \<open>The loop over the rows of one cluster, from row \<open>left\<close>.\<close>

function seek_row :: "usize \<Rightarrow> usize \<Rightarrow> u64 \<Rightarrow> (usize \<times> usize) option" where
  "seek_row len left offset =
     (if left < len - 1
      then let row = len - left - 1 in
           if offset < row then Some (left, left + 1 + offset) else seek_row len (left + 1) (offset - row)
      else None)"
  by pat_completeness auto
termination
  by (relation "measure (\<lambda>(len, left, offset). len - left)") auto

declare seek_row.simps [simp del]

fun seek_from :: "usize \<Rightarrow> nat list list \<Rightarrow> u64 \<Rightarrow> (usize \<times> usize \<times> usize) option" where
  "seek_from k [] offset = None"
| "seek_from k (c # cs) offset =
     (let count = pair_count (length c) in
      if offset \<ge> count then seek_from (Suc k) cs (offset - count)
      else case seek_row (length c) 0 offset of
             Some (left, right) \<Rightarrow> Some (k, left, right)
           | None \<Rightarrow> seek_from (Suc k) cs offset)"

definition seek_pair :: "nat list list \<Rightarrow> u64 \<Rightarrow> (usize \<times> usize \<times> usize) option" where
  "seek_pair clusters offset = seek_from 0 clusters offset"

fun next_cluster :: "nat \<Rightarrow> nat list list \<Rightarrow> (usize \<times> usize \<times> usize) option" where
  "next_cluster k [] = None"
| "next_cluster k (c # cs) = (if length c \<ge> 2 then Some (k, 0, 1) else next_cluster (Suc k) cs)"

definition next_pair :: "nat list list \<Rightarrow> usize \<Rightarrow> usize \<Rightarrow> usize \<Rightarrow> (usize \<times> usize \<times> usize) option" where
  "next_pair clusters k left right =
     (let cluster = clusters ! k in
      if right + 1 < length cluster then Some (k, left, right + 1)
      else if left + 2 < length cluster then Some (k, left + 1, left + 2)
      else next_cluster (Suc k) (drop (Suc k) clusters))"

section \<open>One page of candidates\<close>

record PendingPair =
  pp_old_idx :: nat
  pp_new_idx :: nat
  pp_older :: ClaimId
  pp_newer :: ClaimId
  pp_temporal_failure :: "RelationFailureClass option"
  pp_cursor :: u64

record PreparedPairs =
  pr_pending :: "PendingPair list"
  pr_examined_pairs :: usize
  pr_next_cursor :: "u64 option"
  pr_claim_clusters :: "nat list"

definition sequence_order :: "claims \<Rightarrow> nat \<Rightarrow> nat \<Rightarrow> nat \<times> nat" where
  "sequence_order claims l r =
     (if (sequence_rank (snd (claims ! l)), l) \<le> (sequence_rank (snd (claims ! r)), r)
      then (l, r) else (r, l))"

definition order_pair ::
  "claims \<Rightarrow> settled \<Rightarrow> RelateTemporalPolicy \<Rightarrow> nat \<Rightarrow> nat \<Rightarrow> nat \<times> nat \<times> RelationFailureClass option" where
  "order_pair claims settled temporal l r =
     (let lid = fst (claims ! l); rid = fst (claims ! r);
          with = (\<lambda>f. case sequence_order claims l r of (x, y) \<Rightarrow> (x, y, f))
      in if bt_get settled (lid, rid) \<noteq> None then (l, r, None)
         else if bt_get settled (rid, lid) \<noteq> None then (r, l, None)
         else case compare_claims temporal lid rid of
                None \<Rightarrow> with None
              | Some Same \<Rightarrow> with None
              | Some Before \<Rightarrow> (l, r, None)
              | Some After \<Rightarrow> (r, l, None)
              | Some Concurrent \<Rightarrow> with (Some TemporalConcurrent)
              | Some Unknown \<Rightarrow> with (Some TemporalUnknown))"

text \<open>What one examined slot contributes to the page.\<close>

definition candidate ::
  "claims \<Rightarrow> (nat \<Rightarrow> nat \<Rightarrow> bool) \<Rightarrow> settled \<Rightarrow> RelateTemporalPolicy \<Rightarrow> u64 \<Rightarrow> nat \<Rightarrow> nat \<Rightarrow> PendingPair option" where
  "candidate claims clears settled temporal ordinal i j =
     (if clears i j
      then case order_pair claims settled temporal i j of
             (old, new, failure) \<Rightarrow>
               if pv_normalized_text (snd (claims ! old)) \<noteq> pv_normalized_text (snd (claims ! new))
               then Some \<lparr>pp_old_idx = old, pp_new_idx = new, pp_older = fst (claims ! old),
                          pp_newer = fst (claims ! new), pp_temporal_failure = failure,
                          pp_cursor = ordinal\<rparr>
               else None
      else None)"

function page_loop ::
  "claims \<Rightarrow> (nat \<Rightarrow> nat \<Rightarrow> bool) \<Rightarrow> settled \<Rightarrow> RelateTemporalPolicy \<Rightarrow> nat list list \<Rightarrow> u64 \<Rightarrow> u64 \<Rightarrow>
   (usize \<times> usize \<times> usize) option \<Rightarrow> PendingPair list" where
  "page_loop claims clears settled temporal clusters upper ordinal position =
     (if ordinal < upper
      then case position of
             None \<Rightarrow> []
           | Some (k, lp, rp) \<Rightarrow>
               (case candidate claims clears settled temporal ordinal (clusters ! k ! lp) (clusters ! k ! rp) of
                  None \<Rightarrow> [] | Some p \<Rightarrow> [p]) @
               page_loop claims clears settled temporal clusters upper (ordinal + 1)
                 (next_pair clusters k lp rp)
      else [])"
  by pat_completeness auto
termination
  by (relation "measure (\<lambda>(claims, clears, settled, temporal, clusters, upper, ordinal, position). upper - ordinal)")
    auto

declare page_loop.simps [simp del]

definition prepare_pairs ::
  "claims \<Rightarrow> (nat \<Rightarrow> nat \<Rightarrow> bool) \<Rightarrow> settled \<Rightarrow> RelateTemporalPolicy \<Rightarrow> usize \<Rightarrow> u64 \<Rightarrow> PreparedPairs option" where
  "prepare_pairs claims clears settled temporal budget cursor =
     (if length claims < 2 then None
      else let clusters = [[0..<length claims]];
               total = sum_list (map (\<lambda>c. pair_count (length c)) clusters);
               start = min cursor total;
               upper = min (sat_add64 start budget) total
           in Some \<lparr>pr_pending = page_loop claims clears settled temporal clusters upper start
                                   (seek_pair clusters start),
                    pr_examined_pairs = upper - start,
                    pr_next_cursor = (if upper < total then Some upper else None),
                    pr_claim_clusters = replicate (length claims) 0\<rparr>)"

section \<open>Acquiring one verdict\<close>

datatype PairOutcome = JudgedPair RelationVerdict bool | FailedPair PairFailureView

definition budget_exhausted :: PairFailureView where
  "budget_exhausted =
     \<lparr>pf_class = BudgetExhausted, pf_endpoint = None, pf_status = None, pf_attempts = 0\<rparr>"

definition temporal_blocked :: "RelationFailureClass \<Rightarrow> PairFailureView" where
  "temporal_blocked c = \<lparr>pf_class = c, pf_endpoint = None, pf_status = None, pf_attempts = 0\<rparr>"

text \<open>
  The judge is an external model: \<open>relate older newer\<close> is its verdict on the two raw texts, or the
  classified failure of the call.  \<open>expired\<close> says whether the wall budget has run out when the
  pair is reached.
\<close>

type_synonym relater = "string \<Rightarrow> string \<Rightarrow> (RelationVerdict, PairFailureView) result"

definition live_call :: "claims \<Rightarrow> relater \<Rightarrow> PendingPair \<Rightarrow> PairOutcome" where
  "live_call claims relate pair =
     (case relate (pv_text (snd (claims ! pp_old_idx pair))) (pv_text (snd (claims ! pp_new_idx pair))) of
        Inr verdict \<Rightarrow> JudgedPair verdict False
      | Inl failure \<Rightarrow> FailedPair failure)"

definition acquire_sequential ::
  "claims \<Rightarrow> relater \<Rightarrow> settled \<Rightarrow> bool \<Rightarrow> PendingPair \<Rightarrow> PairOutcome" where
  "acquire_sequential claims relate settled expired pair =
     (case bt_get settled (pp_older pair, pp_newer pair) of
        Some verdict \<Rightarrow> JudgedPair verdict True
      | None \<Rightarrow>
          (case pp_temporal_failure pair of
             Some c \<Rightarrow> FailedPair (temporal_blocked c)
           | None \<Rightarrow>
               if expired then FailedPair budget_exhausted else live_call claims relate pair))"

section \<open>The page is a slice of the pair space\<close>

definition pairs_from :: "nat \<Rightarrow> nat \<Rightarrow> (nat \<times> nat) list" where
  "pairs_from n l = concat (map (\<lambda>i. map (Pair i) [Suc i..<n]) [l..<n])"

abbreviation all_pairs :: "nat \<Rightarrow> (nat \<times> nat) list" where
  "all_pairs n \<equiv> pairs_from n 0"

lemma pairs_from_step: "l < n \<Longrightarrow> pairs_from n l = map (Pair l) [Suc l..<n] @ pairs_from n (Suc l)"
  by (simp add: pairs_from_def upt_conv_Cons)

lemma pairs_from_end: "n \<le> l + 1 \<Longrightarrow> pairs_from n l = []"
  by (cases "l < n") (auto simp: pairs_from_def upt_conv_Cons)

lemma set_pairs_from: "set (pairs_from n l) = {(i, j). l \<le> i \<and> i < j \<and> j < n}"
  by (auto simp: pairs_from_def image_iff)

lemma set_all_pairs: "set (all_pairs n) = {(i, j). i < j \<and> j < n}"
  by (simp add: set_pairs_from)

lemma distinct_pairs_from: "distinct (pairs_from n l)"
proof (induction "n - l" arbitrary: l)
  case 0
  then show ?case by (simp add: pairs_from_def)
next
  case (Suc k)
  then have "l < n" "distinct (pairs_from n (Suc l))" by simp_all
  moreover have "distinct (map (Pair l) [Suc l..<n])" by (simp add: distinct_map inj_on_def)
  moreover have "set (map (Pair l) [Suc l..<n]) \<inter> set (pairs_from n (Suc l)) = {}"
    unfolding set_pairs_from by auto
  ultimately show ?case by (simp only: pairs_from_step distinct_append)
qed

lemma length_pairs_from: "2 * length (pairs_from (l + k) l) = k * (k - 1)"
proof (induction k arbitrary: l)
  case 0
  then show ?case by (simp add: pairs_from_def)
next
  case (Suc k)
  have "2 * length (pairs_from (l + Suc k) (Suc l)) = k * (k - 1)" using Suc [of "Suc l"] by simp
  then show ?case using pairs_from_step [of l "l + Suc k"] by (cases k) auto
qed

lemma pair_count_exact:
  assumes "n * (n - 1) \<le> u64_max"
  shows "pair_count n = length (all_pairs n)"
  using length_pairs_from [of 0 n] assms by (simp add: pair_count_def sat_mul64_def)

lemma seek_row_exact:
  "seek_row n l k = (if k < length (pairs_from n l) then Some (pairs_from n l ! k) else None)"
proof (induction n l k rule: seek_row.induct)
  case (1 n l k)
  show ?case
  proof (cases "l < n - 1")
    case False
    then show ?thesis by (subst seek_row.simps) (simp add: pairs_from_end)
  next
    case True
    then have s: "pairs_from n l = map (Pair l) [Suc l..<n] @ pairs_from n (Suc l)"
      by (intro pairs_from_step) simp
    show ?thesis
    proof (cases "k < n - l - 1")
      case True
      then show ?thesis using \<open>l < n - 1\<close> by (subst seek_row.simps) (simp add: Let_def s nth_append)
    next
      case False
      then show ?thesis
        using 1 True by (subst seek_row.simps) (auto simp: Let_def s nth_append)
    qed
  qed
qed

lemma seek_pair_exact:
  assumes "n * (n - 1) \<le> u64_max"
  shows "seek_pair [[0..<n]] k =
    (if k < length (all_pairs n) then Some (0, all_pairs n ! k) else None)"
  using pair_count_exact [OF assms] by (auto simp: seek_pair_def Let_def seek_row_exact split: option.split prod.split)

text \<open>The position after a pair is the head of the remaining pair space.\<close>

definition first_of :: "(nat \<times> nat) list \<Rightarrow> (usize \<times> usize \<times> usize) option" where
  "first_of ps = (case ps of [] \<Rightarrow> None | p # _ \<Rightarrow> Some (0, p))"

definition rest_of :: "nat \<Rightarrow> nat \<Rightarrow> nat \<Rightarrow> (nat \<times> nat) list" where
  "rest_of n l r = map (Pair l) [r..<n] @ pairs_from n (Suc l)"

lemma rest_of_Cons: "r < n \<Longrightarrow> rest_of n l r = (l, r) # rest_of n l (Suc r)"
  by (simp add: rest_of_def upt_conv_Cons)

lemma rest_of_row_end: "l + 1 < n \<Longrightarrow> rest_of n l n = rest_of n (Suc l) (l + 2)"
  using pairs_from_step [of "Suc l" n] by (simp add: rest_of_def)

lemma next_pair_rest:
  assumes "l < r" "r < n"
  shows "next_pair [[0..<n]] 0 l r = first_of (rest_of n l (Suc r))"
proof (cases "Suc r < n")
  case True
  then show ?thesis using rest_of_Cons [of "Suc r" n l] by (simp add: next_pair_def first_of_def)
next
  case False
  then have r: "Suc r = n" using assms by simp
  show ?thesis
  proof (cases "l + 2 < n")
    case True
    then show ?thesis
      using r rest_of_row_end [of l n] rest_of_Cons [of "l + 2" n "Suc l"]
      by (simp add: next_pair_def first_of_def)
  next
    case False
    then have "rest_of n l n = []" by (simp add: rest_of_def pairs_from_end)
    then show ?thesis using r False by (simp add: next_pair_def first_of_def)
  qed
qed

lemma rest_of_tail:
  assumes "l < r" "r < n"
  shows "rest_of n l (Suc r) = [] \<or> (\<exists>l' r'. l' < r' \<and> r' < n \<and> rest_of n l (Suc r) = rest_of n l' r')"
proof (cases "Suc r < n")
  case True
  then show ?thesis using assms by (intro disjI2 exI [of _ l] exI [of _ "Suc r"]) simp
next
  case False
  then have r: "Suc r = n" using assms by simp
  show ?thesis
  proof (cases "l + 2 < n")
    case True
    then show ?thesis
      using r rest_of_row_end [of l n] by (intro disjI2 exI [of _ "Suc l"] exI [of _ "l + 2"]) simp
  next
    case False
    then show ?thesis using r by (simp add: rest_of_def pairs_from_end)
  qed
qed

definition slots :: "claims \<Rightarrow> (nat \<Rightarrow> nat \<Rightarrow> bool) \<Rightarrow> settled \<Rightarrow> RelateTemporalPolicy \<Rightarrow> u64 \<Rightarrow>
    (nat \<times> nat) list \<Rightarrow> PendingPair list" where
  "slots claims clears settled temporal k ps =
     List.map_filter (\<lambda>(o', i, j). candidate claims clears settled temporal o' i j) (enumerate k ps)"

lemma slots_Nil [simp]: "slots claims clears settled temporal k [] = []"
  by (simp add: slots_def map_filter_simps)

lemma slots_Cons:
  "slots claims clears settled temporal k ((i, j) # ps) =
     (case candidate claims clears settled temporal k i j of None \<Rightarrow> [] | Some p \<Rightarrow> [p]) @
     slots claims clears settled temporal (Suc k) ps"
  by (simp add: slots_def map_filter_simps split: option.split)

lemma page_loop_rest:
  assumes "ps = [] \<or> (\<exists>l r. l < r \<and> r < n \<and> ps = rest_of n l r)"
  shows "page_loop claims clears settled temporal [[0..<n]] upper k (first_of ps) =
    slots claims clears settled temporal k (take (upper - k) ps)"
  using assms
proof (induction "upper - k" arbitrary: k ps)
  case 0
  then show ?case by (subst page_loop.simps) (simp add: slots_def map_filter_simps)
next
  case (Suc d)
  then have kl: "k < upper" by simp
  show ?case
  proof (cases "ps = []")
    case True
    then show ?thesis using kl by (subst page_loop.simps) (simp add: first_of_def slots_def map_filter_simps)
  next
    case False
    then obtain l r where lr: "l < r" "r < n" "ps = rest_of n l r" using Suc.prems by blast
    let ?t = "rest_of n l (Suc r)"
    have ps: "ps = (l, r) # ?t" using lr rest_of_Cons by simp
    have ih: "page_loop claims clears settled temporal [[0..<n]] upper (k + 1) (first_of ?t) =
        slots claims clears settled temporal (k + 1) (take (upper - (k + 1)) ?t)"
      using Suc.hyps(1) [of "k + 1" ?t] rest_of_tail [OF lr(1,2)] Suc.hyps(2) by auto
    have t: "take (upper - k) ps = (l, r) # take (upper - (k + 1)) ?t"
    proof -
      have "upper - k = Suc (upper - (k + 1))" using kl by simp
      then show ?thesis using ps by (simp only: take_Suc_Cons)
    qed
    have "page_loop claims clears settled temporal [[0..<n]] upper k (first_of ps) =
        (case candidate claims clears settled temporal k l r of None \<Rightarrow> [] | Some p \<Rightarrow> [p]) @
        page_loop claims clears settled temporal [[0..<n]] upper (k + 1) (next_pair [[0..<n]] 0 l r)"
      using kl lr(1,2) ps by (subst page_loop.simps) (simp add: first_of_def)
    then show ?thesis using ih t next_pair_rest [OF lr(1,2)] by (simp add: slots_Cons)
  qed
qed

lemma drop_pairs_rest:
  "drop k (all_pairs n) = [] \<or> (\<exists>l r. l < r \<and> r < n \<and> drop k (all_pairs n) = rest_of n l r)"
proof (induction k)
  case 0
  show ?case
  proof (cases "n \<le> 1")
    case True
    then show ?thesis by (simp add: pairs_from_end)
  next
    case False
    then have "all_pairs n = rest_of n 0 1" using pairs_from_step [of 0 n] by (simp add: rest_of_def)
    then show ?thesis using False by (intro disjI2 exI [of _ 0] exI [of _ 1]) simp
  qed
next
  case (Suc k)
  show ?case
  proof (cases "drop k (all_pairs n) = []")
    case False
    then obtain l r where lr: "l < r" "r < n" "drop k (all_pairs n) = rest_of n l r" using Suc by blast
    have "drop (Suc k) (all_pairs n) = tl (drop k (all_pairs n))" by (simp add: drop_Suc tl_drop)
    then show ?thesis using lr rest_of_Cons rest_of_tail [OF lr(1,2)] by simp
  qed simp
qed

lemma page_is_slice:
  assumes "2 \<le> length claims" and "length claims * (length claims - 1) \<le> u64_max"
  shows "prepare_pairs claims clears settled temporal budget cursor =
    (let space = all_pairs (length claims);
         start = min cursor (length space);
         upper = min (sat_add64 start budget) (length space)
     in Some \<lparr>pr_pending = slots claims clears settled temporal start (take (upper - start) (drop start space)),
              pr_examined_pairs = upper - start,
              pr_next_cursor = (if upper < length space then Some upper else None),
              pr_claim_clusters = replicate (length claims) 0\<rparr>)"
proof -
  let ?n = "length claims"
  have sk: "seek_pair [[0..<?n]] k = first_of (drop k (all_pairs ?n))" for k
    using seek_pair_exact [OF assms(2), of k]
    by (auto simp: first_of_def Cons_nth_drop_Suc [symmetric] split: list.split)
  show ?thesis
    using assms(1) page_loop_rest [OF drop_pairs_rest] pair_count_exact [OF assms(2)]
    by (simp add: prepare_pairs_def Let_def sk)
qed

section \<open>Paging visits every pair once\<close>

text \<open>A caller that keeps asking for the next page: the candidates of all pages, in order.\<close>

fun page_chain ::
  "nat \<Rightarrow> claims \<Rightarrow> (nat \<Rightarrow> nat \<Rightarrow> bool) \<Rightarrow> settled \<Rightarrow> RelateTemporalPolicy \<Rightarrow> usize \<Rightarrow> u64 \<Rightarrow> PendingPair list" where
  "page_chain 0 claims clears settled temporal budget cursor = []"
| "page_chain (Suc fuel) claims clears settled temporal budget cursor =
     (case prepare_pairs claims clears settled temporal budget cursor of
        None \<Rightarrow> []
      | Some p \<Rightarrow> pr_pending p @
          (case pr_next_cursor p of
             None \<Rightarrow> [] | Some c \<Rightarrow> page_chain fuel claims clears settled temporal budget c))"

lemma slots_append:
  "slots claims clears settled temporal k (xs @ ys) =
     slots claims clears settled temporal k xs @ slots claims clears settled temporal (k + length xs) ys"
  by (induction xs arbitrary: k) (auto simp: slots_Cons)

lemma page_chain_slots:
  assumes n: "2 \<le> length claims" "length claims * (length claims - 1) \<le> u64_max" and b: "0 < budget"
    and f: "length (all_pairs (length claims)) - cursor < fuel" "cursor \<le> length (all_pairs (length claims))"
  shows "page_chain fuel claims clears settled temporal budget cursor =
    slots claims clears settled temporal cursor (drop cursor (all_pairs (length claims)))"
  using f
proof (induction fuel arbitrary: cursor)
  case (Suc fuel)
  let ?space = "all_pairs (length claims)"
  let ?up = "min (sat_add64 cursor budget) (length ?space)"
  have "length ?space \<le> u64_max"
    using pair_count_exact [OF n(2)] by (simp add: pair_count_def sat_mul64_def)
  then have up: "cursor \<le> ?up" "cursor < length ?space \<Longrightarrow> cursor < ?up"
    using Suc.prems(2) b by (auto simp: sat_add64_def)
  have page: "prepare_pairs claims clears settled temporal budget cursor =
      Some \<lparr>pr_pending = slots claims clears settled temporal cursor (take (?up - cursor) (drop cursor ?space)),
            pr_examined_pairs = ?up - cursor, pr_next_cursor = (if ?up < length ?space then Some ?up else None),
            pr_claim_clusters = replicate (length claims) 0\<rparr>"
    using page_is_slice [OF n, of clears settled temporal budget cursor] Suc.prems(2)
    by (simp add: Let_def min_absorb1)
  have split: "drop cursor ?space = take (?up - cursor) (drop cursor ?space) @ drop ?up ?space"
    using up(1) by (metis append_take_drop_id drop_drop le_add_diff_inverse2)
  have len: "length (take (?up - cursor) (drop cursor ?space)) = ?up - cursor" by simp
  show ?case
  proof (cases "?up < length ?space")
    case True
    have "cursor < length ?space" using True up(1) by linarith
    then have "cursor < ?up" by (rule up(2))
    then have "length ?space - ?up < fuel" "?up \<le> length ?space" using Suc.prems(1) True by linarith+
    then have "page_chain fuel claims clears settled temporal budget ?up =
        slots claims clears settled temporal ?up (drop ?up ?space)"
      by (rule Suc.IH)
    then show ?thesis
      using page True up(1) by (subst split) (simp add: slots_append)
  next
    case False
    then have "drop ?up ?space = []" by simp
    then have "drop cursor ?space = take (?up - cursor) (drop cursor ?space)" using split by simp
    then show ?thesis using page False by simp
  qed
qed simp

text \<open>
  C15: Paging is exact.  Whatever the budget of a page, the candidates of all pages that the cursor
  leads through, from the first, are the candidates of the whole pair space in its fixed order,
  each under its own ordinal; the pair space holds every unordered pair of claims exactly once,
  and no page examines more slots than its budget.
\<close>
theorem candidate_paging_exact:
  assumes "2 \<le> length claims" and "length claims * (length claims - 1) \<le> u64_max" and "0 < budget"
  shows "page_chain (Suc (length (all_pairs (length claims)))) claims clears settled temporal budget 0 =
      slots claims clears settled temporal 0 (all_pairs (length claims))
    \<and> distinct (all_pairs (length claims))
    \<and> set (all_pairs (length claims)) = {(i, j). i < j \<and> j < length claims}
    \<and> (\<exists>p. prepare_pairs claims clears settled temporal budget cursor = Some p \<and>
         pr_examined_pairs p \<le> budget)"
proof (intro conjI)
  show "page_chain (Suc (length (all_pairs (length claims)))) claims clears settled temporal budget 0 =
      slots claims clears settled temporal 0 (all_pairs (length claims))"
    using page_chain_slots [OF assms, of 0] by (simp del: page_chain.simps)
  show "\<exists>p. prepare_pairs claims clears settled temporal budget cursor = Some p \<and> pr_examined_pairs p \<le> budget"
    using page_is_slice [OF assms(1,2)] by (simp add: Let_def sat_add64_def)
qed (simp_all add: distinct_pairs_from set_all_pairs)

definition demo_pipeline_claim :: "string \<Rightarrow> nat \<Rightarrow> ClaimId \<times> PipelineClaim" where
  "demo_pipeline_claim i n =
     (ClaimId i, \<lparr>pv_claim_id = ClaimId i, pv_workspace_id = ''demo'', pv_source_id = SourceId ''src_1'',
       pv_source_path = ''notes.md'', pv_line_start = n, pv_line_end = n, pv_text = i,
       pv_normalized_text = i, pv_subject_hint = [], pv_predicate_hint = [], pv_object_hint = [],
       pv_confidence_ppm = 1, pv_extractor_kind = ''markdown'', pv_status = PsCurrent,
       pv_receipt_sequence = n, pv_supersedes = [], pv_superseded_by = None\<rparr>)"

definition demo_claims :: claims where
  "demo_claims = [demo_pipeline_claim ''claim_a'' 1, demo_pipeline_claim ''claim_b'' 2,
                  demo_pipeline_claim ''claim_c'' 3]"

theorem candidate_paging_exact_witness:
  "page_chain (Suc (length (all_pairs (length demo_claims)))) demo_claims (\<lambda>i j. True) [] policy_default 2 0 =
     slots demo_claims (\<lambda>i j. True) [] policy_default 0 (all_pairs (length demo_claims))
   \<and> set (all_pairs (length demo_claims)) = {(i, j). i < j \<and> j < 3}"
proof -
  have l: "length demo_claims = 3" by (simp add: demo_claims_def)
  then have "2 \<le> length demo_claims" "length demo_claims * (length demo_claims - 1) \<le> u64_max" "0 < (2::nat)"
    by (simp_all add: u64_max_def)
  from candidate_paging_exact [OF this] show ?thesis using l by simp
qed

end
