(* ===== verification/Reduction.thy ===== *)
theory Reduction
  imports Candidates
begin

text \<open>
  The decision reduction of the semantic pipeline (\<open>src/semantics/pipeline/reduction.rs\<close>): from
  the outcomes of a page to judgments, supersession edges, conflicts and held decisions, and the
  choice between a partial and a complete result.  A journaled verdict is authority; the complete
  result is reduced again from the whole authority.
\<close>

section \<open>Data\<close>

record PairJudgment =
  pj_older_claim :: ClaimId
  pj_newer_claim :: ClaimId
  pj_verdict :: RelationVerdict
  pj_reused_authority :: bool

type_synonym SupersessionEdge = "ClaimId \<times> ClaimId \<times> string"

record RelatedClaims =
  rc_supersessions :: "SupersessionEdge list"
  rc_conflicts :: "ConflictEntry list"
  rc_judgments :: "PairJudgment list"

record CompleteRelateOutcome =
  co_related :: RelatedClaims
  co_held :: "HeldDecision list"
  co_candidate_pairs :: usize
  co_candidate_pair_budget :: usize

record PartialRelateOutcome =
  po_judgments :: "PairJudgment list"
  po_unresolved :: "UnresolvedPair list"
  po_held :: "HeldDecision list"
  po_candidate_pairs :: usize
  po_candidate_pair_budget :: usize
  po_next_candidate_cursor :: u64

datatype RelateOutcome = CompleteOutcome CompleteRelateOutcome | PartialOutcome PartialRelateOutcome

definition related_default :: RelatedClaims where
  "related_default = \<lparr>rc_supersessions = [], rc_conflicts = [], rc_judgments = []\<rparr>"

definition outcome_default :: RelateOutcome where
  "outcome_default = CompleteOutcome
     \<lparr>co_related = related_default, co_held = [], co_candidate_pairs = 0,
      co_candidate_pair_budget = DEFAULT_CANDIDATE_PAIR_BUDGET\<rparr>"

fun outcome_judgments :: "RelateOutcome \<Rightarrow> PairJudgment list" where
  "outcome_judgments (CompleteOutcome c) = rc_judgments (co_related c)"
| "outcome_judgments (PartialOutcome p) = po_judgments p"

fun outcome_unresolved :: "RelateOutcome \<Rightarrow> UnresolvedPair list" where
  "outcome_unresolved (CompleteOutcome c) = []"
| "outcome_unresolved (PartialOutcome p) = po_unresolved p"

fun outcome_held :: "RelateOutcome \<Rightarrow> HeldDecision list" where
  "outcome_held (CompleteOutcome c) = co_held c"
| "outcome_held (PartialOutcome p) = po_held p"

fun is_partial :: "RelateOutcome \<Rightarrow> bool" where
  "is_partial (CompleteOutcome c) = False"
| "is_partial (PartialOutcome p) = True"

section \<open>Collecting the pairs\<close>

datatype SuccessorOrder = CurrentWins | CandidateWins | AmbiguousOrder

definition newer_index :: "claims \<Rightarrow> nat \<Rightarrow> nat \<Rightarrow> bool" where
  "newer_index claims cand cur \<longleftrightarrow>
     (sequence_rank (snd (claims ! cand)), cand) > (sequence_rank (snd (claims ! cur)), cur)"

definition compare_successors :: "claims \<Rightarrow> RelateTemporalPolicy \<Rightarrow> nat \<Rightarrow> nat \<Rightarrow> SuccessorOrder" where
  "compare_successors claims temporal cur cand =
     (let by_sequence = (if newer_index claims cand cur then CandidateWins else CurrentWins) in
      case compare_claims temporal (fst (claims ! cur)) (fst (claims ! cand)) of
        None \<Rightarrow> by_sequence
      | Some Same \<Rightarrow> by_sequence
      | Some Before \<Rightarrow> CandidateWins
      | Some After \<Rightarrow> CurrentWins
      | Some Concurrent \<Rightarrow> AmbiguousOrder
      | Some Unknown \<Rightarrow> AmbiguousOrder)"

record PairReduction =
  rd_winners :: "(nat, nat) btree"
  rd_ambiguous_winners :: "nat list"
  rd_conflict_pairs :: "(nat \<times> nat) list"
  rd_judgments :: "PairJudgment list"
  rd_unresolved :: "UnresolvedPair list"

definition reduction_empty :: PairReduction where
  "reduction_empty =
     \<lparr>rd_winners = [], rd_ambiguous_winners = [], rd_conflict_pairs = [], rd_judgments = [],
      rd_unresolved = []\<rparr>"

definition claim_ref :: "PipelineClaim \<Rightarrow> string" where
  "claim_ref v = pv_source_path v @ '':'' @ show_nat (pv_line_start v)"

definition unresolved_pair :: "claims \<Rightarrow> PendingPair \<Rightarrow> PairFailureView \<Rightarrow> UnresolvedPair" where
  "unresolved_pair claims p failure =
     \<lparr>up_old_claim = pp_older p, up_new_claim = pp_newer p,
      up_old_ref = claim_ref (snd (claims ! pp_old_idx p)),
      up_new_ref = claim_ref (snd (claims ! pp_new_idx p)), up_failure = failure\<rparr>"

text \<open>One supersession verdict: does the new claim replace the winner held so far?\<close>

definition note_winner ::
  "claims \<Rightarrow> RelateTemporalPolicy \<Rightarrow> nat \<Rightarrow> nat \<Rightarrow> PairReduction \<Rightarrow> PairReduction" where
  "note_winner claims temporal old new r =
     (case bt_get (rd_winners r) old of
        None \<Rightarrow> r\<lparr>rd_winners := bt_insert old new (rd_winners r)\<rparr>
      | Some cur \<Rightarrow>
          (case compare_successors claims temporal cur new of
             CandidateWins \<Rightarrow> r\<lparr>rd_winners := bt_insert old new (rd_winners r)\<rparr>
           | CurrentWins \<Rightarrow> r
           | AmbiguousOrder \<Rightarrow>
               (let r' = r\<lparr>rd_ambiguous_winners := rd_ambiguous_winners r @ [old]\<rparr> in
                if newer_index claims new cur
                then r'\<lparr>rd_winners := bt_insert old new (rd_winners r)\<rparr> else r')))"

definition collect_pair ::
  "claims \<Rightarrow> RelateTemporalPolicy \<Rightarrow> PendingPair \<times> PairOutcome \<Rightarrow> PairReduction \<Rightarrow> PairReduction" where
  "collect_pair claims temporal po r =
     (case po of
        (p, FailedPair failure) \<Rightarrow>
          r\<lparr>rd_unresolved := rd_unresolved r @ [unresolved_pair claims p failure]\<rparr>
      | (p, JudgedPair verdict reused) \<Rightarrow>
          (let r' = r\<lparr>rd_judgments := rd_judgments r @
                [\<lparr>pj_older_claim = pp_older p, pj_newer_claim = pp_newer p, pj_verdict = verdict,
                  pj_reused_authority = reused\<rparr>]\<rparr>
           in case rv_relation verdict of
                RelSupersedes \<Rightarrow> note_winner claims temporal (pp_old_idx p) (pp_new_idx p) r'
              | RelConflict \<Rightarrow>
                  r'\<lparr>rd_conflict_pairs := rd_conflict_pairs r' @
                       [(min (pp_old_idx p) (pp_new_idx p), max (pp_old_idx p) (pp_new_idx p))]\<rparr>
              | RelDuplicate \<Rightarrow> r'
              | RelUnrelated \<Rightarrow> r'))"

definition collect_pair_reduction ::
  "claims \<Rightarrow> RelateTemporalPolicy \<Rightarrow> PendingPair list \<Rightarrow> PairOutcome list \<Rightarrow> PairReduction" where
  "collect_pair_reduction claims temporal pending outcomes =
     foldl (\<lambda>r po. collect_pair claims temporal po r) reduction_empty (zip pending outcomes)"

section \<open>Edges and conflicts\<close>

definition edge_row :: "claims \<Rightarrow> nat \<times> nat \<Rightarrow> SupersessionEdge" where
  "edge_row claims w =
     (case w of (old, new) \<Rightarrow>
       (fst (claims ! old), fst (claims ! new), ''superseded by '' @ claim_ref (snd (claims ! new))))"

definition held_edge :: "SupersessionEdge \<Rightarrow> HeldDecision" where
  "held_edge e = (case e of (old, new, reason) \<Rightarrow> HeldSupersession old new reason)"

definition edge_key :: "SupersessionEdge \<Rightarrow> string \<times> string" where
  "edge_key e = (claim_str (fst e), claim_str (fst (snd e)))"

definition reduce_supersessions ::
  "claims \<Rightarrow> (nat, nat) btree \<Rightarrow> ClaimId list \<Rightarrow> ClaimId list \<times> SupersessionEdge list \<times> HeldDecision list" where
  "reduce_supersessions claims winners tainted =
     (let rows = map (edge_row claims) winners;
          free = filter (\<lambda>e. fst e \<notin> set tainted) rows
      in (map fst free, sort_key edge_key free,
          map held_edge (filter (\<lambda>e. fst e \<in> set tainted) rows)))"

definition conflict_entry :: "(string \<Rightarrow> string) \<Rightarrow> claims \<Rightarrow> nat \<Rightarrow> nat \<Rightarrow> ConflictEntry" where
  "conflict_entry B claims i j =
     (let a = claims ! i; b = claims ! j in
      \<lparr>cn_conflict_id = conflict_id_from_pair B (fst a) (fst b), cn_claim_a = fst a, cn_claim_b = fst b,
       cn_subject_hint = pv_subject_hint (snd a),
       cn_reason = ''contradictory current claims: '' @ [CHR 0x22] @ pv_text (snd a) @ [CHR 0x22]
         @ '' vs '' @ [CHR 0x22] @ pv_text (snd b) @ [CHR 0x22],
       cn_status = PcOpen\<rparr>)"

definition held_conflict :: "ConflictEntry \<Rightarrow> HeldDecision" where
  "held_conflict c = HeldConflict (cn_conflict_id c) (cn_claim_a c) (cn_claim_b c) (cn_reason c)"

fun conflict_loop ::
  "(string \<Rightarrow> string) \<Rightarrow> claims \<Rightarrow> ClaimId list \<Rightarrow> ClaimId list \<Rightarrow> (nat \<times> nat) list \<Rightarrow> ConflictId list \<Rightarrow>
   ConflictEntry list \<times> HeldDecision list \<Rightarrow> ConflictEntry list \<times> HeldDecision list" where
  "conflict_loop B claims tainted superseded [] seen s = s"
| "conflict_loop B claims tainted superseded ((i, j) # ps) seen s =
     (let e = conflict_entry B claims i j in
      if cn_conflict_id e \<in> set seen then conflict_loop B claims tainted superseded ps seen s
      else conflict_loop B claims tainted superseded ps (cn_conflict_id e # seen)
             (if cn_claim_a e \<in> set tainted \<or> cn_claim_b e \<in> set tainted
              then (fst s, snd s @ [held_conflict e])
              else if cn_claim_a e \<notin> set superseded \<and> cn_claim_b e \<notin> set superseded
              then (fst s @ [e], snd s)
              else s))"

definition reduce_conflicts ::
  "(string \<Rightarrow> string) \<Rightarrow> claims \<Rightarrow> (nat \<times> nat) list \<Rightarrow> ClaimId list \<Rightarrow> ClaimId list \<Rightarrow> HeldDecision list \<Rightarrow>
   ConflictEntry list \<times> HeldDecision list" where
  "reduce_conflicts B claims pairs tainted superseded held =
     apfst (sort_key (\<lambda>c. conflict_str (cn_conflict_id c)))
       (conflict_loop B claims tainted superseded pairs [] ([], held))"

record ReducedOutcome =
  ro_related :: RelatedClaims
  ro_unresolved :: "UnresolvedPair list"
  ro_held :: "HeldDecision list"

definition tainted_claims :: "claims \<Rightarrow> PairReduction \<Rightarrow> ClaimId list" where
  "tainted_claims claims r =
     concat (map (\<lambda>u. [up_old_claim u, up_new_claim u]) (rd_unresolved r)) @
     map (\<lambda>i. fst (claims ! i)) (rd_ambiguous_winners r)"

definition reduce_outcomes ::
  "(string \<Rightarrow> string) \<Rightarrow> claims \<Rightarrow> RelateTemporalPolicy \<Rightarrow> PendingPair list \<Rightarrow> PairOutcome list \<Rightarrow> ReducedOutcome" where
  "reduce_outcomes B claims temporal pending outcomes =
     (let r = collect_pair_reduction claims temporal pending outcomes;
          tainted = tainted_claims claims r
      in case reduce_supersessions claims (rd_winners r) tainted of
           (superseded, supersessions, held) \<Rightarrow>
             (case reduce_conflicts B claims (rd_conflict_pairs r) tainted superseded held of
                (conflicts, held') \<Rightarrow>
                  \<lparr>ro_related = \<lparr>rc_supersessions = supersessions, rc_conflicts = conflicts,
                                 rc_judgments = rd_judgments r\<rparr>,
                   ro_unresolved = rd_unresolved r, ro_held = held'\<rparr>))"

section \<open>Finishing a page\<close>

record PageCompletion =
  pc_settled :: settled
  pc_claim_clusters :: "nat list"
  pc_examined_pairs :: usize
  pc_candidate_pair_budget :: usize
  pc_next_cursor :: "u64 option"

fun min_list_opt :: "nat list \<Rightarrow> nat option" where
  "min_list_opt [] = None"
| "min_list_opt (x # xs) = (case min_list_opt xs of None \<Rightarrow> Some x | Some y \<Rightarrow> Some (min x y))"

definition failed_cursors :: "PendingPair list \<Rightarrow> PairOutcome list \<Rightarrow> nat list" where
  "failed_cursors pending outcomes =
     List.map_filter (\<lambda>(p, o'). case o' of FailedPair _ \<Rightarrow> Some (pp_cursor p) | _ \<Rightarrow> None)
       (zip pending outcomes)"

definition resume_cursor :: "PendingPair list \<Rightarrow> PairOutcome list \<Rightarrow> u64 option \<Rightarrow> u64 option" where
  "resume_cursor pending outcomes next_cursor =
     min_list_opt (failed_cursors pending outcomes @ (case next_cursor of None \<Rightarrow> [] | Some c \<Rightarrow> [c]))"

definition partial_outcome ::
  "ReducedOutcome \<Rightarrow> usize \<Rightarrow> usize \<Rightarrow> u64 \<Rightarrow> PartialRelateOutcome" where
  "partial_outcome r pairs budget cursor =
     \<lparr>po_judgments = rc_judgments (ro_related r), po_unresolved = ro_unresolved r,
      po_held = ro_held r @ map held_edge (rc_supersessions (ro_related r))
                  @ map held_conflict (rc_conflicts (ro_related r)),
      po_candidate_pairs = pairs, po_candidate_pair_budget = budget,
      po_next_candidate_cursor = cursor\<rparr>"

text \<open>\<open>by_id\<close>: collecting into a map keeps the last index of an id.\<close>

definition index_of_claim :: "claims \<Rightarrow> ClaimId \<Rightarrow> nat option" where
  "index_of_claim claims i =
     map_of (rev (map (\<lambda>(k, c). (claim_str (fst c), k)) (enumerate 0 claims))) (claim_str i)"

definition authority_row ::
  "claims \<Rightarrow> (ClaimId \<times> ClaimId) list \<Rightarrow> nat list \<Rightarrow> (ClaimId \<times> ClaimId) \<times> RelationVerdict \<Rightarrow>
   ((nat \<times> nat \<times> nat) \<times> PendingPair \<times> PairOutcome) option" where
  "authority_row claims fresh clusters kv =
     (case kv of ((older, newer), verdict) \<Rightarrow>
       case (index_of_claim claims older, index_of_claim claims newer) of
         (Some oi, Some ni) \<Rightarrow>
           Some ((clusters ! (min oi ni), min oi ni, max oi ni),
                 \<lparr>pp_old_idx = oi, pp_new_idx = ni, pp_older = older, pp_newer = newer,
                  pp_temporal_failure = None, pp_cursor = 0\<rparr>,
                 JudgedPair verdict ((older, newer) \<notin> set fresh))
       | _ \<Rightarrow> None)"

definition authoritative_pairs ::
  "claims \<Rightarrow> settled \<Rightarrow> (ClaimId \<times> ClaimId) list \<Rightarrow> nat list \<Rightarrow> PendingPair list \<times> PairOutcome list" where
  "authoritative_pairs claims authority fresh clusters =
     (let rows = sort_key fst (List.map_filter (authority_row claims fresh clusters) authority)
      in (map (fst \<circ> snd) rows, map (snd \<circ> snd) rows))"

definition judgment_key :: "PairJudgment \<Rightarrow> ClaimId \<times> ClaimId" where
  "judgment_key p = (pj_older_claim p, pj_newer_claim p)"

definition extend_authority :: "settled \<Rightarrow> PairJudgment list \<Rightarrow> settled" where
  "extend_authority settled ps = foldl (\<lambda>m p. bt_insert (judgment_key p) (pj_verdict p) m) settled ps"

definition complete_outcome ::
  "(string \<Rightarrow> string) \<Rightarrow> claims \<Rightarrow> RelateTemporalPolicy \<Rightarrow> settled \<Rightarrow> (ClaimId \<times> ClaimId) list \<Rightarrow> nat list \<Rightarrow>
   usize \<Rightarrow> CompleteRelateOutcome" where
  "complete_outcome B claims temporal authority fresh clusters budget =
     (case authoritative_pairs claims authority fresh clusters of
        (pending, outcomes) \<Rightarrow>
          let c = reduce_outcomes B claims temporal pending outcomes in
          \<lparr>co_related = ro_related c, co_held = ro_held c,
           co_candidate_pairs = length (rc_judgments (ro_related c)),
           co_candidate_pair_budget = budget\<rparr>)"

definition finish_page ::
  "(string \<Rightarrow> string) \<Rightarrow> claims \<Rightarrow> PendingPair list \<Rightarrow> PairOutcome list \<Rightarrow> RelateTemporalPolicy \<Rightarrow>
   PageCompletion \<Rightarrow> RelateOutcome" where
  "finish_page B claims pending outcomes temporal page =
     (let r = reduce_outcomes B claims temporal pending outcomes in
      case resume_cursor pending outcomes (pc_next_cursor page) of
        Some cursor \<Rightarrow>
          PartialOutcome (partial_outcome r (pc_examined_pairs page) (pc_candidate_pair_budget page) cursor)
      | None \<Rightarrow>
          (let fresh = map judgment_key (filter (\<lambda>p. \<not> pj_reused_authority p) (rc_judgments (ro_related r)));
               authority = extend_authority (pc_settled page) (rc_judgments (ro_related r))
           in CompleteOutcome (complete_outcome B claims temporal authority fresh
                 (pc_claim_clusters page) (pc_candidate_pair_budget page))))"

end
