(* ===== verification/Decisions.thy ===== *)
theory Decisions
  imports Reduction
begin

text \<open>
  What the reduction decides: soundness of edges and conflicts, the newest successor, the resume
  cursor of a partial page, and the dependence of a complete result on the authority alone.
\<close>

section \<open>Winners\<close>

definition winners_in :: "claims \<Rightarrow> (nat, nat) btree \<Rightarrow> bool" where
  "winners_in claims m \<longleftrightarrow> bt_ok m \<and> (\<forall>k \<in> set (map fst m). k < length claims)"

lemma winners_in_insert:
  "winners_in claims m \<Longrightarrow> old < length claims \<Longrightarrow> winners_in claims (bt_insert old new m)"
  using keys_bt_insert [of old new m] by (auto simp: winners_in_def)

lemma note_winner_in:
  "winners_in claims (rd_winners r) \<Longrightarrow> old < length claims \<Longrightarrow>
   winners_in claims (rd_winners (note_winner claims temporal old new r))"
  by (auto simp: note_winner_def Let_def winners_in_insert split: option.split SuccessorOrder.split)

lemma collect_pair_in:
  "winners_in claims (rd_winners r) \<Longrightarrow> pp_old_idx (fst po) < length claims \<Longrightarrow>
   winners_in claims (rd_winners (collect_pair claims temporal po r))"
  by (auto simp: collect_pair_def Let_def note_winner_in split: prod.split PairOutcome.split ClaimRelation.split)

lemma collect_winners_in:
  assumes "\<forall>p \<in> set pending. pp_old_idx p < length claims"
  shows "winners_in claims (rd_winners (collect_pair_reduction claims temporal pending outcomes))"
proof -
  have "winners_in claims (rd_winners (foldl (\<lambda>r po. collect_pair claims temporal po r) r pos))"
    if "winners_in claims (rd_winners r)" "\<forall>po \<in> set pos. pp_old_idx (fst po) < length claims" for r pos
    using that by (induction pos arbitrary: r) (auto simp: collect_pair_in)
  moreover have "winners_in claims (rd_winners reduction_empty)"
    by (simp add: winners_in_def reduction_empty_def)
  moreover have "\<forall>po \<in> set (zip pending outcomes). pp_old_idx (fst po) < length claims"
    using assms by (auto dest: set_zip_leftD)
  ultimately show ?thesis by (simp add: collect_pair_reduction_def)
qed

section \<open>Soundness of the decisions\<close>

definition loop_ok ::
  "ClaimId list \<Rightarrow> ClaimId list \<Rightarrow> ConflictId list \<Rightarrow> ConflictEntry list \<Rightarrow> bool" where
  "loop_ok tainted superseded seen cs \<longleftrightarrow>
     (\<forall>c \<in> set cs. {cn_claim_a c, cn_claim_b c} \<inter> (set tainted \<union> set superseded) = {}) \<and>
     distinct (map cn_conflict_id cs) \<and> cn_conflict_id ` set cs \<subseteq> set seen"

lemma loop_ok_mono: "loop_ok t sp seen cs \<Longrightarrow> loop_ok t sp (i # seen) cs"
  by (auto simp: loop_ok_def)

lemma loop_ok_add:
  assumes "loop_ok t sp seen cs" "cn_conflict_id e \<notin> set seen"
    and "{cn_claim_a e, cn_claim_b e} \<inter> (set t \<union> set sp) = {}"
  shows "loop_ok t sp (cn_conflict_id e # seen) (cs @ [e])"
  using assms unfolding loop_ok_def by auto

lemma conflict_loop_ok:
  "loop_ok t sp seen (fst s) \<Longrightarrow> \<exists>seen'. loop_ok t sp seen' (fst (conflict_loop B claims t sp pairs seen s))"
proof (induction B claims t sp pairs seen s rule: conflict_loop.induct)
  case (2 B claims t sp i j ps seen s)
  let ?e = "conflict_entry B claims i j"
  let ?s = "if cn_claim_a ?e \<in> set t \<or> cn_claim_b ?e \<in> set t then (fst s, snd s @ [held_conflict ?e])
            else if cn_claim_a ?e \<notin> set sp \<and> cn_claim_b ?e \<notin> set sp then (fst s @ [?e], snd s) else s"
  show ?case
  proof (cases "cn_conflict_id ?e \<in> set seen")
    case True
    then show ?thesis using "2.IH"(1) [OF refl True "2.prems"] by simp
  next
    case False
    have "loop_ok t sp (cn_conflict_id ?e # seen) (fst ?s)"
      using loop_ok_mono [OF "2.prems"] loop_ok_add [OF "2.prems" False] by auto
    then show ?thesis using "2.IH"(2) [OF refl False] False by (simp add: Let_def)
  qed
qed auto

text \<open>
  C12: Decisions are consistent.  For any outcomes, with distinct claim ids: every superseded claim
  has exactly one edge; no edge starts at a claim tainted by an unresolved or ambiguous pair; no
  conflict names a tainted claim or a claim that is superseded by an edge of the same result;
  conflicts have distinct ids; both lists are in their canonical order.
\<close>
theorem decisions_consistent:
  fixes B :: "string \<Rightarrow> string" and claims :: claims and temporal :: RelateTemporalPolicy
    and pending :: "PendingPair list" and outcomes :: "PairOutcome list"
  assumes ids: "distinct (map fst claims)" and idx: "\<forall>p \<in> set pending. pp_old_idx p < length claims"
  defines "R \<equiv> ro_related (reduce_outcomes B claims temporal pending outcomes)"
    and "tainted \<equiv> tainted_claims claims (collect_pair_reduction claims temporal pending outcomes)"
  shows "distinct (map fst (rc_supersessions R))
    \<and> (\<forall>e \<in> set (rc_supersessions R). fst e \<notin> set tainted)
    \<and> (\<forall>c \<in> set (rc_conflicts R). {cn_claim_a c, cn_claim_b c} \<inter> (set tainted \<union> fst ` set (rc_supersessions R)) = {})
    \<and> distinct (map cn_conflict_id (rc_conflicts R))
    \<and> sorted (map edge_key (rc_supersessions R))
    \<and> sorted (map (\<lambda>c. conflict_str (cn_conflict_id c)) (rc_conflicts R))"
proof -
  let ?r = "collect_pair_reduction claims temporal pending outcomes"
  let ?rows = "map (edge_row claims) (rd_winners ?r)"
  let ?free = "filter (\<lambda>e. fst e \<notin> set tainted) ?rows"
  let ?held = "map held_edge (filter (\<lambda>e. fst e \<in> set tainted) ?rows)"
  let ?loop = "conflict_loop B claims tainted (map fst ?free) (rd_conflict_pairs ?r) [] ([], ?held)"
  have w: "winners_in claims (rd_winners ?r)" by (rule collect_winners_in [OF idx])
  have s: "rc_supersessions R = sort_key edge_key ?free"
    and c: "rc_conflicts R = sort_key (\<lambda>c. conflict_str (cn_conflict_id c)) (fst ?loop)"
    by (simp_all add: R_def tainted_def reduce_outcomes_def reduce_supersessions_def reduce_conflicts_def
        Let_def apfst_def map_prod_def split: prod.split)
  have keys: "map fst ?rows = map (\<lambda>k. fst (claims ! k)) (map fst (rd_winners ?r))"
    by (simp add: edge_row_def case_prod_beta)
  have inj: "inj_on (\<lambda>k. fst (claims ! k)) {..<length claims}"
  proof (rule inj_onI)
    fix x y
    assume xy: "x \<in> {..<length claims}" "y \<in> {..<length claims}" "fst (claims ! x) = fst (claims ! y)"
    then have "map fst claims ! x = map fst claims ! y" by simp
    then show "x = y" using ids xy(1,2) by (simp add: nth_eq_iff_index_eq del: nth_map)
  qed
  have sub: "set (map fst (rd_winners ?r)) \<subseteq> {..<length claims}"
    using w unfolding winners_in_def by blast
  have dk: "distinct (map fst (rd_winners ?r))" using w unfolding winners_in_def by (blast intro: bt_ok_distinct)
  have d: "distinct (map fst ?rows)"
    unfolding keys by (rule distinct_map [THEN iffD2]) (rule conjI [OF dk inj_on_subset [OF inj sub]])
  then have df: "distinct (map fst ?free)" by (rule distinct_map_filter)
  have ms: "mset (map fst (sort_key edge_key ?free)) = mset (map fst ?free)" by simp
  have 1: "distinct (map fst (rc_supersessions R))"
    using df ms s by (metis mset_eq_imp_distinct_iff)
  have "loop_ok tainted (map fst ?free) [] (fst ([], ?held))" by (simp add: loop_ok_def)
  from conflict_loop_ok [OF this] obtain seen' where cl: "loop_ok tainted (map fst ?free) seen' (fst ?loop)"
    by blast
  have mc: "mset (map cn_conflict_id (rc_conflicts R)) = mset (map cn_conflict_id (fst ?loop))"
    by (simp add: c)
  have 2: "distinct (map cn_conflict_id (rc_conflicts R))"
    using cl mc unfolding loop_ok_def by (metis mset_eq_imp_distinct_iff)
  have 3: "\<forall>e \<in> set (rc_supersessions R). fst e \<notin> set tainted" by (simp add: s)
  have 4: "fst ` set (rc_supersessions R) = set (map fst ?free)" by (simp add: s)
  have 5: "\<forall>c \<in> set (rc_conflicts R). {cn_claim_a c, cn_claim_b c} \<inter> (set tainted \<union> fst ` set (rc_supersessions R)) = {}"
    using cl unfolding 4 loop_ok_def c by simp
  have 6: "sorted (map edge_key (rc_supersessions R))" unfolding s by (rule sorted_sort_key)
  have 7: "sorted (map (\<lambda>c. conflict_str (cn_conflict_id c)) (rc_conflicts R))"
    unfolding c by (rule sorted_sort_key)
  show ?thesis by (intro conjI 1 3 5 2 6 7)
qed

section \<open>The newest successor\<close>

text \<open>The claims a page's verdicts say replace the claim at index \<open>old\<close>.\<close>

definition successors :: "nat \<Rightarrow> (PendingPair \<times> PairOutcome) list \<Rightarrow> nat list" where
  "successors old pos =
     List.map_filter (\<lambda>(p, o'). case o' of
         JudgedPair v _ \<Rightarrow> if rv_relation v = RelSupersedes \<and> pp_old_idx p = old then Some (pp_new_idx p) else None
       | FailedPair _ \<Rightarrow> None) pos"

definition newest_of :: "claims \<Rightarrow> nat list \<Rightarrow> nat \<Rightarrow> bool" where
  "newest_of claims ns w \<longleftrightarrow> w \<in> set ns \<and> (\<forall>n \<in> set ns. \<not> newer_index claims n w)"

definition unbound :: "RelateTemporalPolicy \<Rightarrow> claims \<Rightarrow> bool" where
  "unbound temporal claims \<longleftrightarrow>
     (\<forall>i j. compare_claims temporal (fst (claims ! i)) (fst (claims ! j)) \<in> {None, Some Same})"

lemma newer_index_trans: "newer_index claims a b \<Longrightarrow> newer_index claims b c \<Longrightarrow> newer_index claims a c"
  by (auto simp: newer_index_def)

lemma note_winner_newest:
  assumes u: "unbound temporal claims"
  shows "bt_get (rd_winners (note_winner claims temporal old new r)) k =
    (if k = old then Some (case bt_get (rd_winners r) old of
       None \<Rightarrow> new | Some cur \<Rightarrow> if newer_index claims new cur then new else cur)
     else bt_get (rd_winners r) k)"
proof -
  have "compare_successors claims temporal cur new =
      (if newer_index claims new cur then CandidateWins else CurrentWins)" for cur
  proof -
    have "compare_claims temporal (fst (claims ! cur)) (fst (claims ! new)) \<in> {None, Some Same}"
      using u by (simp add: unbound_def)
    then show ?thesis by (auto simp: compare_successors_def Let_def)
  qed
  then show ?thesis by (auto simp: note_winner_def split: option.split)
qed

lemma winners_newest:
  assumes u: "unbound temporal claims"
  shows "case bt_get (rd_winners (foldl (\<lambda>r po. collect_pair claims temporal po r) reduction_empty pos)) old of
      None \<Rightarrow> successors old pos = []
    | Some w \<Rightarrow> newest_of claims (successors old pos) w"
proof (induction pos rule: rev_induct)
  case Nil
  then show ?case by (simp add: reduction_empty_def successors_def map_filter_simps)
next
  case (snoc po pos)
  let ?r = "foldl (\<lambda>r po. collect_pair claims temporal po r) reduction_empty pos"
  obtain p out where po: "po = (p, out)" by fastforce
  have s: "successors old (pos @ [po]) = successors old pos @ successors old [po]"
    by (simp add: successors_def map_filter_def)
  show ?case
  proof (cases "\<exists>v b. out = JudgedPair v b \<and> rv_relation v = RelSupersedes")
    case False
    then have "rd_winners (collect_pair claims temporal po ?r) = rd_winners ?r" "successors old [po] = []"
      by (auto simp: po collect_pair_def successors_def map_filter_simps Let_def
          split: PairOutcome.splits ClaimRelation.splits)
    then show ?thesis using snoc s by (auto split: option.splits)
  next
    case True
    then obtain v b where v: "out = JudgedPair v b" "rv_relation v = RelSupersedes" by blast
    have n: "successors old [po] = (if pp_old_idx p = old then [pp_new_idx p] else [])"
      by (simp add: po v successors_def map_filter_simps)
    let ?r' = "?r\<lparr>rd_judgments := rd_judgments ?r @ [\<lparr>pj_older_claim = pp_older p,
      pj_newer_claim = pp_newer p, pj_verdict = v, pj_reused_authority = b\<rparr>]\<rparr>"
    have c: "collect_pair claims temporal po ?r = note_winner claims temporal (pp_old_idx p) (pp_new_idx p) ?r'"
      by (simp add: po v collect_pair_def Let_def)
    show ?thesis
      using snoc note_winner_newest [OF u, of "pp_old_idx p" "pp_new_idx p" ?r' old] s n
      by (auto simp: c newest_of_def newer_index_def split: option.splits if_splits)
  qed
qed

text \<open>
  The newest replacement wins.  Among claims without source-order evidence (or all bound to one
  snapshot), the edge of a superseded claim goes to the verdict's successor with the greatest
  journal sequence, whatever the order of the pairs; a claim has an edge or a held decision
  exactly when some verdict supersedes it.
\<close>
theorem newest_successor_wins:
  assumes "unbound temporal claims"
  shows "case bt_get (rd_winners (collect_pair_reduction claims temporal pending outcomes)) old of
      None \<Rightarrow> successors old (zip pending outcomes) = []
    | Some w \<Rightarrow> newest_of claims (successors old (zip pending outcomes)) w"
  using winners_newest [OF assms] by (simp add: collect_pair_reduction_def)

section \<open>Partial pages\<close>

lemma min_list_opt_None: "min_list_opt xs = None \<longleftrightarrow> xs = []"
  by (cases xs) (auto split: option.split)

lemma min_list_opt_Some: "min_list_opt xs = Some m \<Longrightarrow> m \<in> set xs \<and> (\<forall>x \<in> set xs. m \<le> x)"
proof (induction xs arbitrary: m)
  case (Cons x xs)
  show ?case
  proof (cases "min_list_opt xs")
    case None
    then show ?thesis using Cons.prems by (simp add: min_list_opt_None)
  next
    case (Some y)
    then have "m = min x y" "y \<in> set xs" "\<forall>z \<in> set xs. y \<le> z" using Cons by auto
    then show ?thesis by (auto simp: min_def)
  qed
qed simp

text \<open>
  C14: A partial page publishes nothing and skips nothing.  A page with a failed pair or with pairs
  left is partial; its cursor is no later than any failed pair and than the next page, and is one
  of them; every edge and conflict it derived is among its held decisions.  A page is complete
  only if no pair failed and no page is left.
\<close>
theorem partial_page_skips_nothing:
  "case finish_page B claims pending outcomes temporal page of
     PartialOutcome po \<Rightarrow>
       (\<forall>c \<in> set (failed_cursors pending outcomes). po_next_candidate_cursor po \<le> c)
       \<and> (\<forall>c \<in> set_option (pc_next_cursor page). po_next_candidate_cursor po \<le> c)
       \<and> po_next_candidate_cursor po \<in> set (failed_cursors pending outcomes) \<union> set_option (pc_next_cursor page)
       \<and> held_edge ` set (rc_supersessions (ro_related (reduce_outcomes B claims temporal pending outcomes)))
           \<union> held_conflict ` set (rc_conflicts (ro_related (reduce_outcomes B claims temporal pending outcomes)))
         \<subseteq> set (po_held po)
   | CompleteOutcome co \<Rightarrow> failed_cursors pending outcomes = [] \<and> pc_next_cursor page = None"
proof (cases "resume_cursor pending outcomes (pc_next_cursor page)")
  case None
  then show ?thesis
    by (auto simp: finish_page_def Let_def resume_cursor_def min_list_opt_None split: option.splits)
next
  case (Some m)
  have "m \<in> set (failed_cursors pending outcomes) \<union> set_option (pc_next_cursor page) \<and>
      (\<forall>c \<in> set (failed_cursors pending outcomes) \<union> set_option (pc_next_cursor page). m \<le> c)"
    using min_list_opt_Some [of _ m] Some unfolding resume_cursor_def
    by (cases "pc_next_cursor page") fastforce+
  then show ?thesis using Some by (auto simp: finish_page_def Let_def partial_outcome_def)
qed

section \<open>Complete results\<close>

text \<open>The flag that says a verdict was reused is reporting only: it decides nothing.\<close>

fun unflag :: "PairOutcome \<Rightarrow> PairOutcome" where
  "unflag (JudgedPair v _) = JudgedPair v False"
| "unflag (FailedPair f) = FailedPair f"

definition unflag_judgment :: "PairJudgment \<Rightarrow> PairJudgment" where
  "unflag_judgment p = p\<lparr>pj_reused_authority := False\<rparr>"

definition unflag_reduction :: "PairReduction \<Rightarrow> PairReduction" where
  "unflag_reduction r = r\<lparr>rd_judgments := map unflag_judgment (rd_judgments r)\<rparr>"

lemma collect_unflag:
  "unflag_reduction (collect_pair claims temporal (p, o') r) =
     collect_pair claims temporal (p, unflag o') (unflag_reduction r)"
  by (cases o')
    (auto simp: collect_pair_def unflag_reduction_def unflag_judgment_def note_winner_def Let_def
      split: ClaimRelation.split option.split SuccessorOrder.split)

lemma collect_all_unflag:
  "unflag_reduction (collect_pair_reduction claims temporal pending outcomes) =
     collect_pair_reduction claims temporal pending (map unflag outcomes)"
proof -
  have "unflag_reduction (foldl (\<lambda>r po. collect_pair claims temporal po r) r pos) =
      foldl (\<lambda>r po. collect_pair claims temporal po r) (unflag_reduction r) (map (apsnd unflag) pos)" for r pos
    by (induction pos arbitrary: r) (auto simp: collect_unflag)
  moreover have "unflag_reduction reduction_empty = reduction_empty"
    by (simp add: unflag_reduction_def reduction_empty_def)
  ultimately show ?thesis by (simp add: collect_pair_reduction_def zip_map2 apsnd_def map_prod_def)
qed

lemma unflag_reduction_simps [simp]:
  "rd_winners (unflag_reduction r) = rd_winners r"
  "rd_conflict_pairs (unflag_reduction r) = rd_conflict_pairs r"
  "rd_unresolved (unflag_reduction r) = rd_unresolved r"
  "rd_ambiguous_winners (unflag_reduction r) = rd_ambiguous_winners r"
  "rd_judgments (unflag_reduction r) = map unflag_judgment (rd_judgments r)"
  by (simp_all add: unflag_reduction_def)

lemma reduce_same_unflagged:
  fixes B :: "string \<Rightarrow> string" and claims :: claims and temporal :: RelateTemporalPolicy
    and pending :: "PendingPair list"
  assumes "map unflag outcomes = map unflag outcomes'"
  defines "r \<equiv> reduce_outcomes B claims temporal pending outcomes"
    and "r' \<equiv> reduce_outcomes B claims temporal pending outcomes'"
  shows "rc_supersessions (ro_related r) = rc_supersessions (ro_related r')"
    and "rc_conflicts (ro_related r) = rc_conflicts (ro_related r')"
    and "ro_held r = ro_held r'"
    and "map unflag_judgment (rc_judgments (ro_related r)) = map unflag_judgment (rc_judgments (ro_related r'))"
proof -
  let ?c = "collect_pair_reduction claims temporal pending"
  have u: "unflag_reduction (?c outcomes) = unflag_reduction (?c outcomes')"
    using assms(1) by (simp add: collect_all_unflag)
  have w: "rd_winners (?c outcomes) = rd_winners (?c outcomes')"
    "rd_conflict_pairs (?c outcomes) = rd_conflict_pairs (?c outcomes')"
    "map unflag_judgment (rd_judgments (?c outcomes)) = map unflag_judgment (rd_judgments (?c outcomes'))"
    "tainted_claims claims (?c outcomes) = tainted_claims claims (?c outcomes')"
    using arg_cong [OF u, of rd_winners] arg_cong [OF u, of rd_conflict_pairs]
      arg_cong [OF u, of rd_judgments] arg_cong [OF u, of rd_unresolved]
      arg_cong [OF u, of rd_ambiguous_winners] by (simp_all add: tainted_claims_def)
  show "rc_supersessions (ro_related r) = rc_supersessions (ro_related r')"
    and "rc_conflicts (ro_related r) = rc_conflicts (ro_related r')"
    and "ro_held r = ro_held r'"
    and "map unflag_judgment (rc_judgments (ro_related r)) = map unflag_judgment (rc_judgments (ro_related r'))"
    using w by (simp_all add: r_def r'_def reduce_outcomes_def Let_def split: prod.split)
qed

lemma insort_key_map: "insort_key f (g x) (map g xs) = map g (insort_key (\<lambda>y. f (g y)) x xs)"
  by (induction xs) auto

lemma sort_key_map: "sort_key f (map g xs) = map g (sort_key (\<lambda>y. f (g y)) xs)"
  by (induction xs) (auto simp: insort_key_map)

lemma map_filter_map_option: "List.map_filter (\<lambda>x. map_option g (h x)) xs = map g (List.map_filter h xs)"
  by (induction xs) (auto simp: map_filter_simps split: option.split)

lemma authoritative_unflag:
  "fst (authoritative_pairs claims authority fresh clusters) = fst (authoritative_pairs claims authority [] clusters)"
  "map unflag (snd (authoritative_pairs claims authority fresh clusters)) =
     map unflag (snd (authoritative_pairs claims authority [] clusters))"
proof -
  let ?g = "apsnd (apsnd unflag) :: (nat \<times> nat \<times> nat) \<times> PendingPair \<times> PairOutcome \<Rightarrow> _"
  let ?rows = "\<lambda>f. sort_key fst (List.map_filter (authority_row claims f clusters) authority)"
  have row: "map_option ?g (authority_row claims f clusters kv) = map_option ?g (authority_row claims [] clusters kv)"
    for f kv by (auto simp: authority_row_def split: prod.split option.split)
  have rows: "map ?g (?rows f) =
      sort_key fst (List.map_filter (\<lambda>kv. map_option ?g (authority_row claims f clusters kv)) authority)" for f
    by (simp add: map_filter_map_option sort_key_map)
  have "(\<lambda>kv. map_option ?g (authority_row claims fresh clusters kv)) =
      (\<lambda>kv. map_option ?g (authority_row claims [] clusters kv))"
    by (rule ext) (rule row)
  then have same: "map ?g (?rows fresh) = map ?g (?rows [])" by (simp only: rows)
  have "map (fst \<circ> snd) (map ?g (?rows fresh)) = map (fst \<circ> snd) (map ?g (?rows []))"
    and "map (snd \<circ> snd) (map ?g (?rows fresh)) = map (snd \<circ> snd) (map ?g (?rows []))"
    by (simp_all only: same)
  then show "fst (authoritative_pairs claims authority fresh clusters) = fst (authoritative_pairs claims authority [] clusters)"
    and "map unflag (snd (authoritative_pairs claims authority fresh clusters)) =
      map unflag (snd (authoritative_pairs claims authority [] clusters))"
    by (simp_all add: authoritative_pairs_def Let_def comp_def)
qed

lemma complete_by_authority:
  fixes B :: "string \<Rightarrow> string" and claims :: claims and temporal :: RelateTemporalPolicy
    and authority :: settled and clusters :: "nat list"
  defines "c fresh budget \<equiv> complete_outcome B claims temporal authority fresh clusters budget"
  shows "rc_supersessions (co_related (c fresh budget)) = rc_supersessions (co_related (c [] 0))
    \<and> rc_conflicts (co_related (c fresh budget)) = rc_conflicts (co_related (c [] 0))
    \<and> co_held (c fresh budget) = co_held (c [] 0)
    \<and> map unflag_judgment (rc_judgments (co_related (c fresh budget))) =
        map unflag_judgment (rc_judgments (co_related (c [] 0)))"
proof -
  let ?p = "fst (authoritative_pairs claims authority [] clusters)"
  let ?os = "\<lambda>f. snd (authoritative_pairs claims authority f clusters)"
  have c: "co_related (c f b) = ro_related (reduce_outcomes B claims temporal ?p (?os f))"
    "co_held (c f b) = ro_held (reduce_outcomes B claims temporal ?p (?os f))" for f b
    using authoritative_unflag(1) [of claims authority f clusters]
    by (simp_all add: c_def complete_outcome_def Let_def case_prod_beta)
  show ?thesis
    unfolding c using reduce_same_unflagged [OF authoritative_unflag(2) [of claims authority fresh clusters]] by simp
qed

text \<open>
  C13: A complete result depends on the authority alone.  Two runs that end complete over the same
  claims and source order, and whose settled verdicts together with the verdicts of the last
  page are the same, publish the same supersessions, the same conflicts and the same held
  decisions, and report the same verdicts; how the verdicts were spread over pages, retries and
  earlier runs does not matter.
\<close>
theorem complete_result_by_authority:
  assumes "finish_page B claims pending outcomes temporal page = CompleteOutcome c"
    and "finish_page B claims pending' outcomes' temporal page' = CompleteOutcome c'"
    and "pc_claim_clusters page = pc_claim_clusters page'"
    and "extend_authority (pc_settled page) (rd_judgments (collect_pair_reduction claims temporal pending outcomes))
       = extend_authority (pc_settled page') (rd_judgments (collect_pair_reduction claims temporal pending' outcomes'))"
  shows "rc_supersessions (co_related c) = rc_supersessions (co_related c')
    \<and> rc_conflicts (co_related c) = rc_conflicts (co_related c')
    \<and> co_held c = co_held c'
    \<and> map unflag_judgment (rc_judgments (co_related c)) = map unflag_judgment (rc_judgments (co_related c'))"
proof -
  have j: "rc_judgments (ro_related (reduce_outcomes B claims temporal ps os)) =
      rd_judgments (collect_pair_reduction claims temporal ps os)" for ps os
    by (simp add: reduce_outcomes_def Let_def split: prod.split)
  have "\<exists>fresh budget. d = complete_outcome B claims temporal
      (extend_authority (pc_settled pg) (rd_judgments (collect_pair_reduction claims temporal ps os))) fresh
      (pc_claim_clusters pg) budget"
    if "finish_page B claims ps os temporal pg = CompleteOutcome d" for ps os pg d
    using that by (auto simp: finish_page_def Let_def j split: option.splits)
  note ex = this
  let ?auth = "extend_authority (pc_settled page)
    (rd_judgments (collect_pair_reduction claims temporal pending outcomes))"
  obtain f b where c: "c = complete_outcome B claims temporal ?auth f (pc_claim_clusters page) b"
    using ex [OF assms(1)] by blast
  obtain f' b' where c': "c' = complete_outcome B claims temporal ?auth f' (pc_claim_clusters page) b'"
    using ex [OF assms(2)] assms(3,4) by auto
  show ?thesis
    using complete_by_authority [of B claims temporal ?auth f "pc_claim_clusters page" b]
      complete_by_authority [of B claims temporal ?auth f' "pc_claim_clusters page" b']
    by (simp add: c c')
qed

section \<open>Concrete pages\<close>

definition demo_verdict :: "ClaimRelation \<Rightarrow> RelationVerdict" where
  "demo_verdict r = \<lparr>rv_relation = r, rv_score = 0x3F800000\<rparr>"

definition demo_pair :: "nat \<Rightarrow> nat \<Rightarrow> PendingPair" where
  "demo_pair i j =
     \<lparr>pp_old_idx = i, pp_new_idx = j, pp_older = fst (demo_claims ! i), pp_newer = fst (demo_claims ! j),
      pp_temporal_failure = None, pp_cursor = i + j\<rparr>"

abbreviation demo_pending :: "PendingPair list" where
  "demo_pending \<equiv> [demo_pair 0 1, demo_pair 0 2]"

abbreviation demo_outcomes :: "PairOutcome list" where
  "demo_outcomes \<equiv> [JudgedPair (demo_verdict RelSupersedes) False, JudgedPair (demo_verdict RelSupersedes) False]"

definition demo_page :: "settled \<Rightarrow> PageCompletion" where
  "demo_page s = \<lparr>pc_settled = s, pc_claim_clusters = [0, 0, 0], pc_examined_pairs = 2,
     pc_candidate_pair_budget = 2, pc_next_cursor = None\<rparr>"

theorem decisions_consistent_witness:
  "distinct (map fst (rc_supersessions (ro_related
     (reduce_outcomes id demo_claims policy_default demo_pending demo_outcomes))))"
proof -
  have "distinct (map fst demo_claims)" "\<forall>p \<in> set demo_pending. pp_old_idx p < length demo_claims"
    by (simp_all add: demo_claims_def demo_pipeline_claim_def demo_pair_def)
  from decisions_consistent [OF this] show ?thesis by blast
qed

theorem newest_successor_wins_witness:
  "case bt_get (rd_winners (collect_pair_reduction demo_claims policy_default demo_pending demo_outcomes)) 0 of
      None \<Rightarrow> successors 0 (zip demo_pending demo_outcomes) = []
    | Some w \<Rightarrow> newest_of demo_claims (successors 0 (zip demo_pending demo_outcomes)) w"
  by (rule newest_successor_wins) (simp add: unbound_def compare_claims_def policy_default_def)

lemma demo_complete:
  "\<exists>c. finish_page B demo_claims demo_pending demo_outcomes policy_default (demo_page s) = CompleteOutcome c"
  by (simp add: finish_page_def Let_def resume_cursor_def failed_cursors_def map_filter_simps demo_page_def)

theorem complete_result_by_authority_witness:
  "\<exists>c c'. finish_page id demo_claims demo_pending demo_outcomes policy_default (demo_page []) = CompleteOutcome c
     \<and> finish_page id demo_claims demo_pending
         [JudgedPair (demo_verdict RelSupersedes) True, JudgedPair (demo_verdict RelSupersedes) False]
         policy_default (demo_page [((ClaimId ''claim_a'', ClaimId ''claim_b''), demo_verdict RelSupersedes)])
       = CompleteOutcome c'
     \<and> rc_supersessions (co_related c) = rc_supersessions (co_related c')"
proof -
  let ?o = "[JudgedPair (demo_verdict RelSupersedes) True, JudgedPair (demo_verdict RelSupersedes) False]"
  let ?p = "demo_page [((ClaimId ''claim_a'', ClaimId ''claim_b''), demo_verdict RelSupersedes)]"
  obtain c where c: "finish_page id demo_claims demo_pending demo_outcomes policy_default (demo_page []) = CompleteOutcome c"
    using demo_complete by blast
  obtain c' where c': "finish_page id demo_claims demo_pending ?o policy_default ?p = CompleteOutcome c'"
    by (simp add: finish_page_def Let_def resume_cursor_def failed_cursors_def map_filter_simps demo_page_def)
  have a: "extend_authority (pc_settled (demo_page []))
      (rd_judgments (collect_pair_reduction demo_claims policy_default demo_pending demo_outcomes)) =
    extend_authority (pc_settled ?p) (rd_judgments (collect_pair_reduction demo_claims policy_default demo_pending ?o))"
    by (simp add: extend_authority_def collect_pair_reduction_def collect_pair_def reduction_empty_def
        demo_verdict_def note_winner_def compare_successors_def Let_def demo_page_def judgment_key_def
        demo_pair_def demo_claims_def demo_pipeline_claim_def less_ClaimId_def less_list_code
        compare_claims_def policy_default_def newer_index_def sequence_rank_def less_prod_def)
  have "pc_claim_clusters (demo_page []) = pc_claim_clusters ?p" by (simp add: demo_page_def)
  from complete_result_by_authority [OF c c' this a] c c' show ?thesis by blast
qed

theorem partial_page_skips_nothing_witness:
  "\<exists>po. finish_page id demo_claims demo_pending
       [JudgedPair (demo_verdict RelSupersedes) False, FailedPair budget_exhausted] policy_default (demo_page [])
     = PartialOutcome po \<and> po_next_candidate_cursor po \<le> 2"
proof -
  let ?o = "[JudgedPair (demo_verdict RelSupersedes) False, FailedPair budget_exhausted]"
  have f: "failed_cursors demo_pending ?o = [2]"
    by (simp add: failed_cursors_def map_filter_simps demo_pair_def)
  show ?thesis
    using partial_page_skips_nothing [where B = id and claims = demo_claims and pending = demo_pending
      and outcomes = ?o and temporal = policy_default and page = "demo_page []"]
    by (cases "finish_page id demo_claims demo_pending ?o policy_default (demo_page [])") (auto simp: f [simplified] demo_page_def)
qed

end
