(* ===== verification/Pipeline.thy ===== *)
theory Pipeline
  imports Decisions
begin

text \<open>
  The entry points of the semantic pipeline (\<open>src/semantics/pipeline/runtime.rs\<close>): sequential
  settlement, parallel settlement with its worker pool, and the proof that the pool is
  unobservable.  The embedder is \<open>embedder\<close>, \<open>similar\<close> is the cosine test against the configured
  floor, \<open>expired i\<close> says whether the wall budget is over when pending pair \<open>i\<close> is reached, and
  \<open>schedule\<close> is the order in which the workers answer.
\<close>

section \<open>Sequential settlement\<close>

definition page_of :: "settled \<Rightarrow> PreparedPairs \<Rightarrow> usize \<Rightarrow> PageCompletion" where
  "page_of settled p budget =
     \<lparr>pc_settled = settled, pc_claim_clusters = pr_claim_clusters p,
      pc_examined_pairs = pr_examined_pairs p, pc_candidate_pair_budget = budget,
      pc_next_cursor = pr_next_cursor p\<rparr>"

definition sequential_outcomes ::
  "claims \<Rightarrow> relater \<Rightarrow> settled \<Rightarrow> (nat \<Rightarrow> bool) \<Rightarrow> PendingPair list \<Rightarrow> PairOutcome list" where
  "sequential_outcomes claims relate settled expired pending =
     map (\<lambda>(i, p). acquire_sequential claims relate settled (expired i) p) (enumerate 0 pending)"

text \<open>\<open>embed_batch\<close> is called only with two claims or more; its failure is fatal.\<close>

definition prepared ::
  "(string list \<Rightarrow> ('v list, 'e) result) \<Rightarrow> ('v \<Rightarrow> 'v \<Rightarrow> bool) \<Rightarrow> claims \<Rightarrow> settled \<Rightarrow>
   RelateTemporalPolicy \<Rightarrow> usize \<Rightarrow> u64 \<Rightarrow> (PreparedPairs option, 'e) result" where
  "prepared embedder similar claims settled temporal budget cursor =
     (if length claims < 2 then Inr None
      else res_bind (embedder (map (\<lambda>c. embedding_text (snd c)) claims)) (\<lambda>vs.
        Inr (prepare_pairs claims (\<lambda>i j. similar (vs ! i) (vs ! j)) settled temporal budget cursor)))"

definition relate_claims_with_settled_temporal ::
  "(string \<Rightarrow> string) \<Rightarrow> (string list \<Rightarrow> ('v list, 'e) result) \<Rightarrow> ('v \<Rightarrow> 'v \<Rightarrow> bool) \<Rightarrow> claims \<Rightarrow> relater \<Rightarrow>
   settled \<Rightarrow> RelateTemporalPolicy \<Rightarrow> (nat \<Rightarrow> bool) \<Rightarrow> (RelateOutcome, 'e) result" where
  "relate_claims_with_settled_temporal B embedder similar claims relate settled temporal expired =
     res_bind (prepared embedder similar claims settled temporal DEFAULT_CANDIDATE_PAIR_BUDGET 0) (\<lambda>pp.
       case pp of
         None \<Rightarrow> Inr outcome_default
       | Some p \<Rightarrow>
           Inr (finish_page B claims (pr_pending p)
                  (sequential_outcomes claims relate settled expired (pr_pending p)) temporal
                  (page_of settled p DEFAULT_CANDIDATE_PAIR_BUDGET)))"

definition relate_claims_with_settled where
  "relate_claims_with_settled B embedder similar claims relate settled expired =
     relate_claims_with_settled_temporal B embedder similar claims relate settled policy_default expired"

definition relate_claims where
  "relate_claims B embedder similar claims relate =
     relate_claims_with_settled B embedder similar claims relate [] (\<lambda>_. False)"

section \<open>Parallel settlement\<close>

text \<open>What the calling thread decides itself; the rest goes to the workers.\<close>

definition immediate :: "settled \<Rightarrow> PendingPair \<Rightarrow> PairOutcome option" where
  "immediate settled p =
     (case bt_get settled (pp_older p, pp_newer p) of
        Some v \<Rightarrow> Some (JudgedPair v True)
      | None \<Rightarrow> map_option (\<lambda>c. FailedPair (temporal_blocked c)) (pp_temporal_failure p))"

definition pair_texts :: "claims \<Rightarrow> PendingPair \<Rightarrow> string \<times> string" where
  "pair_texts claims p = (pv_text (snd (claims ! pp_old_idx p)), pv_text (snd (claims ! pp_new_idx p)))"

definition text_groups :: "claims \<Rightarrow> settled \<Rightarrow> PendingPair list \<Rightarrow> (string \<times> string, nat list) btree" where
  "text_groups claims settled pending =
     foldl (\<lambda>m (i, p). case immediate settled p of
                         Some _ \<Rightarrow> m | None \<Rightarrow> bt_push (pair_texts claims p) i m) [] (enumerate 0 pending)"

definition worker_job :: "claims \<Rightarrow> relater \<Rightarrow> (nat \<Rightarrow> bool) \<Rightarrow> PendingPair list \<Rightarrow> nat \<Rightarrow> PairOutcome" where
  "worker_job claims relate expired pending i =
     (if expired i then FailedPair budget_exhausted else live_call claims relate (pending ! i))"

definition run_parallel_jobs ::
  "(nat list \<Rightarrow> nat list) \<Rightarrow> claims \<Rightarrow> relater \<Rightarrow> (nat \<Rightarrow> bool) \<Rightarrow> PendingPair list \<Rightarrow> nat list \<Rightarrow>
   (nat, PairOutcome) btree" where
  "run_parallel_jobs schedule claims relate expired pending reps =
     foldl (\<lambda>m i. bt_insert i (worker_job claims relate expired pending i) m) [] (schedule reps)"

definition fan_out :: "(nat, PairOutcome) btree \<Rightarrow> PairOutcome option list \<Rightarrow> nat list \<Rightarrow> PairOutcome option list" where
  "fan_out results os members =
     (let o' = (case bt_get results (hd members) of Some x \<Rightarrow> x | None \<Rightarrow> FailedPair budget_exhausted)
      in foldl (\<lambda>os i. os[i := Some o']) os members)"

definition acquire_parallel ::
  "(nat list \<Rightarrow> nat list) \<Rightarrow> claims \<Rightarrow> relater \<Rightarrow> settled \<Rightarrow> (nat \<Rightarrow> bool) \<Rightarrow> PendingPair list \<Rightarrow>
   PairOutcome option list" where
  "acquire_parallel schedule claims relate settled expired pending =
     (let groups = text_groups claims settled pending;
          reps = sort (map hd (bt_values groups));
          results = run_parallel_jobs schedule claims relate expired pending reps
      in foldl (fan_out results) (map (immediate settled) pending) (bt_values groups))"

definition parallel_outcomes ::
  "(nat list \<Rightarrow> nat list) \<Rightarrow> claims \<Rightarrow> relater \<Rightarrow> settled \<Rightarrow> (nat \<Rightarrow> bool) \<Rightarrow> PendingPair list \<Rightarrow> PairOutcome list" where
  "parallel_outcomes schedule claims relate settled expired pending =
     map (\<lambda>slot. case slot of Some x \<Rightarrow> x | None \<Rightarrow> FailedPair budget_exhausted)
       (acquire_parallel schedule claims relate settled expired pending)"

record ParallelRelateOptions =
  pl_temporal :: RelateTemporalPolicy
  pl_concurrency :: usize
  pl_candidate_pair_budget :: usize
  pl_candidate_cursor :: u64

definition relate_claims_settled_parallel_temporal ::
  "(nat list \<Rightarrow> nat list) \<Rightarrow> (string \<Rightarrow> string) \<Rightarrow> (string list \<Rightarrow> ('v list, 'e) result) \<Rightarrow> ('v \<Rightarrow> 'v \<Rightarrow> bool) \<Rightarrow>
   claims \<Rightarrow> relater \<Rightarrow> settled \<Rightarrow> (nat \<Rightarrow> bool) \<Rightarrow> ParallelRelateOptions \<Rightarrow> (RelateOutcome, 'e) result" where
  "relate_claims_settled_parallel_temporal schedule B embedder similar claims relate settled expired opts =
     res_bind (prepared embedder similar claims settled (pl_temporal opts)
                 (pl_candidate_pair_budget opts) (pl_candidate_cursor opts)) (\<lambda>pp.
       case pp of
         None \<Rightarrow> Inr outcome_default
       | Some p \<Rightarrow>
           Inr (finish_page B claims (pr_pending p)
                  (if pl_concurrency opts \<le> 1
                   then sequential_outcomes claims relate settled expired (pr_pending p)
                   else parallel_outcomes schedule claims relate settled expired (pr_pending p))
                  (pl_temporal opts) (page_of settled p (pl_candidate_pair_budget opts))))"

definition relate_claims_settled_parallel where
  "relate_claims_settled_parallel schedule B embedder similar claims relate settled expired concurrency =
     relate_claims_settled_parallel_temporal schedule B embedder similar claims relate settled expired
       \<lparr>pl_temporal = policy_default, pl_concurrency = concurrency,
        pl_candidate_pair_budget = DEFAULT_CANDIDATE_PAIR_BUDGET, pl_candidate_cursor = 0\<rparr>"

section \<open>The worker pool is unobservable\<close>

lemma foldl_push_get:
  "bt_get (foldl (\<lambda>m x. case f x of None \<Rightarrow> m | Some (k, v) \<Rightarrow> bt_push k v m) m xs) k =
     (case (bt_get m k, List.map_filter (\<lambda>x. case f x of Some (k', v) \<Rightarrow> if k' = k then Some v else None | None \<Rightarrow> None) xs) of
        (None, []) \<Rightarrow> None
      | (None, vs) \<Rightarrow> Some vs
      | (Some us, vs) \<Rightarrow> Some (us @ vs))"
proof (induction xs arbitrary: m)
  case Nil
  then show ?case by (simp add: map_filter_simps split: option.split)
next
  case (Cons x xs)
  then show ?case
    by (cases "f x") (auto simp: map_filter_simps bt_push_def split: option.splits list.splits prod.splits)
qed

lemma foldl_push_ok:
  "bt_ok m \<Longrightarrow> bt_ok (foldl (\<lambda>m x. case f x of None \<Rightarrow> m | Some (k, v) \<Rightarrow> bt_push k v m) m xs)"
  by (induction xs arbitrary: m) (auto split: option.split prod.split)

definition group_key :: "claims \<Rightarrow> settled \<Rightarrow> nat \<times> PendingPair \<Rightarrow> ((string \<times> string) \<times> nat) option" where
  "group_key claims settled ip =
     (case immediate settled (snd ip) of Some _ \<Rightarrow> None | None \<Rightarrow> Some (pair_texts claims (snd ip), fst ip))"

lemma text_groups_push:
  "text_groups claims settled pending =
     foldl (\<lambda>m x. case group_key claims settled x of None \<Rightarrow> m | Some (k, v) \<Rightarrow> bt_push k v m) [] (enumerate 0 pending)"
  unfolding text_groups_def
  by (rule arg_cong [where f = "\<lambda>f. foldl f [] (enumerate 0 pending)"])
    (auto simp: fun_eq_iff group_key_def split: option.split)

lemma map_filter_set: "y \<in> set (List.map_filter f xs) \<longleftrightarrow> (\<exists>x \<in> set xs. f x = Some y)"
  by (induction xs) (auto simp: map_filter_simps split: option.splits)

lemma group_key_iff:
  "(case group_key claims settled x of Some (k', v) \<Rightarrow> if k' = k then Some v else None | None \<Rightarrow> None) = Some i \<longleftrightarrow>
     fst x = i \<and> immediate settled (snd x) = None \<and> pair_texts claims (snd x) = k"
  by (auto simp: group_key_def split: option.split)

text \<open>The groups partition the pairs that need the judge, by their two texts.\<close>

lemma group_members:
  assumes "members \<in> set (bt_values (text_groups claims settled pending))"
  shows "members \<noteq> []" and "\<exists>k. \<forall>i. i \<in> set members \<longleftrightarrow>
    i < length pending \<and> immediate settled (pending ! i) = None \<and> pair_texts claims (pending ! i) = k"
proof -
  let ?G = "text_groups claims settled pending"
  have ok: "bt_ok ?G" unfolding text_groups_push by (rule foldl_push_ok) simp
  obtain k where "(k, members) \<in> set ?G" using assms by (auto simp: bt_values_def)
  then have g: "bt_get ?G k = Some members" using ok by (simp add: bt_ok_distinct)
  let ?sel = "\<lambda>x. case group_key claims settled x of
      Some (k', v) \<Rightarrow> if k' = k then Some v else None | None \<Rightarrow> None"
  have m: "members = List.map_filter ?sel (enumerate 0 pending)" "members \<noteq> []"
    using g foldl_push_get [of "group_key claims settled" "[]" "enumerate 0 pending" k]
    by (auto simp: text_groups_push split: list.splits)
  then show "members \<noteq> []" by simp
  have "i \<in> set members \<longleftrightarrow> i < length pending \<and> immediate settled (pending ! i) = None \<and>
      pair_texts claims (pending ! i) = k" for i
    unfolding m(1) map_filter_set Bex_def group_key_iff by (force simp: in_set_enumerate_eq)
  then show "\<exists>k. \<forall>i. i \<in> set members \<longleftrightarrow>
    i < length pending \<and> immediate settled (pending ! i) = None \<and> pair_texts claims (pending ! i) = k"
    by blast
qed

lemma every_live_pair_grouped:
  assumes "i < length pending" "immediate settled (pending ! i) = None"
  shows "\<exists>members \<in> set (bt_values (text_groups claims settled pending)). i \<in> set members"
proof -
  let ?G = "text_groups claims settled pending"
  let ?k = "pair_texts claims (pending ! i)"
  let ?sel = "\<lambda>x. case group_key claims settled x of
      Some (k', v) \<Rightarrow> if k' = ?k then Some v else None | None \<Rightarrow> None"
  have "(i, pending ! i) \<in> set (enumerate 0 pending)" using assms(1) by (simp add: in_set_enumerate_eq)
  moreover have "?sel (i, pending ! i) = Some i" using assms(2) by (simp add: group_key_def)
  ultimately have i: "i \<in> set (List.map_filter ?sel (enumerate 0 pending))" unfolding map_filter_set by blast
  then have "bt_get ?G ?k = Some (List.map_filter ?sel (enumerate 0 pending))"
    using foldl_push_get [of "group_key claims settled" "[]" "enumerate 0 pending" ?k]
    by (auto simp: text_groups_push split: list.splits)
  then have "List.map_filter ?sel (enumerate 0 pending) \<in> set (bt_values ?G)"
    by (force simp: bt_values_def dest: map_of_SomeD)
  then show ?thesis using i by blast
qed

lemma foldl_update_nth:
  assumes "i < length os"
  shows "foldl (\<lambda>os i. os[i := Some v]) os is ! i = (if i \<in> set is then Some v else os ! i)"
    and "length (foldl (\<lambda>os i. os[i := Some v]) os is) = length os"
  using assms by (induction "is" arbitrary: os) (auto simp: nth_list_update)

text \<open>
  Fanning out groups whose members all have the value \<open>val\<close> of their index fills exactly the
  slots of the groups.
\<close>

lemma fan_out_all:
  assumes "\<And>members i. members \<in> set gs \<Longrightarrow> i \<in> set members \<Longrightarrow>
      (case bt_get results (hd members) of Some x \<Rightarrow> x | None \<Rightarrow> FailedPair budget_exhausted) = val i"
    and "i < length os"
  shows "foldl (fan_out results) os gs ! i = (if \<exists>members \<in> set gs. i \<in> set members then Some (val i) else os ! i)
    \<and> length (foldl (fan_out results) os gs) = length os"
  using assms
proof (induction gs arbitrary: os)
  case (Cons g gs)
  have len: "length (fan_out results os g) = length os"
    using foldl_update_nth(2) [OF Cons.prems(2)] by (simp add: fan_out_def Let_def)
  have hd: "fan_out results os g ! i = (if i \<in> set g then Some (val i) else os ! i)"
    using foldl_update_nth(1) [OF Cons.prems(2)] Cons.prems(1) [of g i] by (auto simp: fan_out_def Let_def)
  have ih: "foldl (fan_out results) (fan_out results os g) gs ! i =
      (if \<exists>members \<in> set gs. i \<in> set members then Some (val i) else fan_out results os g ! i)
    \<and> length (foldl (fan_out results) (fan_out results os g) gs) = length (fan_out results os g)"
    using Cons.IH [of "fan_out results os g"] Cons.prems len by simp
  show ?case using ih hd len by auto
qed simp

lemma jobs_get:
  assumes "mset (schedule reps) = mset reps" "i \<in> set reps"
  shows "bt_get (run_parallel_jobs schedule claims relate expired pending reps) i =
    Some (worker_job claims relate expired pending i)"
proof -
  have "bt_get (foldl (\<lambda>m i. bt_insert i (f i) m) m xs) i = (if i \<in> set xs then Some (f i) else bt_get m i)"
    for f :: "nat \<Rightarrow> PairOutcome" and m xs by (induction xs arbitrary: m) auto
  moreover have "set (schedule reps) = set reps" using assms(1) by (rule mset_eq_setD)
  ultimately show ?thesis using assms(2) by (simp add: run_parallel_jobs_def)
qed

lemma live_call_texts:
  "pair_texts claims p = pair_texts claims q \<Longrightarrow> live_call claims relate p = live_call claims relate q"
  by (simp add: pair_texts_def live_call_def)

lemma parallel_is_sequential:
  assumes sched: "\<And>xs. mset (schedule xs) = mset xs" and live: "\<And>i. \<not> expired i"
  shows "parallel_outcomes schedule claims relate settled expired pending =
    sequential_outcomes claims relate settled expired pending"
proof -
  let ?G = "text_groups claims settled pending"
  let ?reps = "sort (map hd (bt_values ?G))"
  let ?R = "run_parallel_jobs schedule claims relate expired pending ?reps"
  let ?os = "map (immediate settled) pending"
  let ?val = "\<lambda>i. live_call claims relate (pending ! i)"
  have grp: "(case bt_get ?R (hd ms) of Some x \<Rightarrow> x | None \<Rightarrow> FailedPair budget_exhausted) = ?val i"
    if ms: "ms \<in> set (bt_values ?G)" "i \<in> set ms" for ms i
  proof -
    have "hd ms \<in> set ?reps" using ms(1) by simp
    then have "bt_get ?R (hd ms) = Some (?val (hd ms))"
      using jobs_get [of schedule ?reps "hd ms" claims relate expired pending, OF sched] live
      by (simp add: worker_job_def)
    moreover obtain k where k: "\<And>i. i \<in> set ms \<Longrightarrow> pair_texts claims (pending ! i) = k"
      using group_members(2) [OF ms(1)] by blast
    have "hd ms \<in> set ms" using group_members(1) [OF ms(1)] by simp
    then have "?val (hd ms) = ?val i" using k ms(2) live_call_texts by metis
    ultimately show ?thesis by simp
  qed
  have slot: "foldl (fan_out ?R) ?os (bt_values ?G) ! i =
      Some (acquire_sequential claims relate settled (expired i) (pending ! i))" if i: "i < length pending" for i
  proof (cases "immediate settled (pending ! i)")
    case None
    then have "foldl (fan_out ?R) ?os (bt_values ?G) ! i = Some (?val i)"
      using fan_out_all [of "bt_values ?G" ?R ?val i ?os] grp i every_live_pair_grouped [OF i None] by simp
    then show ?thesis
      using None live by (auto simp: acquire_sequential_def immediate_def split: option.splits)
  next
    case (Some x)
    then have "\<not> (\<exists>ms \<in> set (bt_values ?G). i \<in> set ms)" using group_members(2) by fastforce
    then have "foldl (fan_out ?R) ?os (bt_values ?G) ! i = Some x"
      using fan_out_all [of "bt_values ?G" ?R ?val i ?os] grp i Some by simp
    then show ?thesis
      using Some by (auto simp: acquire_sequential_def immediate_def split: option.splits)
  qed
  have len: "length (foldl (fan_out ?R) ?os (bt_values ?G)) = length pending"
    by (cases "pending = []")
      (use fan_out_all [of "bt_values ?G" ?R ?val 0 ?os] grp in \<open>auto simp: text_groups_def bt_values_def\<close>)
  show ?thesis
    by (rule nth_equalityI)
      (simp_all add: parallel_outcomes_def acquire_parallel_def Let_def sequential_outcomes_def len slot nth_enumerate_eq)
qed

text \<open>
  C16: The worker pool is unobservable.  As long as the wall budget does not run out, settlement
  with any number of workers, any order of their answers and calls shared between pairs with
  the same texts returns what the sequential path returns for the same page.
\<close>
theorem parallel_settlement_deterministic:
  assumes "\<And>xs. mset (schedule xs) = mset xs" and "\<And>i. \<not> expired i"
  shows "relate_claims_settled_parallel_temporal schedule B embedder similar claims relate settled expired opts =
    relate_claims_settled_parallel_temporal schedule B embedder similar claims relate settled expired
      (opts\<lparr>pl_concurrency := 1\<rparr>)"
  using parallel_is_sequential [of schedule expired, OF assms]
  by (simp add: relate_claims_settled_parallel_temporal_def cong: option.case_cong if_cong)

theorem parallel_settlement_deterministic_witness:
  "relate_claims_settled_parallel_temporal rev id (\<lambda>ts. Inr ts) (\<lambda>x y. True) demo_claims
      (\<lambda>a b. Inr (demo_verdict RelConflict)) [] (\<lambda>_. False)
      \<lparr>pl_temporal = policy_default, pl_concurrency = 4, pl_candidate_pair_budget = 10, pl_candidate_cursor = 0\<rparr>
   = (relate_claims_settled_parallel_temporal rev id (\<lambda>ts. Inr ts) (\<lambda>x y. True) demo_claims
      (\<lambda>a b. Inr (demo_verdict RelConflict)) [] (\<lambda>_. False)
      (\<lparr>pl_temporal = policy_default, pl_concurrency = 4, pl_candidate_pair_budget = 10, pl_candidate_cursor = 0\<rparr>
       \<lparr>pl_concurrency := 1\<rparr>) :: (RelateOutcome, string) result)"
  by (rule parallel_settlement_deterministic) simp_all

end
