(* ===== verification/Scores.thy ===== *)
theory Scores
  imports Prelude Complex_Main
begin

unbundle bit_operations_syntax

text \<open>
  \<open>src/semantics/score.rs\<close>: the conversion of a model score, an IEEE-754 single, to the integer
  parts per million kept in the journal.  A score is its 32 bits (\<open>f32::to_bits\<close>); the comparisons
  with 0 and 1 and the test for NaN are those of the standard on the bits.
\<close>

section \<open>Single-precision numbers\<close>

definition f32_exponent :: "32 word \<Rightarrow> nat" where
  "f32_exponent b = unat (drop_bit 23 b AND 0xff)"

definition f32_fraction :: "32 word \<Rightarrow> nat" where
  "f32_fraction b = unat (b AND 0x7fffff)"

definition f32_negative :: "32 word \<Rightarrow> bool" where
  "f32_negative b = bit b 31"

definition f32_is_nan :: "32 word \<Rightarrow> bool" where
  "f32_is_nan b \<longleftrightarrow> f32_exponent b = 255 \<and> f32_fraction b \<noteq> 0"

definition f32_le_zero :: "32 word \<Rightarrow> bool" where
  "f32_le_zero b \<longleftrightarrow> f32_negative b \<or> f32_exponent b = 0 \<and> f32_fraction b = 0"

definition f32_ge_one :: "32 word \<Rightarrow> bool" where
  "f32_ge_one b \<longleftrightarrow> \<not> f32_negative b \<and> 127 \<le> f32_exponent b"

section \<open>The conversion\<close>

definition PPM_SCALE :: u32 where
  "PPM_SCALE = 1000000"

definition checked_shl64 :: "nat \<Rightarrow> u64 option" where
  "checked_shl64 shift = (if shift < 64 then Some (2 ^ shift) else None)"

definition unit_interval_to_ppm :: "32 word \<Rightarrow> u32" where
  "unit_interval_to_ppm score =
     (if f32_is_nan score \<or> f32_le_zero score then 0
      else if f32_ge_one score then PPM_SCALE
      else if f32_exponent score = 0 then 0
      else let exponent = int (f32_exponent score) - 127;
               shift = 23 - exponent
           in if shift < 0 then 0
              else case checked_shl64 (nat shift) of
                     None \<Rightarrow> 0
                   | Some denominator \<Rightarrow>
                       (let mantissa = unat ((score AND 0x7fffff) OR push_bit 23 1);
                            numerator = sat_mul64 mantissa PPM_SCALE;
                            rounded = sat_add64 numerator (denominator div 2) div denominator
                        in min (if rounded \<le> u32_max then rounded else PPM_SCALE) PPM_SCALE))"

section \<open>It rounds to the nearest integer\<close>

text \<open>The value of a non-negative finite single, subnormal numbers included.\<close>

definition f32_value :: "32 word \<Rightarrow> real" where
  "f32_value b =
     (if f32_exponent b = 0 then real (f32_fraction b) / 2 ^ 149
      else real (f32_fraction b + 2 ^ 23) * 2 powr (real (f32_exponent b) - 150))"

lemma fraction_bound: "f32_fraction b < 2 ^ 23"
proof -
  have "b AND 0x7fffff \<le> 0x7fffff" by (rule word_and_le1)
  then show ?thesis by (simp add: f32_fraction_def word_le_nat_alt)
qed

lemma mask_push_disjoint: "(x AND mask n) AND push_bit n y = (0 :: 32 word)"
  by (rule bit_word_eqI) (auto simp: bit_simps)

lemma mantissa_sum: "unat ((b AND 0x7fffff) OR push_bit 23 1) = f32_fraction b + 2 ^ 23"
proof -
  have m: "(0x7fffff :: 32 word) = mask 23" by (simp add: mask_eq_exp_minus_1)
  have "(b AND 0x7fffff) AND push_bit 23 1 = 0"
    unfolding m by (rule mask_push_disjoint)
  then have "(b AND 0x7fffff) OR push_bit 23 1 = (b AND 0x7fffff) + push_bit 23 1"
    by (metis word_plus_and_or add.left_neutral)
  then show ?thesis
    using fraction_bound [of b] by (simp add: f32_fraction_def unat_word_ariths push_bit_eq_mult)
qed

lemma nearest_div:
  assumes "0 < (d::nat)" "even d"
  shows "int ((n + d div 2) div d) = \<lfloor>real n / real d + 1 / 2\<rfloor>"
proof -
  have "real n / real d + 1 / 2 = real (n + d div 2) / real d"
    using assms by (auto simp: field_simps elim!: evenE)
  then show ?thesis by (simp only: floor_divide_of_nat_eq)
qed

lemma normal_shift:
  assumes "1 \<le> e" "e < 127"
  shows "2 powr (real e - 150) = 1 / (2::real) ^ (150 - e)"
proof -
  define k where "k = 150 - e"
  have "real e - 150 = - real k" using assms by (simp add: k_def of_nat_diff)
  then show ?thesis by (simp add: powr_minus powr_realpow divide_inverse flip: k_def)
qed

lemma rounded_exact:
  assumes "m < 2 ^ 24" "24 \<le> s" "s < 64"
  shows "sat_add64 (sat_mul64 m PPM_SCALE) (2 ^ s div 2) div 2 ^ s = (m * 1000000 + 2 ^ s div 2) div 2 ^ s"
    and "(m * 1000000 + 2 ^ s div 2) div 2 ^ s \<le> 1000000"
proof -
  have m: "m * 1000000 < 2 ^ 24 * 1000000" using assms(1) by simp
  have d: "(2::nat) ^ s \<le> 2 ^ 63" using assms(3) by (intro power_increasing) auto
  then show "sat_add64 (sat_mul64 m PPM_SCALE) (2 ^ s div 2) div 2 ^ s = (m * 1000000 + 2 ^ s div 2) div 2 ^ s"
  proof -
    have "2 ^ s div 2 \<le> (2::nat) ^ 63" using d by (meson div_le_dividend order_trans)
    then have "m * 1000000 \<le> u64_max" "m * 1000000 + 2 ^ s div 2 \<le> u64_max"
      using m by (simp_all add: u64_max_def)
    then show ?thesis by (simp add: sat_add64_def sat_mul64_def PPM_SCALE_def)
  qed
  have "(2::nat) ^ 24 \<le> 2 ^ s" using assms(2) by (intro power_increasing) auto
  then have m': "m < 2 ^ s" using assms(1) by linarith
  define P :: nat where "P = 2 ^ s"
  have "m * 1000000 + P div 2 < 1000001 * P" using m' by (simp add: flip: P_def)
  then have "(m * 1000000 + P div 2) div P < 1000001" by (rule less_mult_imp_div_less)
  then show "(m * 1000000 + 2 ^ s div 2) div 2 ^ s \<le> 1000000" by (simp add: P_def)
qed

lemma nearest_small: "0 \<le> x \<Longrightarrow> x < 1 / 2 \<Longrightarrow> \<lfloor>x + 1 / 2\<rfloor> = (0::int)" for x :: real
  by (simp add: floor_eq_iff)

text \<open>
  Scores are rounded to the nearest part per million, halves upwards, and never leave the
  unit interval: for every single strictly between 0 and 1, subnormal or not, the integer is the
  floor of a million times its value plus one half; zero, negative numbers and NaN give 0; one and
  above, infinity included, give a million.
\<close>

theorem ppm_rounds_to_nearest:
  "(if f32_is_nan b \<or> f32_le_zero b then unit_interval_to_ppm b = 0
    else if f32_ge_one b then unit_interval_to_ppm b = 1000000
    else int (unit_interval_to_ppm b) = \<lfloor>f32_value b * 1000000 + 1 / 2\<rfloor>)
   \<and> unit_interval_to_ppm b \<le> 1000000"
proof (cases "f32_is_nan b \<or> f32_le_zero b \<or> f32_ge_one b")
  case True
  then show ?thesis by (auto simp: unit_interval_to_ppm_def PPM_SCALE_def)
next
  case False
  then have e: "f32_exponent b < 127" by (auto simp: f32_ge_one_def f32_le_zero_def)
  let ?e = "f32_exponent b" and ?m = "f32_fraction b + 2 ^ 23"
  have m: "?m < 2 ^ 24" using fraction_bound [of b] by simp
  show ?thesis
  proof (cases "?e = 0")
    case True
    have "real (f32_fraction b) < 2 ^ 23" using fraction_bound [of b] by simp
    then have "f32_value b * 1000000 < 1 / 2" using True by (simp add: f32_value_def field_simps)
    then show ?thesis
      using False True nearest_small [of "f32_value b * 1000000"]
      by (simp add: unit_interval_to_ppm_def f32_value_def)
  next
    case pos: False
    define s where "s = 150 - ?e"
    have s: "24 \<le> s" "nat (23 - (int ?e - 127)) = s" "\<not> 23 - (int ?e - 127) < 0"
      using e pos by (auto simp: s_def)
    have v: "f32_value b = real ?m / 2 ^ s"
      using pos e by (simp add: f32_value_def normal_shift s_def)
    show ?thesis
    proof (cases "s < 64")
      case True
      have "unit_interval_to_ppm b = (?m * 1000000 + 2 ^ s div 2) div 2 ^ s"
        using False pos True s rounded_exact [OF m s(1) True]
        by (simp add: unit_interval_to_ppm_def checked_shl64_def mantissa_sum [simplified] PPM_SCALE_def u32_max_def Let_def)
      moreover have "int ((?m * 1000000 + 2 ^ s div 2) div 2 ^ s) = \<lfloor>real (?m * 1000000) / real (2 ^ s) + 1 / 2\<rfloor>"
        by (rule nearest_div) (use s in auto)
      ultimately show ?thesis using False rounded_exact(2) [OF m s(1) True] by (simp add: v)
    next
      case big: False
      have "real ?m * 1000000 < 2 ^ 44" using m by simp
      also have "\<dots> < 2 ^ 64 / 2" by simp
      also have "\<dots> \<le> 2 ^ s / (2::real)"
        using power_increasing [of 64 s "2::real"] big by simp
      finally have "f32_value b * 1000000 < 1 / 2" by (simp add: v field_simps)
      then show ?thesis
        using False pos big s nearest_small [of "f32_value b * 1000000"]
        by (simp add: unit_interval_to_ppm_def checked_shl64_def v)
    qed
  qed
qed

end
