(* ===== verification/Radix.thy ===== *)
theory Radix
  imports Text
begin

text \<open>
  \<open>from_str_radix(s, 16)\<close> of the unsigned integers, and the round trip with \<open>{:0wx}\<close>.  An
  optional plus sign, at least one digit of either case, no value above the type's maximum.
\<close>

definition hex_digit :: "char \<Rightarrow> nat option" where
  "hex_digit c =
     (if is_digit c then Some (code c - 48)
      else if 97 \<le> code c \<and> code c \<le> 102 then Some (code c - 87)
      else if 65 \<le> code c \<and> code c \<le> 70 then Some (code c - 55) else None)"

fun hex_digits :: "nat \<Rightarrow> string \<Rightarrow> nat option" where
  "hex_digits acc [] = Some acc"
| "hex_digits acc (c # cs) =
     (case hex_digit c of None \<Rightarrow> None | Some d \<Rightarrow> hex_digits (16 * acc + d) cs)"

definition parse_hex :: "nat \<Rightarrow> string \<Rightarrow> nat option" where
  "parse_hex bound s =
     (let ds = (case s of c # cs \<Rightarrow> if c = CHR ''+'' then cs else s | [] \<Rightarrow> [])
      in if ds = [] then None
         else (case hex_digits 0 ds of
                 Some n \<Rightarrow> if n \<le> bound then Some n else None | None \<Rightarrow> None))"

lemma hex_digit_hex_char [simp]: "d < 16 \<Longrightarrow> hex_digit (hex_char d) = Some d"
  by (auto simp: hex_digit_def hex_char_def is_digit_def code_char_of)

lemma hex_digits_append:
  "hex_digits acc (xs @ ys) = (case hex_digits acc xs of None \<Rightarrow> None | Some n \<Rightarrow> hex_digits n ys)"
  by (induction xs arbitrary: acc) (auto split: option.split)

lemma hex_digits_pad: "n < 16 ^ w \<Longrightarrow> hex_digits 0 (hex_pad w n) = Some n"
proof (induction w arbitrary: n)
  case (Suc w)
  then have "hex_digits 0 (hex_pad w (n div 16)) = Some (n div 16)"
    by (intro Suc.IH) (auto simp: less_mult_imp_div_less mult.commute)
  then show ?case by (simp add: hex_digits_append)
qed simp

lemma hex_char_not_plus: "d < 16 \<Longrightarrow> hex_char d \<noteq> CHR ''+''"
  by (auto simp: hex_char_def simp flip: code_inject simp: code_char_of) (simp_all add: code_def)

lemma hex_pad_head: "0 < w \<Longrightarrow> \<exists>c cs. hex_pad w n = c # cs \<and> c \<noteq> CHR ''+''"
proof (induction w arbitrary: n)
  case (Suc w)
  then show ?case
    by (cases "w = 0") (auto simp: hex_char_not_plus dest: Suc.IH [of "n div 16"] split: if_splits)
qed simp

lemma parse_hex_pad:
  assumes "n < 16 ^ w" "n \<le> bound" "0 < w"
  shows "parse_hex bound (hex_pad w n) = Some n"
proof -
  obtain c cs where "hex_pad w n = c # cs" "c \<noteq> CHR ''+''" using hex_pad_head [OF assms(3)] by blast
  then show ?thesis using hex_digits_pad [OF assms(1)] assms(2) by (simp add: parse_hex_def)
qed

end
