(* ===== verification/Appends.thy ===== *)
theory Appends
  imports Journal Radix
begin

text \<open>
  The write side (\<open>src/ops/backend/policy.rs\<close>, \<open>src/ops/backend.rs\<close>): every durable effect of an
  operation is one typed append, with the coordinate, idempotency key, causation and admission
  checks of its event kind.  The BatPak store is the record \<open>store_api\<close> of the calls the code
  makes; the codec, the hashes, the coordinate constructor and the derivation of idempotency keys
  are the record \<open>externals\<close>.
\<close>

section \<open>The store and the environment\<close>

datatype AppendPositionHint = BranchRoot "32 word" u32 | Position "32 word" u32

record AppendOptions =
  ao_key :: "nat option"
  ao_hint :: "AppendPositionHint option"
  ao_correlation :: "nat option"
  ao_causation :: "nat option"

record AppendReceipt =
  ar_event_id :: nat
  ar_global_sequence :: u64

record ReceiptNote =
  rn_event_id_hex :: string
  rn_kind_bits :: event_kind
  rn_global_sequence :: u64

record ('s, 'c) store_api =
  sa_entries :: "'s \<Rightarrow> string \<Rightarrow> IndexEntry list"
  sa_lane :: "'s \<Rightarrow> string \<Rightarrow> 32 word \<Rightarrow> IndexEntry list"
  sa_read :: "'s \<Rightarrow> nat \<Rightarrow> (stored, string) result"
  sa_append :: "'s \<Rightarrow> 'c \<Rightarrow> domain_event \<Rightarrow> AppendOptions \<Rightarrow> (AppendReceipt \<times> 's, string) result"
  sa_verify :: "'s \<Rightarrow> AppendReceipt \<Rightarrow> string option"

record 'c externals =
  ex_hash :: "string \<Rightarrow> string"
  ex_raw_hash :: "string \<Rightarrow> 8 word list"
  ex_key :: "string \<Rightarrow> string list \<Rightarrow> nat"
  ex_coord :: "('c, string) coord_new"
  ex_decode :: "event_kind \<Rightarrow> string \<Rightarrow> (domain_event, string) result"
  ex_encode :: "domain_event \<Rightarrow> (string, string) result"
  ex_contract :: "KnowledgeContractError \<Rightarrow> string"

record 's append_env =
  ap_store :: "'s JournalStore"
  ap_workspace_id :: string
  ap_receipts :: "ReceiptNote list"

definition u128_max :: nat where
  "u128_max = 16 ^ 32 - 1"

definition append_error :: "string \<Rightarrow> TexoError" where
  "append_error detail = ErrOpRuntime ''texo.effect.append'' detail False"

definition append_input_error :: "string \<Rightarrow> TexoError" where
  "append_input_error detail = ErrOpInput ''texo.effect.append'' detail"

definition keyed :: "nat \<Rightarrow> AppendOptions" where
  "keyed key = \<lparr>ao_key = Some key, ao_hint = None, ao_correlation = None, ao_causation = None\<rparr>"

definition unkeyed :: AppendOptions where
  "unkeyed = \<lparr>ao_key = None, ao_hint = None, ao_correlation = None, ao_causation = None\<rparr>"

definition entries_of :: "('s, 'c) store_api \<Rightarrow> 's append_env \<Rightarrow> string \<Rightarrow> IndexEntry list" where
  "entries_of api env entity = js_read (\<lambda>s. sa_entries api s entity) (ap_store env)"

definition read_of :: "('s, 'c) store_api \<Rightarrow> 's append_env \<Rightarrow> nat \<Rightarrow> (stored, TexoError) result" where
  "read_of api env i = map_sum ErrStore id (js_read (\<lambda>s. sa_read api s i) (ap_store env))"

definition coordinate :: "('c, string) result \<Rightarrow> ('c, TexoError) result" where
  "coordinate r = map_sum ErrCoordinate id r"

definition place ::
  "('s, 'c) store_api \<Rightarrow> 's append_env \<Rightarrow> 'c \<Rightarrow> domain_event \<Rightarrow> AppendOptions \<Rightarrow>
   (AppendReceipt \<times> 's JournalStore, TexoError) result" where
  "place api env c ev opts =
     map_sum ErrStore id (append_typed_with_options (sa_append api) (ap_store env) c ev opts)"

definition append_with_key where
  "append_with_key api env c ev key = place api env c ev (keyed key)"

section \<open>Append options of the evidence events\<close>

definition snapshot_root :: "('s, 'c) store_api \<Rightarrow> 's append_env \<Rightarrow> string \<Rightarrow> nat option" where
  "snapshot_root api env snapshot_id =
     map_option ie_id (find (\<lambda>e. ie_kind e = KSourceSnapshotRecorded)
       (entries_of api env (entity_for_source_snapshot snapshot_id)))"

definition code_index_append_options ::
  "('s, 'c) store_api \<Rightarrow> 's append_env \<Rightarrow> nat \<Rightarrow> string \<Rightarrow> AppendOptions" where
  "code_index_append_options api env key snapshot_id =
     (case snapshot_root api env snapshot_id of
        None \<Rightarrow> keyed key
      | Some root \<Rightarrow> (keyed key)\<lparr>ao_correlation := Some root, ao_causation := Some root\<rparr>)"

definition preferred_cause :: "ReceiptNote list \<Rightarrow> event_kind \<Rightarrow> nat option" where
  "preferred_cause receipts kind =
     Option.bind (find (\<lambda>r. rn_kind_bits r = kind) (rev receipts))
       (\<lambda>r. parse_hex u128_max (rn_event_id_hex r))"

definition evidence_chain_options ::
  "('s, 'c) store_api \<Rightarrow> 's append_env \<Rightarrow> nat \<Rightarrow> string \<Rightarrow> event_kind \<Rightarrow>
   (AppendOptions, TexoError) result" where
  "evidence_chain_options api env key occurrence_id preferred =
     (let entity = entity_for_evidence occurrence_id in
      res_bind (ok_or (find (\<lambda>e. ie_kind e = KEvidenceOccurrence) (entries_of api env entity))
                  (ErrMissingEntity entity)) (\<lambda>entry.
      res_bind (read_of api env (ie_id entry)) (\<lambda>raw.
      res_bind (decode_payload (\<lambda>ev. case ev of EvEvidenceOccurrence p \<Rightarrow> Some p | _ \<Rightarrow> None) entity raw) (\<lambda>occ.
      let root = snapshot_root api env (snapshot_str (occ_snapshot_id (eo_occurrence occ)));
          cause = (case preferred_cause (ap_receipts env) preferred of Some i \<Rightarrow> i | None \<Rightarrow> ie_id entry)
      in Inr ((keyed key)\<lparr>ao_correlation := root, ao_causation := Some cause\<rparr>)))))"

section \<open>Campaign checkpoints\<close>

definition is_lower_hex_digest :: "string \<Rightarrow> bool" where
  "is_lower_hex_digest v \<longleftrightarrow> length v = 64 \<and> list_all is_lower_hex v"

text \<open>\<open>max_by_key\<close> keeps the last of the entries with the greatest sequence.\<close>

fun latest_entry :: "IndexEntry list \<Rightarrow> IndexEntry option" where
  "latest_entry [] = None"
| "latest_entry (e # es) =
     (case latest_entry es of
        None \<Rightarrow> Some e
      | Some m \<Rightarrow> if ie_seq e \<le> ie_seq m then Some m else Some e)"

definition as_checkpoint :: "stored \<Rightarrow> (RelationCampaignCheckpointV1, TexoError) result" where
  "as_checkpoint raw =
     (case raw of
        Payload (EvCampaignCheckpoint p) \<Rightarrow> Inr p
      | Payload _ \<Rightarrow> Inl (append_error ''canonical effect payload decoding failed: payload of another type'')
      | Undecodable detail \<Rightarrow> Inl (append_error (''canonical effect payload decoding failed: '' @ detail)))"

definition canonical_payload_identity :: "'c externals \<Rightarrow> domain_event \<Rightarrow> (string, TexoError) result" where
  "canonical_payload_identity ex ev =
     (case ex_encode ex ev of
        Inl detail \<Rightarrow> Inl (append_error (''canonical effect payload encoding failed: '' @ detail))
      | Inr bytes \<Rightarrow> Inr (ex_hash ex bytes))"

definition predecessor_name :: "nat option \<Rightarrow> string" where
  "predecessor_name p = (case p of None \<Rightarrow> ''root'' | Some i \<Rightarrow> hex_pad 32 i)"

definition checkpoint_transition_options ::
  "'c externals \<Rightarrow> nat option \<Rightarrow> RelationCampaignCheckpointV1 \<Rightarrow> (AppendOptions, TexoError) result" where
  "checkpoint_transition_options ex predecessor payload =
     res_bind (canonical_payload_identity ex (EvCampaignCheckpoint payload)) (\<lambda>identity.
       let key = ex_key ex ''texo.relation.campaign.checkpoint.transition.v1''
                   [ws_str (ck_workspace_id payload), predecessor_name predecessor, identity]
       in Inr ((keyed key)\<lparr>ao_causation := predecessor\<rparr>))"

definition campaign_checkpoint_options ::
  "'c externals \<Rightarrow> ('s, 'c) store_api \<Rightarrow> 's append_env \<Rightarrow> RelationCampaignCheckpointV1 \<Rightarrow>
   (AppendOptions, TexoError) result" where
  "campaign_checkpoint_options ex api env payload =
     (let entity = entity_for_relation_campaign (ws_str (ck_workspace_id payload));
          latest = latest_entry (entries_of api env entity);
          receipt_predecessor =
            (if ap_receipts env = [] then None
             else parse_hex u128_max (rn_event_id_hex (last (ap_receipts env))));
          latest_id = map_option ie_id latest;
          retry = (case receipt_predecessor of None \<Rightarrow> True | Some i \<Rightarrow> Some i = latest_id);
          predecessor = (case receipt_predecessor of Some i \<Rightarrow> Some i | None \<Rightarrow> latest_id)
      in case latest of
           Some entry \<Rightarrow>
             if retry
             then res_bind (read_of api env (ie_id entry)) (\<lambda>raw.
                  res_bind (as_checkpoint raw) (\<lambda>stored_latest.
                    if stored_latest = payload then Inr (keyed (ie_id entry))
                    else checkpoint_transition_options ex predecessor payload))
             else checkpoint_transition_options ex predecessor payload
         | None \<Rightarrow> checkpoint_transition_options ex predecessor payload)"

definition checkpoint_digests :: "RelationCampaignCheckpointV1 \<Rightarrow> (string \<times> string) list" where
  "checkpoint_digests p =
     [(''evaluated basis'', ck_evaluated_basis_digest_hex p),
      (''result basis'', ck_result_basis_digest_hex p),
      (''candidate policy'', ck_candidate_policy_digest_hex p)]"

definition admit_checkpoint :: "string \<Rightarrow> RelationCampaignCheckpointV1 \<Rightarrow> (unit, TexoError) result" where
  "admit_checkpoint workspace p =
     (if ws_str (ck_workspace_id p) \<noteq> workspace
      then Inl (append_input_error ''relation campaign checkpoint workspace does not match operation workspace'')
      else case find (\<lambda>d. \<not> is_lower_hex_digest (snd d)) (checkpoint_digests p) of
             Some d \<Rightarrow> Inl (append_input_error
               (''relation campaign '' @ fst d @ '' digest must be 64 lowercase hex digits''))
           | None \<Rightarrow>
               if (case ck_phase p of Partial _ \<Rightarrow> True | Complete \<Rightarrow> False)
                  \<and> ck_evaluated_basis_digest_hex p \<noteq> ck_result_basis_digest_hex p
               then Inl (append_input_error ''partial relation campaign checkpoint cannot change the claim basis'')
               else Inr ())"

section \<open>The policies\<close>

type_synonym ('s, 'c) policy =
  "'c externals \<Rightarrow> ('s, 'c) store_api \<Rightarrow> 's append_env \<Rightarrow> (AppendReceipt \<times> 's JournalStore, TexoError) result"

definition append_claim_recorded :: "ClaimRecordedV2 \<Rightarrow> ('s, 'c) policy" where
  "append_claim_recorded p ex api env =
     res_bind (coordinate (coordinate_for_claim (ex_coord ex) (cr_workspace_id p) (cr_claim_id p))) (\<lambda>c.
       append_with_key api env c (EvClaimRecorded (tr_payload (record_claim p)))
         (ex_key ex ''texo.claim.recorded.v2'' [cr_workspace_id p, cr_claim_id p]))"

definition append_claim_superseded :: "ClaimSupersededV2 \<Rightarrow> ('s, 'c) policy" where
  "append_claim_superseded p ex api env =
     res_bind (coordinate (coordinate_for_claim (ex_coord ex) (cs_workspace_id p) (cs_old_claim_id p))) (\<lambda>c.
       append_with_key api env c (EvClaimSuperseded (tr_payload (supersede_claim p)))
         (ex_key ex ''texo.claim.supersede.v2'' [cs_workspace_id p, cs_old_claim_id p, cs_new_claim_id p]))"

definition append_conflict_opened :: "ConflictOpenedV2 \<Rightarrow> ('s, 'c) policy" where
  "append_conflict_opened p ex api env =
     res_bind (coordinate (coordinate_for_conflict (ex_coord ex) (op_workspace_id p) (op_conflict_id p))) (\<lambda>c.
       append_with_key api env c (EvConflictOpened (tr_payload (open_conflict p)))
         (ex_key ex ''texo.conflict.open.v2'' [op_workspace_id p, op_conflict_id p]))"

definition append_conflict_resolved :: "ConflictResolvedV2 \<Rightarrow> ('s, 'c) policy" where
  "append_conflict_resolved p ex api env =
     res_bind (coordinate (coordinate_for_conflict (ex_coord ex) (rs_workspace_id p) (rs_conflict_id p))) (\<lambda>c.
       let key = ex_key ex ''texo.conflict.resolve.v2'' [rs_workspace_id p, rs_conflict_id p]
       in if rs_resolution p = ''resolved''
          then append_with_key api env c (EvConflictResolved (tr_payload (resolve_conflict p))) key
          else if rs_resolution p = ''ignored''
          then append_with_key api env c (EvConflictResolved (tr_payload (ignore_conflict p))) key
          else Inl (ErrStatusParse (rs_resolution p)))"

definition append_source_observed :: "SourceObservedV2 \<Rightarrow> ('s, 'c) policy" where
  "append_source_observed p ex api env =
     res_bind (coordinate (coordinate_for_source (ex_coord ex) (so_workspace_id p) (so_source_id p))) (\<lambda>c.
       append_with_key api env c (EvSourceObserved p)
         (ex_key ex ''texo.source.observed.v2'' [so_workspace_id p, so_body_hash_hex p]))"

definition append_onboarding_compiled :: "OnboardingCompiledV2 \<Rightarrow> ('s, 'c) policy" where
  "append_onboarding_compiled p ex api env =
     res_bind (coordinate (coordinate_for_onboarding_projection (ex_coord ex) (oc_workspace_id p))) (\<lambda>c.
       place api env c (EvOnboardingCompiled p) unkeyed)"

definition append_workspace_initialized :: "WorkspaceInitializedV2 \<Rightarrow> ('s, 'c) policy" where
  "append_workspace_initialized p ex api env =
     res_bind (coordinate (coordinate_for_workspace_meta (ex_coord ex) (wi_workspace_id p))) (\<lambda>c.
       append_with_key api env c (EvWorkspaceInitialized p)
         (ex_key ex ''texo.workspace.initialized.v2'' [wi_workspace_id p, wi_config_digest_hex p]))"

definition append_relation_judged :: "RelationJudgedV1 \<Rightarrow> ('s, 'c) policy" where
  "append_relation_judged p ex api env =
     (let pair = relation_pair_id (ex_hash ex) (rj1_workspace_id p) (rj1_older_claim p) (rj1_newer_claim p) in
      res_bind (coordinate (coordinate_for_relation_pair (ex_coord ex) (ws_str (rj1_workspace_id p)) (pair_str pair))) (\<lambda>c.
      res_bind (canonical_payload_identity ex (EvRelationJudged p)) (\<lambda>identity.
        append_with_key api env c (EvRelationJudged p)
          (ex_key ex ''texo.relation.judged.v1.payload''
             [ws_str (rj1_workspace_id p), claim_str (rj1_older_claim p), claim_str (rj1_newer_claim p), identity]))))"

definition append_relation_deferred :: "RelationDeferredV1 \<Rightarrow> ('s, 'c) policy" where
  "append_relation_deferred p ex api env =
     (let pair = relation_pair_id (ex_hash ex) (rd_workspace_id p) (rd_older_claim p) (rd_newer_claim p) in
      res_bind (coordinate (coordinate_for_relation_pair (ex_coord ex) (ws_str (rd_workspace_id p)) (pair_str pair))) (\<lambda>c.
        place api env c (EvRelationDeferred p) unkeyed))"

definition append_source_snapshot_recorded :: "SourceSnapshotRecordedV1 \<Rightarrow> ('s, 'c) policy" where
  "append_source_snapshot_recorded p ex api env =
     res_bind (coordinate (coordinate_for_source_snapshot (ex_coord ex) (ws_str (sn_workspace_id p))
                 (snapshot_str (sn_snapshot_id p)))) (\<lambda>c.
       append_with_key api env c (EvSourceSnapshotRecorded p)
         (ex_key ex ''texo.source.snapshot.recorded.v1'' [ws_str (sn_workspace_id p), snapshot_str (sn_snapshot_id p)]))"

definition append_evidence_occurrence_recorded :: "EvidenceOccurrenceRecordedV1 \<Rightarrow> ('s, 'c) policy" where
  "append_evidence_occurrence_recorded p ex api env =
     res_bind (map_sum (\<lambda>err. append_input_error (ex_contract ex err)) id (occurrence_validate (eo_occurrence p))) (\<lambda>_.
     let w = ws_str (eo_workspace_id p);
         i = occurrence_str (occ_occurrence_id (eo_occurrence p)) in
     res_bind (coordinate (coordinate_for_evidence (ex_coord ex) w i)) (\<lambda>c.
       place api env c (EvEvidenceOccurrence p)
         (code_index_append_options api env (ex_key ex ''texo.evidence.occurrence.recorded.v1'' [w, i])
            (snapshot_str (occ_snapshot_id (eo_occurrence p))))))"

definition append_evidence_reconciliation_accepted :: "EvidenceReconciliationAcceptedV1 \<Rightarrow> ('s, 'c) policy" where
  "append_evidence_reconciliation_accepted p ex api env =
     (let w = ws_str (ra_workspace_id p); cl = claim_str (ra_claim_id p); i = occurrence_str (ra_occurrence_id p) in
      res_bind (coordinate (coordinate_for_claim (ex_coord ex) w cl)) (\<lambda>c.
      res_bind (evidence_chain_options api env
                  (ex_key ex ''texo.evidence.reconciliation.accepted.v1''
                     [w, cl, i, ra_judge_fingerprint p, ra_policy_version p]) i KEvidenceOccurrence) (\<lambda>opts.
        place api env c (EvReconciliationAccepted p) opts)))"

definition append_claim_evidence_linked :: "ClaimEvidenceLinkedV1 \<Rightarrow> ('s, 'c) policy" where
  "append_claim_evidence_linked p ex api env =
     (let w = ws_str (el_workspace_id p); cl = claim_str (el_claim_id p); i = occurrence_str (el_occurrence_id p) in
      res_bind (coordinate (coordinate_for_claim (ex_coord ex) w cl)) (\<lambda>c.
      res_bind (evidence_chain_options api env (ex_key ex ''texo.claim.evidence.linked.v1'' [w, cl, i]) i
                  KReconciliationAccepted) (\<lambda>opts.
        place api env c (EvClaimEvidenceLinked p) opts)))"

definition append_code_index_recorded :: "CodeIndexRecordedV1 \<Rightarrow> ('s, 'c) policy" where
  "append_code_index_recorded p ex api env =
     (let w = ws_str (ci_workspace_id p); i = code_index_str (ci_index_id p) in
      res_bind (coordinate (coordinate_for_code_index (ex_coord ex) w i)) (\<lambda>c.
        place api env c (EvCodeIndexRecorded p)
          (code_index_append_options api env (ex_key ex ''texo.code.index.recorded.v1'' [w, i])
             (snapshot_str (ci_snapshot_id p)))))"

definition append_source_snapshot_relation :: "SourceSnapshotRelationV1 \<Rightarrow> ('s, 'c) policy" where
  "append_source_snapshot_relation p ex api env =
     (let w = ws_str (sl_workspace_id p); l = snapshot_str (sl_left_snapshot_id p);
          r = snapshot_str (sl_right_snapshot_id p) in
      res_bind (coordinate (coordinate_for_source_relation (ex_coord ex) w l r)) (\<lambda>c.
        place api env c (EvSourceSnapshotRelation p)
          (code_index_append_options api env (ex_key ex ''texo.source.snapshot.relation.v1'' [w, l, r]) r)))"

definition append_session_turn :: "SessionTurnV1 \<Rightarrow> ('s, 'c) policy" where
  "append_session_turn p ex api env =
     res_bind (coordinate (coordinate_for_session (ex_coord ex) (st_workspace_id p) (st_session_id p))) (\<lambda>c.
     let entity = entity_for_session (st_session_id p);
         lane = session_lane (ex_raw_hash ex) (st_session_id p);
         depth = length (js_read (\<lambda>s. sa_lane api s entity lane) (ap_store env))
     in if u32_max < depth then Inl (append_error ''session lane depth exceeded u32'')
        else place api env c (EvSessionTurn p)
               ((keyed (ex_key ex ''texo.session.turn.v1''
                    [st_workspace_id p, st_session_id p, show_nat (st_turn_no p)]))
                \<lparr>ao_hint := Some (if depth = 0 then BranchRoot lane 0 else Position lane depth)\<rparr>))"

definition append_relation_campaign_checkpoint :: "RelationCampaignCheckpointV1 \<Rightarrow> ('s, 'c) policy" where
  "append_relation_campaign_checkpoint p ex api env =
     res_bind (admit_checkpoint (ap_workspace_id env) p) (\<lambda>_.
     res_bind (coordinate (coordinate_for_relation_campaign (ex_coord ex) (ws_str (ck_workspace_id p)))) (\<lambda>c.
     res_bind (campaign_checkpoint_options ex api env p) (\<lambda>opts.
       place api env c (EvCampaignCheckpoint p) opts)))"

definition APPEND_POLICIES :: "event_kind list" where
  "APPEND_POLICIES =
     [KClaimRecorded, KClaimSuperseded, KConflictOpened, KConflictResolved, KSourceObserved,
      KOnboardingCompiled, KWorkspaceInitialized, KRelationJudged, KRelationDeferred,
      KSourceSnapshotRecorded, KEvidenceOccurrence, KReconciliationAccepted, KClaimEvidenceLinked,
      KCodeIndexRecorded, KSourceSnapshotRelation, KSessionTurn, KCampaignCheckpoint]"

fun kind_code :: "event_kind \<Rightarrow> nat" where
  "kind_code KSourceObserved = 0xE001"
| "kind_code KClaimRecorded = 0xE002"
| "kind_code KClaimSuperseded = 0xE003"
| "kind_code KConflictOpened = 0xE004"
| "kind_code KOnboardingCompiled = 0xE005"
| "kind_code KConflictResolved = 0xE006"
| "kind_code KWorkspaceInitialized = 0xE007"
| "kind_code KSessionTurn = 0xE008"
| "kind_code KRelationJudged = 0xE009"
| "kind_code KRelationDeferred = 0xE00A"
| "kind_code KSourceSnapshotRecorded = 0xE00B"
| "kind_code KEvidenceOccurrence = 0xE00C"
| "kind_code KClaimEvidenceLinked = 0xE00D"
| "kind_code KCodeIndexRecorded = 0xE00E"
| "kind_code KSourceSnapshotRelation = 0xE00F"
| "kind_code KReconciliationAccepted = 0xE010"
| "kind_code KReplicaBatchMaterialized = 0xE011"
| "kind_code KCampaignCheckpoint = 0xE012"
| "kind_code (KForeign n) = n"

definition outside_domain :: "event_kind \<Rightarrow> TexoError" where
  "outside_domain kind =
     append_error (''event kind evt.'' @ hex_pad 4 (kind_code kind) @ '' is outside texo domain'')"

text \<open>The append of one decoded payload; a replica batch has no policy.\<close>

fun append_event :: "domain_event \<Rightarrow> ('s, 'c) policy" where
  "append_event (EvClaimRecorded p) ex api env = append_claim_recorded p ex api env"
| "append_event (EvClaimSuperseded p) ex api env = append_claim_superseded p ex api env"
| "append_event (EvConflictOpened p) ex api env = append_conflict_opened p ex api env"
| "append_event (EvConflictResolved p) ex api env = append_conflict_resolved p ex api env"
| "append_event (EvSourceObserved p) ex api env = append_source_observed p ex api env"
| "append_event (EvOnboardingCompiled p) ex api env = append_onboarding_compiled p ex api env"
| "append_event (EvWorkspaceInitialized p) ex api env = append_workspace_initialized p ex api env"
| "append_event (EvRelationJudged p) ex api env = append_relation_judged p ex api env"
| "append_event (EvRelationDeferred p) ex api env = append_relation_deferred p ex api env"
| "append_event (EvSourceSnapshotRecorded p) ex api env = append_source_snapshot_recorded p ex api env"
| "append_event (EvEvidenceOccurrence p) ex api env = append_evidence_occurrence_recorded p ex api env"
| "append_event (EvReconciliationAccepted p) ex api env = append_evidence_reconciliation_accepted p ex api env"
| "append_event (EvClaimEvidenceLinked p) ex api env = append_claim_evidence_linked p ex api env"
| "append_event (EvCodeIndexRecorded p) ex api env = append_code_index_recorded p ex api env"
| "append_event (EvSourceSnapshotRelation p) ex api env = append_source_snapshot_relation p ex api env"
| "append_event (EvSessionTurn p) ex api env = append_session_turn p ex api env"
| "append_event (EvCampaignCheckpoint p) ex api env = append_relation_campaign_checkpoint p ex api env"
| "append_event (EvReplicaBatchMaterialized p) ex api env = Inl (outside_domain KReplicaBatchMaterialized)"

definition policy_append :: "event_kind \<Rightarrow> string \<Rightarrow> ('s, 'c) policy" where
  "policy_append kind bytes ex api env =
     (if kind \<notin> set APPEND_POLICIES then Inl (outside_domain kind)
      else case ex_decode ex kind bytes of
             Inl detail \<Rightarrow> Inl (append_error (''canonical effect payload decoding failed: '' @ detail))
           | Inr ev \<Rightarrow> append_event ev ex api env)"

section \<open>The effect backend\<close>

definition verify_and_note ::
  "('s, 'c) store_api \<Rightarrow> 's append_env \<Rightarrow> event_kind \<Rightarrow> AppendReceipt \<Rightarrow> 's append_env \<times> (unit, TexoError) result" where
  "verify_and_note api env kind r =
     (case js_read (\<lambda>s. sa_verify api s r) (ap_store env) of
        Some reason \<Rightarrow> (env, Inl (ErrReceiptInvalid (hex_pad 32 (ar_event_id r)) reason))
      | None \<Rightarrow>
          (env\<lparr>ap_receipts := ap_receipts env @
             [\<lparr>rn_event_id_hex = hex_pad 32 (ar_event_id r), rn_kind_bits = kind,
               rn_global_sequence = ar_global_sequence r\<rparr>]\<rparr>, Inr ()))"

definition append_domain_event ::
  "'c externals \<Rightarrow> ('s, 'c) store_api \<Rightarrow> 's append_env \<Rightarrow> event_kind \<Rightarrow> string \<Rightarrow>
   's append_env \<times> (unit, TexoError) result" where
  "append_domain_event ex api env kind bytes =
     (case policy_append kind bytes ex api env of
        Inl err \<Rightarrow> (env, Inl err)
      | Inr (r, store) \<Rightarrow> verify_and_note api (env\<lparr>ap_store := store\<rparr>) kind r)"

section \<open>A retried append is the same append\<close>

text \<open>
  What the code relies on of the store.  A key that was committed answers the same append with
  the original receipt and writes nothing; streams only grow at the end; stored events stay
  readable.
\<close>

definition replays :: "('s, 'c) store_api \<Rightarrow> bool" where
  "replays api \<longleftrightarrow>
     (\<forall>s c ev o1 o2 r s' k. sa_append api s c ev o1 = Inr (r, s') \<and> ao_key o1 = Some k \<and> ao_key o2 = Some k
        \<longrightarrow> sa_append api s' c ev o2 = Inr (r, s') \<and> ar_event_id r = k \<and> k \<le> u128_max)"

definition grows :: "('s, 'c) store_api \<Rightarrow> bool" where
  "grows api \<longleftrightarrow>
     (\<forall>s c ev opts r s'. sa_append api s c ev opts = Inr (r, s') \<longrightarrow>
        (\<forall>e. \<exists>new. sa_entries api s' e = sa_entries api s e @ new) \<and>
        (\<forall>i x. sa_read api s i = Inr x \<longrightarrow> sa_read api s' i = Inr x))"

text \<open>The kinds whose append carries an idempotency key.\<close>

definition keyed_kind :: "event_kind \<Rightarrow> bool" where
  "keyed_kind k \<longleftrightarrow> k \<noteq> KOnboardingCompiled \<and> k \<noteq> KRelationDeferred"

lemma place_Inr:
  "place api env c ev opts = Inr (r, st) \<longleftrightarrow>
     (\<exists>s s'. ap_store env = Writable s \<and> sa_append api s c ev opts = Inr (r, s') \<and> st = Writable s')"
proof -
  have "place api env c ev opts = Inr (r, st) \<longleftrightarrow>
      append_typed_with_options (sa_append api) (ap_store env) c ev opts = Inr (r, st)"
    by (cases "append_typed_with_options (sa_append api) (ap_store env) c ev opts") (simp_all add: place_def)
  then show ?thesis by (simp add: append_needs_writer)
qed

lemma coordinate_Inr: "coordinate r = Inr c \<longleftrightarrow> r = Inr c"
  by (cases r) (auto simp: coordinate_def)

lemma ao_key_simps [simp]: "ao_key (keyed k) = Some k" "ao_key unkeyed = None"
  by (simp_all add: keyed_def unkeyed_def)

lemma code_index_key [simp]: "ao_key (code_index_append_options api env key i) = Some key"
  by (simp add: code_index_append_options_def split: option.split)

lemma chain_key: "evidence_chain_options api env key i k = Inr opts \<Longrightarrow> ao_key opts = Some key"
  by (auto simp: evidence_chain_options_def Let_def res_bind_eq_Inr)

lemma find_append_Some: "find P xs = Some x \<Longrightarrow> find P (xs @ ys) = Some x"
  by (induction xs) auto

definition later :: "('s, 'c) store_api \<Rightarrow> 's append_env \<Rightarrow> 's append_env \<Rightarrow> bool" where
  "later api env env' \<longleftrightarrow>
     ap_workspace_id env' = ap_workspace_id env \<and>
     (\<forall>e. \<exists>new. entries_of api env' e = entries_of api env e @ new) \<and>
     (\<forall>i x. read_of api env i = Inr x \<longrightarrow> read_of api env' i = Inr x)"

lemma chain_later:
  assumes "later api env env'" "evidence_chain_options api env key i k = Inr opts"
  shows "\<exists>opts'. evidence_chain_options api env' key i k = Inr opts' \<and> ao_key opts' = Some key"
proof -
  let ?e = "entity_for_evidence i"
  from assms(2) obtain entry raw occ where f:
    "find (\<lambda>e. ie_kind e = KEvidenceOccurrence) (entries_of api env ?e) = Some entry"
    "read_of api env (ie_id entry) = Inr raw"
    "decode_payload (\<lambda>ev. case ev of EvEvidenceOccurrence p \<Rightarrow> Some p | _ \<Rightarrow> None) ?e raw = Inr occ"
    by (auto simp: evidence_chain_options_def Let_def res_bind_eq_Inr ok_or_eq_Inr)
  obtain new where "entries_of api env' ?e = entries_of api env ?e @ new"
    using assms(1) unfolding later_def by blast
  then have "find (\<lambda>e. ie_kind e = KEvidenceOccurrence) (entries_of api env' ?e) = Some entry"
    using f(1) by (simp add: find_append_Some)
  moreover have "read_of api env' (ie_id entry) = Inr raw" using assms(1) f(2) unfolding later_def by blast
  ultimately show ?thesis using f(3) by (simp add: evidence_chain_options_def Let_def)
qed

text \<open>The append of a keyed event under any later environment is the same append with the same key.\<close>

definition same_append ::
  "domain_event \<Rightarrow> 'c externals \<Rightarrow> ('s, 'c) store_api \<Rightarrow> 's append_env \<Rightarrow> 's append_env \<Rightarrow>
   AppendReceipt \<Rightarrow> 's JournalStore \<Rightarrow> bool" where
  "same_append ev ex api env env' r st \<longleftrightarrow>
     (\<exists>c opts opts' k. place api env c ev opts = Inr (r, st) \<and> ao_key opts = Some k \<and>
        append_event ev ex api env' = place api env' c ev opts' \<and> ao_key opts' = Some k)"

lemmas policy_defs =
  append_claim_recorded_def append_claim_superseded_def append_conflict_opened_def
  append_conflict_resolved_def append_source_observed_def append_workspace_initialized_def
  append_relation_judged_def append_source_snapshot_recorded_def append_evidence_occurrence_recorded_def
  append_code_index_recorded_def append_source_snapshot_relation_def append_with_key_def

lemmas transition_payload = record_claim_def supersede_claim_def open_conflict_def resolve_conflict_def ignore_conflict_def

text \<open>The last checkpoint of the stream is the one appended.\<close>

definition newest_checkpoint :: "('s, 'c) store_api \<Rightarrow> 's append_env \<Rightarrow> RelationCampaignCheckpointV1 \<Rightarrow> nat \<Rightarrow> bool" where
  "newest_checkpoint api env p i \<longleftrightarrow>
     (\<exists>x. latest_entry (entries_of api env (entity_for_relation_campaign (ws_str (ck_workspace_id p)))) = Some x
        \<and> ie_id x = i \<and> read_of api env i = Inr (Payload (EvCampaignCheckpoint p)))"

lemma checkpoint_options_key:
  "campaign_checkpoint_options ex api env p = Inr opts \<Longrightarrow> \<exists>k. ao_key opts = Some k"
  by (auto simp: campaign_checkpoint_options_def checkpoint_transition_options_def Let_def res_bind_eq_Inr
      split: option.splits if_splits)

definition lane_of :: "'c externals \<Rightarrow> ('s, 'c) store_api \<Rightarrow> 's append_env \<Rightarrow> SessionTurnV1 \<Rightarrow> IndexEntry list" where
  "lane_of ex api env p =
     js_read (\<lambda>s. sa_lane api s (entity_for_session (st_session_id p))
                 (session_lane (ex_raw_hash ex) (st_session_id p))) (ap_store env)"

lemma same_appendI:
  "place api env c ev opts = Inr (r, st) \<Longrightarrow> ao_key opts = Some k \<Longrightarrow>
   append_event ev ex api env' = place api env' c ev opts' \<Longrightarrow> ao_key opts' = Some k \<Longrightarrow>
   same_append ev ex api env env' r st"
  unfolding same_append_def by blast

lemma keyed_same_append:
  assumes "append_event ev ex api env = Inr (r, st)" "keyed_kind (kind_of ev)" "later api env env'"
    and turn: "\<And>p. ev = EvSessionTurn p \<Longrightarrow> length (lane_of ex api env' p) \<le> u32_max"
    and check: "\<And>p. ev = EvCampaignCheckpoint p \<Longrightarrow> False"
  shows "same_append ev ex api env env' r st"
proof (cases ev)
  case (EvClaimEvidenceLinked p)
  let ?w = "ws_str (el_workspace_id p)" and ?cl = "claim_str (el_claim_id p)" and ?i = "occurrence_str (el_occurrence_id p)"
  let ?k = "ex_key ex ''texo.claim.evidence.linked.v1'' [?w, ?cl, ?i]"
  from assms(1) EvClaimEvidenceLinked obtain c opts where
    c: "coordinate_for_claim (ex_coord ex) ?w ?cl = Inr c" and
    o: "evidence_chain_options api env ?k ?i KReconciliationAccepted = Inr opts" and
    pl: "place api env c ev opts = Inr (r, st)"
    by (auto simp: append_claim_evidence_linked_def Let_def res_bind_eq_Inr coordinate_Inr)
  obtain opts' where o': "evidence_chain_options api env' ?k ?i KReconciliationAccepted = Inr opts'" "ao_key opts' = Some ?k"
    using chain_later [OF assms(3) o] by blast
  show ?thesis
    by (rule same_appendI [OF pl chain_key [OF o] _ o'(2)])
      (simp add: EvClaimEvidenceLinked append_claim_evidence_linked_def coordinate_def c o'(1))
next
  case (EvReconciliationAccepted p)
  let ?w = "ws_str (ra_workspace_id p)" and ?cl = "claim_str (ra_claim_id p)" and ?i = "occurrence_str (ra_occurrence_id p)"
  let ?k = "ex_key ex ''texo.evidence.reconciliation.accepted.v1''
     [?w, ?cl, ?i, ra_judge_fingerprint p, ra_policy_version p]"
  from assms(1) EvReconciliationAccepted obtain c opts where
    c: "coordinate_for_claim (ex_coord ex) ?w ?cl = Inr c" and
    o: "evidence_chain_options api env ?k ?i KEvidenceOccurrence = Inr opts" and
    pl: "place api env c ev opts = Inr (r, st)"
    by (auto simp: append_evidence_reconciliation_accepted_def Let_def res_bind_eq_Inr coordinate_Inr)
  obtain opts' where o': "evidence_chain_options api env' ?k ?i KEvidenceOccurrence = Inr opts'" "ao_key opts' = Some ?k"
    using chain_later [OF assms(3) o] by blast
  show ?thesis
    by (rule same_appendI [OF pl chain_key [OF o] _ o'(2)])
      (simp add: EvReconciliationAccepted append_evidence_reconciliation_accepted_def coordinate_def c o'(1))
next
  case (EvSessionTurn p)
  from assms(1) EvSessionTurn obtain c where
    c: "coordinate_for_session (ex_coord ex) (st_workspace_id p) (st_session_id p) = Inr c"
    by (auto simp: append_session_turn_def res_bind_eq_Inr coordinate_Inr)
  show ?thesis
    using assms(1) turn [OF EvSessionTurn]
    by (auto simp: EvSessionTurn append_session_turn_def coordinate_def c Let_def lane_of_def
        intro!: same_appendI split: if_splits)
next
  case (EvConflictResolved p)
  from assms(1) EvConflictResolved obtain c where
    c: "coordinate_for_conflict (ex_coord ex) (rs_workspace_id p) (rs_conflict_id p) = Inr c"
    by (auto simp: append_conflict_resolved_def res_bind_eq_Inr coordinate_Inr)
  show ?thesis
    using assms(1)
    by (auto simp: EvConflictResolved append_conflict_resolved_def append_with_key_def transition_payload
        coordinate_def c Let_def intro!: same_appendI split: if_splits)
qed (use assms(1,2) check in
   \<open>auto simp: policy_defs transition_payload Let_def res_bind_eq_Inr keyed_kind_def
      intro!: same_appendI\<close>)

lemma checkpoint_place:
  assumes "append_event (EvCampaignCheckpoint p) ex api env = Inr (r, st)" "replays api"
  obtains c opts where "admit_checkpoint (ap_workspace_id env) p = Inr ()"
    "coordinate_for_relation_campaign (ex_coord ex) (ws_str (ck_workspace_id p)) = Inr c"
    "place api env c (EvCampaignCheckpoint p) opts = Inr (r, st)"
    "ao_key opts = Some (ar_event_id r)" "ar_event_id r \<le> u128_max"
proof -
  from assms(1) obtain c opts where a: "admit_checkpoint (ap_workspace_id env) p = Inr ()"
    and c: "coordinate_for_relation_campaign (ex_coord ex) (ws_str (ck_workspace_id p)) = Inr c"
    and o: "campaign_checkpoint_options ex api env p = Inr opts"
    and pl: "place api env c (EvCampaignCheckpoint p) opts = Inr (r, st)"
    by (auto simp: append_relation_campaign_checkpoint_def res_bind_eq_Inr coordinate_Inr)
  obtain k where k: "ao_key opts = Some k" using checkpoint_options_key [OF o] by blast
  then have "ar_event_id r = k" "k \<le> u128_max"
    using pl assms(2) unfolding place_Inr replays_def by blast+
  then show thesis using that a c pl k by blast
qed

lemma checkpoint_same_append:
  assumes "append_event (EvCampaignCheckpoint p) ex api env = Inr (r, st)" "replays api"
    and env1: "ap_workspace_id env1 = ap_workspace_id env" "ap_receipts env1 \<noteq> []"
      "rn_event_id_hex (last (ap_receipts env1)) = hex_pad 32 (ar_event_id r)"
    and newest: "newest_checkpoint api env1 p (ar_event_id r)"
  shows "same_append (EvCampaignCheckpoint p) ex api env env1 r st"
proof -
  define k where "k = ar_event_id r"
  obtain c opts where a: "admit_checkpoint (ap_workspace_id env) p = Inr ()"
    and c: "coordinate_for_relation_campaign (ex_coord ex) (ws_str (ck_workspace_id p)) = Inr c"
    and pl: "place api env c (EvCampaignCheckpoint p) opts = Inr (r, st)"
    and k: "ao_key opts = Some k" and id: "ar_event_id r = k" "k \<le> u128_max"
    using checkpoint_place [OF assms(1,2)] by (metis k_def)
  have "k < 16 ^ 32" using id(2) by (simp add: u128_max_def)
  then have "parse_hex u128_max (rn_event_id_hex (last (ap_receipts env1))) = Some k"
    unfolding env1(3) id(1) using id(2) by (intro parse_hex_pad) simp_all
  then have "campaign_checkpoint_options ex api env1 p = Inr (keyed k)"
    using newest env1(2) id(1)
    by (auto simp: newest_checkpoint_def campaign_checkpoint_options_def as_checkpoint_def Let_def)
  then have "append_event (EvCampaignCheckpoint p) ex api env1 = place api env1 c (EvCampaignCheckpoint p) (keyed k)"
    by (simp add: append_relation_campaign_checkpoint_def env1(1) a coordinate_def c)
  then show ?thesis by (rule same_appendI [OF pl k]) simp
qed

lemma domain_event_Inr:
  assumes "append_domain_event ex api env kind bytes = (env1, Inr ())"
  obtains ev r st where "kind \<in> set APPEND_POLICIES" "ex_decode ex kind bytes = Inr ev"
    "append_event ev ex api env = Inr (r, st)" "js_read (\<lambda>s. sa_verify api s r) st = None"
    "env1 = env\<lparr>ap_store := st, ap_receipts := ap_receipts env @
       [\<lparr>rn_event_id_hex = hex_pad 32 (ar_event_id r), rn_kind_bits = kind,
         rn_global_sequence = ar_global_sequence r\<rparr>]\<rparr>"
  using assms
  by (auto simp: append_domain_event_def policy_append_def verify_and_note_def
      split: sum.splits if_splits option.splits)

lemma append_event_place:
  "append_event ev ex api env = Inr (r, st) \<Longrightarrow> \<exists>c opts. place api env c ev opts = Inr (r, st)"
  by (cases ev)
    (auto simp: policy_defs append_onboarding_compiled_def append_relation_deferred_def
      append_evidence_reconciliation_accepted_def append_claim_evidence_linked_def append_session_turn_def
      append_relation_campaign_checkpoint_def append_conflict_resolved_def transition_payload
      Let_def res_bind_eq_Inr split: if_splits)

lemma place_later:
  assumes "grows api" "place api env c ev opts = Inr (r, st)"
  shows "later api env (env\<lparr>ap_store := st, ap_receipts := rs\<rparr>)"
proof -
  obtain s s' where s: "ap_store env = Writable s" "sa_append api s c ev opts = Inr (r, s')" "st = Writable s'"
    using assms(2) unfolding place_Inr by blast
  have "\<exists>new. sa_entries api s' e = sa_entries api s e @ new" for e
    using assms(1) s(2) unfolding grows_def by blast
  moreover have "sa_read api s' i = Inr x" if "sa_read api s i = Inr x" for i x
    using assms(1) s(2) that unfolding grows_def by blast
  moreover have "map_sum ErrStore id y = Inr x \<longleftrightarrow> y = Inr x" for x :: stored and y
    by (cases y) auto
  ultimately show ?thesis by (simp add: later_def entries_of_def read_of_def s(1,3))
qed

text \<open>
  C4: A retried append is the same append.  When the append of an event succeeded, running it again
  right after succeeds with the same receipt and leaves the store as it is, for every kind but the
  onboarding and deferral events, which are recorded each time.  For a campaign checkpoint this needs
  the appended checkpoint to be the newest of its stream; for a session turn the lane must not have
  outgrown the position counter.
\<close>

theorem append_retry_idempotent:
  assumes store: "replays api" "grows api" and kind: "keyed_kind kind"
    and first: "append_domain_event ex api env kind bytes = (env1, Inr ())"
    and dec: "\<And>ev. ex_decode ex kind bytes = Inr ev \<Longrightarrow> kind_of ev = kind"
    and turn: "\<And>p. ex_decode ex kind bytes = Inr (EvSessionTurn p) \<Longrightarrow> length (lane_of ex api env1 p) \<le> u32_max"
    and check: "\<And>p. ex_decode ex kind bytes = Inr (EvCampaignCheckpoint p) \<Longrightarrow>
      \<exists>i. newest_checkpoint api env1 p i \<and> i \<le> u128_max \<and>
        rn_event_id_hex (last (ap_receipts env1)) = hex_pad 32 i"
  shows "append_domain_event ex api env1 kind bytes =
    (env1\<lparr>ap_receipts := ap_receipts env1 @ [last (ap_receipts env1)]\<rparr>, Inr ())"
proof -
  obtain ev r st where ev: "kind \<in> set APPEND_POLICIES" "ex_decode ex kind bytes = Inr ev"
    "append_event ev ex api env = Inr (r, st)" "js_read (\<lambda>s. sa_verify api s r) st = None"
    and env1: "env1 = env\<lparr>ap_store := st, ap_receipts := ap_receipts env @
       [\<lparr>rn_event_id_hex = hex_pad 32 (ar_event_id r), rn_kind_bits = kind,
         rn_global_sequence = ar_global_sequence r\<rparr>]\<rparr>"
    by (rule domain_event_Inr [OF first])
  have same: "same_append ev ex api env env1 r st"
  proof (cases "\<exists>p. ev = EvCampaignCheckpoint p")
    case True
    then obtain p where p: "ev = EvCampaignCheckpoint p" by blast
    then obtain i where i: "newest_checkpoint api env1 p i" "i \<le> u128_max"
      "hex_pad 32 (ar_event_id r) = hex_pad 32 i"
      using check ev(2) by (auto simp: env1)
    have "ar_event_id r \<le> u128_max" using checkpoint_place [of p] ev(3) store(1) unfolding p by blast
    then have "ar_event_id r = i" using i(2,3) by (auto simp: u128_max_def intro!: hex_pad_inject)
    then show ?thesis
      using checkpoint_same_append [of p ex api env r st env1] ev(3) store(1) i(1) by (simp add: p env1)
  next
    case False
    obtain c opts where "place api env c ev opts = Inr (r, st)" using append_event_place [OF ev(3)] by blast
    then have l: "later api env env1" unfolding env1 by (rule place_later [OF store(2)])
    show ?thesis
      by (rule keyed_same_append [OF ev(3) _ l]) (use kind dec turn ev(2) False in auto)
  qed
  then obtain c opts opts' k where pl: "place api env c ev opts = Inr (r, st)" "ao_key opts = Some k"
    "append_event ev ex api env1 = place api env1 c ev opts'" "ao_key opts' = Some k"
    unfolding same_append_def by blast
  then have "place api env1 c ev opts' = Inr (r, st)"
    using store(1) unfolding place_Inr replays_def by (simp add: env1) blast
  then show ?thesis
    using ev pl(3) by (simp add: append_domain_event_def policy_append_def verify_and_note_def env1)
qed

section \<open>A store held in memory\<close>

text \<open>
  Streams as an association list of rows; a keyed append looks for its key first.  An unkeyed event
  gets the next sequence as its id.
\<close>

type_synonym memory_store = "(string \<times> IndexEntry \<times> domain_event) list"

definition memory_find :: "memory_store \<Rightarrow> nat \<Rightarrow> (string \<times> IndexEntry \<times> domain_event) option" where
  "memory_find s i = find (\<lambda>row. ie_id (fst (snd row)) = i) s"

definition memory_append ::
  "memory_store \<Rightarrow> string \<Rightarrow> domain_event \<Rightarrow> AppendOptions \<Rightarrow> (AppendReceipt \<times> memory_store, string) result" where
  "memory_append s c ev opts =
     (let i = (case ao_key opts of Some k \<Rightarrow> k | None \<Rightarrow> length s) in
      if u128_max < i then Inl ''event id out of range''
      else case memory_find s i of
             Some row \<Rightarrow> Inr (\<lparr>ar_event_id = i, ar_global_sequence = ie_seq (fst (snd row))\<rparr>, s)
           | None \<Rightarrow>
               Inr (\<lparr>ar_event_id = i, ar_global_sequence = Suc (length s)\<rparr>,
                    s @ [(c, \<lparr>ie_seq = Suc (length s), ie_entity = c, ie_kind = kind_of ev, ie_id = i\<rparr>, ev)]))"

definition memory_api :: "(memory_store, string) store_api" where
  "memory_api =
     \<lparr>sa_entries = (\<lambda>s e. map (fst \<circ> snd) (filter (\<lambda>row. fst row = e) s)),
      sa_lane = (\<lambda>s e lane. map (fst \<circ> snd) (filter (\<lambda>row. fst row = e) s)),
      sa_read = (\<lambda>s i. case memory_find s i of Some row \<Rightarrow> Inr (Payload (snd (snd row))) | None \<Rightarrow> Inl ''not found''),
      sa_append = memory_append, sa_verify = (\<lambda>s r. None)\<rparr>"

lemma memory_find_append: "memory_find (s @ t) i = (case memory_find s i of Some x \<Rightarrow> Some x | None \<Rightarrow> memory_find t i)"
  by (induction s) (auto simp: memory_find_def)

lemma memory_replays: "replays memory_api"
  by (auto simp: replays_def memory_api_def memory_append_def memory_find_append Let_def
      split: if_splits option.splits) (auto simp: memory_find_def)

lemma memory_grows: "grows memory_api"
  by (auto simp: grows_def memory_api_def memory_append_def memory_find_append Let_def
      split: if_splits option.splits)

definition demo_externals :: "string externals" where
  "demo_externals =
     \<lparr>ex_hash = id, ex_raw_hash = (\<lambda>_. replicate 32 0), ex_key = (\<lambda>op parts. length (concat parts)),
      ex_coord = (\<lambda>e s. Inr e),
      ex_decode = (\<lambda>k b. if k = KSourceObserved
         then Inr (EvSourceObserved \<lparr>so_source_id = b, so_workspace_id = ''demo'', so_source_kind = ''markdown'',
            so_path = ''docs/a.md'', so_body_hash_hex = ''body'', so_observed_at_ms = 1\<rparr>)
         else Inl ''unknown''),
      ex_encode = (\<lambda>ev. Inr []), ex_contract = (\<lambda>_. [])\<rparr>"

definition demo_append_env :: "memory_store append_env" where
  "demo_append_env = \<lparr>ap_store = Writable [], ap_workspace_id = ''demo'', ap_receipts = []\<rparr>"

definition demo_append :: "memory_store append_env" where
  "demo_append = fst (append_domain_event demo_externals memory_api demo_append_env KSourceObserved ''src_a'')"

theorem append_retry_idempotent_witness:
  "append_domain_event demo_externals memory_api demo_append KSourceObserved ''src_a'' =
     (demo_append\<lparr>ap_receipts := ap_receipts demo_append @ [last (ap_receipts demo_append)]\<rparr>, Inr ())"
proof (rule append_retry_idempotent [OF memory_replays memory_grows])
  show "append_domain_event demo_externals memory_api demo_append_env KSourceObserved ''src_a'' = (demo_append, Inr ())"
    by (simp add: demo_append_def append_domain_event_def policy_append_def verify_and_note_def APPEND_POLICIES_def
        demo_externals_def demo_append_env_def memory_api_def append_source_observed_def coordinate_def
        append_with_key_def place_def append_typed_with_options_def memory_append_def memory_find_def u128_max_def Let_def
        coordinate_for_source_def)
qed (auto simp: keyed_kind_def demo_externals_def split: if_splits)

end
