(* ===== verification/Words.thy ===== *)
theory Words
  imports Text
begin

text \<open>
  The lexical layer of claim extraction: whole-word matching (\<open>src/extract/word_match.rs\<close>), the
  replacement lexicon (\<open>src/lexicon.rs\<close>), line normalisation (\<open>src/extract/normalize.rs\<close>), the
  claim-line test (\<open>src/extract/heuristics.rs\<close>) and the hint triple (\<open>src/extract/hints.rs\<close>).
  Words are the maximal runs of ASCII alphanumeric bytes; no byte of a multi-byte character is
  one, so splitting bytes and splitting characters give the same words.
\<close>

section \<open>Whole words and phrases\<close>

fun split_by :: "(char \<Rightarrow> bool) \<Rightarrow> string \<Rightarrow> string list" where
  "split_by sep [] = [[]]"
| "split_by sep (c # cs) =
     (if sep c then [] # split_by sep cs
      else (case split_by sep cs of [] \<Rightarrow> [[c]] | w # ws \<Rightarrow> (c # w) # ws))"

definition words :: "string \<Rightarrow> string list" where
  "words text = filter (\<lambda>w. w \<noteq> []) (split_by (\<lambda>c. \<not> is_alnum c) text)"

definition contains_word :: "string \<Rightarrow> string \<Rightarrow> bool" where
  "contains_word text needle =
     (let needle = trim needle in
      if needle = [] then False else list_ex (\<lambda>w. eq_ignore_ascii_case w needle) (words text))"

text \<open>\<open>slice::windows(n)\<close>; the code never asks for windows of length zero.\<close>

definition windows :: "nat \<Rightarrow> 'a list \<Rightarrow> 'a list list" where
  "windows n xs = map (\<lambda>i. take n (drop i xs)) [0..<Suc (length xs) - n]"

definition window_matches :: "string list \<Rightarrow> string list \<Rightarrow> bool" where
  "window_matches needle window = list_all (\<lambda>(w, n). eq_ignore_ascii_case w n) (zip window needle)"

definition contains_phrase :: "string \<Rightarrow> string \<Rightarrow> bool" where
  "contains_phrase text phrase =
     (let needle = split_whitespace phrase in
      if needle = [] then False
      else if length needle = 1 then contains_word text (needle ! 0)
      else let haystack = words text in
           if length haystack < length needle then False
           else list_ex (window_matches needle) (windows (length needle) haystack))"

definition contains_any :: "string \<Rightarrow> string list \<Rightarrow> bool" where
  "contains_any text needles =
     (let haystack = words text in
      list_ex (\<lambda>n. let wanted = split_whitespace n in
                   wanted \<noteq> [] \<and> list_ex (window_matches wanted) (windows (length wanted) haystack)) needles)"

section \<open>The replacement lexicon\<close>

definition REPLACEMENT_SIGNALS :: "string list" where
  "REPLACEMENT_SIGNALS =
     [''moved'', ''changed'', ''now'', ''no longer'', ''replaced'', ''instead'', ''new process'',
      ''as of'', ''decided'']"

definition contains_replacement_signal :: "string \<Rightarrow> bool" where
  "contains_replacement_signal text = list_ex (contains_phrase text) REPLACEMENT_SIGNALS"

section \<open>Normalised lines\<close>

text \<open>The loop pushes a space before every word but the first.\<close>

fun join_words :: "string list \<Rightarrow> string \<Rightarrow> string" where
  "join_words [] out = out"
| "join_words (w # ws) out = join_words ws ((if out \<noteq> [] then out @ '' '' else out) @ w)"

definition normalize_line :: "string \<Rightarrow> string" where
  "normalize_line line = join_words (split_whitespace (to_ascii_lowercase (trim line))) []"

section \<open>Claim lines\<close>

definition trim_matches :: "char \<Rightarrow> string \<Rightarrow> string" where
  "trim_matches c s = dropWhile (\<lambda>x. x = c) s"

definition CLAIM_SIGNALS :: "string list" where
  "CLAIM_SIGNALS =
     [''is'', ''are'', ''uses'', ''use'', ''must'', ''should'', ''owner'', ''owns'', ''process'',
      ''decided'', ''decision'', ''moved'', ''changed'', ''replaced'', ''no longer'', ''deprecated'',
      ''deploy'', ''deploys'', ''release'', ''releases'', ''approval'', ''friday'', ''tuesday'',
      ''monday'', ''wednesday'', ''thursday'']"

definition has_claim_signal :: "string \<Rightarrow> bool" where
  "has_claim_signal line = contains_any line CLAIM_SIGNALS"

definition is_list_marker_only :: "string \<Rightarrow> bool" where
  "is_list_marker_only line =
     (trim (trim_matches (CHR ''+'') (trim_matches (CHR ''*'') (trim_matches (CHR ''-'') line))) = [])"

definition HEADING_WORDS :: "string list" where
  "HEADING_WORDS =
     [''process'', ''deploy'', ''release'', ''owner'', ''approval'', ''policy'', ''decision'']"

definition is_claim_line :: "string \<Rightarrow> bool" where
  "is_claim_line line =
     (let trimmed = trim line;
          title = trim (trim_matches (CHR ''#'') trimmed) in
      if trimmed = [] then False
      else if starts_with trimmed ''##'' then
        4 \<le> length title \<and> list_ex (contains_sub (to_ascii_lowercase title)) HEADING_WORDS
      else if starts_with trimmed ''#'' \<and> length title < 4 then False
      else if is_list_marker_only trimmed then False
      else if starts_with trimmed ''Decision:'' \<or> starts_with trimmed ''decision:'' then True
      else if starts_with trimmed ''- '' \<or> starts_with trimmed ''* '' then
        has_claim_signal (trim (trim_matches (CHR ''*'') (trim_matches (CHR ''-'') trimmed)))
      else has_claim_signal line)"

section \<open>Hints\<close>

record ClaimHints =
  ch_subject_hint :: string
  ch_predicate_hint :: string
  ch_object_hint :: string
  ch_confidence_ppm :: u32

definition KEYWORDS :: "(string \<times> u32) list" where
  "KEYWORDS =
     [(''decided'', 900000), (''decision'', 900000), (''changed'', 900000), (''owner'', 800000),
      (''owns'', 800000), (''process'', 800000), (''approval'', 800000), (''is'', 650000),
      (''are'', 650000), (''uses'', 650000), (''use'', 650000), (''must'', 650000),
      (''should'', 650000), (''moved'', 650000), (''replaced'', 650000), (''no longer'', 650000),
      (''deprecated'', 650000), (''deploy'', 650000), (''release'', 650000), (''friday'', 700000),
      (''tuesday'', 700000), (''monday'', 700000), (''wednesday'', 700000), (''thursday'', 700000)]"

definition DEFAULT_CONFIDENCE_PPM :: u32 where
  "DEFAULT_CONFIDENCE_PPM = 500000"

definition detect_confidence :: "string \<Rightarrow> u32 \<times> bool" where
  "detect_confidence lower =
     (case find (\<lambda>k. contains_phrase lower (fst k)) KEYWORDS of
        Some k \<Rightarrow> (snd k, True)
      | None \<Rightarrow> (DEFAULT_CONFIDENCE_PPM, False))"

definition detect_predicate :: "string \<Rightarrow> string" where
  "detect_predicate lower =
     (if contains_word lower ''uses'' \<or> contains_word lower ''use'' then ''uses''
      else if contains_word lower ''is'' then ''is''
      else if contains_word lower ''must'' then ''must''
      else if contains_word lower ''should'' then ''should''
      else if contains_word lower ''owns'' \<or> contains_word lower ''owner'' then ''owns''
      else if contains_word lower ''changed'' \<or> contains_word lower ''moved'' \<or> contains_word lower ''replaced''
      then ''changed'' else ''unknown'')"

definition clamp :: "nat \<Rightarrow> nat \<Rightarrow> nat \<Rightarrow> nat" where
  "clamp lo hi n = min hi (max lo n)"

definition slugify_words :: "string \<Rightarrow> nat \<Rightarrow> nat \<Rightarrow> string" where
  "slugify_words text lo hi =
     (let ws = take hi (split_whitespace text);
          count = clamp lo hi (length ws)
      in join ''-'' (filter (\<lambda>w. w \<noteq> []) (map (filter is_alnum) (take count ws))))"

definition detect_subject :: "string \<Rightarrow> string \<Rightarrow> string" where
  "detect_subject lower normalized =
     (if contains_word lower ''deploy'' \<or> contains_word lower ''deploys'' then ''deploy-process''
      else if contains_word lower ''release'' \<or> contains_word lower ''releases'' then ''release-process''
      else if contains_word lower ''owner'' \<or> contains_word lower ''owns'' then ''ownership''
      else if contains_word lower ''approval'' then ''approval-process''
      else slugify_words normalized 3 6)"

definition SCHEDULE_DAYS :: "string list" where
  "SCHEDULE_DAYS = [''monday'', ''tuesday'', ''wednesday'', ''thursday'', ''friday'']"

definition detect_object :: "string \<Rightarrow> string \<Rightarrow> string" where
  "detect_object normalized predicate =
     (case find (contains_word normalized) SCHEDULE_DAYS of
        Some day \<Rightarrow> day
      | None \<Rightarrow>
          if predicate = ''unknown'' then normalized
          else case find_sub normalized predicate of
                 Some idx \<Rightarrow>
                   (let rest = trim (drop (idx + length predicate) normalized)
                    in if rest = [] then normalized else rest)
               | None \<Rightarrow> normalized)"

definition hints_from_line_normalized :: "string \<Rightarrow> string \<Rightarrow> ClaimHints option" where
  "hints_from_line_normalized line normalized =
     (if \<not> is_claim_line line then None
      else if normalized = [] then None
      else let lower = to_ascii_lowercase line;
               predicate = detect_predicate lower
           in Some \<lparr>ch_subject_hint = detect_subject lower normalized,
                    ch_predicate_hint = predicate,
                    ch_object_hint = detect_object normalized predicate,
                    ch_confidence_ppm = fst (detect_confidence lower)\<rparr>)"

definition hints_from_line :: "string \<Rightarrow> ClaimHints option" where
  "hints_from_line line = hints_from_line_normalized line (normalize_line line)"

section \<open>White space inside words\<close>

text \<open>No suffix of a word starts with a white-space character.\<close>

definition ws_free :: "string \<Rightarrow> bool" where
  "ws_free w \<longleftrightarrow> (\<forall>k < length w. ws_len (drop k w) = 0)"

lemma ws_len_ascii: "ws1 a \<Longrightarrow> ws_len (a # y) = 1"
  by (cases "a # y" rule: ws_len.cases) auto

lemma ws_len_two: "ws2 a b \<Longrightarrow> ws_len (a # b # y) \<noteq> 0"
  by (cases y) auto

lemma ws_len_prefix: "ws_len (x @ y) = 0 \<Longrightarrow> ws_len x = 0"
proof (cases x rule: ws_len.cases)
  case (2 a)
  then show "ws_len (x @ y) = 0 \<Longrightarrow> ?thesis" using ws_len_ascii [of a y] by auto
next
  case (3 a b)
  then show "ws_len (x @ y) = 0 \<Longrightarrow> ?thesis"
    using ws_len_ascii [of a "b # y"] ws_len_two [of a b y] by auto
qed (auto split: if_splits)

lemma ws_len_space: "w \<noteq> [] \<Longrightarrow> ws_len w = 0 \<Longrightarrow> ws_len (w @ CHR '' '' # s) = 0"
proof (cases w rule: ws_len.cases)
  case (2 a)
  then show "ws_len w = 0 \<Longrightarrow> ?thesis"
    by (cases s) (auto simp: ws2_def ws3_def code_def split: if_splits)
next
  case (3 a b)
  then show "ws_len w = 0 \<Longrightarrow> ?thesis" by (auto simp: ws3_def code_def split: if_splits)
qed (auto split: if_splits)

lemma ws_freeI: "(\<And>u v. w = u @ v \<Longrightarrow> v \<noteq> [] \<Longrightarrow> ws_len v = 0) \<Longrightarrow> ws_free w"
  by (auto simp: ws_free_def) (metis append_take_drop_id drop_eq_Nil not_le)

lemma ws_freeD: "ws_free (u @ v) \<Longrightarrow> v \<noteq> [] \<Longrightarrow> ws_len v = 0"
  unfolding ws_free_def by (drule spec [of _ "length u"]) simp

lemma ws_free_drop: "ws_free w \<Longrightarrow> ws_free (drop n w)"
  unfolding ws_free_def by (metis drop_drop drop_eq_Nil not_le)

lemma split_ws_free:
  assumes "\<And>u v. rev acc = u @ v \<Longrightarrow> v \<noteq> [] \<Longrightarrow> ws_len (v @ s) = 0" and "w \<in> set (split_ws acc s)"
  shows "ws_free w"
  using assms
proof (induction acc s rule: split_ws.induct)
  case (1 acc s)
  have here: "ws_free (rev acc)"
    by (rule ws_freeI) (use "1.prems"(1) ws_len_prefix in blast)
  show ?case
  proof (cases s)
    case Nil
    then show ?thesis using "1.prems"(2) here by (auto simp: split_ws.simps [of acc "[]"] split: if_splits)
  next
    case (Cons c cs)
    show ?thesis
    proof (cases "ws_len s = 0")
      case True
      have "ws_len (v @ cs) = 0" if uv: "rev (c # acc) = u @ v" "v \<noteq> []" for u v
      proof -
        obtain v' z where "v = v' @ [z]" using uv(2) by (meson rev_exhaust)
        then have v: "v = v' @ [c]" "rev acc = u @ v'" using uv(1) by auto
        show ?thesis using "1.prems"(1) [OF v(2)] True Cons v(1) by (cases "v' = []") auto
      qed
      moreover have "w \<in> set (split_ws (c # acc) cs)"
        using "1.prems"(2) True Cons by (subst (asm) split_ws.simps) simp
      ultimately show ?thesis using "1.IH"(1) [OF Cons True] by blast
    next
      case False
      have "w \<in> set ((if acc = [] then [] else [rev acc]) @ split_ws [] (drop (ws_len s) s))"
        using "1.prems"(2) False Cons by (subst (asm) split_ws.simps) simp
      then show ?thesis using here "1.IH"(2) [OF Cons False] by (auto split: if_splits)
    qed
  qed
qed

lemma split_whitespace_free: "w \<in> set (split_whitespace s) \<Longrightarrow> ws_free w"
  unfolding split_whitespace_def by (rule split_ws_free [of "[]"]) auto

lemma trim_free: "ws_free w \<Longrightarrow> trim w = w"
proof -
  assume f: "ws_free w"
  have "ws_len w = 0" using f by (cases "w = []") (use ws_freeD [of "[]" w] in auto)
  then have s: "trim_start w = w" by (subst trim_start.simps) simp
  have d: "ws_len (drop k w) = 0" for k
    using f by (cases "k < length w") (auto simp: ws_free_def)
  have "ws_len_end w = 0" by (simp add: ws_len_end_def d)
  then show ?thesis by (simp add: trim_def s trim_end.simps [of w])
qed

section \<open>Phrase matching is exact\<close>

lemma window_matches_all2:
  "length w = length n \<Longrightarrow> window_matches n w \<longleftrightarrow> list_all2 eq_ignore_ascii_case w n"
  by (auto simp: window_matches_def list_all2_iff list_all_iff split: prod.splits)

lemma windows_split:
  "0 < n \<Longrightarrow> w \<in> set (windows n xs) \<longleftrightarrow> length w = n \<and> (\<exists>pre post. xs = pre @ w @ post)"
proof (rule iffI)
  assume n: "0 < n" and "w \<in> set (windows n xs)"
  then obtain i where "i < Suc (length xs) - n" and i: "w = take n (drop i xs)"
    by (auto simp: windows_def)
  then have l: "i + n \<le> length xs" by simp
  then have "xs = take i xs @ w @ drop n (drop i xs)" by (simp only: i append_take_drop_id)
  then show "length w = n \<and> (\<exists>pre post. xs = pre @ w @ post)" using i l by auto
next
  assume n: "0 < n" and "length w = n \<and> (\<exists>pre post. xs = pre @ w @ post)"
  then obtain pre post where p: "xs = pre @ w @ post" "length w = n" by blast
  then have "w = take n (drop (length pre) xs)" "length pre < Suc (length xs) - n" using n by auto
  then show "w \<in> set (windows n xs)" by (force simp: windows_def)
qed

definition phrase_occurs :: "string list \<Rightarrow> string list \<Rightarrow> bool" where
  "phrase_occurs haystack needle \<longleftrightarrow>
     (\<exists>pre mid post. haystack = pre @ mid @ post \<and> list_all2 eq_ignore_ascii_case mid needle)"

lemma windows_occurs:
  "needle \<noteq> [] \<Longrightarrow>
   list_ex (window_matches needle) (windows (length needle) haystack) \<longleftrightarrow> phrase_occurs haystack needle"
  unfolding phrase_occurs_def list_ex_iff
  by (metis length_greater_0_conv list_all2_lengthD window_matches_all2 windows_split)

lemma contains_word_occurs:
  assumes "w \<in> set (split_whitespace phrase)"
  shows "contains_word text w \<longleftrightarrow> phrase_occurs (words text) [w]"
proof -
  have "trim w = w" "w \<noteq> []"
    using assms split_whitespace_free trim_free split_whitespace_nonempty by blast+
  then show ?thesis
    by (auto simp: contains_word_def list_ex_iff phrase_occurs_def list_all2_Cons2 in_set_conv_decomp)
      (metis append_Cons append_Nil)+
qed

lemma contains_phrase_occurs:
  "contains_phrase text phrase \<longleftrightarrow>
     split_whitespace phrase \<noteq> [] \<and> phrase_occurs (words text) (split_whitespace phrase)"
proof -
  let ?n = "split_whitespace phrase" and ?h = "words text"
  consider "?n = []" | w where "?n = [w]" | "1 < length ?n"
    by (cases ?n rule: remdups_adj.cases) auto
  then show ?thesis
  proof cases
    case (2 w)
    then show ?thesis using contains_word_occurs [of w phrase "text"] by (simp add: contains_phrase_def)
  next
    case 3
    then have "?n \<noteq> []" by auto
    moreover have "\<not> length ?h < length ?n" if occ: "phrase_occurs ?h ?n"
    proof -
      obtain pre mid post where h: "?h = pre @ mid @ post" and m: "list_all2 eq_ignore_ascii_case mid ?n"
        using occ unfolding phrase_occurs_def by blast
      show ?thesis using list_all2_lengthD [OF m] by (simp add: h)
    qed
    moreover have "contains_phrase text phrase \<longleftrightarrow>
        \<not> length ?h < length ?n \<and> list_ex (window_matches ?n) (windows (length ?n) ?h)"
      using 3 \<open>?n \<noteq> []\<close> unfolding contains_phrase_def Let_def by simp
    ultimately show ?thesis using windows_occurs [of ?n ?h] by blast
  qed (simp add: contains_phrase_def)
qed

lemma contains_any_phrases: "contains_any text needles \<longleftrightarrow> list_ex (contains_phrase text) needles"
proof -
  have "(split_whitespace n \<noteq> [] \<and> list_ex (window_matches (split_whitespace n))
      (windows (length (split_whitespace n)) (words text))) = contains_phrase text n" for n
    unfolding contains_phrase_occurs using windows_occurs by blast
  then show ?thesis by (simp add: contains_any_def)
qed

text \<open>
  Phrases match whole words only.  A phrase is found exactly when its words occur as a
  consecutive run of complete words of the text, up to ASCII case, and the one-pass scan for many
  needles that the claim-line test uses agrees with matching each needle on its own.
\<close>

theorem phrase_match_exact:
  "(contains_phrase text phrase \<longleftrightarrow>
      split_whitespace phrase \<noteq> [] \<and>
      (\<exists>pre mid post. words text = pre @ mid @ post
         \<and> list_all2 eq_ignore_ascii_case mid (split_whitespace phrase)))
   \<and> contains_any text needles = list_ex (contains_phrase text) needles"
  by (simp add: contains_any_phrases contains_phrase_occurs phrase_occurs_def)

section \<open>Normalisation is idempotent\<close>

lemma split_ws_word:
  "(\<And>u v. w = u @ v \<Longrightarrow> v \<noteq> [] \<Longrightarrow> ws_len (v @ s) = 0) \<Longrightarrow> split_ws acc (w @ s) = split_ws (rev w @ acc) s"
proof (induction w arbitrary: acc)
  case (Cons c w)
  have "ws_len (c # w @ s) = 0" using Cons.prems [of "[]" "c # w"] by simp
  then have "split_ws acc ((c # w) @ s) = split_ws (c # acc) (w @ s)"
    by (subst split_ws.simps) simp
  also have "\<dots> = split_ws (rev w @ c # acc) s"
    by (rule Cons.IH) (use Cons.prems [of "c # u" for u] in auto)
  finally show ?case by simp
qed simp

lemma ws_len_blank: "ws_len (CHR '' '' # s) = 1"
  by (rule ws_len_ascii) (simp add: ws1_def code_def)

lemma split_join:
  "list_all (\<lambda>w. w \<noteq> [] \<and> ws_free w) ws \<Longrightarrow> split_whitespace (join '' '' ws) = ws"
proof (induction ws)
  case (Cons w ws)
  have w: "w \<noteq> []" "ws_free w" using Cons.prems by simp_all
  show ?case
  proof (cases ws)
    case Nil
    have "split_ws [] (w @ []) = split_ws (rev w @ []) []"
      by (rule split_ws_word) (use w ws_freeD in auto)
    then show ?thesis
      using w Nil by (simp add: split_whitespace_def split_ws.simps [of "rev w" "[]"])
  next
    case (Cons v vs)
    let ?rest = "join '' '' ws"
    have "split_ws [] (w @ CHR '' '' # ?rest) = split_ws (rev w @ []) (CHR '' '' # ?rest)"
      by (rule split_ws_word) (use w ws_freeD ws_len_space in blast)
    also have "\<dots> = w # split_ws [] ?rest"
      using w by (subst split_ws.simps) (simp add: ws_len_blank)
    finally show ?thesis
      using Cons.IH Cons.prems Cons by (simp add: split_whitespace_def)
  qed
qed (simp add: split_whitespace_def split_ws.simps)

lemma join_words_join:
  "list_all (\<lambda>w. w \<noteq> []) ws \<Longrightarrow>
   join_words ws out = (if out = [] then join '' '' ws else if ws = [] then out else out @ '' '' @ join '' '' ws)"
proof (induction ws arbitrary: out)
  case (Cons w ws)
  then show ?case
    using Cons.IH [of "(if out \<noteq> [] then out @ '' '' else out) @ w"] by (cases ws) (auto split: if_splits)
qed simp

lemma join_suffix:
  "list_all ws_free ws \<Longrightarrow> list_all (\<lambda>w. w \<noteq> []) ws \<Longrightarrow> ws_len (drop k (join '' '' ws)) \<le> 1"
proof (induction ws arbitrary: k)
  case (Cons w ws)
  have w: "ws_free w" "w \<noteq> []" using Cons.prems by simp_all
  show ?case
  proof (cases ws)
    case Nil
    then show ?thesis using w by (cases "k < length w") (auto simp: ws_free_def)
  next
    case (Cons v vs)
    let ?rest = "join '' '' ws"
    have j: "join '' '' (w # ws) = w @ CHR '' '' # ?rest" using Cons by simp
    consider "k < length w" | "k = length w" | m where "k = Suc (length w + m)"
      by (metis less_natE linorder_neqE_nat)
    then show ?thesis
    proof cases
      case 1
      then show ?thesis using ws_len_space [of "drop k w" ?rest] w by (simp add: j ws_free_def)
    next
      case 2
      then show ?thesis by (simp add: j ws_len_blank)
    next
      case 3
      then show ?thesis using Cons.IH [of m] Cons.prems by (simp add: j)
    qed
  qed
qed simp

lemma join_ends: "ws \<noteq> [] \<Longrightarrow> \<exists>p. join sep ws = p @ last ws"
proof (induction sep ws rule: join.induct)
  case (3 sep w v vs)
  then obtain p where "join sep (v # vs) = p @ last (v # vs)" by blast
  then have "join sep (w # v # vs) = (w @ sep @ p) @ last (w # v # vs)" by simp
  then show ?case by blast
qed auto

lemma join_starts: "\<exists>q. join '' '' (w # ws) = w @ q \<and> (q = [] \<or> (\<exists>r. q = CHR '' '' # r))"
  by (cases ws) auto

lemma trim_join:
  assumes "list_all ws_free ws" "list_all (\<lambda>w. w \<noteq> []) ws"
  shows "trim (join '' '' ws) = join '' '' ws"
proof (cases ws)
  case Nil
  then show ?thesis by (simp add: trim_def trim_start.simps [of "[]"] trim_end.simps [of "[]"] ws_len_end_def)
next
  case (Cons w vs)
  let ?j = "join '' '' ws"
  have w: "ws_len w = 0" "w \<noteq> []" using assms Cons ws_freeD [of "[]" w] by auto
  obtain q where q: "?j = w @ q" "q = [] \<or> (\<exists>r. q = CHR '' '' # r)" using join_starts Cons by blast
  then have s: "ws_len ?j = 0" using w ws_len_space by auto
  obtain p where p: "?j = p @ last ws" using join_ends [of ws] Cons by blast
  have l: "ws_free (last ws)" "last ws \<noteq> []" using assms Cons by (auto simp: list_all_iff last_in_set)
  then have "drop (length ?j - 1) ?j = drop (length (last ws) - 1) (last ws)"
    by (cases "last ws" rule: rev_cases) (simp_all add: p)
  then have "ws_len (drop (length ?j - 1) ?j) = 0" using l by (simp add: ws_free_def)
  then have "ws_len_end ?j = 0"
    using join_suffix [OF assms, of "length ?j - 2"] join_suffix [OF assms, of "length ?j - 3"]
    by (simp add: ws_len_end_def)
  then show ?thesis by (simp add: trim_def trim_start.simps [of ?j] s trim_end.simps [of ?j])
qed

lemma split_ws_chars: "w \<in> set (split_ws acc s) \<Longrightarrow> set w \<subseteq> set acc \<union> set s"
proof (induction acc s rule: split_ws.induct)
  case (1 acc s)
  show ?case
  proof (cases s)
    case Nil
    then show ?thesis using "1.prems" by (auto simp: split_ws.simps [of acc "[]"] split: if_splits)
  next
    case (Cons c cs)
    show ?thesis
    proof (cases "ws_len s = 0")
      case True
      then have "w \<in> set (split_ws (c # acc) cs)" using "1.prems" Cons by (subst (asm) split_ws.simps) simp
      then show ?thesis using "1.IH"(1) [OF Cons True] Cons by auto
    next
      case False
      then have "w = rev acc \<or> w \<in> set (split_ws [] (drop (ws_len s) s))"
        using "1.prems" Cons by (subst (asm) split_ws.simps) (auto split: if_splits)
      then show ?thesis using "1.IH"(2) [OF Cons False] by (auto dest: in_set_dropD)
    qed
  qed
qed

lemma lower_char_blank: "lower_char (CHR '' '') = CHR '' ''"
  by (simp add: lower_char_def is_upper_def code_def)

lemma normalize_line_join:
  "normalize_line line = join '' '' (split_whitespace (to_ascii_lowercase (trim line)))"
  unfolding normalize_line_def
  by (subst join_words_join) (auto simp: list_all_iff dest: split_whitespace_nonempty)

text \<open>
  Normalisation is idempotent, so claim identity and duplicate detection do not depend on how
  often a line went through it; a normalised line is exactly its words, in lower case, separated
  by one blank.
\<close>

theorem normalize_line_idempotent:
  "normalize_line (normalize_line line) = normalize_line line
   \<and> split_whitespace (normalize_line line) = split_whitespace (to_ascii_lowercase (trim line))"
proof -
  let ?ws = "split_whitespace (to_ascii_lowercase (trim line))"
  have f: "list_all (\<lambda>w. w \<noteq> [] \<and> ws_free w) ?ws"
    by (auto simp: list_all_iff dest: split_whitespace_nonempty split_whitespace_free)
  then have t: "trim (join '' '' ?ws) = join '' '' ?ws"
    by (intro trim_join) (auto simp: list_all_iff)
  have low: "to_ascii_lowercase w = w" if "w \<in> set ?ws" for w
    unfolding to_ascii_lowercase_def
  proof (rule map_idI)
    fix c assume "c \<in> set w"
    then have "c \<in> set (to_ascii_lowercase (trim line))"
      using that split_ws_chars [of w "[]" "to_ascii_lowercase (trim line)"] by (auto simp: split_whitespace_def)
    then show "lower_char c = c" by (auto simp: to_ascii_lowercase_def)
  qed
  have "to_ascii_lowercase (join '' '' ws) = join '' '' ws"
    if "\<And>w. w \<in> set ws \<Longrightarrow> to_ascii_lowercase w = w" for ws
    using that by (induction "'' ''" ws rule: join.induct) (auto simp: to_ascii_lowercase_def lower_char_blank)
  then have l: "to_ascii_lowercase (join '' '' ?ws) = join '' '' ?ws" using low by blast
  have "normalize_line (join '' '' ?ws) = join '' '' ?ws"
    by (simp add: normalize_line_join [of "join '' '' ?ws"] t l split_join [OF f])
  then show ?thesis by (simp add: normalize_line_join [of line] split_join [OF f])
qed

section \<open>An object taken from inside a word\<close>

text \<open>
  \<open>detect_object\<close> looks for the predicate as a substring, although the predicate was found as a
  whole word: in \<open>this api is slow\<close> the object starts inside \<open>this\<close>.
\<close>

lemma object_inside_word:
  "detect_predicate ''this api is slow'' = ''is'' \<and> detect_object ''this api is slow'' ''is'' = ''api is slow''"
  by code_simp

end
