(* ===== verification/Supersession.thy ===== *)
theory Supersession
  imports Words Candidates Workspace
begin

text \<open>
  Explicit replacement at ingest (\<open>src/ops/handlers/ingest/supersession.rs\<close>): a new claim whose
  wording announces a replacement retires the current claims on its subject, unless the recorded
  source order forbids it.  \<open>B\<close> is BLAKE3.
\<close>

section \<open>The policy\<close>

record ExplicitReplacementCandidate =
  xc_claim_id :: ClaimId
  xc_workspace_id :: string
  xc_source_id :: string
  xc_normalized_text :: string
  xc_subject_hint :: "string option"

datatype ExplicitSupersessionHoldReason = HoldReversed | HoldConcurrent | HoldUnknown

record HeldExplicitSupersession =
  hx_old_claim_id :: ClaimId
  hx_new_claim_id :: ClaimId
  hx_reason :: ExplicitSupersessionHoldReason

record ExplicitSupersessionOutcome =
  xo_applied :: "ClaimSupersededV2 list"
  xo_held :: "HeldExplicitSupersession list"

definition replacement_signal :: "string \<Rightarrow> bool" where
  "replacement_signal normalized_text = contains_replacement_signal normalized_text"

fun hold_reason :: "TemporalRelation option \<Rightarrow> ExplicitSupersessionHoldReason option" where
  "hold_reason None = None"
| "hold_reason (Some Same) = None"
| "hold_reason (Some Before) = None"
| "hold_reason (Some After) = Some HoldReversed"
| "hold_reason (Some Concurrent) = Some HoldConcurrent"
| "hold_reason (Some Unknown) = Some HoldUnknown"

definition supersession_event ::
  "(string \<Rightarrow> string) \<Rightarrow> ExplicitReplacementCandidate \<Rightarrow> ClaimCard \<Rightarrow> u64 \<Rightarrow> ClaimSupersededV2" where
  "supersession_event B new old t =
     \<lparr>cs_old_claim_id = cc_claim_id old, cs_new_claim_id = claim_str (xc_claim_id new),
      cs_workspace_id = xc_workspace_id new,
      cs_reason = ''explicit replacement wording accepted by temporal policy'',
      cs_decided_by = ''texo.ingest.run'', cs_observed_at_ms = t,
      cs_transition = transition_record B CLAIM_MACHINE (entity_for_claim (cc_claim_id old)) 1 2
        [\<lparr>cause_lane = 0, cause_key = ''ingest:'' @ xc_source_id new\<rparr>] t\<rparr>"

text \<open>The state of the loop: what is applied, what is held, and the old claims already decided.\<close>

type_synonym inference = "ClaimSupersededV2 list \<times> HeldExplicitSupersession list \<times> string list"

definition consider_pair ::
  "(string \<Rightarrow> string) \<Rightarrow> RelateTemporalPolicy \<Rightarrow> u64 \<Rightarrow> ExplicitReplacementCandidate \<Rightarrow> ClaimView \<Rightarrow>
   inference \<Rightarrow> inference" where
  "consider_pair B temporal t new old s =
     (case s of (applied, held, seen) \<Rightarrow>
       let card = cv_card old in
       if cc_claim_id card = claim_str (xc_claim_id new) \<or> cc_phase card \<noteq> 1
          \<or> cc_normalized_text card = xc_normalized_text new
       then s
       else case claim_id_try_from (cc_claim_id card) of
              Inl _ \<Rightarrow> s
            | Inr old_id \<Rightarrow>
                if cc_claim_id card \<in> set seen then s
                else (case hold_reason (compare_claims temporal old_id (xc_claim_id new)) of
                        Some r \<Rightarrow>
                          (applied, held @ [\<lparr>hx_old_claim_id = old_id, hx_new_claim_id = xc_claim_id new, hx_reason = r\<rparr>],
                           cc_claim_id card # seen)
                      | None \<Rightarrow> (applied @ [supersession_event B new card t], held, cc_claim_id card # seen)))"

text \<open>The group of a subject keeps the order of the view.\<close>

definition subject_group :: "WorkspaceView \<Rightarrow> string option \<Rightarrow> ClaimView list" where
  "subject_group view subject = filter (\<lambda>c. cc_subject_hint (cv_card c) = subject) (wv_claims view)"

definition consider_claim ::
  "(string \<Rightarrow> string) \<Rightarrow> WorkspaceView \<Rightarrow> RelateTemporalPolicy \<Rightarrow> u64 \<Rightarrow> ExplicitReplacementCandidate \<Rightarrow>
   inference \<Rightarrow> inference" where
  "consider_claim B view temporal t new s =
     (if \<not> replacement_signal (xc_normalized_text new) then s
      else fold (consider_pair B temporal t new) (subject_group view (xc_subject_hint new)) s)"

definition infer_explicit_supersessions ::
  "(string \<Rightarrow> string) \<Rightarrow> WorkspaceView \<Rightarrow> ExplicitReplacementCandidate list \<Rightarrow> u64 \<Rightarrow> RelateTemporalPolicy \<Rightarrow>
   ExplicitSupersessionOutcome" where
  "infer_explicit_supersessions B view new_claims t temporal =
     (case fold (consider_claim B view temporal t) new_claims ([], [], []) of
        (applied, held, seen) \<Rightarrow>
          \<lparr>xo_applied = sort_key (\<lambda>e. (cs_old_claim_id e, cs_new_claim_id e)) applied,
           xo_held = sort_key (\<lambda>h. (hx_old_claim_id h, hx_new_claim_id h)) held\<rparr>)"

fun map_result :: "('a \<Rightarrow> ('b, 'e) result) \<Rightarrow> 'a list \<Rightarrow> ('b list, 'e) result" where
  "map_result f [] = Inr []"
| "map_result f (x # xs) = res_bind (f x) (\<lambda>y. res_bind (map_result f xs) (\<lambda>ys. Inr (y # ys)))"

definition candidate_of_record :: "ClaimRecordedV2 \<Rightarrow> (ExplicitReplacementCandidate, TexoError) result" where
  "candidate_of_record c =
     res_bind (map_sum ErrIdParse id (claim_id_try_from (cr_claim_id c))) (\<lambda>i.
       Inr \<lparr>xc_claim_id = i, xc_workspace_id = cr_workspace_id c, xc_source_id = cr_source_id c,
            xc_normalized_text = cr_normalized_text c, xc_subject_hint = cr_subject_hint c\<rparr>)"

definition infer_supersessions ::
  "(string \<Rightarrow> string) \<Rightarrow> WorkspaceView \<Rightarrow> ClaimRecordedV2 list \<Rightarrow> u64 \<Rightarrow> RelateTemporalPolicy \<Rightarrow>
   (ExplicitSupersessionOutcome, TexoError) result" where
  "infer_supersessions B view new_claims t temporal =
     res_bind (map_result candidate_of_record new_claims) (\<lambda>cs.
       Inr (infer_explicit_supersessions B view cs t temporal))"

definition candidate_of_view :: "ClaimId set \<Rightarrow> ClaimView \<Rightarrow> ExplicitReplacementCandidate option" where
  "candidate_of_view new_ids v =
     (let card = cv_card v in
      case claim_id_try_from (cc_claim_id card) of
        Inl _ \<Rightarrow> None
      | Inr i \<Rightarrow>
          if i \<in> new_ids
          then Some \<lparr>xc_claim_id = i, xc_workspace_id = cc_workspace_id card, xc_source_id = cc_source_id card,
                     xc_normalized_text = cc_normalized_text card, xc_subject_hint = cc_subject_hint card\<rparr>
          else None)"

definition infer_indexed_supersessions ::
  "(string \<Rightarrow> string) \<Rightarrow> WorkspaceView \<Rightarrow> ClaimId set \<Rightarrow> u64 \<Rightarrow> RelateTemporalPolicy \<Rightarrow> ExplicitSupersessionOutcome" where
  "infer_indexed_supersessions B view new_ids t temporal =
     infer_explicit_supersessions B view (List.map_filter (candidate_of_view new_ids) (wv_claims view)) t temporal"

section \<open>Every decision is admissible\<close>

text \<open>When a pair may be decided at all, and what its decision has to be.\<close>

definition replaces :: "WorkspaceView \<Rightarrow> ExplicitReplacementCandidate \<Rightarrow> ClaimView \<Rightarrow> bool" where
  "replaces view new old \<longleftrightarrow>
     old \<in> set (wv_claims view) \<and> cc_subject_hint (cv_card old) = xc_subject_hint new \<and>
     replacement_signal (xc_normalized_text new) \<and> cc_phase (cv_card old) = 1 \<and>
     cc_claim_id (cv_card old) \<noteq> claim_str (xc_claim_id new) \<and>
     cc_normalized_text (cv_card old) \<noteq> xc_normalized_text new"

definition justified ::
  "(string \<Rightarrow> string) \<Rightarrow> WorkspaceView \<Rightarrow> ExplicitReplacementCandidate list \<Rightarrow> RelateTemporalPolicy \<Rightarrow> u64 \<Rightarrow>
   ClaimSupersededV2 \<Rightarrow> bool" where
  "justified B view news temporal t e \<longleftrightarrow>
     (\<exists>new \<in> set news. \<exists>old. replaces view new old \<and> e = supersession_event B new (cv_card old) t \<and>
        hold_reason (compare_claims temporal (ClaimId (cc_claim_id (cv_card old))) (xc_claim_id new)) = None)"

definition withheld ::
  "WorkspaceView \<Rightarrow> ExplicitReplacementCandidate list \<Rightarrow> RelateTemporalPolicy \<Rightarrow> HeldExplicitSupersession \<Rightarrow> bool" where
  "withheld view news temporal h \<longleftrightarrow>
     (\<exists>new \<in> set news. \<exists>old. replaces view new old \<and> hx_new_claim_id h = xc_claim_id new \<and>
        hx_old_claim_id h = ClaimId (cc_claim_id (cv_card old)) \<and>
        hold_reason (compare_claims temporal (hx_old_claim_id h) (xc_claim_id new)) = Some (hx_reason h))"

definition inference_ok ::
  "(string \<Rightarrow> string) \<Rightarrow> WorkspaceView \<Rightarrow> ExplicitReplacementCandidate list \<Rightarrow> RelateTemporalPolicy \<Rightarrow> u64 \<Rightarrow>
   inference \<Rightarrow> bool" where
  "inference_ok B view news temporal t s \<longleftrightarrow>
     (case s of (applied, held, seen) \<Rightarrow>
       (\<forall>e \<in> set applied. justified B view news temporal t e) \<and>
       (\<forall>h \<in> set held. withheld view news temporal h) \<and>
       distinct (map cs_old_claim_id applied @ map (claim_str \<circ> hx_old_claim_id) held) \<and>
       set (map cs_old_claim_id applied @ map (claim_str \<circ> hx_old_claim_id) held) = set seen)"

lemma claim_id_try_Inr: "claim_id_try_from v = Inr i \<Longrightarrow> i = ClaimId v"
  by (auto simp: claim_id_try_from_def expect_prefix_def split: if_splits)

lemma consider_pair_ok:
  assumes "inference_ok B view news temporal t s" "new \<in> set news"
    and "old \<in> set (wv_claims view)" "cc_subject_hint (cv_card old) = xc_subject_hint new"
    and "replacement_signal (xc_normalized_text new)"
  shows "inference_ok B view news temporal t (consider_pair B temporal t new old s)"
proof -
  obtain applied held seen where s: "s = (applied, held, seen)" by (cases s)
  let ?card = "cv_card old"
  show ?thesis
  proof (cases "cc_claim_id ?card = claim_str (xc_claim_id new) \<or> cc_phase ?card \<noteq> 1
      \<or> cc_normalized_text ?card = xc_normalized_text new \<or> cc_claim_id ?card \<in> set seen
      \<or> (\<exists>err. claim_id_try_from (cc_claim_id ?card) = Inl err)")
    case True
    then show ?thesis using assms(1) by (auto simp: consider_pair_def s Let_def split: sum.splits)
  next
    case False
    then obtain i where i: "claim_id_try_from (cc_claim_id ?card) = Inr i"
      by (cases "claim_id_try_from (cc_claim_id ?card)") auto
    have rep: "replaces view new old" using False assms(3-5) by (simp add: replaces_def)
    have fresh: "cc_claim_id ?card \<notin> set seen" using False by blast
    note id = claim_id_try_Inr [OF i]
    show ?thesis
    proof (cases "hold_reason (compare_claims temporal i (xc_claim_id new))")
      case None
      have "justified B view news temporal t (supersession_event B new ?card t)"
        using rep None assms(2) unfolding justified_def id by blast
      moreover have "cs_old_claim_id (supersession_event B new ?card t) = cc_claim_id ?card"
        by (simp add: supersession_event_def)
      moreover have "consider_pair B temporal t new old s =
          (applied @ [supersession_event B new ?card t], held, cc_claim_id ?card # seen)"
        using False by (simp add: consider_pair_def s Let_def i None)
      ultimately show ?thesis using assms(1) fresh by (auto simp: inference_ok_def s)
    next
      case (Some r)
      let ?h = "\<lparr>hx_old_claim_id = i, hx_new_claim_id = xc_claim_id new, hx_reason = r\<rparr>"
      have "withheld view news temporal ?h" using rep Some assms(2) unfolding withheld_def id by auto
      moreover have "consider_pair B temporal t new old s = (applied, held @ [?h], cc_claim_id ?card # seen)"
        using False by (simp add: consider_pair_def s Let_def i Some)
      ultimately show ?thesis using assms(1) fresh by (auto simp: inference_ok_def s id)
    qed
  qed
qed

lemma consider_claim_ok:
  assumes "inference_ok B view news temporal t s" "new \<in> set news"
  shows "inference_ok B view news temporal t (consider_claim B view temporal t new s)"
proof (cases "replacement_signal (xc_normalized_text new)")
  case True
  have "inference_ok B view news temporal t
      (fold (consider_pair B temporal t new) (subject_group view (xc_subject_hint new)) s)"
    by (rule fold_invariant [where Q = "\<lambda>old. old \<in> set (subject_group view (xc_subject_hint new))"])
      (use assms True in \<open>auto simp: subject_group_def intro!: consider_pair_ok\<close>)
  then show ?thesis using True by (simp add: consider_claim_def)
qed (use assms in \<open>simp add: consider_claim_def\<close>)

text \<open>
  C7: Explicit replacement is sound.  Every supersession appended at ingest retires a current claim
  of the view, on the subject of a new claim with replacement wording and another text, and the
  recorded source order does not contradict it; every pair the order contradicts, or cannot decide,
  is held with its reason; and a claim is decided at most once, so no claim is retired twice or both
  retired and held.
\<close>

theorem explicit_supersession_sound:
  "(\<forall>e \<in> set (xo_applied (infer_explicit_supersessions B view news t temporal)). justified B view news temporal t e)
   \<and> (\<forall>h \<in> set (xo_held (infer_explicit_supersessions B view news t temporal)). withheld view news temporal h)
   \<and> distinct (map cs_old_claim_id (xo_applied (infer_explicit_supersessions B view news t temporal)) @
       map (claim_str \<circ> hx_old_claim_id) (xo_held (infer_explicit_supersessions B view news t temporal)))"
proof -
  obtain applied held seen where f: "fold (consider_claim B view temporal t) news ([], [], []) = (applied, held, seen)"
    by (metis prod_cases3)
  have "inference_ok B view news temporal t (fold (consider_claim B view temporal t) news ([], [], []))"
    by (rule fold_invariant [where Q = "\<lambda>new. new \<in> set news"])
      (auto intro!: consider_claim_ok simp: inference_ok_def [of _ _ _ _ _ "([], [], [])"])
  then have ok: "inference_ok B view news temporal t (applied, held, seen)" by (simp only: f)
  let ?a = "sort_key (\<lambda>e. (cs_old_claim_id e, cs_new_claim_id e)) applied"
    and ?h = "sort_key (\<lambda>h. (hx_old_claim_id h, hx_new_claim_id h)) held"
  have m: "mset (map cs_old_claim_id ?a @ map (claim_str \<circ> hx_old_claim_id) ?h) =
      mset (map cs_old_claim_id applied @ map (claim_str \<circ> hx_old_claim_id) held)"
    by simp
  have "distinct (map cs_old_claim_id ?a @ map (claim_str \<circ> hx_old_claim_id) ?h)"
    unfolding mset_eq_imp_distinct_iff [OF m] using ok by (simp add: inference_ok_def)
  then show ?thesis using ok by (simp add: infer_explicit_supersessions_def f inference_ok_def)
qed

section \<open>Two replacements of one batch retire each other\<close>

text \<open>
  The loop compares every new claim with all current claims of the view, and the view it is given
  already holds the new claims.  Two of them on one subject, both worded as a replacement and
  without source order, are both retired, each in favour of the other.
\<close>

text \<open>
  Mutual retirement.  If two current claims on one subject with different texts both carry
  replacement wording, both are new in one ingest and neither has a source snapshot, the ingest
  appends the retirement of each by the other, so no claim on the subject stays current.
\<close>

theorem mutual_retirement:
  assumes "wv_claims view = [va, vb]" "cv_card va = a" "cv_card vb = b"
    and "cc_phase a = 1" "cc_phase b = 1" "cc_claim_id a < cc_claim_id b"
    and "cc_subject_hint a = cc_subject_hint b" "cc_normalized_text a \<noteq> cc_normalized_text b"
    and "replacement_signal (cc_normalized_text a)" "replacement_signal (cc_normalized_text b)"
    and "claim_id_try_from (cc_claim_id a) = Inr ia" "claim_id_try_from (cc_claim_id b) = Inr ib"
    and "ia \<in> new_ids" "ib \<in> new_ids"
    and "compare_claims temporal ia ib = None" "compare_claims temporal ib ia = None"
  shows "map (\<lambda>e. (cs_old_claim_id e, cs_new_claim_id e))
      (xo_applied (infer_indexed_supersessions B view new_ids t temporal)) =
    [(cc_claim_id a, cc_claim_id b), (cc_claim_id b, cc_claim_id a)]
   \<and> xo_held (infer_indexed_supersessions B view new_ids t temporal) = []"
proof -
  let ?ca = "\<lparr>xc_claim_id = ia, xc_workspace_id = cc_workspace_id a, xc_source_id = cc_source_id a,
     xc_normalized_text = cc_normalized_text a, xc_subject_hint = cc_subject_hint a\<rparr>"
  let ?cb = "\<lparr>xc_claim_id = ib, xc_workspace_id = cc_workspace_id b, xc_source_id = cc_source_id b,
     xc_normalized_text = cc_normalized_text b, xc_subject_hint = cc_subject_hint b\<rparr>"
  have ids: "claim_str ia = cc_claim_id a" "claim_str ib = cc_claim_id b" "cc_claim_id a \<noteq> cc_claim_id b"
    using claim_id_try_Inr assms(6,11,12) by fastforce+
  have news: "List.map_filter (candidate_of_view new_ids) (wv_claims view) = [?ca, ?cb]"
    by (simp add: map_filter_simps candidate_of_view_def Let_def assms(1-3,11-14))
  have grp: "subject_group view (cc_subject_hint a) = [va, vb]"
    by (simp add: subject_group_def assms(1-3,7))
  have "fold (consider_claim B view temporal t) [?ca, ?cb] ([], [], []) =
      ([supersession_event B ?ca b t, supersession_event B ?cb a t], [], [cc_claim_id a, cc_claim_id b])"
    using assms ids grp by (simp add: consider_claim_def consider_pair_def)
  then show ?thesis
    using assms(6) ids
    by (simp add: infer_indexed_supersessions_def infer_explicit_supersessions_def news supersession_event_def
        less_prod_def less_eq_prod_def)
qed

definition demo_replacement :: "string \<Rightarrow> string \<Rightarrow> ClaimView" where
  "demo_replacement i t =
     \<lparr>cv_card = claim_card_default\<lparr>cc_phase := 1, cc_claim_id := i, cc_text := t, cc_normalized_text := t,
        cc_subject_hint := Some ''deploy-process''\<rparr>,
      cv_status = StCurrent, cv_supersedes = []\<rparr>"

definition demo_batch :: WorkspaceView where
  "demo_batch =
     \<lparr>wv_workspace_id = ''demo'', wv_frontier = 2, wv_freshness = PfFresh,
      wv_claims = [demo_replacement ''claim_a'' ''deploys moved to friday'',
                   demo_replacement ''claim_b'' ''deploys changed to monday''],
      wv_conflicts = [], wv_sources = []\<rparr>"

lemma demo_signals:
  "contains_replacement_signal ''deploys moved to friday''" "contains_replacement_signal ''deploys changed to monday''"
  by code_simp+

theorem mutual_retirement_witness:
  "map (\<lambda>e. (cs_old_claim_id e, cs_new_claim_id e))
      (xo_applied (infer_indexed_supersessions id demo_batch {ClaimId ''claim_a'', ClaimId ''claim_b''} 1 policy_default)) =
    [(''claim_a'', ''claim_b''), (''claim_b'', ''claim_a'')]"
  using mutual_retirement [of demo_batch "demo_replacement ''claim_a'' ''deploys moved to friday''"
      "demo_replacement ''claim_b'' ''deploys changed to monday''" _ _ "ClaimId ''claim_a''" "ClaimId ''claim_b''"
      "{ClaimId ''claim_a'', ClaimId ''claim_b''}" policy_default id 1]
  by (simp add: demo_batch_def demo_replacement_def claim_card_default_def replacement_signal_def demo_signals
      claim_id_try_from_def expect_prefix_def starts_with_def compare_claims_def policy_default_def)

definition demo_candidate :: ExplicitReplacementCandidate where
  "demo_candidate =
     \<lparr>xc_claim_id = ClaimId ''claim_a'', xc_workspace_id = ''demo'', xc_source_id = ''src_a'',
      xc_normalized_text = ''deploys moved to friday'', xc_subject_hint = Some ''deploy-process''\<rparr>"

lemma demo_applied:
  "xo_applied (infer_explicit_supersessions id demo_batch [demo_candidate] 1 policy_default) =
    [supersession_event id demo_candidate (cv_card (demo_replacement ''claim_b'' ''deploys changed to monday'')) 1]"
  by (simp add: infer_explicit_supersessions_def consider_claim_def consider_pair_def subject_group_def demo_batch_def
      demo_replacement_def demo_candidate_def claim_card_default_def replacement_signal_def demo_signals
      compare_claims_def policy_default_def Let_def claim_id_try_from_def expect_prefix_def starts_with_def)

lemma explicit_supersession_sound_witness:
  "\<exists>e \<in> set (xo_applied (infer_explicit_supersessions id demo_batch [demo_candidate] 1 policy_default)).
     cs_old_claim_id e = ''claim_b'' \<and> justified id demo_batch [demo_candidate] policy_default 1 e"
proof -
  let ?e = "supersession_event id demo_candidate (cv_card (demo_replacement ''claim_b'' ''deploys changed to monday'')) 1"
  have "?e \<in> set (xo_applied (infer_explicit_supersessions id demo_batch [demo_candidate] 1 policy_default))"
    unfolding demo_applied by simp
  moreover from this have "justified id demo_batch [demo_candidate] policy_default 1 ?e"
    using explicit_supersession_sound [of id demo_batch "[demo_candidate]" 1 policy_default] by blast
  moreover have "cs_old_claim_id ?e = ''claim_b''" by (simp add: supersession_event_def demo_replacement_def)
  ultimately show ?thesis by blast
qed

end
