(* ===== verification/Effects.thy ===== *)
theory Effects
  imports Appends
begin

text \<open>
  The effects an operation handler has (\<open>src/ops/handlers/common.rs\<close>): it appends a payload through
  the runtime's context, and takes the receipts of what was appended.  An operation threads the
  environment and returns a value or an error; what was appended before an error stays appended.
  The context of the operation runtime (\<open>syncbat::Ctx\<close>, not in this repository) is the record
  \<open>ctx\<close> of the two handles the handlers use.
\<close>

type_synonym ('s, 'a) op = "'s append_env \<Rightarrow> 's append_env \<times> ('a, TexoError) result"

definition op_return :: "'a \<Rightarrow> ('s, 'a) op" where
  "op_return x env = (env, Inr x)"

definition op_fail :: "TexoError \<Rightarrow> ('s, 'a) op" where
  "op_fail e env = (env, Inl e)"

definition op_bind :: "('s, 'a) op \<Rightarrow> ('a \<Rightarrow> ('s, 'b) op) \<Rightarrow> ('s, 'b) op" where
  "op_bind m f env = (case m env of (env', Inl e) \<Rightarrow> (env', Inl e) | (env', Inr x) \<Rightarrow> f x env')"

definition op_lift :: "('a, TexoError) result \<Rightarrow> ('s, 'a) op" where
  "op_lift r env = (env, r)"

fun op_each :: "('a \<Rightarrow> ('s, 'b) op) \<Rightarrow> 'a list \<Rightarrow> ('s, 'b list) op" where
  "op_each f [] = op_return []"
| "op_each f (x # xs) = op_bind (f x) (\<lambda>y. op_bind (op_each f xs) (\<lambda>ys. op_return (y # ys)))"

text \<open>A loop whose body only has effects.\<close>

fun op_for :: "('a \<Rightarrow> ('s, unit) op) \<Rightarrow> 'a list \<Rightarrow> ('s, unit) op" where
  "op_for f [] = op_return ()"
| "op_for f (x # xs) = op_bind (f x) (\<lambda>_. op_for f xs)"

named_theorems op_simps "evaluation of operations"

lemma op_bind_return [simp, op_simps]: "op_bind (op_return x) f = f x"
  by (rule ext) (simp add: op_bind_def op_return_def)

lemma op_bind_fail [simp, op_simps]: "op_bind (op_fail e) f = op_fail e"
  by (rule ext) (simp add: op_bind_def op_fail_def)

lemma op_bind_Inr:
  "op_bind m f env = (env', Inr y) \<longleftrightarrow> (\<exists>env1 x. m env = (env1, Inr x) \<and> f x env1 = (env', Inr y))"
  by (cases "m env") (auto simp: op_bind_def split: sum.splits)

lemma op_bind_assoc: "op_bind (op_bind m f) g = op_bind m (\<lambda>x. op_bind (f x) g)"
  by (rule ext) (auto simp: op_bind_def split: prod.split sum.split)

lemma op_bind_unit: "op_bind m (\<lambda>_ :: unit. op_return ()) = m"
  by (rule ext) (auto simp: op_bind_def op_return_def split: prod.split sum.split)

lemma op_for_append: "op_for f (xs @ ys) = op_bind (op_for f xs) (\<lambda>_. op_for f ys)"
  by (induction xs) (simp_all add: op_bind_assoc)

lemma op_for_skip:
  "op_for (\<lambda>x. if P x then f x else op_return ()) xs = op_for f (filter P xs)"
  by (induction xs) simp_all

lemma op_for_map: "op_for f (map g xs) = op_for (\<lambda>x. f (g x)) xs"
  by (induction xs) simp_all

lemma op_each_rows:
  "op_each (\<lambda>x. op_bind (f x) (\<lambda>_. op_return (g x))) xs = op_bind (op_for f xs) (\<lambda>_. op_return (map g xs))"
  by (induction xs) (simp_all add: op_bind_assoc)

lemmas op_defs = op_return_def op_fail_def op_lift_def

section \<open>Appending through the context\<close>

record 's ctx =
  cx_append :: "'s append_env \<Rightarrow> event_kind \<Rightarrow> string \<Rightarrow> 's append_env \<times> (unit, string) result"
  cx_query :: "'s append_env \<Rightarrow> string \<Rightarrow> (unit, string) result"

text \<open>The context hands an append to the effect backend, and passes its error on as a message.\<close>

definition forwards :: "'c externals \<Rightarrow> ('s, 'c) store_api \<Rightarrow> 's ctx \<Rightarrow> bool" where
  "forwards ex api cx \<longleftrightarrow>
     (\<forall>env kind bytes. fst (cx_append cx env kind bytes) = fst (append_domain_event ex api env kind bytes) \<and>
        (isl (snd (cx_append cx env kind bytes)) \<longleftrightarrow> isl (snd (append_domain_event ex api env kind bytes))))"

definition backend_ctx :: "'c externals \<Rightarrow> ('s, 'c) store_api \<Rightarrow> 's ctx" where
  "backend_ctx ex api =
     \<lparr>cx_append = (\<lambda>env kind bytes. map_prod id (map_sum error_code id) (append_domain_event ex api env kind bytes)),
      cx_query = (\<lambda>_ _. Inr ())\<rparr>"

lemma backend_forwards: "forwards ex api (backend_ctx ex api)"
proof -
  have "isl (map_sum f g r) = isl r" for f :: "TexoError \<Rightarrow> string" and g :: "unit \<Rightarrow> unit" and r
    by (cases r) auto
  then show ?thesis by (simp add: forwards_def backend_ctx_def)
qed

definition op_runtime :: "string \<Rightarrow> string \<Rightarrow> TexoError" where
  "op_runtime op error = ErrOpRuntime op error False"

definition append_json :: "string \<Rightarrow> 's ctx \<Rightarrow> (domain_event \<Rightarrow> (string, string) result) \<Rightarrow> domain_event \<Rightarrow> ('s, unit) op" where
  "append_json op cx enc ev env =
     (case enc ev of
        Inl e \<Rightarrow> (env, Inl (ErrOpRuntime op (''canonical effect payload encoding failed: '' @ e) False))
      | Inr bytes \<Rightarrow> map_prod id (map_sum (op_runtime op) id) (cx_append cx env (kind_of ev) bytes))"

definition take_receipts :: "('s, ReceiptNote list) op" where
  "take_receipts env = (env\<lparr>ap_receipts := []\<rparr>, Inr (ap_receipts env))"

text \<open>\<open>receipts.pop()\<close>: the last one; the others are dropped with the vector.\<close>

definition take_one_receipt :: "string \<Rightarrow> ('s, ReceiptNote) op" where
  "take_one_receipt op =
     op_bind take_receipts (\<lambda>rs.
       if rs = [] then op_fail (ErrOpRuntime op ''append produced no receipt'' False) else op_return (last rs))"

definition query_view :: "string \<Rightarrow> 's ctx \<Rightarrow> ('s, unit) op" where
  "query_view op cx env = (env, map_sum (op_runtime op) id (cx_query cx env ''texo.workspace.view.v2''))"

definition run_op :: "string \<Rightarrow> ('t \<Rightarrow> (string, string) result) \<Rightarrow> ('s, 't) op \<Rightarrow> ('s, string) op" where
  "run_op op enc f = op_bind f (\<lambda>out. op_lift (map_sum (op_runtime op) id (enc out)))"

definition parse_input :: "string \<Rightarrow> (string \<Rightarrow> ('t, string) result) \<Rightarrow> string \<Rightarrow> ('s, 't) op" where
  "parse_input op dec bytes = op_lift (map_sum (ErrOpInput op) id (dec bytes))"

lemma map_error_Inr: "map_prod id (map_sum f id) p = (e, Inr x) \<longleftrightarrow> p = (e, Inr x)"
  by (cases p; cases "snd p") auto

lemma append_json_Inr:
  assumes "append_json op cx enc ev env = (env', Inr ())" "forwards ex api cx"
  obtains bytes where "enc ev = Inr bytes" "append_domain_event ex api env (kind_of ev) bytes = (env', Inr ())"
proof -
  from assms(1) obtain bytes where b: "enc ev = Inr bytes" "cx_append cx env (kind_of ev) bytes = (env', Inr ())"
    by (cases "enc ev") (auto simp: append_json_def map_error_Inr)
  have "fst (append_domain_event ex api env (kind_of ev) bytes) = env'"
    and "\<not> isl (snd (append_domain_event ex api env (kind_of ev) bytes))"
    using assms(2) b(2) unfolding forwards_def by (metis fst_conv, metis snd_conv sum.disc(2))
  then have "append_domain_event ex api env (kind_of ev) bytes = (env', Inr ())"
    by (cases "append_domain_event ex api env (kind_of ev) bytes"; cases "snd (append_domain_event ex api env (kind_of ev) bytes)")
      auto
  with b(1) show thesis by (rule that)
qed

text \<open>A successful append leaves exactly one more receipt.\<close>

lemma append_json_receipt:
  assumes "append_json op cx enc ev env = (env', Inr ())" "forwards ex api cx"
  shows "\<exists>r. ap_receipts env' = ap_receipts env @ [r] \<and> rn_kind_bits r = kind_of ev"
proof -
  obtain bytes where "append_domain_event ex api env (kind_of ev) bytes = (env', Inr ())"
    using append_json_Inr [OF assms] by metis
  then show ?thesis by (elim domain_event_Inr) simp
qed

lemma take_one_after:
  "ap_receipts env = rs @ [r] \<Longrightarrow> take_one_receipt op env = (env\<lparr>ap_receipts := []\<rparr>, Inr r)"
  by (simp add: take_one_receipt_def op_bind_def take_receipts_def op_return_def)

end
