(* ===== verification/Heuristic.thy ===== *)
theory Heuristic
  imports Words Workspace Ids
begin

text \<open>
  \<open>src/relate/heuristic.rs\<close>: the lexical conflict detector over a workspace view.  Claims that are
  current are grouped by subject, and every pair of a group with different texts and a
  contradiction signal is reported once, under its deterministic conflict id.
\<close>

record HeuristicConflict =
  hc_conflict_id :: string
  hc_claim_a :: string
  hc_claim_b :: string
  hc_subject_hint :: string
  hc_reason :: string
  hc_status :: string

record ConflictReport =
  cp_workspace_id :: string
  cp_conflicts :: "HeuristicConflict list"

definition CONTRADICTION_SUBJECTS :: "string list" where
  "CONTRADICTION_SUBJECTS = [''deploy-process'', ''release-process'', ''approval-process'', ''ownership'']"

definition unwrap_or_default :: "string option \<Rightarrow> string" where
  "unwrap_or_default o' = (case o' of None \<Rightarrow> [] | Some s \<Rightarrow> s)"

definition has_replacement_keyword :: "string \<Rightarrow> bool" where
  "has_replacement_keyword t = contains_replacement_signal t"

definition strip_not :: "string \<Rightarrow> string" where
  "strip_not s = replace_all ''not '' [] (replace_all '' not '' '' '' s)"

definition negation_mismatch :: "ClaimCard \<Rightarrow> ClaimCard \<Rightarrow> bool" where
  "negation_mismatch a b =
     (if contains_word (cc_normalized_text a) ''not'' = contains_word (cc_normalized_text b) ''not'' then False
      else strip_not (cc_normalized_text a) = strip_not (cc_normalized_text b))"

definition schedule_object_clash :: "string \<Rightarrow> string \<Rightarrow> string \<Rightarrow> bool" where
  "schedule_object_clash a_object b_object subject =
     (if subject \<noteq> ''deploy-process'' \<and> subject \<noteq> ''release-process'' then False
      else case (find (contains_word a_object) SCHEDULE_DAYS, find (contains_word b_object) SCHEDULE_DAYS) of
             (Some l, Some r) \<Rightarrow> l \<noteq> r
           | _ \<Rightarrow> False)"

definition abs_diff :: "u32 \<Rightarrow> u32 \<Rightarrow> u32" where
  "abs_diff a b = (if a < b then b - a else a - b)"

definition confidence_gap :: "ClaimCard \<Rightarrow> ClaimCard \<Rightarrow> bool" where
  "confidence_gap a b \<longleftrightarrow>
     250000 < abs_diff (cc_confidence_ppm a) (cc_confidence_ppm b) \<and> cc_normalized_text a \<noteq> cc_normalized_text b"

definition has_contradiction_signal :: "ClaimCard \<Rightarrow> ClaimCard \<Rightarrow> string \<Rightarrow> bool" where
  "has_contradiction_signal a b subject =
     (let ap = unwrap_or_default (cc_predicate_hint a); bp = unwrap_or_default (cc_predicate_hint b);
          ao = unwrap_or_default (cc_object_hint a); bo = unwrap_or_default (cc_object_hint b) in
      if has_replacement_keyword (cc_text a) \<or> has_replacement_keyword (cc_normalized_text a)
         \<or> has_replacement_keyword (cc_text b) \<or> has_replacement_keyword (cc_normalized_text b) then True
      else if negation_mismatch a b then True
      else if ap \<noteq> bp \<and> (ap = ''changed'' \<or> bp = ''changed'') then True
      else if ap = ''owns'' \<and> bp = ''owns'' \<and> ao \<noteq> bo then True
      else if schedule_object_clash ao bo subject then True
      else if confidence_gap a b then True
      else subject \<in> set CONTRADICTION_SUBJECTS \<and> ao \<noteq> bo \<and> ao \<noteq> [] \<and> bo \<noteq> [])"

definition conflict_reason :: "string \<Rightarrow> ClaimCard \<Rightarrow> ClaimCard \<Rightarrow> string" where
  "conflict_reason subject a b =
     ''contradictory current claims on '' @ subject @ '': '' @ [CHR 0x22] @ cc_text a @ [CHR 0x22]
       @ '' vs '' @ [CHR 0x22] @ cc_text b @ [CHR 0x22]"

text \<open>One pair of the two nested loops; the ids are parsed only when the pair is reported.\<close>

definition detect_pair ::
  "(string \<Rightarrow> string) \<Rightarrow> string \<Rightarrow> ClaimCard \<times> ClaimCard \<Rightarrow> (HeuristicConflict option, TexoError) result" where
  "detect_pair B subject p =
     (case p of (a, b) \<Rightarrow>
       if cc_normalized_text a = cc_normalized_text b \<or> \<not> has_contradiction_signal a b subject then Inr None
       else res_bind (map_sum ErrIdParse id (claim_id_try_from (cc_claim_id a))) (\<lambda>ia.
            res_bind (map_sum ErrIdParse id (claim_id_try_from (cc_claim_id b))) (\<lambda>ib.
              Inr (Some \<lparr>hc_conflict_id = conflict_str (conflict_id_from_pair B ia ib),
                         hc_claim_a = cc_claim_id a, hc_claim_b = cc_claim_id b, hc_subject_hint = subject,
                         hc_reason = conflict_reason subject a b, hc_status = ''open''\<rparr>))))"

fun group_pairs :: "'a list \<Rightarrow> ('a \<times> 'a) list" where
  "group_pairs [] = []"
| "group_pairs (x # xs) = map (Pair x) xs @ group_pairs xs"

fun detect_pairs ::
  "(string \<Rightarrow> string) \<Rightarrow> string \<Rightarrow> (ClaimCard \<times> ClaimCard) list \<Rightarrow> (HeuristicConflict list, TexoError) result" where
  "detect_pairs B subject [] = Inr []"
| "detect_pairs B subject (p # ps) =
     res_bind (detect_pair B subject p) (\<lambda>h.
     res_bind (detect_pairs B subject ps) (\<lambda>hs. Inr ((case h of None \<Rightarrow> [] | Some e \<Rightarrow> [e]) @ hs)))"

fun detect_groups ::
  "(string \<Rightarrow> string) \<Rightarrow> (string, ClaimCard list) btree \<Rightarrow> (HeuristicConflict list, TexoError) result" where
  "detect_groups B [] = Inr []"
| "detect_groups B ((subject, members) # gs) =
     res_bind (detect_pairs B subject (group_pairs members)) (\<lambda>hs.
     res_bind (detect_groups B gs) (\<lambda>rest. Inr (hs @ rest)))"

definition card_subject :: "ClaimCard \<Rightarrow> string" where
  "card_subject c = unwrap_or_default (cc_subject_hint c)"

definition by_subject :: "ClaimCard list \<Rightarrow> (string, ClaimCard list) btree" where
  "by_subject cards =
     foldl (\<lambda>m c. if cc_phase c \<noteq> 1 then m else bt_push (card_subject c) c m) [] cards"

definition detect_conflicts :: "(string \<Rightarrow> string) \<Rightarrow> WorkspaceView \<Rightarrow> (ConflictReport, TexoError) result" where
  "detect_conflicts B view =
     res_bind (detect_groups B (by_subject (map cv_card (wv_claims view)))) (\<lambda>cs.
       Inr \<lparr>cp_workspace_id = wv_workspace_id view, cp_conflicts = sort_key hc_conflict_id cs\<rparr>)"

section \<open>The signal is symmetric\<close>

lemma abs_diff_commute: "abs_diff a b = abs_diff b a"
  by (simp add: abs_diff_def)

lemma clash_commute: "schedule_object_clash ao bo s = schedule_object_clash bo ao s"
  by (auto simp: schedule_object_clash_def split: option.split)

lemma mismatch_commute: "negation_mismatch a b = negation_mismatch b a"
  by (auto simp: negation_mismatch_def)

lemma signal_commute: "has_contradiction_signal a b s = has_contradiction_signal b a s"
  unfolding has_contradiction_signal_def Let_def confidence_gap_def
  using abs_diff_commute [of "cc_confidence_ppm a"] clash_commute [of _ _ s] mismatch_commute [of a b]
  by (smt (verit))

section \<open>Detection is exact\<close>

lemma by_subject_get:
  "bt_get (by_subject cards) s =
     (case filter (\<lambda>c. cc_phase c = 1 \<and> card_subject c = s) cards of [] \<Rightarrow> None | cs \<Rightarrow> Some cs)"
proof (induction cards rule: rev_induct)
  case (snoc c cards)
  then show ?case by (auto simp: by_subject_def bt_push_def split: list.splits option.splits)
qed (simp add: by_subject_def)

lemma by_subject_ok: "bt_ok (by_subject cards)"
  by (induction cards rule: rev_induct) (auto simp: by_subject_def)

lemma detect_pairs_set:
  "detect_pairs B s ps = Inr hs \<Longrightarrow> set hs = {h. \<exists>p \<in> set ps. detect_pair B s p = Inr (Some h)}
     \<and> (\<forall>p \<in> set ps. \<exists>h. detect_pair B s p = Inr h)"
  by (induction ps arbitrary: hs) (auto simp: res_bind_eq_Inr split: option.splits)

lemma detect_groups_set:
  "detect_groups B gs = Inr hs \<Longrightarrow>
   set hs = {h. \<exists>s g p. (s, g) \<in> set gs \<and> p \<in> set (group_pairs g) \<and> detect_pair B s p = Inr (Some h)}
   \<and> (\<forall>s g p. (s, g) \<in> set gs \<longrightarrow> p \<in> set (group_pairs g) \<longrightarrow> (\<exists>h. detect_pair B s p = Inr h))"
proof (induction gs arbitrary: hs)
  case (Cons x gs)
  obtain s g where x: "x = (s, g)" by (cases x)
  from Cons.prems obtain h1 h2 where h: "detect_pairs B s (group_pairs g) = Inr h1" "detect_groups B gs = Inr h2" "hs = h1 @ h2"
    by (auto simp: x res_bind_eq_Inr)
  show ?case using detect_pairs_set [OF h(1)] Cons.IH [OF h(2)] by (auto simp: x h(3))
qed simp

lemma group_pairs_set: "distinct xs \<Longrightarrow> a \<noteq> b \<Longrightarrow>
  ((a, b) \<in> set (group_pairs xs) \<or> (b, a) \<in> set (group_pairs xs)) \<longleftrightarrow> a \<in> set xs \<and> b \<in> set xs"
  by (induction xs) auto

lemma group_pairs_in: "(a, b) \<in> set (group_pairs xs) \<Longrightarrow> a \<in> set xs \<and> b \<in> set xs"
  by (induction xs) auto

text \<open>When two cards contradict each other.\<close>

definition contradict :: "ClaimCard \<Rightarrow> ClaimCard \<Rightarrow> bool" where
  "contradict a b \<longleftrightarrow>
     cc_phase a = 1 \<and> cc_phase b = 1 \<and> card_subject a = card_subject b \<and>
     cc_normalized_text a \<noteq> cc_normalized_text b \<and> has_contradiction_signal a b (card_subject a)"

lemma detect_pair_Some:
  "detect_pair B s (a, b) = Inr (Some h) \<Longrightarrow>
   hc_claim_a h = cc_claim_id a \<and> hc_claim_b h = cc_claim_id b \<and>
   cc_normalized_text a \<noteq> cc_normalized_text b \<and> has_contradiction_signal a b s"
  by (auto simp: detect_pair_def res_bind_eq_Inr split: if_splits)

text \<open>
  C8: Detection is exact.  For a view whose claims have distinct ids, the report names the pair of two
  claims exactly when both are current, share their subject, differ in text and carry a
  contradiction signal, in whichever order the two are given; and the report is in the order of the
  conflict ids.
\<close>

theorem conflict_detection_exact:
  assumes "detect_conflicts B view = Inr report" and "distinct (map (cc_claim_id \<circ> cv_card) (wv_claims view))"
    and "a \<in> cv_card ` set (wv_claims view)" "b \<in> cv_card ` set (wv_claims view)" "a \<noteq> b"
  shows "((\<exists>h \<in> set (cp_conflicts report). {hc_claim_a h, hc_claim_b h} = {cc_claim_id a, cc_claim_id b}) \<longleftrightarrow>
      contradict a b) \<and> contradict a b = contradict b a \<and> sorted (map hc_conflict_id (cp_conflicts report))"
proof -
  let ?cards = "map cv_card (wv_claims view)"
  have inj: "inj_on cc_claim_id (set ?cards)" and dist: "distinct ?cards"
    using assms(2) by (simp_all add: distinct_map flip: map_map)
  obtain cs where cs: "detect_groups B (by_subject ?cards) = Inr cs" "cp_conflicts report = sort_key hc_conflict_id cs"
    using assms(1) by (auto simp: detect_conflicts_def res_bind_eq_Inr)
  note D = detect_groups_set [OF cs(1)]
  have grp: "(s, g) \<in> set (by_subject ?cards) \<longleftrightarrow>
      g \<noteq> [] \<and> g = filter (\<lambda>c. cc_phase c = 1 \<and> card_subject c = s) ?cards" for s g
    using map_of_eq_Some_iff [OF bt_ok_distinct [OF by_subject_ok [of ?cards]], of s g] by_subject_get [of ?cards s]
    by (cases "filter (\<lambda>c. cc_phase c = 1 \<and> card_subject c = s) ?cards") auto
  have sym: "contradict a b = contradict b a" by (auto simp: contradict_def signal_commute)
  have snd1: "contradict a b" if h: "h \<in> set cs" "{hc_claim_a h, hc_claim_b h} = {cc_claim_id a, cc_claim_id b}" for h
  proof -
    obtain s g x y where p: "(s, g) \<in> set (by_subject ?cards)" "(x, y) \<in> set (group_pairs g)"
      "detect_pair B s (x, y) = Inr (Some h)" using D h(1) by auto
    have xy: "x \<in> set g" "y \<in> set g" using group_pairs_in [OF p(2)] by auto
    have con: "contradict x y" using p(1) xy detect_pair_Some [OF p(3)] unfolding grp contradict_def by auto
    have "{cc_claim_id x, cc_claim_id y} = {cc_claim_id a, cc_claim_id b}"
      using detect_pair_Some [OF p(3)] h(2) by simp
    moreover have "x \<in> set ?cards" "y \<in> set ?cards" using p(1) xy unfolding grp by auto
    ultimately have "x = a \<and> y = b \<or> x = b \<and> y = a"
      using assms(3,4) unfolding doubleton_eq_iff by (metis inj inj_onD set_map)
    then show ?thesis using con sym by auto
  qed
  have cmp: "\<exists>h \<in> set cs. {hc_claim_a h, hc_claim_b h} = {cc_claim_id a, cc_claim_id b}" if c: "contradict a b"
  proof -
    let ?g = "filter (\<lambda>c. cc_phase c = 1 \<and> card_subject c = card_subject a) ?cards"
    have g: "a \<in> set ?g" "b \<in> set ?g" using c assms(3,4) by (auto simp: contradict_def)
    then have in_g: "(card_subject a, ?g) \<in> set (by_subject ?cards)" unfolding grp by (metis empty_iff list.set(1))
    have found: "\<exists>h \<in> set cs. {hc_claim_a h, hc_claim_b h} = {cc_claim_id x, cc_claim_id y}"
      if xy: "(x, y) \<in> set (group_pairs ?g)" "contradict x y" "card_subject x = card_subject a" for x y
    proof -
      obtain r where r: "detect_pair B (card_subject a) (x, y) = Inr r" using conjunct2 [OF D] in_g xy(1) by blast
      then obtain h where h: "r = Some h" using xy(2,3) by (auto simp: detect_pair_def contradict_def res_bind_eq_Inr)
      have "\<exists>s g p. (s, g) \<in> set (by_subject ?cards) \<and> p \<in> set (group_pairs g) \<and> detect_pair B s p = Inr (Some h)"
        using in_g xy(1) r unfolding h by (intro exI conjI)
      then have "h \<in> set cs" by (simp only: conjunct1 [OF D] mem_Collect_eq)
      then show ?thesis using detect_pair_Some [OF r [unfolded h]] by (intro bexI [of _ h]) simp_all
    qed
    have "(a, b) \<in> set (group_pairs ?g) \<or> (b, a) \<in> set (group_pairs ?g)"
      using group_pairs_set [of ?g a b] g dist assms(5) by simp
    moreover have "contradict b a" using c sym by blast
    moreover have "card_subject b = card_subject a" using c by (simp add: contradict_def)
    ultimately show ?thesis
      using found [of a b] found [of b a, unfolded insert_commute [of "cc_claim_id b"]] c by blast
  qed
  have "(\<exists>h \<in> set cs. {hc_claim_a h, hc_claim_b h} = {cc_claim_id a, cc_claim_id b}) \<longleftrightarrow> contradict a b"
    using snd1 cmp by blast
  then show ?thesis using sym unfolding cs(2) by (simp only: set_sort sorted_sort_key simp_thms)
qed

definition demo_card :: "string \<Rightarrow> string \<Rightarrow> ClaimCard" where
  "demo_card i t = claim_card_default\<lparr>cc_phase := 1, cc_claim_id := ''claim_'' @ i, cc_text := t, cc_normalized_text := t,
     cc_subject_hint := Some ''deploy-process''\<rparr>"

definition demo_view :: WorkspaceView where
  "demo_view = \<lparr>wv_workspace_id = ''w'', wv_frontier = 2, wv_freshness = PfFresh,
     wv_claims = [\<lparr>cv_card = demo_card ''a'' ''moved'', cv_status = StCurrent, cv_supersedes = []\<rparr>,
                  \<lparr>cv_card = demo_card ''b'' ''gated'', cv_status = StCurrent, cv_supersedes = []\<rparr>],
     wv_conflicts = [], wv_sources = []\<rparr>"

lemma detect_pair_total:
  "starts_with (cc_claim_id a) ''claim_'' \<Longrightarrow> starts_with (cc_claim_id b) ''claim_'' \<Longrightarrow> \<exists>r. detect_pair B s (a, b) = Inr r"
  by (auto simp: detect_pair_def claim_id_try_from_def expect_prefix_def starts_with_def)

lemma detect_pairs_total:
  "\<forall>p \<in> set ps. \<exists>r. detect_pair B s p = Inr r \<Longrightarrow> \<exists>hs. detect_pairs B s ps = Inr hs"
  by (induction ps) (auto simp: res_bind_eq_Inr)

lemma by_subject_members:
  assumes "(s, g) \<in> set (by_subject cards)"
  shows "g = filter (\<lambda>c. cc_phase c = 1 \<and> card_subject c = s) cards" and "g \<noteq> []"
proof -
  have "bt_get (by_subject cards) s = Some g"
    using assms bt_ok_distinct [OF by_subject_ok] by (simp add: map_of_eq_Some_iff)
  then show "g = filter (\<lambda>c. cc_phase c = 1 \<and> card_subject c = s) cards" and "g \<noteq> []"
    unfolding by_subject_get by (auto split: list.splits)
qed

lemma detect_groups_total:
  assumes "\<And>s g p. (s, g) \<in> set gs \<Longrightarrow> p \<in> set (group_pairs g) \<Longrightarrow> \<exists>r. detect_pair B s p = Inr r"
  shows "\<exists>hs. detect_groups B gs = Inr hs"
  using assms
proof (induction gs)
  case (Cons x gs)
  obtain s g where x: "x = (s, g)" by (cases x)
  obtain h where "detect_pairs B s (group_pairs g) = Inr h"
    using detect_pairs_total [of "group_pairs g" B s] Cons.prems [of s g] by (auto simp: x)
  moreover obtain hs where "detect_groups B gs = Inr hs" using Cons.IH Cons.prems by (meson list.set_intros(2))
  ultimately show ?case by (simp add: x)
qed simp

lemma detect_conflicts_total:
  assumes "\<And>c. c \<in> set (wv_claims view) \<Longrightarrow> starts_with (cc_claim_id (cv_card c)) ''claim_''"
  shows "\<exists>report. detect_conflicts B view = Inr report"
proof -
  let ?m = "by_subject (map cv_card (wv_claims view))"
  have "\<exists>r. detect_pair B s p = Inr r" if m: "(s, g) \<in> set ?m" "p \<in> set (group_pairs g)" for s g p
  proof -
    obtain a b where p: "p = (a, b)" by (cases p)
    have "set g \<subseteq> cv_card ` set (wv_claims view)" by (auto simp: by_subject_members(1) [OF m(1)])
    moreover have "a \<in> set g \<and> b \<in> set g" using group_pairs_in m(2) p by simp
    ultimately have "starts_with (cc_claim_id a) ''claim_'' \<and> starts_with (cc_claim_id b) ''claim_''" using assms by auto
    then show ?thesis unfolding p by (intro detect_pair_total) simp_all
  qed
  then obtain hs where "detect_groups B ?m = Inr hs" using detect_groups_total [of ?m B] by blast
  then show ?thesis by (simp add: detect_conflicts_def)
qed

theorem conflict_detection_exact_witness:
  "\<exists>report. detect_conflicts id demo_view = Inr report \<and>
     (\<exists>h \<in> set (cp_conflicts report). {hc_claim_a h, hc_claim_b h} = {''claim_a'', ''claim_b''})"
proof -
  have "\<forall>c \<in> set (wv_claims demo_view). starts_with (cc_claim_id (cv_card c)) ''claim_''"
    by (simp add: demo_view_def demo_card_def starts_with_def)
  then obtain report where r: "detect_conflicts id demo_view = Inr report"
    using detect_conflicts_total [of demo_view id] by blast
  let ?a = "demo_card ''a'' ''moved''" and ?b = "demo_card ''b'' ''gated''"
  have "contradict ?a ?b" by code_simp
  moreover have "distinct (map (cc_claim_id \<circ> cv_card) (wv_claims demo_view))"
    by (simp add: demo_view_def demo_card_def)
  moreover have "?a \<in> cv_card ` set (wv_claims demo_view)" "?b \<in> cv_card ` set (wv_claims demo_view)"
    by (simp_all add: demo_view_def)
  moreover have ids: "cc_claim_id ?a = ''claim_a''" "cc_claim_id ?b = ''claim_b''" by (simp_all add: demo_card_def)
  moreover have "?a \<noteq> ?b" using ids by (intro notI) simp
  ultimately show ?thesis using conflict_detection_exact [OF r, of ?a ?b] r by simp
qed

end
