(* ===== verification/Conflicts.thy ===== *)
theory Conflicts
  imports Effects Heuristic Lifecycle
begin

text \<open>
  \<open>src/ops/handlers/conflicts.rs\<close>: listing, committing and resolving conflicts.  A handler is the
  closure it runs under \<open>run_op\<close> on its parsed input; the view it assembles and the card the store
  projects are arguments.
\<close>

section \<open>Listing\<close>

record ConflictRow =
  or_conflict_id :: string
  or_claim_a :: string
  or_claim_b :: string
  or_subject_hint :: string
  or_reason :: string
  or_status :: ConflictStatus

record ConflictsOutput =
  ol_open :: "ConflictRow list"
  ol_resolved :: "ConflictRow list"

definition conflict_status :: "ConflictCard \<Rightarrow> ConflictStatus" where
  "conflict_status c = (if cf_phase c = 2 then CsResolved else if cf_phase c = 3 then CsIgnored else CsOpen)"

definition find_claim :: "WorkspaceView \<Rightarrow> string \<Rightarrow> ClaimView option" where
  "find_claim view i = find (\<lambda>c. cc_claim_id (cv_card c) = i) (wv_claims view)"

definition conflict_subject :: "WorkspaceView \<Rightarrow> ConflictCard \<Rightarrow> string" where
  "conflict_subject view c =
     unwrap_or_default (Option.bind (find_claim view (cf_claim_a c)) (\<lambda>v. cc_subject_hint (cv_card v)))"

definition claim_text :: "WorkspaceView \<Rightarrow> string \<Rightarrow> string" where
  "claim_text view i = unwrap_or_default (map_option (\<lambda>v. cc_text (cv_card v)) (find_claim view i))"

definition newer_claim :: "WorkspaceView \<Rightarrow> string \<Rightarrow> string \<Rightarrow> (ClaimCard, TexoError) result" where
  "newer_claim view left right =
     res_bind (ok_or (find_claim view left) (ErrMissingEntity (entity_for_claim left))) (\<lambda>l.
     res_bind (ok_or (find_claim view right) (ErrMissingEntity (entity_for_claim right))) (\<lambda>r.
       Inr (if cc_observed_at_ms (cv_card r) \<le> cc_observed_at_ms (cv_card l) then cv_card l else cv_card r)))"

definition conflict_row :: "WorkspaceView \<Rightarrow> ConflictCard \<Rightarrow> ConflictRow" where
  "conflict_row view c =
     \<lparr>or_conflict_id = cf_conflict_id c, or_claim_a = cf_claim_a c, or_claim_b = cf_claim_b c,
      or_subject_hint = conflict_subject view c, or_reason = cf_reason c, or_status = conflict_status c\<rparr>"

definition conflicts_output :: "WorkspaceView \<Rightarrow> ConflictsOutput" where
  "conflicts_output view =
     \<lparr>ol_open = sort_key or_conflict_id
        (map (conflict_row view) (filter (\<lambda>c. cf_phase c = 1) (wv_conflicts view))),
      ol_resolved = sort_key or_conflict_id
        (map (conflict_row view) (filter (\<lambda>c. cf_phase c \<noteq> 1) (wv_conflicts view)))\<rparr>"

definition conflicts_list :: "'s ctx \<Rightarrow> WorkspaceView \<Rightarrow> ('s, ConflictsOutput) op" where
  "conflicts_list cx view =
     op_bind (query_view ''texo.conflicts.list'' cx) (\<lambda>_. op_return (conflicts_output view))"

section \<open>Committing detected conflicts\<close>

record CommittedConflict =
  km_conflict_id :: string
  km_sequence :: u64
  km_receipt :: ReceiptNote

definition opened_event :: "(string \<Rightarrow> string) \<Rightarrow> WorkspaceView \<Rightarrow> u64 \<Rightarrow> HeuristicConflict \<Rightarrow> ClaimCard \<Rightarrow> ConflictOpenedV2" where
  "opened_event B view observed h newer =
     \<lparr>op_conflict_id = hc_conflict_id h, op_workspace_id = wv_workspace_id view, op_claim_a = hc_claim_a h,
      op_claim_b = hc_claim_b h, op_reason = hc_reason h, op_detector = ''heuristic-v1'', op_observed_at_ms = observed,
      op_transition = transition_record B CONFLICT_MACHINE (entity_for_conflict (hc_conflict_id h)) 0 1
        [\<lparr>cause_lane = 0, cause_key = ''ingest:'' @ cc_source_id newer\<rparr>] observed\<rparr>"

definition commit_entry ::
  "(string \<Rightarrow> string) \<Rightarrow> 's ctx \<Rightarrow> (domain_event \<Rightarrow> (string, string) result) \<Rightarrow> WorkspaceView \<Rightarrow> u64 \<Rightarrow>
   HeuristicConflict \<Rightarrow> ('s, CommittedConflict option) op" where
  "commit_entry B cx enc view observed h =
     (if hc_conflict_id h \<in> set (map cf_conflict_id (wv_conflicts view)) then op_return None
      else op_bind (op_lift (newer_claim view (hc_claim_a h) (hc_claim_b h))) (\<lambda>newer.
           op_bind (append_json ''texo.conflicts.commit'' cx enc (EvConflictOpened (opened_event B view observed h newer))) (\<lambda>_.
           op_bind (take_one_receipt ''texo.conflicts.commit'') (\<lambda>r.
             op_return (Some \<lparr>km_conflict_id = hc_conflict_id h, km_sequence = rn_global_sequence r, km_receipt = r\<rparr>)))))"

definition conflicts_commit ::
  "(string \<Rightarrow> string) \<Rightarrow> 's ctx \<Rightarrow> (domain_event \<Rightarrow> (string, string) result) \<Rightarrow> WorkspaceView \<Rightarrow> u64 \<Rightarrow>
   ('s, CommittedConflict list) op" where
  "conflicts_commit B cx enc view observed =
     op_bind (query_view ''texo.conflicts.commit'' cx) (\<lambda>_.
     op_bind (op_lift (detect_conflicts B view)) (\<lambda>report.
     op_bind (op_each (commit_entry B cx enc view observed) (cp_conflicts report)) (\<lambda>rows.
       op_return (concat (map (\<lambda>r. case r of None \<Rightarrow> [] | Some x \<Rightarrow> [x]) rows)))))"

section \<open>Resolving one conflict\<close>

fun conflict_phase_name :: "u64 \<Rightarrow> string" where
  "conflict_phase_name phase =
     (if phase = 0 then ''unopened'' else if phase = 1 then ''open'' else if phase = 2 then ''resolved''
      else if phase = 3 then ''ignored'' else ''invalid'')"

record ConflictResolveInput =
  ri_conflict_id :: string
  ri_resolution :: string
  ri_resolved_by :: string
  ri_observed_at_ms :: u64

record ConflictResolveOutput =
  ro_conflict_id :: string
  ro_resolution :: string
  ro_already_applied :: bool
  ro_receipt :: "ReceiptNote option"

definition target_phase :: "string \<Rightarrow> u64" where
  "target_phase resolution = (if resolution = ''resolved'' then 2 else 3)"

definition resolved_event :: "(string \<Rightarrow> string) \<Rightarrow> ConflictResolveInput \<Rightarrow> ConflictCard \<Rightarrow> ConflictResolvedV2" where
  "resolved_event B inp cd =
     \<lparr>rs_conflict_id = ri_conflict_id inp, rs_workspace_id = cf_workspace_id cd, rs_resolution = ri_resolution inp,
      rs_resolved_by = ri_resolved_by inp, rs_observed_at_ms = ri_observed_at_ms inp,
      rs_transition = transition_record B CONFLICT_MACHINE (entity_for_conflict (ri_conflict_id inp)) 1
        (target_phase (ri_resolution inp))
        [\<lparr>cause_lane = 0, cause_key = ''conflict:'' @ ri_conflict_id inp\<rparr>] (ri_observed_at_ms inp)\<rparr>"

type_synonym 's conflict_project = "'s append_env \<Rightarrow> string \<Rightarrow> (ConflictCard option, TexoError) result"

definition conflict_resolve ::
  "(string \<Rightarrow> string) \<Rightarrow> 's ctx \<Rightarrow> (domain_event \<Rightarrow> (string, string) result) \<Rightarrow> 's conflict_project \<Rightarrow>
   ConflictResolveInput \<Rightarrow> ('s, ConflictResolveOutput) op" where
  "conflict_resolve B cx enc project inp =
     (if ri_resolution inp \<noteq> ''resolved'' \<and> ri_resolution inp \<noteq> ''ignored''
      then op_fail (ErrStatusParse (ri_resolution inp))
      else op_bind (query_view ''texo.conflict.resolve'' cx) (\<lambda>_.
           let entity = entity_for_conflict (ri_conflict_id inp) in
           op_bind (\<lambda>env. (env, project env entity)) (\<lambda>found.
           op_bind (op_lift (ok_or found (ErrMissingEntity entity))) (\<lambda>cd.
           let target = target_phase (ri_resolution inp) in
           if cf_phase cd = target
           then op_return \<lparr>ro_conflict_id = ri_conflict_id inp, ro_resolution = ri_resolution inp,
                           ro_already_applied = True, ro_receipt = None\<rparr>
           else if cf_phase cd \<noteq> 1
           then op_fail (ErrTransition CONFLICT_MACHINE (cf_phase cd) target
                  (Some (''conflict '' @ ri_conflict_id inp @ '' is already '' @ conflict_phase_name (cf_phase cd))))
           else op_bind (append_json ''texo.conflict.resolve'' cx enc (EvConflictResolved (resolved_event B inp cd))) (\<lambda>_.
                op_bind (take_one_receipt ''texo.conflict.resolve'') (\<lambda>r.
                  op_return \<lparr>ro_conflict_id = ri_conflict_id inp, ro_resolution = ri_resolution inp,
                             ro_already_applied = False, ro_receipt = Some r\<rparr>))))))"

section \<open>What a resolution does\<close>

text \<open>
  What is relied on of the projection: the resolution has not been committed before, so that after
  its append the card is the old card with that event applied.
\<close>

definition refolds ::
  "(string \<Rightarrow> string) \<Rightarrow> 's ctx \<Rightarrow> (domain_event \<Rightarrow> (string, string) result) \<Rightarrow> 's conflict_project \<Rightarrow>
   's append_env \<Rightarrow> ConflictResolveInput \<Rightarrow> bool" where
  "refolds B cx enc project env inp \<longleftrightarrow>
     (\<forall>op env' c. project env (entity_for_conflict (ri_conflict_id inp)) = Inr (Some c) \<longrightarrow>
        append_json op cx enc (EvConflictResolved (resolved_event B inp c)) env = (env', Inr ()) \<longrightarrow>
        project (env'\<lparr>ap_receipts := []\<rparr>) (entity_for_conflict (ri_conflict_id inp)) =
          Inr (Some (conflict_on_resolved (resolved_event B inp c) c)))"

lemma resolve_fresh:
  assumes "conflict_resolve B cx enc project inp env = (env', Inr out)" "\<not> ro_already_applied out" "forwards ex api cx"
  obtains c env1 r where
    "project env (entity_for_conflict (ri_conflict_id inp)) = Inr (Some c)" "cf_phase c = 1"
    "ri_resolution inp = ''resolved'' \<or> ri_resolution inp = ''ignored''"
    "append_json ''texo.conflict.resolve'' cx enc (EvConflictResolved (resolved_event B inp c)) env = (env1, Inr ())"
    "ap_receipts env1 = ap_receipts env @ [r]" "rn_kind_bits r = KConflictResolved"
    "env' = env1\<lparr>ap_receipts := []\<rparr>" "ro_receipt out = Some r"
proof -
  obtain c env1 where c: "project env (entity_for_conflict (ri_conflict_id inp)) = Inr (Some c)" "cf_phase c = 1"
      "ri_resolution inp = ''resolved'' \<or> ri_resolution inp = ''ignored''"
      "append_json ''texo.conflict.resolve'' cx enc (EvConflictResolved (resolved_event B inp c)) env = (env1, Inr ())"
    and rest: "op_bind (take_one_receipt ''texo.conflict.resolve'') (\<lambda>r. op_return
        \<lparr>ro_conflict_id = ri_conflict_id inp, ro_resolution = ri_resolution inp, ro_already_applied = False, ro_receipt = Some r\<rparr>)
        env1 = (env', Inr out)"
    using assms(1,2)
    by (auto simp: conflict_resolve_def query_view_def op_bind_Inr op_defs Let_def ok_or_eq_Inr split: if_splits)
  obtain r where r: "ap_receipts env1 = ap_receipts env @ [r]" "rn_kind_bits r = KConflictResolved"
    using append_json_receipt [OF c(4) assms(3)] by auto
  have "env' = env1\<lparr>ap_receipts := []\<rparr>" "ro_receipt out = Some r"
    using rest by (auto simp: op_bind_def take_one_after [OF r(1)] op_return_def)
  with c r show thesis by (rule that)
qed

text \<open>
  C5: A conflict is settled once.  When a resolution is appended, the conflict was open, the event is an
  edge of the conflict machine, and from then on the same resolution is answered as already applied
  without an append, while the opposite one is refused as an illegal transition.
\<close>

theorem conflict_settles_once:
  assumes ctx: "forwards ex api cx" "refolds B cx enc project env inp" "\<And>env q. cx_query cx env q = Inr ()"
    and first: "conflict_resolve B cx enc project inp env = (env', Inr out)" "\<not> ro_already_applied out"
    and again: "ri_conflict_id inp' = ri_conflict_id inp" "ri_resolution inp' = ''resolved'' \<or> ri_resolution inp' = ''ignored''"
  shows "\<exists>c. project env (entity_for_conflict (ri_conflict_id inp)) = Inr (Some c) \<and>
      (cf_phase c, target_phase (ri_resolution inp)) \<in> set CONFLICT_EDGES \<and>
      (if ri_resolution inp' = ri_resolution inp
       then conflict_resolve B cx enc project inp' env' =
         (env', Inr \<lparr>ro_conflict_id = ri_conflict_id inp, ro_resolution = ri_resolution inp,
            ro_already_applied = True, ro_receipt = None\<rparr>)
       else \<exists>context. conflict_resolve B cx enc project inp' env' =
         (env', Inl (ErrTransition CONFLICT_MACHINE (target_phase (ri_resolution inp)) (target_phase (ri_resolution inp')) context)))"
proof -
  obtain c env1 r where c: "project env (entity_for_conflict (ri_conflict_id inp)) = Inr (Some c)" "cf_phase c = 1"
    and res: "ri_resolution inp = ''resolved'' \<or> ri_resolution inp = ''ignored''"
    and app: "append_json ''texo.conflict.resolve'' cx enc (EvConflictResolved (resolved_event B inp c)) env = (env1, Inr ())"
    and env': "env' = env1\<lparr>ap_receipts := []\<rparr>"
    by (rule resolve_fresh [OF first ctx(1)])
  let ?c = "conflict_on_resolved (resolved_event B inp c) c"
  have proj: "project env' (entity_for_conflict (ri_conflict_id inp')) = Inr (Some ?c)"
    using ctx(2) [unfolded refolds_def, rule_format, OF c(1) app] by (simp add: env' again(1))
  have phase: "cf_phase ?c = target_phase (ri_resolution inp)"
    using res by (auto simp: conflict_on_resolved_def resolved_event_def target_phase_def Let_def)
  have run: "conflict_resolve B cx enc project inp' env' =
      (if target_phase (ri_resolution inp) = target_phase (ri_resolution inp')
       then (env', Inr \<lparr>ro_conflict_id = ri_conflict_id inp', ro_resolution = ri_resolution inp',
              ro_already_applied = True, ro_receipt = None\<rparr>)
       else (env', Inl (ErrTransition CONFLICT_MACHINE (target_phase (ri_resolution inp)) (target_phase (ri_resolution inp'))
              (Some (''conflict '' @ ri_conflict_id inp' @ '' is already '' @ conflict_phase_name (target_phase (ri_resolution inp)))))))"
    using again(2)
    by (auto simp: conflict_resolve_def query_view_def ctx(3) op_bind_def op_defs proj ok_or_def phase target_phase_def Let_def)
  have same: "target_phase (ri_resolution inp) = target_phase (ri_resolution inp') \<longleftrightarrow> ri_resolution inp' = ri_resolution inp"
    using res again(2) by (auto simp: target_phase_def)
  have "(cf_phase c, target_phase (ri_resolution inp)) \<in> set CONFLICT_EDGES"
    by (simp add: c(2) CONFLICT_EDGES_def target_phase_def)
  then show ?thesis using c(1) run same again(1) by auto
qed

section \<open>An instance\<close>

fun conflict_payload :: "domain_event \<Rightarrow> ConflictCard \<Rightarrow> ConflictCard" where
  "conflict_payload (EvConflictOpened e) c = conflict_on_opened e c"
| "conflict_payload (EvConflictResolved e) c = conflict_on_resolved e c"
| "conflict_payload _ c = c"

text \<open>The projection of a store held in memory: its events for the entity, folded.\<close>

definition memory_project :: "memory_store conflict_project" where
  "memory_project env entity =
     (case js_read (map (snd \<circ> snd) \<circ> filter (\<lambda>row. fst row = entity)) (ap_store env) of
        [] \<Rightarrow> Inr None
      | evs \<Rightarrow> Inr (Some (foldl (\<lambda>c ev. conflict_payload ev c) conflict_card_default evs)))"

definition demo_opened :: ConflictOpenedV2 where
  "demo_opened = \<lparr>op_conflict_id = ''conflict_x'', op_workspace_id = ''demo'', op_claim_a = ''claim_a'', op_claim_b = ''claim_b'',
     op_reason = [], op_detector = ''heuristic-v1'', op_observed_at_ms = 1,
     op_transition = transition_record id CONFLICT_MACHINE ''conflict:conflict_x'' 0 1 [] 1\<rparr>"

definition demo_resolution :: "string \<Rightarrow> ConflictResolveInput" where
  "demo_resolution r = \<lparr>ri_conflict_id = ''conflict_x'', ri_resolution = r, ri_resolved_by = ''me'', ri_observed_at_ms = 2\<rparr>"

definition demo_resolved :: ConflictResolvedV2 where
  "demo_resolved = resolved_event id (demo_resolution ''ignored'') (conflict_on_opened demo_opened conflict_card_default)"

definition resolve_externals :: "string externals" where
  "resolve_externals = demo_externals\<lparr>ex_decode := (\<lambda>k b. Inr (EvConflictResolved demo_resolved))\<rparr>"

definition demo_conflict_env :: "memory_store append_env" where
  "demo_conflict_env = \<lparr>ap_store = Writable [(''conflict:conflict_x'',
     \<lparr>ie_seq = 1, ie_entity = ''conflict:conflict_x'', ie_kind = KConflictOpened, ie_id = 1\<rparr>, EvConflictOpened demo_opened)],
     ap_workspace_id = ''demo'', ap_receipts = []\<rparr>"

lemmas append_eval =
  append_domain_event_def policy_append_def verify_and_note_def APPEND_POLICIES_def memory_api_def
  coordinate_def append_with_key_def place_def append_typed_with_options_def memory_append_def memory_find_def
  u128_max_def Let_def js_read.simps

definition demo_conflict_after :: "memory_store append_env" where
  "demo_conflict_after = demo_conflict_env\<lparr>ap_store := Writable
      [(''conflict:conflict_x'', \<lparr>ie_seq = 1, ie_entity = ''conflict:conflict_x'', ie_kind = KConflictOpened, ie_id = 1\<rparr>,
          EvConflictOpened demo_opened),
       (''conflict:conflict_x'', \<lparr>ie_seq = 2, ie_entity = ''conflict:conflict_x'', ie_kind = KConflictResolved, ie_id = length ''democonflict_x''\<rparr>,
          EvConflictResolved demo_resolved)],
     ap_receipts := [\<lparr>rn_event_id_hex = hex_pad 32 (length ''democonflict_x''), rn_kind_bits = KConflictResolved, rn_global_sequence = 2\<rparr>]\<rparr>"

lemma demo_resolved_fields:
  "rs_conflict_id demo_resolved = ''conflict_x''" "rs_workspace_id demo_resolved = ''demo''"
  "rs_resolution demo_resolved = ''ignored''"
  by (simp_all add: demo_resolved_def resolved_event_def demo_resolution_def conflict_on_opened_def demo_opened_def
      conflict_card_default_def)

lemma demo_memory_append:
  "memory_append [(''conflict:conflict_x'', \<lparr>ie_seq = 1, ie_entity = ''conflict:conflict_x'', ie_kind = KConflictOpened, ie_id = 1\<rparr>,
       EvConflictOpened demo_opened)] ''conflict:conflict_x'' (EvConflictResolved demo_resolved) (keyed (length ''democonflict_x'')) =
   Inr (\<lparr>ar_event_id = length ''democonflict_x'', ar_global_sequence = 2\<rparr>,
      [(''conflict:conflict_x'', \<lparr>ie_seq = 1, ie_entity = ''conflict:conflict_x'', ie_kind = KConflictOpened, ie_id = 1\<rparr>,
          EvConflictOpened demo_opened),
       (''conflict:conflict_x'', \<lparr>ie_seq = 2, ie_entity = ''conflict:conflict_x'', ie_kind = KConflictResolved,
          ie_id = length ''democonflict_x''\<rparr>, EvConflictResolved demo_resolved)])"
  by (simp add: memory_append_def memory_find_def u128_max_def keyed_def Let_def)

lemma demo_append_event:
  "append_event (EvConflictResolved demo_resolved) resolve_externals memory_api demo_conflict_env =
   Inr (\<lparr>ar_event_id = length ''democonflict_x'', ar_global_sequence = 2\<rparr>, ap_store demo_conflict_after)"
  using demo_memory_append
  by (simp add: append_conflict_resolved_def demo_resolved_fields resolve_externals_def demo_externals_def
      coordinate_def coordinate_for_conflict_def entity_for_conflict_def append_with_key_def place_def
      append_typed_with_options_def demo_conflict_env_def demo_conflict_after_def memory_api_def ignore_conflict_def)

lemma demo_append_resolved:
  "append_domain_event resolve_externals memory_api demo_conflict_env KConflictResolved [] = (demo_conflict_after, Inr ())"
proof -
  have "policy_append KConflictResolved [] resolve_externals memory_api demo_conflict_env =
      Inr (\<lparr>ar_event_id = length ''democonflict_x'', ar_global_sequence = 2\<rparr>, ap_store demo_conflict_after)"
    using demo_append_event by (simp add: policy_append_def APPEND_POLICIES_def resolve_externals_def del: append_event.simps)
  then show ?thesis
    by (simp add: append_domain_event_def verify_and_note_def demo_conflict_after_def demo_conflict_env_def memory_api_def)
qed

theorem conflict_settles_once_witness:
  "\<exists>context. conflict_resolve id (backend_ctx resolve_externals memory_api) (\<lambda>_. Inr []) memory_project
       (demo_resolution ''resolved'') (demo_conflict_after\<lparr>ap_receipts := []\<rparr>) =
     (demo_conflict_after\<lparr>ap_receipts := []\<rparr>, Inl (ErrTransition CONFLICT_MACHINE 3 2 context))"
proof -
  let ?cx = "backend_ctx resolve_externals memory_api" and ?i = "demo_resolution ''ignored''"
  let ?c = "conflict_on_opened demo_opened conflict_card_default"
  have ent: "entity_for_conflict (ri_conflict_id ?i) = ''conflict:conflict_x''"
    by (simp add: demo_resolution_def entity_for_conflict_def)
  have before: "memory_project demo_conflict_env ''conflict:conflict_x'' = Inr (Some ?c)"
    and after: "memory_project (demo_conflict_after\<lparr>ap_receipts := []\<rparr>) ''conflict:conflict_x'' =
      Inr (Some (conflict_on_resolved demo_resolved ?c))"
    by (simp_all add: memory_project_def demo_conflict_env_def demo_conflict_after_def)
  have app: "append_json op ?cx (\<lambda>_. Inr []) (EvConflictResolved demo_resolved) demo_conflict_env = (demo_conflict_after, Inr ())" for op
    using demo_append_resolved by (simp add: append_json_def backend_ctx_def)
  have phase: "cf_phase ?c = 1" by (simp add: conflict_on_opened_def conflict_card_default_def)
  have first: "conflict_resolve id ?cx (\<lambda>_. Inr []) memory_project ?i demo_conflict_env =
      (demo_conflict_after\<lparr>ap_receipts := []\<rparr>, Inr \<lparr>ro_conflict_id = ''conflict_x'', ro_resolution = ''ignored'', ro_already_applied = False,
         ro_receipt = Some \<lparr>rn_event_id_hex = hex_pad 32 (length ''democonflict_x''), rn_kind_bits = KConflictResolved, rn_global_sequence = 2\<rparr>\<rparr>)"
    using app [unfolded demo_resolved_def]
    by (simp add: conflict_resolve_def query_view_def backend_ctx_def op_bind_def op_defs ent before ok_or_def phase
        target_phase_def Let_def take_one_receipt_def take_receipts_def)
      (simp add: demo_resolution_def demo_conflict_after_def)
  have "refolds id ?cx (\<lambda>_. Inr []) memory_project demo_conflict_env ?i"
    unfolding refolds_def ent before using app after by (auto simp: demo_resolved_def)
  then show ?thesis
    using conflict_settles_once [OF backend_forwards _ _ first, of "demo_resolution ''resolved''"]
    by (force simp: backend_ctx_def demo_resolution_def target_phase_def)
qed

end
