(* ===== verification/Campaign.thy ===== *)
theory Campaign
  imports Effects Candidates Views
begin

text \<open>
  \<open>src/ops/handlers/relate/campaign.rs\<close>: the durable basis of a relation campaign, the resume
  decision taken from the latest checkpoint, and the gate that refuses output while the settlement
  of the current view is incomplete.
\<close>

section \<open>The basis\<close>

record CampaignBasis =
  cb_claims :: "(string, bool) btree"
  cb_temporal_identity :: string

definition from_entries :: "(string \<Rightarrow> string) \<Rightarrow> (string \<times> bool) list \<Rightarrow> RelateTemporalPolicy \<Rightarrow> CampaignBasis" where
  "from_entries B entries temporal =
     \<lparr>cb_claims = foldl (\<lambda>m (k, v). bt_insert k v m) [] entries,
      cb_temporal_identity = campaign_identity_digest B temporal\<rparr>"

definition basis_from_view :: "(string \<Rightarrow> string) \<Rightarrow> WorkspaceView \<Rightarrow> RelateTemporalPolicy \<Rightarrow> CampaignBasis" where
  "basis_from_view B view temporal =
     from_entries B (map (\<lambda>c. (cc_claim_id (cv_card c), cv_status c = StCurrent)) (wv_claims view)) temporal"

definition hash_field :: "string \<Rightarrow> string" where
  "hash_field v = be_bytes 8 (length v) @ v"

definition basis_row :: "string \<times> bool \<Rightarrow> string" where
  "basis_row p = hash_field (fst p) @ [char_of (if snd p then 1 else 0 :: nat)]"

definition basis_material :: "CampaignBasis \<Rightarrow> string" where
  "basis_material b =
     hash_field ''texo.relate.campaign-basis.v1'' @
     concat (map basis_row (cb_claims b)) @
     hash_field (cb_temporal_identity b)"

definition basis_digest :: "(string \<Rightarrow> string) \<Rightarrow> CampaignBasis \<Rightarrow> string" where
  "basis_digest B b = B (basis_material b)"

record RelateSupersessionRow =
  sr_old_claim_id :: string
  sr_new_claim_id :: string
  sr_reason :: string
  sr_cache_key :: string

record RelateConflictRow =
  fr_conflict_id :: string
  fr_claim_a :: string
  fr_claim_b :: string
  fr_reason :: string
  fr_cache_key :: string

definition after_publication ::
  "RelateSupersessionRow list \<Rightarrow> RelateConflictRow list \<Rightarrow> CampaignBasis \<Rightarrow> CampaignBasis" where
  "after_publication sups confs b =
     b\<lparr>cb_claims :=
         foldl (\<lambda>m r. bt_insert (fr_claim_b r) False (bt_insert (fr_claim_a r) False m))
           (foldl (\<lambda>m r. bt_insert (sr_old_claim_id r) False m) (cb_claims b) sups) confs\<rparr>"

section \<open>Where a pass starts\<close>

datatype CampaignStart = AlreadyComplete | Run u64

definition cursor_mismatch :: "u64 \<Rightarrow> u64 \<Rightarrow> TexoError" where
  "cursor_mismatch requested expected =
     ErrOpInput ''texo.relate.run'' (''candidate cursor '' @ show_nat requested @
       '' does not match durable resume cursor '' @ show_nat expected)"

definition resolve_start ::
  "RelationCampaignCheckpointV1 option \<Rightarrow> string \<Rightarrow> string \<Rightarrow> u64 option \<Rightarrow> (CampaignStart, TexoError) result" where
  "resolve_start latest basis policy requested =
     (let matching = (case latest of
            Some ck \<Rightarrow> if ck_result_basis_digest_hex ck = basis \<and> ck_candidate_policy_digest_hex ck = policy
                       then Some ck else None
          | None \<Rightarrow> None)
      in case map_option ck_phase matching of
           Some Complete \<Rightarrow> Inr AlreadyComplete
         | Some (Partial next) \<Rightarrow>
             (case requested of
                None \<Rightarrow> Inr (Run next)
              | Some cursor \<Rightarrow> if cursor = 0 \<or> cursor = next then Inr (Run next)
                               else Inl (cursor_mismatch cursor next))
         | None \<Rightarrow>
             (case requested of
                None \<Rightarrow> Inr (Run 0)
              | Some cursor \<Rightarrow>
                  if cursor = 0 then Inr (Run cursor)
                  else Inl (ErrOpInput ''texo.relate.run'' (''candidate cursor '' @ show_nat cursor @
                         '' has no matching durable campaign; restart from cursor 0''))))"

datatype CampaignExecution = NoopComplete | RejudgeComplete | RunFrom u64

fun campaign_execution :: "CampaignStart \<Rightarrow> bool \<Rightarrow> CampaignExecution" where
  "campaign_execution AlreadyComplete False = NoopComplete"
| "campaign_execution AlreadyComplete True = RejudgeComplete"
| "campaign_execution (Run cursor) _ = RunFrom cursor"

text \<open>
  The latest checkpoint of the stream up to the frontier of the view; a payload that does not decode
  leaves the card as \<open>bad\<close> makes it.
\<close>

fun apply_checkpoint ::
  "(RelationCampaignCheckpointV1 option \<Rightarrow> RelationCampaignCheckpointV1 option) \<Rightarrow> stored \<Rightarrow>
   RelationCampaignCheckpointV1 option \<Rightarrow> RelationCampaignCheckpointV1 option" where
  "apply_checkpoint bad (Payload (EvCampaignCheckpoint e)) latest = campaign_on_checkpoint e latest"
| "apply_checkpoint bad (Payload _) latest = latest"
| "apply_checkpoint bad (Undecodable _) latest = bad latest"

definition checkpoint_entry ::
  "('s, 'c) store_api \<Rightarrow> 's append_env \<Rightarrow>
   (RelationCampaignCheckpointV1 option \<Rightarrow> RelationCampaignCheckpointV1 option) \<Rightarrow> u64 \<Rightarrow> IndexEntry \<Rightarrow>
   RelationCampaignCheckpointV1 option \<Rightarrow> RelationCampaignCheckpointV1 option \<times> flow" where
  "checkpoint_entry api env bad frontier e latest =
     (if frontier < ie_seq e then (latest, Break)
      else if ie_kind e \<noteq> KCampaignCheckpoint then (latest, Next)
      else case read_of api env (ie_id e) of
             Inl err \<Rightarrow> (latest, Fail err)
           | Inr raw \<Rightarrow> (apply_checkpoint bad raw latest, Next))"

definition latest_checkpoint ::
  "('s, 'c) store_api \<Rightarrow> 's append_env \<Rightarrow>
   (RelationCampaignCheckpointV1 option \<Rightarrow> RelationCampaignCheckpointV1 option) \<Rightarrow> WorkspaceView \<Rightarrow>
   (RelationCampaignCheckpointV1 option, TexoError) result" where
  "latest_checkpoint api env bad view =
     (case entries_loop (checkpoint_entry api env bad (wv_frontier view))
             (entries_of api env (entity_for_relation_campaign (wv_workspace_id view))) None of
        (_, Fail err) \<Rightarrow> Inl err
      | (latest, _) \<Rightarrow> Inr latest)"

section \<open>The candidate policy and the gate\<close>

text \<open>The model role that embeds, as the gateway resolves it.\<close>

record EmbedRole =
  em_provider_id :: string
  em_base_url :: string
  em_model :: string

definition f32_be_bytes :: "f32 \<Rightarrow> string" where
  "f32_be_bytes b = be_bytes 4 (unat b)"

definition candidate_policy_digest :: "(string \<Rightarrow> string) \<Rightarrow> f32 \<Rightarrow> f32 \<Rightarrow> EmbedRole \<Rightarrow> string" where
  "candidate_policy_digest B cluster prefilter role =
     B (hash_field ''texo.relate.candidates.v1'' @ hash_field (f32_be_bytes cluster) @
        hash_field (f32_be_bytes prefilter) @ hash_field (em_provider_id role) @
        hash_field (em_base_url role) @ hash_field (em_model role))"

record CheckpointDraft =
  cd_workspace_id :: WorkspaceId
  cd_evaluated_basis :: string
  cd_result_basis :: string
  cd_candidate_policy :: string
  cd_phase :: CampaignPhase
  cd_observed_at_ms :: u64

definition checkpoint_of :: "CheckpointDraft \<Rightarrow> RelationCampaignCheckpointV1" where
  "checkpoint_of d =
     \<lparr>ck_workspace_id = cd_workspace_id d, ck_evaluated_basis_digest_hex = cd_evaluated_basis d,
      ck_result_basis_digest_hex = cd_result_basis d, ck_candidate_policy_digest_hex = cd_candidate_policy d,
      ck_phase = cd_phase d, ck_observed_at_ms = cd_observed_at_ms d\<rparr>"

definition append_checkpoint ::
  "string \<Rightarrow> 's ctx \<Rightarrow> (domain_event \<Rightarrow> (string, string) result) \<Rightarrow> CheckpointDraft \<Rightarrow> ('s, unit) op" where
  "append_checkpoint op cx enc d = append_json op cx enc (EvCampaignCheckpoint (checkpoint_of d))"

record SettlementGate =
  sg_latest :: "RelationCampaignCheckpointV1 option"
  sg_complete :: bool

definition settlement_gate ::
  "(string \<Rightarrow> string) \<Rightarrow> WorkspaceView \<Rightarrow> RelateTemporalPolicy \<Rightarrow> string \<Rightarrow>
   (RelationCampaignCheckpointV1 option, TexoError) result \<Rightarrow> (SettlementGate, TexoError) result" where
  "settlement_gate B view temporal policy latest =
     res_bind latest (\<lambda>l. Inr
       \<lparr>sg_latest = l,
        sg_complete = (case l of
            None \<Rightarrow> False
          | Some ck \<Rightarrow> ck_result_basis_digest_hex ck = basis_digest B (basis_from_view B view temporal)
                       \<and> ck_candidate_policy_digest_hex ck = policy \<and> ck_phase ck = Complete)\<rparr>)"

definition gate_state :: "RelationCampaignCheckpointV1 option \<Rightarrow> string" where
  "gate_state latest =
     (case latest of
        None \<Rightarrow> ''no durable campaign checkpoint''
      | Some ck \<Rightarrow>
          (case ck_phase ck of
             Complete \<Rightarrow> ''checkpoint does not match this exact frontier''
           | Partial next \<Rightarrow> ''campaign is partial at candidate cursor '' @ show_nat next))"

definition require_complete_settlement :: "(SettlementGate, TexoError) result \<Rightarrow> (unit, TexoError) result" where
  "require_complete_settlement gate =
     res_bind gate (\<lambda>g.
       if sg_complete g then Inr ()
       else Inl (ErrSemantics ''settlement'' (''strict settlement refused authority-bearing output: '' @
              gate_state (sg_latest g) @ ''; run `texo relate` to resume'')))"

section \<open>The basis material determines the basis\<close>

lemma length_be_bytes [simp]: "length (be_bytes w n) = w"
  by (induction w arbitrary: n) simp_all

lemma be_bytes_inject: "be_bytes w m = be_bytes w n \<Longrightarrow> m < 256 ^ w \<Longrightarrow> n < 256 ^ w \<Longrightarrow> m = n"
proof (induction w arbitrary: m n)
  case (Suc w)
  from Suc.prems(1) have "(char_of (m mod 256) :: char) = char_of (n mod 256)" and high: "be_bytes w (m div 256) = be_bytes w (n div 256)"
    by simp_all
  then have "(of_char (char_of (m mod 256) :: char) :: nat) = of_char (char_of (n mod 256) :: char)" by simp
  then have low: "m mod 256 = n mod 256" by (simp only: of_char_of) simp
  have "m div 256 = n div 256" using Suc.prems(2,3) by (intro Suc.IH [OF high]) (auto simp: less_mult_imp_div_less mult.commute)
  then show ?case using low by (metis div_mult_mod_eq)
qed simp

definition field_ok :: "string \<Rightarrow> bool" where
  "field_ok v \<longleftrightarrow> length v < 256 ^ 8"

lemma hash_field_prefix:
  assumes "hash_field v @ xs = hash_field w @ ys" "field_ok v" "field_ok w"
  shows "v = w \<and> xs = ys"
proof -
  have "be_bytes 8 (length v) = be_bytes 8 (length w)" and rest: "v @ xs = w @ ys"
    using assms(1) by (simp_all add: hash_field_def append_eq_append_conv)
  then have "length v = length w" by (intro be_bytes_inject) (use assms(2,3) in \<open>simp_all only: field_ok_def\<close>)
  then show ?thesis using rest by simp
qed

lemma hash_field_length: "8 \<le> length (hash_field v)"
  by (simp add: hash_field_def)

definition basis_ok :: "CampaignBasis \<Rightarrow> bool" where
  "basis_ok b \<longleftrightarrow> (\<forall>p \<in> set (cb_claims b). field_ok (fst p)) \<and> field_ok (cb_temporal_identity b)"

lemma basis_row_prefix:
  assumes "basis_row p @ xs = basis_row q @ ys" "field_ok (fst p)" "field_ok (fst q)"
  shows "p = q \<and> xs = ys"
proof -
  have "fst p = fst q" and rest: "(char_of (if snd p then 1 else 0 :: nat) :: char) # xs = char_of (if snd q then 1 else 0 :: nat) # ys"
    using hash_field_prefix [of "fst p" "char_of (if snd p then 1 else 0 :: nat) # xs" "fst q" "char_of (if snd q then 1 else 0 :: nat) # ys"]
      assms by (simp_all add: basis_row_def)
  from rest have "(char_of (if snd p then 1 else 0 :: nat) :: char) = char_of (if snd q then 1 else 0 :: nat)" by simp
  then have "(of_char (char_of (if snd p then 1 else 0 :: nat) :: char) :: nat) = of_char (char_of (if snd q then 1 else 0 :: nat) :: char)" by simp
  then have "snd p = snd q" by (simp only: of_char_of) (auto split: if_splits)
  then show ?thesis using \<open>fst p = fst q\<close> rest by (simp add: prod_eq_iff)
qed

lemma field_not_row: "field_ok (fst p) \<Longrightarrow> field_ok t \<Longrightarrow> hash_field t \<noteq> basis_row p @ xs"
  using hash_field_prefix [of t "[]" "fst p" "char_of (if snd p then 1 else 0 :: nat) # xs"] by (auto simp: basis_row_def)

lemma rows_inject:
  assumes "concat (map basis_row xs) @ hash_field t = concat (map basis_row ys) @ hash_field u"
    and "\<forall>p \<in> set xs. field_ok (fst p)" "\<forall>p \<in> set ys. field_ok (fst p)" "field_ok t" "field_ok u"
  shows "xs = ys \<and> t = u"
  using assms
proof (induction xs arbitrary: ys)
  case Nil
  show ?case
  proof (cases ys)
    case Nil
    then show ?thesis using Nil.prems hash_field_prefix [of t "[]" u "[]"] by simp
  next
    case (Cons p ps)
    then show ?thesis using Nil.prems field_not_row [of p t] by auto
  qed
next
  case (Cons p xs)
  show ?case
  proof (cases ys)
    case Nil
    then show ?thesis using Cons.prems field_not_row [of p u] by (simp, metis append_assoc)
  next
    case (Cons q qs)
    have "p = q" and "concat (map basis_row xs) @ hash_field t = concat (map basis_row qs) @ hash_field u"
      using basis_row_prefix [of p "concat (map basis_row xs) @ hash_field t" q "concat (map basis_row qs) @ hash_field u"]
        Cons.prems Cons by simp_all
    then show ?thesis using Cons.IH [of qs] Cons.prems Cons by simp
  qed
qed

lemma basis_material_inject:
  assumes "basis_material b = basis_material b'" "basis_ok b" "basis_ok b'"
  shows "b = b'"
proof -
  have "cb_claims b = cb_claims b' \<and> cb_temporal_identity b = cb_temporal_identity b'"
    using assms unfolding basis_material_def basis_ok_def by (intro rows_inject) simp_all
  then show ?thesis by simp
qed

end
