(* ===== verification/Publication.thy ===== *)
theory Publication
  imports Campaign Pipeline Scores
begin

text \<open>
  A relation pass (\<open>src/ops/handlers/relate.rs\<close>, \<open>relate/publication.rs\<close>, \<open>relate/authority.rs\<close>,
  \<open>relate/backend.rs\<close>): the settled verdicts it starts from, the claims it compares, and the events it
  appends.  The judge behind the pass and the rejudging of one pair are arguments.
\<close>

section \<open>Publication\<close>

type_synonym cache_keys = "(string \<times> string, string) btree"

record SemanticRelateOutput =
  sq_outcome :: RelateOutcome
  sq_cache_keys :: cache_keys
  sq_judge_fingerprint :: string

definition cache_key_of :: "cache_keys \<Rightarrow> ClaimId \<Rightarrow> ClaimId \<Rightarrow> string" where
  "cache_key_of keys i j = (case bt_get keys (claim_str i, claim_str j) of None \<Rightarrow> [] | Some k \<Rightarrow> k)"

definition judged_event :: "WorkspaceId \<Rightarrow> SemanticRelateOutput \<Rightarrow> u64 \<Rightarrow> PairJudgment \<Rightarrow> RelationJudgedV1" where
  "judged_event w related observed p =
     \<lparr>rj1_workspace_id = w, rj1_older_claim = pj_older_claim p, rj1_newer_claim = pj_newer_claim p,
      rj1_relation = settled_of_relation (rv_relation (pj_verdict p)),
      rj1_score_ppm = unit_interval_to_ppm (rv_score (pj_verdict p)),
      rj1_judge_fingerprint = sq_judge_fingerprint related,
      rj1_cache_key_hex = cache_key_of (sq_cache_keys related) (pj_older_claim p) (pj_newer_claim p),
      rj1_observed_at_ms = observed\<rparr>"

definition append_relation_judgments ::
  "string \<Rightarrow> 's ctx \<Rightarrow> (domain_event \<Rightarrow> (string, string) result) \<Rightarrow> WorkspaceId \<Rightarrow> SemanticRelateOutput \<Rightarrow> u64 \<Rightarrow> ('s, unit) op" where
  "append_relation_judgments op cx enc w related observed =
     op_for (\<lambda>p. if \<not> pj_reused_authority p
                 then append_json op cx enc (EvRelationJudged (judged_event w related observed p))
                 else op_return ()) (outcome_judgments (sq_outcome related))"

definition deferred_event :: "WorkspaceId \<Rightarrow> u64 \<Rightarrow> UnresolvedPair \<Rightarrow> RelationDeferredV1" where
  "deferred_event w observed u =
     \<lparr>rd_workspace_id = w, rd_older_claim = up_old_claim u, rd_newer_claim = up_new_claim u,
      rd_failure_class = pf_class (up_failure u), rd_attempts = pf_attempts (up_failure u), rd_observed_at_ms = observed\<rparr>"

definition append_relation_deferrals ::
  "string \<Rightarrow> 's ctx \<Rightarrow> (domain_event \<Rightarrow> (string, string) result) \<Rightarrow> WorkspaceId \<Rightarrow> UnresolvedPair list \<Rightarrow> u64 \<Rightarrow> ('s, unit) op" where
  "append_relation_deferrals op cx enc w unresolved observed =
     op_for (\<lambda>u. append_json op cx enc (EvRelationDeferred (deferred_event w observed u))) unresolved"

record RelatePublicationPlan =
  rp_supersessions :: "SupersessionEdge list"
  rp_conflicts :: "ConflictEntry list"

fun relate_publication :: "RelateOutcome \<Rightarrow> RelatePublicationPlan" where
  "relate_publication (CompleteOutcome c) =
     \<lparr>rp_supersessions = rc_supersessions (co_related c), rp_conflicts = rc_conflicts (co_related c)\<rparr>"
| "relate_publication (PartialOutcome p) = \<lparr>rp_supersessions = [], rp_conflicts = []\<rparr>"

definition relate_superseded_event :: "(string \<Rightarrow> string) \<Rightarrow> string \<Rightarrow> cache_keys \<Rightarrow> u64 \<Rightarrow> SupersessionEdge \<Rightarrow> ClaimSupersededV2" where
  "relate_superseded_event B ws keys observed e =
     (case e of (old, new, reason) \<Rightarrow>
       \<lparr>cs_old_claim_id = claim_str old, cs_new_claim_id = claim_str new, cs_workspace_id = ws, cs_reason = reason,
        cs_decided_by = ''texo-relate'', cs_observed_at_ms = observed,
        cs_transition = transition_record B CLAIM_MACHINE (entity_for_claim (claim_str old)) 1 2
          [\<lparr>cause_lane = 0, cause_key = ''relate:'' @ cache_key_of keys old new\<rparr>] observed\<rparr>)"

definition supersession_row :: "cache_keys \<Rightarrow> SupersessionEdge \<Rightarrow> RelateSupersessionRow" where
  "supersession_row keys e =
     (case e of (old, new, reason) \<Rightarrow>
       \<lparr>sr_old_claim_id = claim_str old, sr_new_claim_id = claim_str new, sr_reason = reason,
        sr_cache_key = cache_key_of keys old new\<rparr>)"

definition append_relate_supersessions ::
  "(string \<Rightarrow> string) \<Rightarrow> string \<Rightarrow> 's ctx \<Rightarrow> (domain_event \<Rightarrow> (string, string) result) \<Rightarrow> string \<Rightarrow> SupersessionEdge list \<Rightarrow>
   cache_keys \<Rightarrow> u64 \<Rightarrow> ('s, RelateSupersessionRow list) op" where
  "append_relate_supersessions B op cx enc ws decisions keys observed =
     op_each (\<lambda>e. op_bind (append_json op cx enc (EvClaimSuperseded (relate_superseded_event B ws keys observed e)))
                    (\<lambda>_. op_return (supersession_row keys e))) decisions"

definition relate_opened_event :: "(string \<Rightarrow> string) \<Rightarrow> string \<Rightarrow> cache_keys \<Rightarrow> u64 \<Rightarrow> ConflictEntry \<Rightarrow> ConflictOpenedV2" where
  "relate_opened_event B ws keys observed c =
     \<lparr>op_conflict_id = conflict_str (cn_conflict_id c), op_workspace_id = ws, op_claim_a = claim_str (cn_claim_a c),
      op_claim_b = claim_str (cn_claim_b c), op_reason = cn_reason c, op_detector = ''texo-relate'',
      op_observed_at_ms = observed,
      op_transition = transition_record B CONFLICT_MACHINE (entity_for_conflict (conflict_str (cn_conflict_id c))) 0 1
        [\<lparr>cause_lane = 0, cause_key = ''relate:'' @ cache_key_of keys (cn_claim_a c) (cn_claim_b c)\<rparr>] observed\<rparr>"

definition conflict_row_of :: "cache_keys \<Rightarrow> ConflictEntry \<Rightarrow> RelateConflictRow" where
  "conflict_row_of keys c =
     \<lparr>fr_conflict_id = conflict_str (cn_conflict_id c), fr_claim_a = claim_str (cn_claim_a c),
      fr_claim_b = claim_str (cn_claim_b c), fr_reason = cn_reason c,
      fr_cache_key = cache_key_of keys (cn_claim_a c) (cn_claim_b c)\<rparr>"

fun append_relate_conflicts ::
  "(string \<Rightarrow> string) \<Rightarrow> string \<Rightarrow> 's ctx \<Rightarrow> (domain_event \<Rightarrow> (string, string) result) \<Rightarrow> string \<Rightarrow> ConflictEntry list \<Rightarrow>
   string list \<Rightarrow> cache_keys \<Rightarrow> u64 \<Rightarrow> ('s, RelateConflictRow list) op" where
  "append_relate_conflicts B op cx enc ws [] existing keys observed = op_return []"
| "append_relate_conflicts B op cx enc ws (c # cs) existing keys observed =
     (if conflict_str (cn_conflict_id c) \<in> set existing
      then append_relate_conflicts B op cx enc ws cs existing keys observed
      else op_bind (append_json op cx enc (EvConflictOpened (relate_opened_event B ws keys observed c))) (\<lambda>_.
           op_bind (append_relate_conflicts B op cx enc ws cs existing keys observed) (\<lambda>rows.
             op_return (conflict_row_of keys c # rows))))"

section \<open>The settled verdicts\<close>

record SettlementAuthority =
  au_verdicts :: settled
  au_cache_keys :: cache_keys
  au_warnings :: "AuthorityWarning list"
  au_unresolved_pairs :: usize

text \<open>
  The pages are read to the end, or to the first page whose last entry is past the frontier; inside
  a page the loop stops at the first entry past it.
\<close>

definition settlement_entity :: "u64 option \<Rightarrow> IndexEntry \<Rightarrow> string list \<Rightarrow> string list \<times> flow" where
  "settlement_entity frontier e es =
     (if (case frontier of None \<Rightarrow> False | Some limit \<Rightarrow> limit < ie_seq e) then (es, Break)
      else if starts_with (ie_entity e) ''relation:'' then (List.insert (ie_entity e) es, Next)
      else (es, Next))"

definition settlement_page :: "u64 option \<Rightarrow> IndexEntry list \<Rightarrow> string list \<Rightarrow> string list \<times> flow" where
  "settlement_page frontier page es =
     (fst (entries_loop (settlement_entity frontier) page es),
      if (case frontier of None \<Rightarrow> False | Some limit \<Rightarrow> limit < ie_seq (last page)) then Break else Next)"

definition settlement_entities :: "journal \<Rightarrow> string \<Rightarrow> u64 option \<Rightarrow> string list option" where
  "settlement_entities j workspace_id frontier =
     map_option (sort \<circ> fst)
       (pages (\<lambda>a. jr_query j (scope_for_workspace workspace_id) a PAGE_LIMIT) (settlement_page frontier) None [])"

definition authority_warning :: "ClaimId \<Rightarrow> ClaimId \<Rightarrow> JudgmentRecord \<Rightarrow> JudgmentRecord \<Rightarrow> AuthorityWarning" where
  "authority_warning older newer first later' =
     \<lparr>aw_old_claim = older, aw_new_claim = newer, aw_prior_verdict = jr_relation first,
      aw_prior_fingerprint = jr_judge_fingerprint first, aw_new_verdict = jr_relation later',
      aw_new_fingerprint = jr_judge_fingerprint later', aw_message = ''authoritative verdict unchanged''\<rparr>"

definition settle_card ::
  "(nat \<Rightarrow> f32) \<Rightarrow> SettlementCard \<Rightarrow> SettlementAuthority \<Rightarrow> (SettlementAuthority, TexoError) result" where
  "settle_card of_ppm c au =
     (case sm_authoritative c of
        None \<Rightarrow> Inr (if sm_deferrals c \<noteq> [] then au\<lparr>au_unresolved_pairs := au_unresolved_pairs au + 1\<rparr> else au)
      | Some first \<Rightarrow>
          res_bind (map_sum ErrIdParse id (claim_id_try_from (sm_older_claim c))) (\<lambda>older.
          res_bind (map_sum ErrIdParse id (claim_id_try_from (sm_newer_claim c))) (\<lambda>newer.
            Inr (au
              \<lparr>au_verdicts := bt_insert (older, newer)
                 \<lparr>rv_relation = relation_of_settled (jr_relation first), rv_score = of_ppm (jr_score_ppm first)\<rparr> (au_verdicts au),
               au_cache_keys := bt_insert (claim_str older, claim_str newer) (jr_cache_key_hex first) (au_cache_keys au),
               au_warnings := au_warnings au @ map (authority_warning older newer first)
                 (filter (\<lambda>l. jr_relation l \<noteq> jr_relation first) (sm_later_judgments c))\<rparr>))))"

fun settle_entities ::
  "(nat \<Rightarrow> f32) \<Rightarrow> (string \<Rightarrow> (SettlementCard option, TexoError) result) \<Rightarrow> string list \<Rightarrow> SettlementAuthority \<Rightarrow>
   (SettlementAuthority, TexoError) result" where
  "settle_entities of_ppm fetch [] au = Inr au"
| "settle_entities of_ppm fetch (e # es) au =
     res_bind (fetch e) (\<lambda>c.
     res_bind (case c of None \<Rightarrow> Inr au | Some cd \<Rightarrow> settle_card of_ppm cd au) (\<lambda>au'.
       settle_entities of_ppm fetch es au'))"

definition authority_default :: SettlementAuthority where
  "authority_default = \<lparr>au_verdicts = [], au_cache_keys = [], au_warnings = [], au_unresolved_pairs = 0\<rparr>"

text \<open>
  The card of an entity: what the store projects, or with a frontier the fold of its stream up to it.
\<close>

fun apply_settlement :: "(SettlementCard \<Rightarrow> SettlementCard) \<Rightarrow> stored \<Rightarrow> SettlementCard \<Rightarrow> SettlementCard" where
  "apply_settlement bad (Payload (EvRelationJudged e)) c = settlement_on_judged e c"
| "apply_settlement bad (Payload (EvRelationDeferred e)) c = settlement_on_deferred e c"
| "apply_settlement bad (Payload _) c = c"
| "apply_settlement bad (Undecodable _) c = bad c"

definition settlement_entry ::
  "journal \<Rightarrow> (SettlementCard \<Rightarrow> SettlementCard) \<Rightarrow> u64 \<Rightarrow> IndexEntry \<Rightarrow> SettlementCard \<Rightarrow> SettlementCard \<times> flow" where
  "settlement_entry j bad frontier e c =
     (if frontier < ie_seq e then (c, Break)
      else case jr_read j (ie_id e) of
             Inl err \<Rightarrow> (c, Fail (ErrStore err))
           | Inr raw \<Rightarrow> (apply_settlement bad raw c, Next))"

definition settlement_card_of ::
  "journal \<Rightarrow> (SettlementCard \<Rightarrow> SettlementCard) \<Rightarrow> (string \<Rightarrow> IndexEntry list) \<Rightarrow>
   (string \<Rightarrow> (SettlementCard option, TexoError) result) \<Rightarrow> u64 option \<Rightarrow> string \<Rightarrow> (SettlementCard option, TexoError) result" where
  "settlement_card_of j bad by_entity project frontier entity =
     (case frontier of
        None \<Rightarrow> project entity
      | Some fr \<Rightarrow>
          (case entries_loop (settlement_entry j bad fr) (by_entity entity) settlement_card_default of
             (_, Fail err) \<Rightarrow> Inl err
           | (c, _) \<Rightarrow> Inr (Some c)))"

definition authoritative_settlements ::
  "(nat \<Rightarrow> f32) \<Rightarrow> journal \<Rightarrow> (SettlementCard \<Rightarrow> SettlementCard) \<Rightarrow> (string \<Rightarrow> IndexEntry list) \<Rightarrow>
   (string \<Rightarrow> (SettlementCard option, TexoError) result) \<Rightarrow> string \<Rightarrow> u64 option \<Rightarrow>
   (SettlementAuthority, TexoError) result option" where
  "authoritative_settlements of_ppm j bad by_entity project workspace_id frontier =
     map_option (\<lambda>es. settle_entities of_ppm (settlement_card_of j bad by_entity project frontier) es authority_default)
       (settlement_entities j workspace_id frontier)"

end
