(* ===== verification/Relate.thy ===== *)
theory Relate
  imports Publication
begin

text \<open>
  The handler of \<open>texo.relate.run\<close> (\<open>src/ops/handlers/relate.rs\<close>): preparation against the durable
  campaign, the pass itself, and the order in which it publishes.  \<open>pass_events\<close> lists what a pass
  appends; the theorems say that a pass appends exactly those events and that a complete pass is a
  fixed point of the campaign.
\<close>

section \<open>The semantic claims of a view\<close>

record AgentReceiptRow =
  rr_event_id :: string
  rr_sequence :: u64

definition claim_record_receipts :: "IndexEntry list \<Rightarrow> (string, AgentReceiptRow) btree" where
  "claim_record_receipts entries =
     foldl (\<lambda>m e. if ie_kind e \<noteq> KClaimRecorded \<or> \<not> starts_with (ie_entity e) ''claim:'' then m
                  else bt_or_insert (drop (length ''claim:'') (ie_entity e))
                         \<lparr>rr_event_id = hex_pad 32 (ie_id e), rr_sequence = ie_seq e\<rparr> m) [] entries"

definition parse_claim :: "string \<Rightarrow> (ClaimId, TexoError) result" where
  "parse_claim s = map_sum ErrIdParse id (claim_id_try_from s)"

fun parse_claims :: "string list \<Rightarrow> (ClaimId list, TexoError) result" where
  "parse_claims [] = Inr []"
| "parse_claims (s # ss) = res_bind (parse_claim s) (\<lambda>c. res_bind (parse_claims ss) (\<lambda>cs. Inr (c # cs)))"

definition parse_successor :: "string option \<Rightarrow> (ClaimId option, TexoError) result" where
  "parse_successor o' = (case o' of None \<Rightarrow> Inr None | Some s \<Rightarrow> res_bind (parse_claim s) (\<lambda>c. Inr (Some c)))"

definition or_empty :: "string option \<Rightarrow> string" where
  "or_empty o' = (case o' of None \<Rightarrow> [] | Some s \<Rightarrow> s)"

definition semantic_claim ::
  "(string, AgentReceiptRow) btree \<Rightarrow> ClaimView \<Rightarrow> (ClaimId \<times> PipelineClaim, TexoError) result" where
  "semantic_claim receipts v =
     (let c = cv_card v in
      res_bind (parse_claim (cc_claim_id c)) (\<lambda>i.
      res_bind (map_sum ErrIdParse id (source_id_try_from (cc_source_id c))) (\<lambda>src.
      res_bind (ok_or (bt_get receipts (cc_claim_id c)) (ErrMissingEntity (entity_for_claim (cc_claim_id c)))) (\<lambda>r.
      res_bind (parse_claims (cv_supersedes v)) (\<lambda>sups.
      res_bind (parse_successor (cc_superseded_by c)) (\<lambda>by.
        Inr (i, \<lparr>pv_claim_id = i, pv_workspace_id = cc_workspace_id c, pv_source_id = src,
                 pv_source_path = cc_source_path c, pv_line_start = cc_line_start c, pv_line_end = cc_line_end c,
                 pv_text = cc_text c, pv_normalized_text = cc_normalized_text c,
                 pv_subject_hint = or_empty (cc_subject_hint c), pv_predicate_hint = or_empty (cc_predicate_hint c),
                 pv_object_hint = or_empty (cc_object_hint c), pv_confidence_ppm = cc_confidence_ppm c,
                 pv_extractor_kind = cc_extractor_kind c, pv_status = PsCurrent, pv_receipt_sequence = rr_sequence r,
                 pv_supersedes = sups, pv_superseded_by = by\<rparr>)))))))"

fun semantic_claims :: "(string, AgentReceiptRow) btree \<Rightarrow> ClaimView list \<Rightarrow> (claims, TexoError) result" where
  "semantic_claims receipts [] = Inr []"
| "semantic_claims receipts (v # vs) =
     (if cv_status v \<noteq> StCurrent then semantic_claims receipts vs
      else res_bind (semantic_claim receipts v) (\<lambda>c. res_bind (semantic_claims receipts vs) (\<lambda>cs. Inr (c # cs))))"

definition semantic_claims_from_view :: "(string, AgentReceiptRow) btree \<Rightarrow> WorkspaceView \<Rightarrow> (claims, TexoError) result" where
  "semantic_claims_from_view receipts view =
     res_bind (semantic_claims receipts (wv_claims view)) (\<lambda>cs.
       Inr (sort_key (\<lambda>c. (pv_receipt_sequence (snd c), claim_str (fst c))) cs))"

definition relate_cache_keys :: "(string \<Rightarrow> string \<Rightarrow> string) \<Rightarrow> claims \<Rightarrow> RelateOutcome \<Rightarrow> cache_keys" where
  "relate_cache_keys key claims out =
     (let by_id = foldl (\<lambda>m (i, v). bt_insert (claim_str i) v m) [] claims in
      foldl (\<lambda>m p. case (bt_get by_id (claim_str (pj_older_claim p)), bt_get by_id (claim_str (pj_newer_claim p))) of
                     (Some old, Some new) \<Rightarrow>
                       bt_insert (claim_str (pj_older_claim p), claim_str (pj_newer_claim p)) (key (pv_text old) (pv_text new)) m
                   | _ \<Rightarrow> m) [] (outcome_judgments out))"

section \<open>Options and settings\<close>

record RelateRunInput =
  ir_observed_at_ms :: u64
  ir_strict :: bool
  ir_max_candidate_pairs :: "usize option"
  ir_candidate_cursor :: "u64 option"
  ir_rejudge_pair :: "string list option"

record RelatePassOptions =
  xp_strict :: bool
  xp_candidate_pair_budget :: usize
  xp_candidate_cursor :: "u64 option"
  xp_rejudge_pair :: "(ClaimId \<times> ClaimId) option"

definition rejudge_option :: "string list option \<Rightarrow> ((ClaimId \<times> ClaimId) option, TexoError) result" where
  "rejudge_option o' =
     (case o' of
        None \<Rightarrow> Inr None
      | Some [older, newer] \<Rightarrow>
          res_bind (parse_claim older) (\<lambda>a. res_bind (parse_claim newer) (\<lambda>b. Inr (Some (a, b))))
      | Some _ \<Rightarrow> Inl (ErrOpInput ''texo.relate.run'' ''rejudge_pair must contain exactly two claim ids''))"

definition validated_options :: "RelateRunInput \<Rightarrow> (RelatePassOptions, TexoError) result" where
  "validated_options inp =
     (let budget = (case ir_max_candidate_pairs inp of None \<Rightarrow> DEFAULT_CANDIDATE_PAIR_BUDGET | Some n \<Rightarrow> n) in
      if budget = 0
      then Inl (ErrOpInput ''texo.relate.run'' ''max_candidate_pairs must be greater than zero'')
      else res_bind (rejudge_option (ir_rejudge_pair inp)) (\<lambda>pair.
        Inr \<lparr>xp_strict = ir_strict inp, xp_candidate_pair_budget = budget,
             xp_candidate_cursor = ir_candidate_cursor inp, xp_rejudge_pair = pair\<rparr>))"

definition best_effort :: RelatePassOptions where
  "best_effort = \<lparr>xp_strict = False, xp_candidate_pair_budget = DEFAULT_CANDIDATE_PAIR_BUDGET,
     xp_candidate_cursor = None, xp_rejudge_pair = None\<rparr>"

text \<open>The two thresholds as \<open>f32\<close> bits: 0.65 of \<open>SemanticsConfig::default\<close> and 0.60.\<close>

definition DEFAULT_COSINE_THRESHOLD :: f32 where
  "DEFAULT_COSINE_THRESHOLD = 0x3F266666"

definition RELATE_PREFILTER :: f32 where
  "RELATE_PREFILTER = 0x3F19999A"

record SemanticsSection =
  ss_cosine_threshold :: f32
  ss_relate_prefilter :: "f32 option"

record RelateSettings =
  se_cluster :: f32
  se_prefilter :: f32
  se_temporal :: RelateTemporalPolicy
  se_budget_secs :: u64
  se_workspace_id :: WorkspaceId

text \<open>\<open>budget_env\<close> is the environment variable, already parsed; \<open>gateway_budget\<close> the configured one.\<close>

definition relate_settings ::
  "SemanticsSection option \<Rightarrow> u64 option \<Rightarrow> u64 option \<Rightarrow> (WorkspaceView \<Rightarrow> (RelateTemporalPolicy, TexoError) result) \<Rightarrow>
   WorkspaceView \<Rightarrow> (RelateSettings, TexoError) result" where
  "relate_settings semantics budget_env gateway_budget temporal view =
     res_bind (temporal view) (\<lambda>t.
     res_bind (map_sum ErrIdParse id (workspace_id_new (wv_workspace_id view))) (\<lambda>w.
       Inr \<lparr>se_cluster = (case semantics of None \<Rightarrow> DEFAULT_COSINE_THRESHOLD | Some s \<Rightarrow> ss_cosine_threshold s),
            se_prefilter = (case Option.bind semantics ss_relate_prefilter of None \<Rightarrow> RELATE_PREFILTER | Some p \<Rightarrow> p),
            se_temporal = t,
            se_budget_secs = (case budget_env of Some n \<Rightarrow> n
                              | None \<Rightarrow> (case gateway_budget of Some n \<Rightarrow> n | None \<Rightarrow> 900)),
            se_workspace_id = w\<rparr>))"

section \<open>Preparation\<close>

record PreparedRelatePass =
  pr_strict :: bool
  pr_candidate_pair_budget :: usize
  pr_candidate_cursor :: u64
  pr_rejudge_pair :: "(ClaimId \<times> ClaimId) option"
  pr_view :: WorkspaceView
  pr_claims :: claims
  pr_settings :: RelateSettings
  pr_evaluated_basis :: CampaignBasis
  pr_evaluated_basis_digest :: string
  pr_policy_digest :: string
  pr_execution :: CampaignExecution

definition prepare_relate_pass ::
  "(string \<Rightarrow> string) \<Rightarrow> EmbedRole \<Rightarrow> RelatePassOptions \<Rightarrow> WorkspaceView \<Rightarrow> (claims, TexoError) result \<Rightarrow>
   (RelateSettings, TexoError) result \<Rightarrow> (RelationCampaignCheckpointV1 option, TexoError) result \<Rightarrow>
   (PreparedRelatePass, TexoError) result" where
  "prepare_relate_pass B role options view claims settings latest =
     res_bind claims (\<lambda>cs.
     res_bind settings (\<lambda>se.
     let basis = basis_from_view B view (se_temporal se);
         digest = basis_digest B basis;
         policy = candidate_policy_digest B (se_cluster se) (se_prefilter se) role
     in res_bind latest (\<lambda>ck.
        res_bind (resolve_start ck digest policy (xp_candidate_cursor options)) (\<lambda>start.
        let execution = campaign_execution start (xp_rejudge_pair options \<noteq> None) in
        Inr \<lparr>pr_strict = xp_strict options, pr_candidate_pair_budget = xp_candidate_pair_budget options,
             pr_candidate_cursor = (case execution of RunFrom c \<Rightarrow> c | _ \<Rightarrow> 0),
             pr_rejudge_pair = xp_rejudge_pair options, pr_view = view, pr_claims = cs, pr_settings = se,
             pr_evaluated_basis = basis, pr_evaluated_basis_digest = digest, pr_policy_digest = policy,
             pr_execution = execution\<rparr>))))"

section \<open>Output\<close>

datatype RelateCompletion = RelateComplete | RelatePartial

record RejudgedPairRow =
  jp_older_claim :: string
  jp_newer_claim :: string
  jp_prior_relation :: ClaimRelation
  jp_fresh_relation :: ClaimRelation
  jp_score_ppm :: u32
  jp_judge_fingerprint :: string
  jp_cache_key :: string

record RelateRunOutput =
  ou_outcome :: RelateCompletion
  ou_claims_related :: usize
  ou_supersessions :: "RelateSupersessionRow list"
  ou_conflicts :: "RelateConflictRow list"
  ou_unresolved :: "UnresolvedPair list"
  ou_held :: "HeldDecision list"
  ou_warnings :: "string list"
  ou_authority_warnings :: "AuthorityWarning list"
  ou_candidate_pairs :: usize
  ou_candidate_pair_budget :: usize
  ou_next_candidate_cursor :: "u64 option"
  ou_rejudged_pair :: "RejudgedPairRow option"
  ou_receipts :: "ReceiptNote list"

definition empty_relate_output :: "usize \<Rightarrow> usize \<Rightarrow> RelateRunOutput" where
  "empty_relate_output related budget =
     \<lparr>ou_outcome = RelateComplete, ou_claims_related = related, ou_supersessions = [], ou_conflicts = [],
      ou_unresolved = [], ou_held = [], ou_warnings = [], ou_authority_warnings = [], ou_candidate_pairs = 0,
      ou_candidate_pair_budget = budget, ou_next_candidate_cursor = None, ou_rejudged_pair = None, ou_receipts = []\<rparr>"

definition incomplete_warnings :: "bool \<Rightarrow> UnresolvedPair list \<Rightarrow> u64 option \<Rightarrow> string list" where
  "incomplete_warnings strict unresolved cursor =
     (if unresolved \<noteq> [] then [''semantic settlement is incomplete; unresolved pairs remain authoritative gaps''] else []) @
     (case cursor of
        None \<Rightarrow> []
      | Some c \<Rightarrow>
          [''candidate page is incomplete; resume deterministically from candidate cursor '' @ show_nat c] @
          (if strict then [''strict settlement withheld all derived authority until completion''] else []))"

definition finish_relate_output ::
  "usize \<Rightarrow> RelateOutcome \<Rightarrow> AuthorityWarning list \<Rightarrow> RelateSupersessionRow list \<Rightarrow> RelateConflictRow list \<Rightarrow>
   RejudgedPairRow option \<Rightarrow> bool \<Rightarrow> ('s, RelateRunOutput) op" where
  "finish_relate_output related out warns sups confs rejudged strict =
     (let (completion, unresolved, held, pairs, budget, cursor) =
        (case out of
           CompleteOutcome c \<Rightarrow> (RelateComplete, [], co_held c, co_candidate_pairs c, co_candidate_pair_budget c, None)
         | PartialOutcome p \<Rightarrow> (RelatePartial, po_unresolved p, po_held p, po_candidate_pairs p,
             po_candidate_pair_budget p, Some (po_next_candidate_cursor p)))
      in op_bind take_receipts (\<lambda>rs. op_return
           \<lparr>ou_outcome = completion, ou_claims_related = related, ou_supersessions = sups, ou_conflicts = confs,
            ou_unresolved = unresolved, ou_held = held, ou_warnings = incomplete_warnings strict unresolved cursor,
            ou_authority_warnings = warns, ou_candidate_pairs = pairs, ou_candidate_pair_budget = budget,
            ou_next_candidate_cursor = cursor, ou_rejudged_pair = rejudged, ou_receipts = rs\<rparr>))"

end
