(* ===== verification/Passes.thy ===== *)
theory Passes
  imports Relate
begin

text \<open>
  Running a relation pass (\<open>src/ops/handlers/relate.rs\<close>): the executions a prepared pass chooses from,
  the publication of an evaluated pass, and what the next pass then finds.
\<close>

section \<open>Rejudging one pair\<close>

record FreshPairJudgment =
  fj_verdict :: RelationVerdict
  fj_judge_fingerprint :: string
  fj_cache_key :: string

definition settled_pair :: "SettlementAuthority \<Rightarrow> ClaimId \<times> ClaimId \<Rightarrow> (ClaimId \<times> ClaimId \<times> RelationVerdict) option" where
  "settled_pair au p =
     (case bt_get (au_verdicts au) p of
        Some v \<Rightarrow> Some (fst p, snd p, v)
      | None \<Rightarrow> (case bt_get (au_verdicts au) (snd p, fst p) of
                   Some v \<Rightarrow> Some (snd p, fst p, v) | None \<Rightarrow> None))"

definition current_text :: "claims \<Rightarrow> ClaimId \<Rightarrow> string option" where
  "current_text claims i = map_option pv_text (bt_get (foldl (\<lambda>m (k, v). bt_insert (claim_str k) v m) [] claims) (claim_str i))"

definition rejudge_authoritative_pair ::
  "string \<Rightarrow> 's ctx \<Rightarrow> (domain_event \<Rightarrow> (string, string) result) \<Rightarrow> (string \<Rightarrow> string \<Rightarrow> (FreshPairJudgment, TexoError) result) \<Rightarrow>
   WorkspaceId \<Rightarrow> claims \<Rightarrow> SettlementAuthority \<Rightarrow> ClaimId \<times> ClaimId \<Rightarrow> u64 \<Rightarrow> ('s, RejudgedPairRow) op" where
  "rejudge_authoritative_pair op cx enc judge w claims au requested observed =
     op_bind (op_lift (ok_or (settled_pair au requested)
       (ErrOpInput op (''rejudge pair '' @ claim_str (fst requested) @ '' '' @ claim_str (snd requested) @
          '' has no journal-authoritative judgment'')))) (\<lambda>(older, newer, prior).
     op_bind (op_lift (ok_or (current_text claims older)
       (ErrOpInput op (''rejudge older claim '' @ claim_str older @ '' is not current semantic input'')))) (\<lambda>old.
     op_bind (op_lift (ok_or (current_text claims newer)
       (ErrOpInput op (''rejudge newer claim '' @ claim_str newer @ '' is not current semantic input'')))) (\<lambda>new.
     op_bind (op_lift (judge old new)) (\<lambda>fresh.
     op_bind (append_json op cx enc (EvRelationJudged
       \<lparr>rj1_workspace_id = w, rj1_older_claim = older, rj1_newer_claim = newer,
        rj1_relation = settled_of_relation (rv_relation (fj_verdict fresh)),
        rj1_score_ppm = unit_interval_to_ppm (rv_score (fj_verdict fresh)),
        rj1_judge_fingerprint = fj_judge_fingerprint fresh, rj1_cache_key_hex = fj_cache_key fresh,
        rj1_observed_at_ms = observed\<rparr>)) (\<lambda>_.
       op_return
         \<lparr>jp_older_claim = claim_str older, jp_newer_claim = claim_str newer, jp_prior_relation = rv_relation prior,
          jp_fresh_relation = rv_relation (fj_verdict fresh), jp_score_ppm = unit_interval_to_ppm (rv_score (fj_verdict fresh)),
          jp_judge_fingerprint = fj_judge_fingerprint fresh, jp_cache_key = fj_cache_key fresh\<rparr>)))))"

definition unchanged_checkpoint :: "PreparedRelatePass \<Rightarrow> u64 \<Rightarrow> CheckpointDraft" where
  "unchanged_checkpoint p observed =
     \<lparr>cd_workspace_id = se_workspace_id (pr_settings p), cd_evaluated_basis = pr_evaluated_basis_digest p,
      cd_result_basis = pr_evaluated_basis_digest p, cd_candidate_policy = pr_policy_digest p,
      cd_phase = Complete, cd_observed_at_ms = observed\<rparr>"

text \<open>The store the pass reads and the models it calls.\<close>

record 's pass_world =
  pw_authority :: "'s append_env \<Rightarrow> (SettlementAuthority, TexoError) result"
  pw_judge :: "string \<Rightarrow> string \<Rightarrow> (FreshPairJudgment, TexoError) result"
  pw_relate :: "PreparedRelatePass \<Rightarrow> settled \<Rightarrow> (SemanticRelateOutput, TexoError) result"

definition read_authority :: "'s pass_world \<Rightarrow> ('s, SettlementAuthority) op" where
  "read_authority w env = (env, pw_authority w env)"

definition rejudge_completed_campaign ::
  "string \<Rightarrow> 's ctx \<Rightarrow> (domain_event \<Rightarrow> (string, string) result) \<Rightarrow> 's pass_world \<Rightarrow> u64 \<Rightarrow> PreparedRelatePass \<Rightarrow>
   ('s, RelateRunOutput) op" where
  "rejudge_completed_campaign op cx enc w observed p =
     op_bind (op_lift (ok_or (pr_rejudge_pair p) (ErrOpInput op ''completed-campaign rejudge requires a claim pair''))) (\<lambda>requested.
     op_bind (read_authority w) (\<lambda>au.
     op_bind (rejudge_authoritative_pair op cx enc (pw_judge w) (se_workspace_id (pr_settings p)) (pr_claims p) au requested observed) (\<lambda>row.
     op_bind (read_authority w) (\<lambda>au'.
     op_bind (append_checkpoint op cx enc (unchanged_checkpoint p observed)) (\<lambda>_.
     op_bind take_receipts (\<lambda>rs.
       op_return ((empty_relate_output (length (pr_claims p)) (pr_candidate_pair_budget p))
         \<lparr>ou_authority_warnings := au_warnings au', ou_rejudged_pair := Some row, ou_receipts := rs\<rparr>)))))))"

definition complete_trivial_campaign ::
  "string \<Rightarrow> 's ctx \<Rightarrow> (domain_event \<Rightarrow> (string, string) result) \<Rightarrow> u64 \<Rightarrow> PreparedRelatePass \<Rightarrow> ('s, RelateRunOutput) op" where
  "complete_trivial_campaign op cx enc observed p =
     op_bind (append_checkpoint op cx enc (unchanged_checkpoint p observed)) (\<lambda>_.
     op_bind take_receipts (\<lambda>rs.
       op_return ((empty_relate_output (length (pr_claims p)) (pr_candidate_pair_budget p))\<lparr>ou_receipts := rs\<rparr>)))"

record EvaluatedRelatePass =
  ev_related :: SemanticRelateOutput
  ev_authority_warnings :: "AuthorityWarning list"
  ev_rejudged_pair :: "RejudgedPairRow option"

definition evaluate_relate_pass ::
  "string \<Rightarrow> 's ctx \<Rightarrow> (domain_event \<Rightarrow> (string, string) result) \<Rightarrow> 's pass_world \<Rightarrow> u64 \<Rightarrow> PreparedRelatePass \<Rightarrow>
   ('s, EvaluatedRelatePass) op" where
  "evaluate_relate_pass op cx enc w observed p =
     op_bind (read_authority w) (\<lambda>au.
     op_bind (case pr_rejudge_pair p of
                None \<Rightarrow> op_return None
              | Some pair \<Rightarrow>
                  op_bind (rejudge_authoritative_pair op cx enc (pw_judge w) (se_workspace_id (pr_settings p)) (pr_claims p) au pair observed)
                    (\<lambda>row. op_return (Some row))) (\<lambda>row.
     op_bind (if row \<noteq> None then read_authority w else op_return au) (\<lambda>au.
     op_bind (op_lift (pw_relate w p (au_verdicts au))) (\<lambda>related.
       op_return
         \<lparr>ev_related = related\<lparr>sq_cache_keys := foldl (\<lambda>m (k, v). bt_insert k v m) (sq_cache_keys related) (au_cache_keys au)\<rparr>,
          ev_authority_warnings = au_warnings au, ev_rejudged_pair = row\<rparr>))))"

section \<open>Publishing\<close>

fun pass_phase ::
  "(string \<Rightarrow> string) \<Rightarrow> PreparedRelatePass \<Rightarrow> RelateSupersessionRow list \<Rightarrow> RelateConflictRow list \<Rightarrow> RelateOutcome \<Rightarrow>
   CampaignPhase \<times> string" where
  "pass_phase B p sups confs (CompleteOutcome c) =
     (Complete, basis_digest B (after_publication sups confs (pr_evaluated_basis p)))"
| "pass_phase B p sups confs (PartialOutcome q) =
     (Partial (po_next_candidate_cursor q), pr_evaluated_basis_digest p)"

definition pass_checkpoint ::
  "(string \<Rightarrow> string) \<Rightarrow> PreparedRelatePass \<Rightarrow> RelateSupersessionRow list \<Rightarrow> RelateConflictRow list \<Rightarrow> RelateOutcome \<Rightarrow>
   u64 \<Rightarrow> CheckpointDraft" where
  "pass_checkpoint B p sups confs out observed =
     (let (phase, digest) = pass_phase B p sups confs out in
      \<lparr>cd_workspace_id = se_workspace_id (pr_settings p), cd_evaluated_basis = pr_evaluated_basis_digest p,
       cd_result_basis = digest, cd_candidate_policy = pr_policy_digest p, cd_phase = phase, cd_observed_at_ms = observed\<rparr>)"

definition publish_relate_pass ::
  "(string \<Rightarrow> string) \<Rightarrow> string \<Rightarrow> 's ctx \<Rightarrow> (domain_event \<Rightarrow> (string, string) result) \<Rightarrow> u64 \<Rightarrow> PreparedRelatePass \<Rightarrow>
   EvaluatedRelatePass \<Rightarrow> ('s, RelateRunOutput) op" where
  "publish_relate_pass B op cx enc observed p ev =
     (let related = ev_related ev; out = sq_outcome related; w = se_workspace_id (pr_settings p);
          ws = wv_workspace_id (pr_view p); keys = sq_cache_keys related; plan = relate_publication out;
          existing = map cf_conflict_id (wv_conflicts (pr_view p)) in
      op_bind (append_relation_judgments op cx enc w related observed) (\<lambda>_.
      op_bind (append_relation_deferrals op cx enc w (outcome_unresolved out) observed) (\<lambda>_.
      op_bind (append_relate_supersessions B op cx enc ws (rp_supersessions plan) keys observed) (\<lambda>sups.
      op_bind (append_relate_conflicts B op cx enc ws (rp_conflicts plan) existing keys observed) (\<lambda>confs.
      op_bind (append_checkpoint op cx enc (pass_checkpoint B p sups confs out observed)) (\<lambda>_.
        finish_relate_output (length (pr_claims p)) out (ev_authority_warnings ev) sups confs (ev_rejudged_pair ev) (pr_strict p)))))))"

definition run_prepared_pass ::
  "(string \<Rightarrow> string) \<Rightarrow> string \<Rightarrow> 's ctx \<Rightarrow> (domain_event \<Rightarrow> (string, string) result) \<Rightarrow> 's pass_world \<Rightarrow> u64 \<Rightarrow>
   PreparedRelatePass \<Rightarrow> ('s, RelateRunOutput) op" where
  "run_prepared_pass B op cx enc w observed p =
     (case pr_execution p of
        NoopComplete \<Rightarrow>
          op_bind take_receipts (\<lambda>rs.
            op_return ((empty_relate_output (length (pr_claims p)) (pr_candidate_pair_budget p))\<lparr>ou_receipts := rs\<rparr>))
      | RejudgeComplete \<Rightarrow> rejudge_completed_campaign op cx enc w observed p
      | RunFrom _ \<Rightarrow>
          if pr_rejudge_pair p \<noteq> None \<and> length (pr_claims p) < 2
          then op_fail (ErrOpInput op ''rejudge pair is no longer present in the current semantic claim set'')
          else if length (pr_claims p) < 2 then complete_trivial_campaign op cx enc observed p
          else op_bind (evaluate_relate_pass op cx enc w observed p) (publish_relate_pass B op cx enc observed p))"

definition run_relate_pass ::
  "(string \<Rightarrow> string) \<Rightarrow> string \<Rightarrow> 's ctx \<Rightarrow> (domain_event \<Rightarrow> (string, string) result) \<Rightarrow> 's pass_world \<Rightarrow> u64 \<Rightarrow>
   (PreparedRelatePass, TexoError) result \<Rightarrow> ('s, RelateRunOutput) op" where
  "run_relate_pass B op cx enc w observed prep =
     op_bind (op_lift prep) (run_prepared_pass B op cx enc w observed)"

definition relate_run ::
  "(string \<Rightarrow> string) \<Rightarrow> 's ctx \<Rightarrow> (domain_event \<Rightarrow> (string, string) result) \<Rightarrow> 's pass_world \<Rightarrow>
   (RelatePassOptions \<Rightarrow> (PreparedRelatePass, TexoError) result) \<Rightarrow> RelateRunInput \<Rightarrow> ('s, RelateRunOutput) op" where
  "relate_run B cx enc w prepare inp =
     op_bind (query_view ''texo.relate.run'' cx) (\<lambda>_.
     op_bind (op_lift (validated_options inp)) (\<lambda>options.
       run_relate_pass B ''texo.relate.run'' cx enc w (ir_observed_at_ms inp) (prepare options)))"

section \<open>A pass appends exactly these events\<close>

definition pass_supersessions :: "EvaluatedRelatePass \<Rightarrow> SupersessionEdge list" where
  "pass_supersessions ev = rp_supersessions (relate_publication (sq_outcome (ev_related ev)))"

definition pass_conflicts :: "PreparedRelatePass \<Rightarrow> EvaluatedRelatePass \<Rightarrow> ConflictEntry list" where
  "pass_conflicts p ev =
     filter (\<lambda>c. conflict_str (cn_conflict_id c) \<notin> cf_conflict_id ` set (wv_conflicts (pr_view p)))
       (rp_conflicts (relate_publication (sq_outcome (ev_related ev))))"

definition supersession_rows :: "EvaluatedRelatePass \<Rightarrow> RelateSupersessionRow list" where
  "supersession_rows ev = map (supersession_row (sq_cache_keys (ev_related ev))) (pass_supersessions ev)"

definition conflict_rows :: "PreparedRelatePass \<Rightarrow> EvaluatedRelatePass \<Rightarrow> RelateConflictRow list" where
  "conflict_rows p ev = map (conflict_row_of (sq_cache_keys (ev_related ev))) (pass_conflicts p ev)"

definition authority_events :: "(string \<Rightarrow> string) \<Rightarrow> u64 \<Rightarrow> PreparedRelatePass \<Rightarrow> EvaluatedRelatePass \<Rightarrow> domain_event list" where
  "authority_events B observed p ev =
     (let ws = wv_workspace_id (pr_view p); keys = sq_cache_keys (ev_related ev) in
      map (\<lambda>e. EvClaimSuperseded (relate_superseded_event B ws keys observed e)) (pass_supersessions ev) @
      map (\<lambda>c. EvConflictOpened (relate_opened_event B ws keys observed c)) (pass_conflicts p ev))"

definition settlement_events :: "u64 \<Rightarrow> PreparedRelatePass \<Rightarrow> EvaluatedRelatePass \<Rightarrow> domain_event list" where
  "settlement_events observed p ev =
     (let related = ev_related ev; w = se_workspace_id (pr_settings p) in
      map (\<lambda>j. EvRelationJudged (judged_event w related observed j))
        (filter (\<lambda>j. \<not> pj_reused_authority j) (outcome_judgments (sq_outcome related))) @
      map (\<lambda>u. EvRelationDeferred (deferred_event w observed u)) (outcome_unresolved (sq_outcome related)))"

definition final_checkpoint :: "(string \<Rightarrow> string) \<Rightarrow> u64 \<Rightarrow> PreparedRelatePass \<Rightarrow> EvaluatedRelatePass \<Rightarrow> RelationCampaignCheckpointV1" where
  "final_checkpoint B observed p ev =
     checkpoint_of (pass_checkpoint B p (supersession_rows ev) (conflict_rows p ev) (sq_outcome (ev_related ev)) observed)"

lemma relate_conflicts_loop:
  "append_relate_conflicts B op cx enc ws cs existing keys observed =
     op_bind (op_for (\<lambda>c. append_json op cx enc (EvConflictOpened (relate_opened_event B ws keys observed c)))
                (filter (\<lambda>c. conflict_str (cn_conflict_id c) \<notin> set existing) cs))
       (\<lambda>_. op_return (map (conflict_row_of keys) (filter (\<lambda>c. conflict_str (cn_conflict_id c) \<notin> set existing) cs)))"
  by (induction cs) (simp_all add: op_bind_assoc)

text \<open>
  C6: A pass publishes in one order: fresh judgments, deferrals, then the supersessions and the new
  conflicts of a complete outcome, and last the checkpoint.  The first append that fails ends the
  pass, so no checkpoint follows a publication that was cut short.  A partial outcome publishes no
  supersession and no conflict, and its checkpoint keeps the evaluated basis.
\<close>

theorem publication_order:
  "publish_relate_pass B op cx enc observed p ev =
     op_bind (op_for (append_json op cx enc)
        (settlement_events observed p ev @ authority_events B observed p ev @ [EvCampaignCheckpoint (final_checkpoint B observed p ev)]))
       (\<lambda>_. finish_relate_output (length (pr_claims p)) (sq_outcome (ev_related ev)) (ev_authority_warnings ev)
              (supersession_rows ev) (conflict_rows p ev) (ev_rejudged_pair ev) (pr_strict p))
   \<and> (is_partial (sq_outcome (ev_related ev)) \<longleftrightarrow> ck_phase (final_checkpoint B observed p ev) \<noteq> Complete)
   \<and> (if is_partial (sq_outcome (ev_related ev))
      then authority_events B observed p ev = [] \<and>
        ck_result_basis_digest_hex (final_checkpoint B observed p ev) = ck_evaluated_basis_digest_hex (final_checkpoint B observed p ev)
      else ck_result_basis_digest_hex (final_checkpoint B observed p ev) =
        basis_digest B (after_publication (supersession_rows ev) (conflict_rows p ev) (pr_evaluated_basis p)))"
proof (intro conjI)
  show "publish_relate_pass B op cx enc observed p ev =
     op_bind (op_for (append_json op cx enc)
        (settlement_events observed p ev @ authority_events B observed p ev @ [EvCampaignCheckpoint (final_checkpoint B observed p ev)]))
       (\<lambda>_. finish_relate_output (length (pr_claims p)) (sq_outcome (ev_related ev)) (ev_authority_warnings ev)
              (supersession_rows ev) (conflict_rows p ev) (ev_rejudged_pair ev) (pr_strict p))"
    by (simp add: publish_relate_pass_def append_relation_judgments_def append_relation_deferrals_def
        append_relate_supersessions_def append_checkpoint_def op_for_skip op_each_rows relate_conflicts_loop op_bind_assoc
        op_for_append op_for_map settlement_events_def authority_events_def final_checkpoint_def supersession_rows_def
        conflict_rows_def pass_supersessions_def pass_conflicts_def Let_def)
qed (cases "sq_outcome (ev_related ev)";
    simp add: final_checkpoint_def checkpoint_of_def pass_checkpoint_def authority_events_def pass_supersessions_def pass_conflicts_def)+

end
