(* ===== verification/Convergence.thy ===== *)
theory Convergence
  imports Passes
begin

text \<open>
  What the next relation pass finds.  The events of a complete pass, folded into the journal's view,
  give exactly the basis the pass recorded in its checkpoint, so the next pass has nothing to do.
\<close>

section \<open>Eligibility in the cards\<close>

definition claim_at :: "(string, CachedCard) btree \<Rightarrow> string \<Rightarrow> ClaimCard option" where
  "claim_at m i = (case bt_get m (entity_for_claim i) of Some (CardClaim c) \<Rightarrow> Some c | _ \<Rightarrow> None)"

definition contested :: "(string, CachedCard) btree \<Rightarrow> string \<Rightarrow> bool" where
  "contested m i \<longleftrightarrow>
     (\<exists>k f. bt_get m k = Some (CardConflict f) \<and> cf_phase f = 1 \<and> (i = cf_claim_a f \<or> i = cf_claim_b f))"

definition eligible :: "(string, CachedCard) btree \<Rightarrow> string \<Rightarrow> bool option" where
  "eligible m i = map_option (\<lambda>c. cc_phase c \<noteq> 2 \<and> \<not> contested m i) (claim_at m i)"

text \<open>
  Cards written under their own entity: a claim card is superseded or names no successor, which every
  recorded claim satisfies that was not recorded again after its supersession.
\<close>

definition card_wf :: "string \<Rightarrow> CachedCard \<Rightarrow> bool" where
  "card_wf k cd \<longleftrightarrow>
     (case cd of
        CardClaim c \<Rightarrow> k = entity_for_claim (cc_claim_id c) \<and> (cc_phase c = 2 \<or> cc_superseded_by c = None)
      | CardConflict f \<Rightarrow> k = entity_for_conflict (cf_conflict_id f)
      | CardSource s \<Rightarrow> card_family k = Some FamSource)"

definition cards_ok :: "(string, CachedCard) btree \<Rightarrow> bool" where
  "cards_ok m \<longleftrightarrow> bt_ok m \<and> (\<forall>k cd. bt_get m k = Some cd \<longrightarrow> card_wf k cd)"

lemma claim_cards_iff: "c \<in> set (claim_cards cds) \<longleftrightarrow> CardClaim c \<in> set cds"
  by (induction cds rule: claim_cards.induct) auto

lemma conflict_cards_iff: "f \<in> set (conflict_cards cds) \<longleftrightarrow> CardConflict f \<in> set cds"
  by (induction cds rule: conflict_cards.induct) auto

lemma values_iff: "bt_ok m \<Longrightarrow> cd \<in> set (bt_values m) \<longleftrightarrow> (\<exists>k. bt_get m k = Some cd)"
  using map_of_eq_Some_iff [OF bt_ok_distinct, of m] by (force simp: bt_values_def)

lemma entity_claim_inject [simp]: "entity_for_claim i = entity_for_claim k \<longleftrightarrow> i = k"
  by (simp add: entity_for_claim_def)

lemma claims_distinct:
  assumes "bt_ok m" "\<forall>k cd. bt_get m k = Some cd \<longrightarrow> card_wf k cd"
  shows "distinct (map cc_claim_id (claim_cards (bt_values m)))"
proof -
  have "distinct (map cc_claim_id (claim_cards (map snd m)))"
    if "distinct (map fst m)" "\<forall>(k, cd) \<in> set m. card_wf k cd" for m :: "(string \<times> CachedCard) list"
    using that
  proof (induction m)
    case (Cons x m)
    obtain k cd where x: "x = (k, cd)" by (cases x)
    show ?case
    proof (cases cd)
      case (CardClaim c)
      have "cc_claim_id c \<noteq> cc_claim_id d" if "d \<in> set (claim_cards (map snd m))" for d
      proof -
        have "CardClaim d \<in> snd ` set m" using that by (simp add: claim_cards_iff)
        then obtain k' where "(k', CardClaim d) \<in> set m" by force
        then show ?thesis using Cons.prems by (force simp: x CardClaim card_wf_def)
      qed
      then show ?thesis using Cons by (auto simp: x CardClaim)
    qed (use Cons x in auto)
  qed simp
  then show ?thesis
    using assms bt_ok_distinct map_of_eq_Some_iff [OF bt_ok_distinct [OF assms(1)]] by (auto simp: bt_values_def)
qed

lemma entries_get: "distinct (map fst es) \<Longrightarrow> bt_get (cb_claims (from_entries B es t)) i = map_of es i"
proof -
  assume d: "distinct (map fst es)"
  have "bt_get (foldl (\<lambda>m (k, v). bt_insert k v m) m es) i = (case map_of es i of Some v \<Rightarrow> Some v | None \<Rightarrow> bt_get m i)" for m
    using d
  proof (induction es arbitrary: m)
    case (Cons x es)
    then have "map_of es (fst x) = None" by (simp add: map_of_eq_None_iff)
    then show ?case using Cons by (cases x) (simp split: option.split)
  qed simp
  from this [of "[]"] show ?thesis by (simp add: from_entries_def split: option.splits)
qed

lemma entries_ok: "bt_ok (cb_claims (from_entries B es t))"
proof -
  have "bt_ok m \<Longrightarrow> bt_ok (foldl (\<lambda>m (k, v). bt_insert k v m) m es)" for m
    by (induction es arbitrary: m) auto
  from this [of "[]"] show ?thesis by (simp add: from_entries_def)
qed

lemma map_of_map_id:
  "distinct (map f cs) \<Longrightarrow> map_of (map (\<lambda>c. (f c, g c)) cs) i = map_option g (find (\<lambda>c. f c = i) cs)"
  by (induction cs) auto

lemma claim_at_id:
  assumes "cards_ok m" "claim_at m i = Some c"
  shows "cc_claim_id c = i"
proof -
  have "bt_get m (entity_for_claim i) = Some (CardClaim c)"
    using assms(2) by (auto simp: claim_at_def split: option.splits CachedCard.splits)
  then have "card_wf (entity_for_claim i) (CardClaim c)" using assms(1) by (simp add: cards_ok_def)
  then show ?thesis by (simp add: card_wf_def)
qed

lemma basis_eligible:
  assumes "cards_ok m"
  shows "bt_get (cb_claims (basis_from_view B (view_of ws fr (bt_values m)) t)) i = eligible m i"
proof -
  let ?cs = "sort_key cc_claim_id (claim_cards (bt_values m))"
  let ?ks = "sort_key cf_conflict_id (conflict_cards (bt_values m))"
  have ok: "bt_ok m" "\<forall>k cd. bt_get m k = Some cd \<longrightarrow> card_wf k cd" using assms by (simp_all add: cards_ok_def)
  have d: "distinct (map cc_claim_id ?cs)"
    using claims_distinct [OF ok] by (metis mset_map mset_sort mset_eq_imp_distinct_iff)
  have open_iff: "i \<in> set (open_conflict_claims ?ks) \<longleftrightarrow> contested m i" for i
    unfolding open_conflict_claims_iff set_sort contested_def
    using conflict_cards_iff [of _ "bt_values m"] values_iff [OF ok(1)] by blast
  have ids: "map (\<lambda>v. (cc_claim_id (cv_card v), cv_status v = StCurrent)) (wv_claims (view_of ws fr (bt_values m))) =
      map (\<lambda>c. (cc_claim_id c, cc_phase c \<noteq> 2 \<and> \<not> contested m (cc_claim_id c))) ?cs"
    by (simp add: view_of_def Let_def claim_views_map [OF d] open_iff claim_status_def)
  have "bt_get (cb_claims (basis_from_view B (view_of ws fr (bt_values m)) t)) i =
      map_option (\<lambda>c. cc_phase c \<noteq> 2 \<and> \<not> contested m (cc_claim_id c)) (find (\<lambda>c. cc_claim_id c = i) ?cs)"
    unfolding basis_from_view_def ids using d by (subst entries_get) (simp_all add: map_of_map_id o_def)
  also have "find (\<lambda>c. cc_claim_id c = i) ?cs = claim_at m i"
  proof (cases "claim_at m i")
    case None
    have "cc_claim_id c \<noteq> i" if "c \<in> set ?cs" for c
    proof -
      have "CardClaim c \<in> set (bt_values m)" using that by (simp add: claim_cards_iff)
      then obtain k where "bt_get m k = Some (CardClaim c)" using values_iff [OF ok(1)] by blast
      then show ?thesis using ok(2) None by (force simp: card_wf_def claim_at_def)
    qed
    then show ?thesis using None by (simp add: find_None_iff)
  next
    case (Some c)
    then have g: "bt_get m (entity_for_claim i) = Some (CardClaim c)"
      by (auto simp: claim_at_def split: option.splits CachedCard.splits)
    then have c: "c \<in> set ?cs" "cc_claim_id c = i"
      using ok(2) g by (force simp: claim_cards_iff values_iff [OF ok(1)] card_wf_def)+
    obtain x where x: "find (\<lambda>c. cc_claim_id c = i) ?cs = Some x"
      using c by (cases "find (\<lambda>c. cc_claim_id c = i) ?cs") (auto simp: find_None_iff)
    then have "x \<in> set ?cs" "cc_claim_id x = i" unfolding find_Some_iff by (metis nth_mem)+
    then have "x = c" using d c by (auto simp: distinct_map inj_on_def)
    then show ?thesis using x Some by simp
  qed
  finally show ?thesis
    using claim_at_id [OF assms] by (cases "claim_at m i") (auto simp: eligible_def)
qed

section \<open>Folding the events of a pass\<close>

text \<open>The entity an event of a pass is appended under.\<close>

fun entity_of :: "(string \<Rightarrow> string) \<Rightarrow> domain_event \<Rightarrow> string" where
  "entity_of B (EvClaimSuperseded p) = entity_for_claim (cs_old_claim_id p)"
| "entity_of B (EvConflictOpened p) = entity_for_conflict (op_conflict_id p)"
| "entity_of B (EvRelationJudged p) =
     entity_for_relation_pair (pair_str (relation_pair_id B (rj1_workspace_id p) (rj1_older_claim p) (rj1_newer_claim p)))"
| "entity_of B (EvRelationDeferred p) =
     entity_for_relation_pair (pair_str (relation_pair_id B (rd_workspace_id p) (rd_older_claim p) (rd_newer_claim p)))"
| "entity_of B (EvCampaignCheckpoint p) = entity_for_relation_campaign (ws_str (ck_workspace_id p))"
| "entity_of B (EvSourceObserved p) = entity_for_source (so_source_id p)"
| "entity_of B (EvClaimRecorded p) = entity_for_claim (cr_claim_id p)"
| "entity_of B (EvEvidenceOccurrence p) = entity_for_evidence (occurrence_str (occ_occurrence_id (eo_occurrence p)))"
| "entity_of B (EvReconciliationAccepted p) = entity_for_claim (claim_str (ra_claim_id p))"
| "entity_of B (EvClaimEvidenceLinked p) = entity_for_claim (claim_str (el_claim_id p))"
| "entity_of B (EvCodeIndexRecorded p) = entity_for_code_index (code_index_str (ci_index_id p))"
| "entity_of B _ = []"

definition recorded_as :: "(string \<Rightarrow> string) \<Rightarrow> journal \<Rightarrow> IndexEntry \<Rightarrow> domain_event \<Rightarrow> bool" where
  "recorded_as B j e ev \<longleftrightarrow>
     jr_read j (ie_id e) = Inr (Payload ev) \<and> ie_kind e = kind_of ev \<and> ie_entity e = entity_of B ev"

definition withdraw :: "string list \<Rightarrow> (string \<Rightarrow> bool option) \<Rightarrow> string \<Rightarrow> bool option" where
  "withdraw is f i = (if i \<in> set is \<and> f i \<noteq> None then Some False else f i)"

lemma withdraw_withdraw: "withdraw is (withdraw ks f) = withdraw (ks @ is) f"
  by (auto simp: withdraw_def fun_eq_iff)

lemma contested_insert:
  assumes "\<And>f. bt_get m k \<noteq> Some (CardConflict f)"
  shows "contested (bt_insert k cd m) i \<longleftrightarrow> contested m i \<or>
    (\<exists>f. cd = CardConflict f \<and> cf_phase f = 1 \<and> (i = cf_claim_a f \<or> i = cf_claim_b f))"
proof
  assume "contested (bt_insert k cd m) i"
  then obtain k' f where f: "bt_get (bt_insert k cd m) k' = Some (CardConflict f)" "cf_phase f = 1" "i = cf_claim_a f \<or> i = cf_claim_b f"
    unfolding contested_def by blast
  then show "contested m i \<or> (\<exists>f. cd = CardConflict f \<and> cf_phase f = 1 \<and> (i = cf_claim_a f \<or> i = cf_claim_b f))"
    by (cases "k' = k") (simp, simp add: contested_def, blast)
next
  assume or: "contested m i \<or> (\<exists>f. cd = CardConflict f \<and> cf_phase f = 1 \<and> (i = cf_claim_a f \<or> i = cf_claim_b f))"
  then show "contested (bt_insert k cd m) i"
  proof
    assume "contested m i"
    then obtain k' f where f: "bt_get m k' = Some (CardConflict f)" "cf_phase f = 1" "i = cf_claim_a f \<or> i = cf_claim_b f"
      unfolding contested_def by blast
    moreover have "k' \<noteq> k" using assms f(1) by blast
    ultimately show ?thesis unfolding contested_def by (intro exI [of _ k'] exI [of _ f]) simp
  next
    assume "\<exists>f. cd = CardConflict f \<and> cf_phase f = 1 \<and> (i = cf_claim_a f \<or> i = cf_claim_b f)"
    then show ?thesis unfolding contested_def by (metis bt_get_insert)
  qed
qed

lemma put_superseded:
  assumes ok: "cards_ok m" and e: "recorded_as B j e (EvClaimSuperseded p)" and known: "eligible m (cs_old_claim_id p) \<noteq> None"
  shows "cards_ok (card_put j bad e m) \<and> eligible (card_put j bad e m) = withdraw [cs_old_claim_id p] (eligible m)
    \<and> (\<forall>i. bt_get (card_put j bad e m) (entity_for_conflict i) = bt_get m (entity_for_conflict i))"
proof -
  let ?ent = "entity_for_claim (cs_old_claim_id p)"
  obtain c where c: "bt_get m ?ent = Some (CardClaim c)"
    using known by (auto simp: eligible_def claim_at_def split: option.splits CachedCard.splits)
  let ?c = "claim_on_superseded p c"
  have m1: "card_put j bad e m = bt_insert ?ent (CardClaim ?c) m"
    using e c by (simp add: card_put_def recorded_as_def card_family_def starts_with_def entity_for_claim_def apply_matching_def)
  have wf: "card_wf ?ent (CardClaim c)" using ok c by (simp add: cards_ok_def)
  then have c': "card_wf ?ent (CardClaim ?c)" "cc_phase ?c = 2"
    by (auto simp: card_wf_def claim_on_superseded_def Let_def)
  have "contested (card_put j bad e m) = contested m"
    using c by (simp add: m1 contested_insert fun_eq_iff)
  then have "eligible (card_put j bad e m) = withdraw [cs_old_claim_id p] (eligible m)"
    using c c'(2) by (auto simp: fun_eq_iff eligible_def withdraw_def claim_at_def m1 split: option.splits CachedCard.splits)
  moreover have "cards_ok (card_put j bad e m)" using ok c'(1) by (auto simp: m1 cards_ok_def)
  moreover have "entity_for_conflict i \<noteq> ?ent" for i by (simp add: entity_for_conflict_def entity_for_claim_def)
  ultimately show ?thesis by (simp add: m1)
qed

lemma put_opened:
  assumes ok: "cards_ok m" and e: "recorded_as B j e (EvConflictOpened p)"
    and new: "bt_get m (entity_for_conflict (op_conflict_id p)) = None"
  shows "cards_ok (card_put j bad e m) \<and> eligible (card_put j bad e m) = withdraw [op_claim_a p, op_claim_b p] (eligible m)
    \<and> (\<forall>i. i \<noteq> op_conflict_id p \<longrightarrow> bt_get (card_put j bad e m) (entity_for_conflict i) = bt_get m (entity_for_conflict i))"
proof -
  let ?ent = "entity_for_conflict (op_conflict_id p)"
  let ?f = "conflict_on_opened p conflict_card_default"
  have m1: "card_put j bad e m = bt_insert ?ent (CardConflict ?f) m"
    using e new by (simp add: card_put_def recorded_as_def card_family_def starts_with_def entity_for_conflict_def apply_matching_def)
  have f: "cf_phase ?f = 1" "cf_claim_a ?f = op_claim_a p" "cf_claim_b ?f = op_claim_b p" "cf_conflict_id ?f = op_conflict_id p"
    by (simp_all add: conflict_on_opened_def conflict_card_default_def)
  have "contested (card_put j bad e m) i \<longleftrightarrow> contested m i \<or> i = op_claim_a p \<or> i = op_claim_b p" for i
    using new f by (simp add: m1 contested_insert)
  moreover have at: "claim_at (card_put j bad e m) = claim_at m"
    by (simp add: m1 claim_at_def fun_eq_iff entity_for_conflict_def entity_for_claim_def)
  ultimately have "eligible (card_put j bad e m) = withdraw [op_claim_a p, op_claim_b p] (eligible m)"
    by (auto simp: fun_eq_iff eligible_def withdraw_def)
  moreover have "cards_ok (card_put j bad e m)" using ok f(4) by (auto simp: m1 cards_ok_def card_wf_def)
  moreover have "entity_for_conflict i \<noteq> ?ent" if "i \<noteq> op_conflict_id p" for i
    using that by (simp add: entity_for_conflict_def)
  ultimately show ?thesis by (simp add: m1)
qed

lemma fold_superseded:
  assumes "cards_ok m" "list_all2 (recorded_as B j) es (map EvClaimSuperseded ps)"
    and "\<forall>p \<in> set ps. eligible m (cs_old_claim_id p) \<noteq> None"
  shows "cards_ok (truth_from j bad m es) \<and> eligible (truth_from j bad m es) = withdraw (map cs_old_claim_id ps) (eligible m)
    \<and> (\<forall>i. bt_get (truth_from j bad m es) (entity_for_conflict i) = bt_get m (entity_for_conflict i))"
  using assms
proof (induction ps arbitrary: m es)
  case Nil
  then show ?case by (auto simp: withdraw_def fun_eq_iff)
next
  case (Cons p ps)
  then obtain e es' where es: "es = e # es'" "recorded_as B j e (EvClaimSuperseded p)"
    "list_all2 (recorded_as B j) es' (map EvClaimSuperseded ps)" by (auto simp: list_all2_Cons2)
  have s: "cards_ok (card_put j bad e m)" "eligible (card_put j bad e m) = withdraw [cs_old_claim_id p] (eligible m)"
    "\<And>i. bt_get (card_put j bad e m) (entity_for_conflict i) = bt_get m (entity_for_conflict i)"
    using put_superseded [OF Cons.prems(1) es(2)] Cons.prems(3) by auto
  have "\<forall>q \<in> set ps. eligible (card_put j bad e m) (cs_old_claim_id q) \<noteq> None"
    using Cons.prems(3) by (auto simp: s(2) withdraw_def)
  from Cons.IH [OF s(1) es(3) this] show ?case by (simp add: es(1) s(2,3) withdraw_withdraw)
qed

lemma fold_opened:
  assumes "cards_ok m" "list_all2 (recorded_as B j) es (map EvConflictOpened ps)"
    and "distinct (map op_conflict_id ps)" "\<forall>p \<in> set ps. bt_get m (entity_for_conflict (op_conflict_id p)) = None"
  shows "cards_ok (truth_from j bad m es) \<and>
    eligible (truth_from j bad m es) = withdraw (concat (map (\<lambda>p. [op_claim_a p, op_claim_b p]) ps)) (eligible m)"
  using assms
proof (induction ps arbitrary: m es)
  case Nil
  then show ?case by (auto simp: withdraw_def fun_eq_iff)
next
  case (Cons p ps)
  then obtain e es' where es: "es = e # es'" "recorded_as B j e (EvConflictOpened p)"
    "list_all2 (recorded_as B j) es' (map EvConflictOpened ps)" by (auto simp: list_all2_Cons2)
  have s: "cards_ok (card_put j bad e m)" "eligible (card_put j bad e m) = withdraw [op_claim_a p, op_claim_b p] (eligible m)"
    "\<And>i. i \<noteq> op_conflict_id p \<Longrightarrow> bt_get (card_put j bad e m) (entity_for_conflict i) = bt_get m (entity_for_conflict i)"
    using put_opened [OF Cons.prems(1) es(2)] Cons.prems(4) by auto
  have "\<forall>q \<in> set ps. bt_get (card_put j bad e m) (entity_for_conflict (op_conflict_id q)) = None"
    using Cons.prems(3,4) s(3) by (metis (no_types, lifting) distinct.simps(2) image_eqI list.set_intros(2) list.set_map list.simps(9))
  from Cons.IH [OF s(1) es(3) _ this] show ?case using Cons.prems(3) by (simp add: es(1) s(2) withdraw_withdraw)
qed

lemma fold_other:
  assumes "list_all2 (recorded_as B j) es evs" "\<forall>ev \<in> set evs. card_family (entity_of B ev) = None"
  shows "truth_from j bad m es = m"
  using assms by (induction rule: list_all2_induct) (simp_all add: card_put_def recorded_as_def)

section \<open>A complete pass is a fixed point\<close>

definition published :: "RelateSupersessionRow list \<Rightarrow> RelateConflictRow list \<Rightarrow> string list" where
  "published sups confs = map sr_old_claim_id sups @ concat (map (\<lambda>r. [fr_claim_a r, fr_claim_b r]) confs)"

lemma after_publication_get:
  "bt_get (cb_claims (after_publication sups confs b)) i =
     (if i \<in> set (published sups confs) then Some False else bt_get (cb_claims b) i)"
proof -
  have s: "bt_get (foldl (\<lambda>m r. bt_insert (sr_old_claim_id r) False m) m sups) i =
      (if i \<in> sr_old_claim_id ` set sups then Some False else bt_get m i)" for m
    by (induction sups arbitrary: m) auto
  have c: "bt_get (foldl (\<lambda>m r. bt_insert (fr_claim_b r) False (bt_insert (fr_claim_a r) False m)) m confs) i =
      (if \<exists>r \<in> set confs. i = fr_claim_a r \<or> i = fr_claim_b r then Some False else bt_get m i)" for m
    by (induction confs arbitrary: m) auto
  show ?thesis by (auto simp: after_publication_def s c published_def)
qed

lemma after_publication_ok: "bt_ok (cb_claims b) \<Longrightarrow> bt_ok (cb_claims (after_publication sups confs b))"
proof -
  have s: "bt_ok m \<Longrightarrow> bt_ok (foldl (\<lambda>m r. bt_insert (sr_old_claim_id r) False m) m sups)" for m :: "(string, bool) btree"
    by (induction sups arbitrary: m) auto
  have c: "bt_ok m \<Longrightarrow> bt_ok (foldl (\<lambda>m r. bt_insert (fr_claim_b r) False (bt_insert (fr_claim_a r) False m)) m confs)"
    for m :: "(string, bool) btree"
    by (induction confs arbitrary: m) auto
  show "bt_ok (cb_claims b) \<Longrightarrow> ?thesis" by (simp add: after_publication_def s c)
qed

lemma rows_published:
  "published (supersession_rows ev) (conflict_rows p ev) =
     map (\<lambda>e. claim_str (fst e)) (pass_supersessions ev) @
     concat (map (\<lambda>c. [claim_str (cn_claim_a c), claim_str (cn_claim_b c)]) (pass_conflicts p ev))"
  by (auto simp: published_def supersession_rows_def conflict_rows_def supersession_row_def conflict_row_of_def
      split_beta intro!: arg_cong [where f = concat])

definition view_ids :: "WorkspaceView \<Rightarrow> string set" where
  "view_ids view = set (map (cc_claim_id \<circ> cv_card) (wv_claims view))"

lemma view_ids_eligible:
  assumes "cards_ok m"
  shows "i \<in> view_ids (view_of ws fr (bt_values m)) \<longleftrightarrow> eligible m i \<noteq> None"
proof -
  have d: "distinct (map cc_claim_id (sort_key cc_claim_id (claim_cards (bt_values m))))"
    using claims_distinct [of m] assms
    by (simp only: cards_ok_def) (metis mset_map mset_sort mset_eq_imp_distinct_iff)
  let ?es = "map (\<lambda>v. (cc_claim_id (cv_card v), cv_status v = StCurrent)) (wv_claims (view_of ws fr (bt_values m)))"
  have "map fst ?es = map cc_claim_id (map cv_card (wv_claims (view_of ws fr (bt_values m))))" by simp
  then have fst_es: "map fst ?es = map cc_claim_id (sort_key cc_claim_id (claim_cards (bt_values m)))"
    by (simp only: view_claims_sorted)
  have "eligible m i = map_of ?es i"
    using basis_eligible [OF assms, of id ws fr policy_default i] entries_get [of ?es id policy_default i] d
    by (simp only: basis_from_view_def fst_es)
  then have "eligible m i \<noteq> None \<longleftrightarrow> i \<in> set (map fst ?es)" by (simp only: map_of_eq_None_iff set_map not_not)
  moreover have "set (map fst ?es) = view_ids (view_of ws fr (bt_values m))" by (auto simp: view_ids_def image_image)
  ultimately show ?thesis by simp
qed

lemma distinct_conflict_str: "distinct (map conflict_str xs) \<longleftrightarrow> distinct xs"
proof -
  have "inj_on conflict_str (set xs)" by (rule inj_onI) (rule ConflictId.expand)
  then show ?thesis by (simp add: distinct_map)
qed

lemma pass_basis:
  assumes ok: "cards_ok (truth j bad hist)"
    and view: "pr_view p = view_at j bad ws hist"
    and known: "set (published (supersession_rows ev) (conflict_rows p ev)) \<subseteq> view_ids (pr_view p)"
    and once: "distinct (map cn_conflict_id (pass_conflicts p ev))"
    and app: "list_all2 (recorded_as B j) new (settlement_events observed p ev @ authority_events B observed p ev @
        [EvCampaignCheckpoint ck])"
  shows "basis_from_view B (view_at j bad ws (hist @ new)) t =
    after_publication (supersession_rows ev) (conflict_rows p ev) (basis_from_view B (pr_view p) t)"
proof -
  let ?m = "truth j bad hist" and ?keys = "sq_cache_keys (ev_related ev)" and ?ws = "wv_workspace_id (pr_view p)"
  let ?sups = "map (relate_superseded_event B ?ws ?keys observed) (pass_supersessions ev)"
  let ?confs = "map (relate_opened_event B ?ws ?keys observed) (pass_conflicts p ev)"
  have okb: "bt_ok ?m" using ok by (simp add: cards_ok_def)
  obtain n1 n2 n3 n4 where n: "new = n1 @ n2 @ n3 @ n4"
    and l1: "list_all2 (recorded_as B j) n1 (settlement_events observed p ev)"
    and l2: "list_all2 (recorded_as B j) n2 (map EvClaimSuperseded ?sups)"
    and l3: "list_all2 (recorded_as B j) n3 (map EvConflictOpened ?confs)"
    and l4: "list_all2 (recorded_as B j) n4 [EvCampaignCheckpoint ck]"
    using app by (auto simp: list_all2_append2 authority_events_def Let_def o_def)
  have m1: "truth_from j bad ?m n1 = ?m"
    by (rule fold_other [OF l1]) (auto simp: settlement_events_def card_family_def starts_with_def entity_for_relation_pair_def Let_def)
  have el: "eligible ?m i \<noteq> None" if "i \<in> set (published (supersession_rows ev) (conflict_rows p ev))" for i
    using known that view_ids_eligible [OF ok] unfolding view view_at_def by blast
  have sups: "map cs_old_claim_id ?sups = map sr_old_claim_id (supersession_rows ev)"
    by (simp add: relate_superseded_event_def supersession_rows_def supersession_row_def split_beta)
  have "\<forall>q \<in> set ?sups. eligible ?m (cs_old_claim_id q) \<noteq> None"
  proof
    fix q assume "q \<in> set ?sups"
    then have "cs_old_claim_id q \<in> cs_old_claim_id ` set ?sups" by (rule imageI)
    then have "cs_old_claim_id q \<in> set (map sr_old_claim_id (supersession_rows ev))" by (simp only: sups [symmetric] set_map)
    then show "eligible ?m (cs_old_claim_id q) \<noteq> None" by (intro el) (simp add: published_def)
  qed
  note F = fold_superseded [OF ok l2 this]
  let ?m2 = "truth_from j bad ?m n2"
  have fresh: "bt_get ?m2 (entity_for_conflict (op_conflict_id q)) = None" if "q \<in> set ?confs" for q
  proof (rule ccontr)
    assume "bt_get ?m2 (entity_for_conflict (op_conflict_id q)) \<noteq> None"
    then obtain cd where cd: "bt_get ?m (entity_for_conflict (op_conflict_id q)) = Some cd" using F by auto
    then have "card_wf (entity_for_conflict (op_conflict_id q)) cd" using ok by (simp add: cards_ok_def)
    then obtain f where f: "cd = CardConflict f" "cf_conflict_id f = op_conflict_id q"
      by (cases cd) (auto simp: card_wf_def entity_for_conflict_def entity_for_claim_def card_family_def starts_with_def)
    have "CardConflict f \<in> set (bt_values ?m)" using okb cd f(1) by (simp add: values_iff) blast
    then have "f \<in> set (wv_conflicts (pr_view p))" by (simp add: view view_at_def view_of_def conflict_cards_iff Let_def)
    then have "op_conflict_id q \<in> cf_conflict_id ` set (wv_conflicts (pr_view p))" using f(2) by (metis imageI)
    then show False using that by (auto simp: pass_conflicts_def relate_opened_event_def)
  qed
  have "map op_conflict_id ?confs = map conflict_str (map cn_conflict_id (pass_conflicts p ev))"
    by (simp add: relate_opened_event_def)
  then have "distinct (map op_conflict_id ?confs)" using once by (simp only: distinct_conflict_str)
  note G = fold_opened [OF conjunct1 [OF F] l3 this]
  let ?m3 = "truth_from j bad ?m2 n3"
  have G': "cards_ok ?m3" "eligible ?m3 = withdraw (concat (map (\<lambda>p. [op_claim_a p, op_claim_b p]) ?confs)) (eligible ?m2)"
    using G fresh by blast+
  have m4: "truth_from j bad ?m3 n4 = ?m3"
    by (rule fold_other [OF l4]) (simp add: card_family_def starts_with_def entity_for_relation_campaign_def)
  have truth: "truth j bad (hist @ new) = ?m3" by (simp add: n m1 m4)
  have confs: "concat (map (\<lambda>p. [op_claim_a p, op_claim_b p]) ?confs) =
      concat (map (\<lambda>r. [fr_claim_a r, fr_claim_b r]) (conflict_rows p ev))"
    by (simp add: relate_opened_event_def conflict_rows_def conflict_row_of_def o_def)
  have "eligible ?m3 = withdraw (published (supersession_rows ev) (conflict_rows p ev)) (eligible ?m)"
    unfolding G'(2) confs conjunct1 [OF conjunct2 [OF F]] sups by (simp add: withdraw_withdraw published_def)
  then have get: "eligible ?m3 i = (if i \<in> set (published (supersession_rows ev) (conflict_rows p ev)) then Some False else eligible ?m i)" for i
    using el by (simp add: withdraw_def)
  have "cb_claims (basis_from_view B (view_at j bad ws (hist @ new)) t) =
      cb_claims (after_publication (supersession_rows ev) (conflict_rows p ev) (basis_from_view B (pr_view p) t))"
  proof (rule bt_ext)
    show "bt_ok (cb_claims (basis_from_view B (view_at j bad ws (hist @ new)) t))"
      by (simp add: basis_from_view_def entries_ok)
    show "bt_ok (cb_claims (after_publication (supersession_rows ev) (conflict_rows p ev) (basis_from_view B (pr_view p) t)))"
      by (intro after_publication_ok) (simp add: basis_from_view_def entries_ok)
    show "bt_get (cb_claims (basis_from_view B (view_at j bad ws (hist @ new)) t)) i =
        bt_get (cb_claims (after_publication (supersession_rows ev) (conflict_rows p ev) (basis_from_view B (pr_view p) t))) i" for i
      unfolding after_publication_get view view_at_def truth basis_eligible [OF G'(1)] basis_eligible [OF ok] get view by (rule refl)
  qed
  then show ?thesis by (simp add: basis_from_view_def from_entries_def after_publication_def)
qed

text \<open>
  C3: A complete pass settles the campaign.  Once the events of a complete pass are in the journal, a
  pass prepared over the view at the new end of the journal, with the same settings and the pass's
  checkpoint as the latest, has nothing to do: it starts as already complete, whatever cursor was asked
  for, succeeds, and appends nothing.
\<close>

theorem complete_pass_converges:
  assumes ok: "cards_ok (truth j bad hist)"
    and view: "pr_view p = view_at j bad ws hist" "pr_evaluated_basis p = basis_from_view B (pr_view p) (se_temporal se)"
    and policy: "pr_policy_digest p = candidate_policy_digest B (se_cluster se) (se_prefilter se) role"
    and complete: "sq_outcome (ev_related ev) = CompleteOutcome c"
    and known: "set (published (supersession_rows ev) (conflict_rows p ev)) \<subseteq> view_ids (pr_view p)"
    and once: "distinct (map cn_conflict_id (pass_conflicts p ev))"
    and appended: "list_all2 (recorded_as B j) new (settlement_events observed p ev @ authority_events B observed p ev @
        [EvCampaignCheckpoint (final_checkpoint B observed p ev)])"
    and options: "xp_rejudge_pair options = None"
  shows "\<exists>next out. prepare_relate_pass B role options (view_at j bad ws (hist @ new)) (Inr claims) (Inr se)
        (Inr (Some (final_checkpoint B observed p ev))) = Inr next \<and>
      pr_execution next = NoopComplete \<and>
      run_prepared_pass B op cx enc w observed' next env = (env\<lparr>ap_receipts := []\<rparr>, Inr out)"
proof -
  have basis: "basis_from_view B (view_at j bad ws (hist @ new)) (se_temporal se) =
      after_publication (supersession_rows ev) (conflict_rows p ev) (pr_evaluated_basis p)"
    using pass_basis [OF ok view(1) known once appended, of "se_temporal se"] view(2) by simp
  have ck: "ck_phase (final_checkpoint B observed p ev) = Complete"
    "ck_candidate_policy_digest_hex (final_checkpoint B observed p ev) = pr_policy_digest p"
    "ck_result_basis_digest_hex (final_checkpoint B observed p ev) =
       basis_digest B (after_publication (supersession_rows ev) (conflict_rows p ev) (pr_evaluated_basis p))"
    using complete by (simp_all add: final_checkpoint_def checkpoint_of_def pass_checkpoint_def)
  then have start: "resolve_start (Some (final_checkpoint B observed p ev))
      (basis_digest B (basis_from_view B (view_at j bad ws (hist @ new)) (se_temporal se)))
      (candidate_policy_digest B (se_cluster se) (se_prefilter se) role) requested = Inr AlreadyComplete" for requested
    by (simp add: resolve_start_def basis policy)
  show ?thesis
    by (simp add: prepare_relate_pass_def start options Let_def run_prepared_pass_def op_bind_def take_receipts_def op_return_def)
qed

section \<open>A pass that retires a claim\<close>

definition demo_settings :: RelateSettings where
  "demo_settings = \<lparr>se_cluster = DEFAULT_COSINE_THRESHOLD, se_prefilter = RELATE_PREFILTER, se_temporal = policy_default,
     se_budget_secs = 900, se_workspace_id = WorkspaceId ''demo''\<rparr>"

definition demo_role :: EmbedRole where
  "demo_role = \<lparr>em_provider_id = ''p'', em_base_url = ''u'', em_model = ''m''\<rparr>"

definition demo_evaluated :: EvaluatedRelatePass where
  "demo_evaluated = \<lparr>ev_related = \<lparr>sq_outcome = CompleteOutcome
       \<lparr>co_related = \<lparr>rc_supersessions = [(ClaimId ''a'', ClaimId ''b'', ''newer'')], rc_conflicts = [], rc_judgments = []\<rparr>,
        co_held = [], co_candidate_pairs = 1, co_candidate_pair_budget = 1\<rparr>,
      sq_cache_keys = [], sq_judge_fingerprint = []\<rparr>, ev_authority_warnings = [], ev_rejudged_pair = None\<rparr>"

definition demo_pass_of :: "WorkspaceView \<Rightarrow> PreparedRelatePass" where
  "demo_pass_of view = \<lparr>pr_strict = False, pr_candidate_pair_budget = 1, pr_candidate_cursor = 0, pr_rejudge_pair = None,
     pr_view = view, pr_claims = [], pr_settings = demo_settings,
     pr_evaluated_basis = basis_from_view id view policy_default,
     pr_evaluated_basis_digest = basis_digest id (basis_from_view id view policy_default),
     pr_policy_digest = candidate_policy_digest id (se_cluster demo_settings) (se_prefilter demo_settings) demo_role,
     pr_execution = RunFrom 0\<rparr>"

definition demo_cards :: "CachedCard list" where
  "demo_cards = [CardClaim (claim_on_recorded (demo_claim ''a'') claim_card_default),
     CardClaim (claim_on_recorded (demo_claim ''b'') claim_card_default)]"

definition demo_pass :: PreparedRelatePass where
  "demo_pass = demo_pass_of (view_of ''demo'' 2 demo_cards)"

definition demo_retired :: domain_event where
  "demo_retired = EvClaimSuperseded (relate_superseded_event id ''demo'' [] 5 (ClaimId ''a'', ClaimId ''b'', ''newer''))"

definition demo_final :: domain_event where
  "demo_final = EvCampaignCheckpoint (final_checkpoint id 5 demo_pass demo_evaluated)"

definition demo_new :: "IndexEntry list" where
  "demo_new = [\<lparr>ie_seq = 3, ie_entity = ''claim:a'', ie_kind = KClaimSuperseded, ie_id = 3\<rparr>,
     \<lparr>ie_seq = 4, ie_entity = ''relation-campaign:demo'', ie_kind = KCampaignCheckpoint, ie_id = 4\<rparr>]"

definition pass_journal :: journal where
  "pass_journal = memory_journal ''workspace:demo''
     [(demo_entry 1 ''a'', demo_event ''a''), (demo_entry 2 ''b'', demo_event ''b''),
      (demo_new ! 0, Inr (Payload demo_retired)), (demo_new ! 1, Inr (Payload demo_final))] (\<lambda>_. Some 1)"

lemma pass_reads:
  "jr_read pass_journal (Suc 0) = demo_event ''a''" "jr_read pass_journal 2 = demo_event ''b''"
  "jr_read pass_journal 3 = Inr (Payload demo_retired)" "jr_read pass_journal 4 = Inr (Payload demo_final)"
  by (simp_all add: pass_journal_def memory_journal_def demo_entry_def demo_new_def)

lemma pass_truth:
  "truth pass_journal id demo_log =
    [(''claim:a'', CardClaim (claim_on_recorded (demo_claim ''a'') claim_card_default)),
     (''claim:b'', CardClaim (claim_on_recorded (demo_claim ''b'') claim_card_default))]"
  by (simp add: demo_log_def truth_from_def card_put_def card_family_def demo_entry_def pass_reads
      demo_event_def apply_matching_def starts_with_def less_list_code)

definition demo_world :: "memory_store pass_world" where
  "demo_world = \<lparr>pw_authority = (\<lambda>_. Inr authority_default), pw_judge = (\<lambda>_ _. Inl (ErrModel [])),
     pw_relate = (\<lambda>_ _. Inl (ErrModel []))\<rparr>"

theorem complete_pass_converges_witness:
  "\<exists>next out. prepare_relate_pass id demo_role best_effort (view_at pass_journal id ''demo'' (demo_log @ demo_new)) (Inr []) (Inr demo_settings)
        (Inr (Some (final_checkpoint id 5 demo_pass demo_evaluated))) = Inr next \<and>
      pr_execution next = NoopComplete \<and>
      run_prepared_pass id ''texo.relate.run'' (backend_ctx demo_externals memory_api) (\<lambda>_. Inl []) demo_world 6 next demo_append_env =
        (demo_append_env\<lparr>ap_receipts := []\<rparr>, Inr out)"
proof (rule complete_pass_converges [where ws = "''demo''"])
  let ?c = "\<lambda>i. claim_on_recorded (demo_claim i) claim_card_default"
  have c: "cc_claim_id (?c i) = i" "cc_superseded_by (?c i) = None" for i
    by (simp_all add: claim_on_recorded_def demo_claim_def claim_card_default_def)
  show "cards_ok (truth pass_journal id demo_log)"
    by (auto simp: pass_truth cards_ok_def bt_ok_def card_wf_def c entity_for_claim_def less_list_code split: if_splits)
  show view: "pr_view demo_pass = view_at pass_journal id ''demo'' demo_log"
    by (simp add: demo_pass_def demo_pass_of_def view_at_def pass_truth bt_values_def demo_cards_def)
      (simp add: frontier_of_def demo_log_def demo_entry_def)
  show "pr_evaluated_basis demo_pass = basis_from_view id (pr_view demo_pass) (se_temporal demo_settings)"
    "pr_policy_digest demo_pass = candidate_policy_digest id (se_cluster demo_settings) (se_prefilter demo_settings) demo_role"
    by (simp_all add: demo_pass_def demo_pass_of_def demo_settings_def)
  show "sq_outcome (ev_related demo_evaluated) = CompleteOutcome
      \<lparr>co_related = \<lparr>rc_supersessions = [(ClaimId ''a'', ClaimId ''b'', ''newer'')], rc_conflicts = [], rc_judgments = []\<rparr>,
        co_held = [], co_candidate_pairs = 1, co_candidate_pair_budget = 1\<rparr>"
    by (simp add: demo_evaluated_def)
  have none: "pass_conflicts demo_pass demo_evaluated = []" by (simp add: pass_conflicts_def demo_evaluated_def)
  then show "distinct (map cn_conflict_id (pass_conflicts demo_pass demo_evaluated))" by simp
  have sups: "pass_supersessions demo_evaluated = [(ClaimId ''a'', ClaimId ''b'', ''newer'')]"
    by (simp add: pass_supersessions_def demo_evaluated_def)
  have "map cv_card (wv_claims (pr_view demo_pass)) = sort_key cc_claim_id (claim_cards demo_cards)"
    by (simp add: demo_pass_def demo_pass_of_def view_claims_sorted)
  then have "set (map cv_card (wv_claims (pr_view demo_pass))) = {?c ''a'', ?c ''b''}" by (auto simp: demo_cards_def)
  then have "cc_claim_id ` set (map cv_card (wv_claims (pr_view demo_pass))) = {''a'', ''b''}" by (simp only: image_insert image_empty c(1))
  then have "''a'' \<in> view_ids (pr_view demo_pass)" by (simp add: view_ids_def image_image)
  then show "set (published (supersession_rows demo_evaluated) (conflict_rows demo_pass demo_evaluated)) \<subseteq> view_ids (pr_view demo_pass)"
    by (simp add: rows_published sups none)
  have ws: "wv_workspace_id (pr_view demo_pass) = ''demo''" by (simp add: demo_pass_def demo_pass_of_def view_of_def Let_def)
  have evs: "settlement_events 5 demo_pass demo_evaluated @ authority_events id 5 demo_pass demo_evaluated @
      [EvCampaignCheckpoint (final_checkpoint id 5 demo_pass demo_evaluated)] = [demo_retired, demo_final]"
    by (simp add: authority_events_def sups none ws demo_retired_def demo_final_def Let_def)
      (simp add: settlement_events_def demo_evaluated_def Let_def)
  show "list_all2 (recorded_as id pass_journal) demo_new
      (settlement_events 5 demo_pass demo_evaluated @ authority_events id 5 demo_pass demo_evaluated @
        [EvCampaignCheckpoint (final_checkpoint id 5 demo_pass demo_evaluated)])"
    unfolding evs by (simp add: demo_new_def recorded_as_def pass_reads)
      (simp add: demo_retired_def demo_final_def relate_superseded_event_def entity_for_claim_def final_checkpoint_def
        checkpoint_of_def pass_checkpoint_def split_beta demo_pass_def demo_pass_of_def demo_settings_def entity_for_relation_campaign_def)
  show "xp_rejudge_pair best_effort = None" by (simp add: best_effort_def)
qed

end
