(* ===== verification/Markdown.thy ===== *)
theory Markdown
  imports Words Ids Workspace
begin

text \<open>
  \<open>src/extract/markdown.rs\<close>: the physical lines of a source that claims are extracted from, and the
  prose blocks of its \<open>CommonMark\<close> tree.  A source is its bytes; the event stream of the parser
  (\<open>pulldown_cmark\<close>), the directory walk and the UTF-8 check are arguments.
\<close>

section \<open>Physical lines\<close>

definition MAX_EXTRACTABLE_LINE_BYTES :: nat where
  "MAX_EXTRACTABLE_LINE_BYTES = 64 * 1024"

abbreviation newline :: char where
  "newline \<equiv> CHR 0x0A"

abbreviation return :: char where
  "return \<equiv> CHR 0x0D"

record MarkdownLine =
  ml_number :: u32
  ml_text :: string
  ml_char_start :: nat

text \<open>\<open>split_inclusive\<close>: the terminator stays with its line, and there is no empty last piece.\<close>

fun split_inclusive :: "string \<Rightarrow> string list" where
  "split_inclusive [] = []"
| "split_inclusive (c # s) =
     (if c = newline then [c] # split_inclusive s
      else case split_inclusive s of [] \<Rightarrow> [[c]] | w # ws \<Rightarrow> (c # w) # ws)"

definition strip_terminator :: "string \<Rightarrow> string" where
  "strip_terminator segment =
     (if segment \<noteq> [] \<and> last segment = newline
      then let no_newline = butlast segment in
           if no_newline \<noteq> [] \<and> last no_newline = return then butlast no_newline else no_newline
      else segment)"

record line_state =
  ls_in_code_block :: bool
  ls_skipping_frontmatter :: bool
  ls_frontmatter_done :: bool

text \<open>One line of the loop: the state it leaves, and whether the line is kept.\<close>

definition classify_line :: "nat \<Rightarrow> string \<Rightarrow> line_state \<Rightarrow> line_state \<times> bool" where
  "classify_line idx raw s =
     (if MAX_EXTRACTABLE_LINE_BYTES < length raw then (s, False)
      else if \<not> ls_frontmatter_done s \<and> idx = 0 \<and> trim raw = ''---''
      then (s\<lparr>ls_skipping_frontmatter := True\<rparr>, False)
      else if ls_skipping_frontmatter s
      then (if trim raw = ''---'' then s\<lparr>ls_skipping_frontmatter := False, ls_frontmatter_done := True\<rparr> else s, False)
      else if starts_with (trim_start raw) ''```''
      then (s\<lparr>ls_in_code_block := \<not> ls_in_code_block s\<rparr>, False)
      else (s, \<not> ls_in_code_block s))"

fun lines_loop :: "nat \<Rightarrow> nat \<Rightarrow> line_state \<Rightarrow> string list \<Rightarrow> MarkdownLine list" where
  "lines_loop idx offset s [] = []"
| "lines_loop idx offset s (segment # rest) =
     (let raw = strip_terminator segment;
          (s', kept) = classify_line idx raw s;
          row = \<lparr>ml_number = min (idx + 1) u32_max, ml_text = raw, ml_char_start = offset\<rparr>
      in (if kept then [row] else []) @ lines_loop (idx + 1) (offset + length segment) s' rest)"

definition parse_lines :: "string \<Rightarrow> MarkdownLine list" where
  "parse_lines text =
     lines_loop 0 0 \<lparr>ls_in_code_block = False, ls_skipping_frontmatter = False, ls_frontmatter_done = False\<rparr>
       (split_inclusive text)"

section \<open>Documents\<close>

record MarkdownDocument =
  md_path :: string
  md_body_hash_hex :: string
  md_source_id :: string
  md_lines :: "MarkdownLine list"

datatype SourceError = SrcIo string | SrcUtf8 | SrcId IdParseError | SrcWalk string

definition document_from_bytes ::
  "(string \<Rightarrow> string) \<Rightarrow> (string \<Rightarrow> bool) \<Rightarrow> string \<Rightarrow> string \<Rightarrow> (MarkdownDocument, SourceError) result" where
  "document_from_bytes B utf8 path bytes =
     (let hash = B bytes in
      res_bind (map_sum SrcId id (source_id_from_hash hash)) (\<lambda>src.
        if \<not> utf8 bytes then Inl SrcUtf8
        else Inr \<lparr>md_path = path, md_body_hash_hex = hash, md_source_id = source_str src, md_lines = parse_lines bytes\<rparr>))"

text \<open>\<open>strip_prefix\<close> of a normalised path: whole components.\<close>

definition relative_path :: "string \<Rightarrow> string \<Rightarrow> string" where
  "relative_path root path =
     (if starts_with path (root @ ''/'') then drop (length root + 1) path else path)"

definition document_from_path ::
  "(string \<Rightarrow> string) \<Rightarrow> (string \<Rightarrow> bool) \<Rightarrow> (string \<Rightarrow> (string, string) result) \<Rightarrow> string \<Rightarrow> string \<Rightarrow>
   (MarkdownDocument, SourceError) result" where
  "document_from_path B utf8 read root path =
     res_bind (map_sum SrcIo id (read path)) (document_from_bytes B utf8 (relative_path root path))"

section \<open>Discovery\<close>

record DiscoveryFailure =
  df_path :: string
  df_error :: string

record MarkdownDiscovery =
  mw_files :: "string list"
  mw_failures :: "DiscoveryFailure list"

text \<open>One item of the walk: an entry with its path and whether it is a file, or an error with its depth.\<close>

datatype walk_item = WalkEntry string bool | WalkError nat "string option" string

definition file_name :: "string \<Rightarrow> string" where
  "file_name path = last (split_on (CHR ''/'') path)"

text \<open>\<open>Path::extension\<close>: what follows the last dot of a file name that does not start with its only dot.\<close>

definition extension :: "string \<Rightarrow> string option" where
  "extension path =
     (let parts = split_on (CHR ''.'') (file_name path) in
      if file_name path = ''..'' \<or> length parts < 2 \<or> (length parts = 2 \<and> hd parts = []) then None
      else Some (last parts))"

definition is_markdown :: "string \<Rightarrow> bool" where
  "is_markdown path = (case extension path of None \<Rightarrow> False | Some e \<Rightarrow> eq_ignore_ascii_case e ''md'')"

fun walk_loop :: "string \<Rightarrow> walk_item list \<Rightarrow> MarkdownDiscovery \<Rightarrow> (MarkdownDiscovery, SourceError) result" where
  "walk_loop input [] d = Inr d"
| "walk_loop input (WalkEntry path file # items) d =
     walk_loop input items (if file \<and> is_markdown path then d\<lparr>mw_files := mw_files d @ [path]\<rparr> else d)"
| "walk_loop input (WalkError depth path err # items) d =
     (if depth = 0 then Inl (SrcWalk err)
      else walk_loop input items (d\<lparr>mw_failures := mw_failures d @
             [\<lparr>df_path = (case path of None \<Rightarrow> input | Some p \<Rightarrow> p), df_error = err\<rparr>]\<rparr>))"

definition collect_markdown_files ::
  "(string \<Rightarrow> bool) \<Rightarrow> (string \<Rightarrow> bool) \<Rightarrow> (string \<Rightarrow> walk_item list) \<Rightarrow> string \<Rightarrow> (MarkdownDiscovery, SourceError) result" where
  "collect_markdown_files exists_path is_file walk input =
     (if \<not> exists_path input then Inl (SrcIo (''source root does not exist: '' @ input))
      else if is_file input
      then Inr \<lparr>mw_files = (if is_markdown input then [input] else []), mw_failures = []\<rparr>
      else res_bind (walk_loop input (walk input) \<lparr>mw_files = [], mw_failures = []\<rparr>) (\<lambda>d.
             Inr \<lparr>mw_files = sort (mw_files d), mw_failures = sort_key df_path (mw_failures d)\<rparr>))"

section \<open>Prose blocks\<close>

record CandidateSpan =
  ca_text :: string
  ca_line_start :: u32
  ca_line_end :: u32
  ca_char_start :: nat
  ca_char_end :: nat
  ca_heading_path :: "string list"

text \<open>The tags and events the segmentation distinguishes.\<close>

datatype md_tag =
  HeadingTag nat | CodeBlockTag | TableTag | BlockQuoteTag | HtmlBlockTag | MetadataBlockTag
| ParagraphTag | ItemTag | OtherTag

datatype md_event = StartEv md_tag | EndEv md_tag | TextEv string | CodeEv string | OtherEv

record HeadingFrame =
  hf_level :: nat
  hf_text :: string

fun excluded :: "md_tag \<Rightarrow> bool" where
  "excluded CodeBlockTag = True"
| "excluded TableTag = True"
| "excluded BlockQuoteTag = True"
| "excluded HtmlBlockTag = True"
| "excluded MetadataBlockTag = True"
| "excluded _ = False"

definition line_of_offset :: "string \<Rightarrow> nat \<Rightarrow> u32" where
  "line_of_offset source offset = min (length (filter (\<lambda>c. c = newline) (take offset source)) + 1) u32_max"

definition trim_block :: "string \<Rightarrow> string" where
  "trim_block s = rev (dropWhile (\<lambda>c. c \<in> {newline, return, CHR 0x20, CHR 0x09}) (rev s))"

definition push_span :: "string \<Rightarrow> nat \<Rightarrow> nat \<Rightarrow> HeadingFrame list \<Rightarrow> CandidateSpan list \<Rightarrow> CandidateSpan list" where
  "push_span source start end' headings spans =
     (let trimmed = trim_block (take (end' - start) (drop start source)) in
      if trimmed = [] then spans
      else let char_end = start + length trimmed in
           spans @ [\<lparr>ca_text = trimmed, ca_line_start = line_of_offset source start,
                     ca_line_end = line_of_offset source (char_end - 1), ca_char_start = start,
                     ca_char_end = char_end, ca_heading_path = map hf_text headings\<rparr>])"

record segment_state =
  sg_spans :: "CandidateSpan list"
  sg_headings :: "HeadingFrame list"
  sg_suppress_depth :: nat
  sg_capturing :: "(nat \<times> string) option"
  sg_open_block :: "(nat \<times> nat) option"

text \<open>\<open>while headings.last().level >= level { pop }\<close>\<close>

definition pop_headings :: "nat \<Rightarrow> HeadingFrame list \<Rightarrow> HeadingFrame list" where
  "pop_headings level headings = rev (dropWhile (\<lambda>f. level \<le> hf_level f) (rev headings))"

definition close_heading :: "segment_state \<Rightarrow> segment_state" where
  "close_heading s =
     (case sg_capturing s of
        None \<Rightarrow> s
      | Some (level, text) \<Rightarrow>
          s\<lparr>sg_capturing := None,
            sg_headings := pop_headings level (sg_headings s) @ [\<lparr>hf_level = level, hf_text = trim text\<rparr>]\<rparr>)"

fun segment_event :: "string \<Rightarrow> md_event \<times> nat \<times> nat \<Rightarrow> segment_state \<Rightarrow> segment_state" where
  "segment_event source (StartEv (HeadingTag level), r) s =
     s\<lparr>sg_suppress_depth := sg_suppress_depth s + 1, sg_capturing := Some (level, [])\<rparr>"
| "segment_event source (EndEv (HeadingTag level), r) s =
     (close_heading s)\<lparr>sg_suppress_depth := sg_suppress_depth s - 1\<rparr>"
| "segment_event source (StartEv tag, r) s =
     (if excluded tag then s\<lparr>sg_suppress_depth := sg_suppress_depth s + 1\<rparr>
      else if tag = ParagraphTag \<or> tag = ItemTag
      then (if sg_suppress_depth s = 0 \<and> sg_open_block s = None then s\<lparr>sg_open_block := Some r\<rparr> else s)
      else s)"
| "segment_event source (EndEv tag, r) s =
     (if excluded tag then s\<lparr>sg_suppress_depth := sg_suppress_depth s - 1\<rparr>
      else if tag = ParagraphTag \<or> tag = ItemTag
      then (if sg_suppress_depth s = 0
            then (case sg_open_block s of
                    None \<Rightarrow> s
                  | Some (start, end') \<Rightarrow>
                      s\<lparr>sg_open_block := None, sg_spans := push_span source start end' (sg_headings s) (sg_spans s)\<rparr>)
            else s)
      else s)"
| "segment_event source (TextEv text, r) s =
     s\<lparr>sg_capturing := map_option (\<lambda>(l, buf). (l, buf @ text)) (sg_capturing s)\<rparr>"
| "segment_event source (CodeEv text, r) s =
     s\<lparr>sg_capturing := map_option (\<lambda>(l, buf). (l, buf @ text)) (sg_capturing s)\<rparr>"
| "segment_event source (OtherEv, r) s = s"

text \<open>
  Masking: a line longer than the bound is overwritten with spaces, up to the carriage return before
  its newline.
\<close>

definition mask_line :: "string \<Rightarrow> string" where
  "mask_line line =
     (let content_end = length line - (if line \<noteq> [] \<and> last line = return then 1 else 0) in
      if MAX_EXTRACTABLE_LINE_BYTES < content_end
      then replicate content_end (CHR 0x20) @ drop content_end line else line)"

function mask_from :: "string \<Rightarrow> string" where
  "mask_from s =
     (case dropWhile (\<lambda>c. c \<noteq> newline) s of
        [] \<Rightarrow> mask_line s
      | c # rest \<Rightarrow> mask_line (takeWhile (\<lambda>c. c \<noteq> newline) s) @ c # mask_from rest)"
  by pat_completeness auto
termination
proof (relation "measure length")
  fix s rest :: string and c
  assume "dropWhile (\<lambda>c. c \<noteq> newline) s = c # rest"
  moreover have "length (dropWhile (\<lambda>c. c \<noteq> newline) s) \<le> length s" by (rule length_dropWhile_le)
  ultimately show "(rest, s) \<in> measure length" by simp
qed simp

declare mask_from.simps [simp del]

definition trim_terminators :: "string \<Rightarrow> string" where
  "trim_terminators s = rev (dropWhile (\<lambda>c. c = return \<or> c = newline) (rev s))"

definition mask_oversized_lines :: "string \<Rightarrow> string" where
  "mask_oversized_lines source =
     (if \<not> list_ex (\<lambda>line. MAX_EXTRACTABLE_LINE_BYTES < length (trim_terminators line)) (split_inclusive source)
      then source else mask_from source)"

definition segment_candidates :: "(string \<Rightarrow> (md_event \<times> nat \<times> nat) list) \<Rightarrow> string \<Rightarrow> CandidateSpan list" where
  "segment_candidates parser source =
     (let source = mask_oversized_lines source in
      sg_spans (foldl (\<lambda>s e. segment_event source e s)
        \<lparr>sg_spans = [], sg_headings = [], sg_suppress_depth = 0, sg_capturing = None, sg_open_block = None\<rparr>
        (parser source)))"

section \<open>Provenance of lines\<close>

lemma split_inclusive_concat: "concat (split_inclusive s) = s"
  by (induction s) (auto split: list.splits)

lemma split_inclusive_shape:
  "w \<in> set (split_inclusive s) \<Longrightarrow> w \<noteq> [] \<and> newline \<notin> set (butlast w)"
  by (induction s arbitrary: w) (auto split: list.splits if_splits)

text \<open>Every piece but the last ends with a newline.\<close>

lemma split_inclusive_newlines:
  "ws @ [w] @ rest = split_inclusive s \<Longrightarrow> length (filter (\<lambda>c. c = newline) (concat ws)) = length ws"
proof (induction s arbitrary: ws w rest)
  case (Cons c s)
  show ?case
  proof (cases "c = newline")
    case True
    then show ?thesis using Cons by (cases ws) auto
  next
    case False
    show ?thesis
    proof (cases "split_inclusive s")
      case Nil
      then show ?thesis using Cons.prems False by (cases ws) auto
    next
      case (Cons u us)
      then show ?thesis
      proof (cases ws)
        case (Cons v vs)
        then have "v = c # u" "vs @ [w] @ rest = us"
          using Cons.prems False \<open>split_inclusive s = u # us\<close> by auto
        then have "(u # vs) @ [w] @ rest = split_inclusive s" using \<open>split_inclusive s = u # us\<close> by simp
        from Cons.IH [OF this] show ?thesis using Cons \<open>v = c # u\<close> False by simp
      qed simp
    qed
  qed
qed simp

lemma strip_prefix_text: "\<exists>t. segment = strip_terminator segment @ t"
  by (auto simp: strip_terminator_def Let_def) (metis append_butlast_last_id append_assoc)+

lemma strip_no_newline: "newline \<notin> set (butlast w) \<Longrightarrow> newline \<notin> set (strip_terminator w)"
  by (cases w rule: rev_cases) (auto simp: strip_terminator_def Let_def dest: in_set_butlastD)

lemma lines_loop_provenance:
  assumes "l \<in> set (lines_loop idx offset s segs)"
  shows "\<exists>ws w rest. segs = ws @ [w] @ rest \<and> ml_text l = strip_terminator w \<and>
    ml_char_start l = offset + length (concat ws) \<and> ml_number l = min (idx + length ws + 1) u32_max \<and>
    length (ml_text l) \<le> MAX_EXTRACTABLE_LINE_BYTES"
  using assms
proof (induction segs arbitrary: idx offset s)
  case (Cons segment segs)
  obtain s' kept where c: "classify_line idx (strip_terminator segment) s = (s', kept)" by force
  consider "kept" "l = \<lparr>ml_number = min (idx + 1) u32_max, ml_text = strip_terminator segment, ml_char_start = offset\<rparr>"
    | "l \<in> set (lines_loop (idx + 1) (offset + length segment) s' segs)"
    using Cons.prems by (auto simp: c Let_def split: if_splits)
  then show ?case
  proof cases
    case 1
    then have "length (strip_terminator segment) \<le> MAX_EXTRACTABLE_LINE_BYTES"
      using c by (auto simp: classify_line_def split: if_splits)
    then show ?thesis using 1 by (intro exI [of _ "[]"] exI [of _ segment] exI [of _ segs]) simp
  next
    case 2
    from Cons.IH [OF 2] obtain ws w rest where "segs = ws @ [w] @ rest" "ml_text l = strip_terminator w"
      "ml_char_start l = offset + length segment + length (concat ws)"
      "ml_number l = min (idx + 1 + length ws + 1) u32_max" "length (ml_text l) \<le> MAX_EXTRACTABLE_LINE_BYTES"
      by blast
    then show ?thesis by (intro exI [of _ "segment # ws"] exI [of _ w] exI [of _ rest]) simp
  qed
qed simp

text \<open>
  The lines of a source carry their provenance.  Every extracted line is the text of the source at
  its recorded byte offset, holds no newline and is within the size bound, and its number is one more than
  the number of newlines before it (saturating).
\<close>

theorem line_provenance:
  assumes "l \<in> set (parse_lines text)"
  shows "take (length (ml_text l)) (drop (ml_char_start l) text) = ml_text l \<and> newline \<notin> set (ml_text l) \<and>
    length (ml_text l) \<le> MAX_EXTRACTABLE_LINE_BYTES \<and> ml_number l = line_of_offset text (ml_char_start l)"
proof -
  obtain ws w rest where l: "split_inclusive text = ws @ [w] @ rest" "ml_text l = strip_terminator w"
    "ml_char_start l = length (concat ws)" "ml_number l = min (length ws + 1) u32_max"
    "length (ml_text l) \<le> MAX_EXTRACTABLE_LINE_BYTES"
    using lines_loop_provenance [OF assms [unfolded parse_lines_def]] by auto
  have "text = concat ws @ w @ concat rest" using split_inclusive_concat [of "text"] l(1) by simp
  moreover obtain t where "w = strip_terminator w @ t" using strip_prefix_text by blast
  ultimately have src: "text = concat ws @ strip_terminator w @ t @ concat rest" by (metis append_assoc)
  have "newline \<notin> set (strip_terminator w)"
    using split_inclusive_shape [of w "text"] l(1) by (intro strip_no_newline) simp
  moreover have "length (filter (\<lambda>c. c = newline) (concat ws)) = length ws"
    by (rule split_inclusive_newlines [OF l(1) [symmetric]])
  ultimately show ?thesis using l src by (simp add: line_of_offset_def)
qed

section \<open>Masking keeps the shape of a source\<close>

abbreviation breaks :: "string \<Rightarrow> bool list" where
  "breaks s \<equiv> map (\<lambda>c. c = newline) s"

lemma mask_line_breaks: "newline \<notin> set line \<Longrightarrow> breaks (mask_line line) = breaks line"
proof -
  assume n: "newline \<notin> set line"
  have "breaks xs = replicate (length xs) False" if "newline \<notin> set xs" for xs
    using that by (induction xs) auto
  moreover have "newline \<notin> set (mask_line line)" using n by (auto simp: mask_line_def Let_def dest: in_set_dropD)
  moreover have "length (mask_line line) = length line" by (simp add: mask_line_def Let_def)
  ultimately show ?thesis using n by simp
qed

lemma mask_from_breaks: "breaks (mask_from s) = breaks s"
proof (induction s rule: mask_from.induct)
  case (1 s)
  show ?case
  proof (cases "dropWhile (\<lambda>c. c \<noteq> newline) s")
    case Nil
    then have "newline \<notin> set s" by (auto simp: dropWhile_eq_Nil_conv)
    moreover have "mask_from s = mask_line s" by (subst mask_from.simps) (simp only: Nil list.case)
    ultimately show ?thesis using mask_line_breaks [of s] by simp
  next
    case (Cons c rest)
    have "s = takeWhile (\<lambda>c. c \<noteq> newline) s @ c # rest" using Cons by (metis takeWhile_dropWhile_id)
    moreover have "newline \<notin> set (takeWhile (\<lambda>c. c \<noteq> newline) s)" by (auto dest: set_takeWhileD)
    ultimately show ?thesis using Cons 1 [OF Cons] mask_line_breaks
      by (subst mask_from.simps) (simp, metis (no_types, lifting) list.simps(9) map_append)
  qed
qed

lemma mask_breaks: "breaks (mask_oversized_lines s) = breaks s"
  by (simp add: mask_oversized_lines_def mask_from_breaks)

lemma breaks_lines: "breaks s = breaks t \<Longrightarrow> line_of_offset s i = line_of_offset t i"
proof -
  assume b: "breaks s = breaks t"
  have count: "length (filter (\<lambda>c. c = newline) xs) = length (filter id (breaks xs))" for xs by (induction xs) auto
  have "breaks (take i s) = breaks (take i t)" using b by (metis take_map)
  then show ?thesis unfolding line_of_offset_def count by (rule arg_cong)
qed

section \<open>Provenance of prose blocks\<close>

definition range_ok :: "string \<Rightarrow> nat \<times> nat \<Rightarrow> bool" where
  "range_ok source r \<longleftrightarrow> fst r \<le> snd r \<and> snd r \<le> length source"

definition span_ok :: "string \<Rightarrow> CandidateSpan \<Rightarrow> bool" where
  "span_ok source sp \<longleftrightarrow>
     ca_char_start sp < ca_char_end sp \<and> ca_char_end sp \<le> length source \<and>
     ca_text sp = take (ca_char_end sp - ca_char_start sp) (drop (ca_char_start sp) source) \<and>
     last (ca_text sp) \<notin> {newline, return, CHR 0x20, CHR 0x09} \<and>
     ca_line_start sp = line_of_offset source (ca_char_start sp) \<and>
     ca_line_end sp = line_of_offset source (ca_char_end sp - 1)"

lemma trim_block_prefix: "\<exists>t. s = trim_block s @ t"
proof -
  have "rev s = takeWhile P (rev s) @ dropWhile P (rev s)" for P by simp
  then show ?thesis unfolding trim_block_def by (metis rev_append rev_rev_ident)
qed

lemma trim_block_last: "trim_block s \<noteq> [] \<Longrightarrow> last (trim_block s) \<notin> {newline, return, CHR 0x20, CHR 0x09}"
  unfolding trim_block_def by (simp only: last_rev rev_is_Nil_conv) (metis hd_dropWhile)

lemma push_span_ok:
  assumes "range_ok source (a, b)" "\<forall>sp \<in> set spans. span_ok source sp"
  shows "\<forall>sp \<in> set (push_span source a b hs spans). span_ok source sp"
proof -
  let ?raw = "take (b - a) (drop a source)" and ?t = "trim_block (take (b - a) (drop a source))"
  obtain rest where r: "?raw = ?t @ rest" using trim_block_prefix by blast
  then have len: "length ?t \<le> b - a" using assms(1) by (metis append_eq_conv_conj length_take min.bounded_iff nat_le_linear take_all_iff length_append le_add1 order_trans)
  have "take (length ?t) (drop a source) = take (length ?t) ?raw" using len by (simp add: min_def)
  also have "\<dots> = ?t" using r by (metis append_eq_conv_conj)
  finally have "?t = take (length ?t) (drop a source)" by simp
  then show ?thesis
    using assms len trim_block_last [of ?raw] by (auto simp: push_span_def Let_def span_ok_def range_ok_def)
qed

definition segment_ok :: "string \<Rightarrow> segment_state \<Rightarrow> bool" where
  "segment_ok source s \<longleftrightarrow>
     (\<forall>sp \<in> set (sg_spans s). span_ok source sp) \<and> (\<forall>r. sg_open_block s = Some r \<longrightarrow> range_ok source r)"

lemma segment_event_ok:
  assumes "segment_ok source s" "range_ok source r"
  shows "segment_ok source (segment_event source (e, r) s)"
proof (cases e)
  case (StartEv tag)
  then show ?thesis using assms by (cases tag) (auto simp: segment_ok_def)
next
  case (EndEv tag)
  have "segment_ok source (close_heading s)" using assms by (auto simp: segment_ok_def close_heading_def split: option.split)
  then show ?thesis using assms EndEv push_span_ok
    by (cases tag) (auto simp: segment_ok_def split: option.split)
qed (use assms in \<open>auto simp: segment_ok_def\<close>)

abbreviation segment_start :: segment_state where
  "segment_start \<equiv> \<lparr>sg_spans = [], sg_headings = [], sg_suppress_depth = 0, sg_capturing = None, sg_open_block = None\<rparr>"

lemma segment_fold_ok:
  "segment_ok source s \<Longrightarrow> \<forall>e \<in> set evs. range_ok source (snd e) \<Longrightarrow>
   segment_ok source (foldl (\<lambda>s e. segment_event source e s) s evs)"
proof (induction evs arbitrary: s)
  case (Cons e evs)
  then show ?case using segment_event_ok [of source s "snd e" "fst e"] by simp
qed simp

lemma mask_length: "length (mask_oversized_lines s) = length s"
  using mask_breaks [of s] by (metis length_map)

lemma segment_candidates_ok:
  assumes "\<forall>e \<in> set (parser (mask_oversized_lines source)). range_ok source (snd e)"
    and "sp \<in> set (segment_candidates parser source)"
  shows "span_ok (mask_oversized_lines source) sp"
proof -
  let ?m = "mask_oversized_lines source"
  have r: "\<forall>e \<in> set (parser ?m). range_ok ?m (snd e)" using assms(1) by (simp add: range_ok_def mask_length)
  have "segment_ok ?m segment_start" by (simp add: segment_ok_def)
  from segment_fold_ok [OF this r, unfolded segment_ok_def, THEN conjunct1]
  show ?thesis using assms(2) [unfolded segment_candidates_def Let_def] by (rule bspec)
qed

lemma span_ok_nonempty: "span_ok source sp \<Longrightarrow> ca_text sp \<noteq> []"
proof -
  assume s: "span_ok source sp"
  then have "0 < length (ca_text sp)" by (simp add: span_ok_def)
  then show ?thesis by simp
qed

text \<open>
  A prose block is cited exactly.  For a parser whose ranges lie in the source, every span is a
  non-empty slice of the source (with oversized lines blanked, which moves no byte), does not end in
  white space, and its first and last lines are those of its bytes in the file as it is on disk.
\<close>

theorem span_provenance:
  assumes "\<forall>e \<in> set (parser (mask_oversized_lines source)). range_ok source (snd e)"
    and "sp \<in> set (segment_candidates parser source)"
  shows "ca_text sp = take (ca_char_end sp - ca_char_start sp) (drop (ca_char_start sp) (mask_oversized_lines source)) \<and>
    ca_text sp \<noteq> [] \<and> last (ca_text sp) \<notin> {newline, return, CHR 0x20, CHR 0x09} \<and> ca_char_end sp \<le> length source \<and>
    ca_line_start sp = line_of_offset source (ca_char_start sp) \<and>
    ca_line_end sp = line_of_offset source (ca_char_end sp - 1)"
  using segment_candidates_ok [OF assms] span_ok_nonempty [OF segment_candidates_ok [OF assms]]
  unfolding span_ok_def mask_length breaks_lines [OF mask_breaks [of source]] by blast

text \<open>What a short source evaluates with.\<close>

lemma mask_short: "length s \<le> MAX_EXTRACTABLE_LINE_BYTES \<Longrightarrow> mask_oversized_lines s = s"
proof -
  assume short: "length s \<le> MAX_EXTRACTABLE_LINE_BYTES"
  have "length (trim_terminators w) \<le> length s" if "w \<in> set (split_inclusive s)" for w
  proof -
    have "length (trim_terminators w) \<le> length w"
      unfolding trim_terminators_def by (metis length_dropWhile_le length_rev)
    also have "\<dots> \<le> length (concat (split_inclusive s))"
      using that by (auto simp: length_concat intro: member_le_sum_list)
    finally show ?thesis by (simp add: split_inclusive_concat)
  qed
  then have "\<not> list_ex (\<lambda>w. MAX_EXTRACTABLE_LINE_BYTES < length (trim_terminators w)) (split_inclusive s)"
    using short by (force simp: list_ex_iff)
  then show ?thesis by (simp add: mask_oversized_lines_def)
qed

lemma trim_short:
  "trim ''T'' = ''T''" "trim ''# T'' = ''# T''" "trim_start ''# T'' = ''# T''"
  "trim_start ''Acme is ready'' = ''Acme is ready''"
  by code_simp+

lemmas segment_eval = segment_candidates_def mask_short MAX_EXTRACTABLE_LINE_BYTES_def push_span_def trim_block_def
  line_of_offset_def close_heading_def pop_headings_def u32_max_def

text \<open>The events of two paragraphs, the first under a heading.\<close>

abbreviation two_blocks :: "string \<Rightarrow> (md_event \<times> nat \<times> nat) list" where
  "two_blocks \<equiv> \<lambda>_. [(StartEv (HeadingTag 1), 0, 4), (TextEv ''T'', 2, 3), (EndEv (HeadingTag 1), 0, 4),
     (StartEv ParagraphTag, 4, 8), (TextEv ''abc'', 4, 7), (EndEv ParagraphTag, 4, 8)]"

lemma span_provenance_witness:
  "let source = ''# T'' @ [newline] @ ''abc'' @ [newline] in
   \<exists>sp \<in> set (segment_candidates two_blocks source).
     ca_text sp = ''abc'' \<and> ca_line_start sp = line_of_offset source (ca_char_start sp)"
proof -
  let ?s = "''# T'' @ [newline] @ ''abc'' @ [newline]"
  let ?sp = "\<lparr>ca_text = ''abc'', ca_line_start = 2, ca_line_end = 2, ca_char_start = 4, ca_char_end = 7,
    ca_heading_path = [''T'']\<rparr>"
  have ranges: "\<forall>e \<in> set (two_blocks (mask_oversized_lines ?s)). range_ok ?s (snd e)" by (simp add: range_ok_def)
  have mem: "?sp \<in> set (segment_candidates two_blocks ?s)" 
    using trim_short by (simp add: segment_eval Let_def)
  from span_provenance [OF ranges mem] show ?thesis unfolding Let_def by (intro bexI [OF _ mem] conjI) (simp, blast)
qed

section \<open>Nested list items\<close>

text \<open>
  The events of a list item with two items nested in it: the outer item opens the only block, the end of
  the first inner item closes it, and the second inner item then opens a block of its own.
\<close>

abbreviation nested_items :: "string \<Rightarrow> (md_event \<times> nat \<times> nat) list" where
  "nested_items \<equiv> \<lambda>_. [(StartEv ItemTag, 0, 15), (TextEv ''a'', 2, 3), (StartEv ItemTag, 6, 10), (TextEv ''b'', 8, 9),
     (EndEv ItemTag, 6, 10), (StartEv ItemTag, 12, 15), (TextEv ''c'', 14, 15), (EndEv ItemTag, 12, 15), (EndEv ItemTag, 0, 15)]"

text \<open>
  A nested item can be cited twice.  For a list item that holds two items, the first inner end
  closes the outer block, so the second inner item opens a block inside the text already emitted: the two
  spans overlap, and the first inner item has no span of its own.
\<close>

theorem nested_item_overlap:
  "let source = ''- a'' @ [newline] @ ''  - b'' @ [newline] @ ''  - c'' in
   map (\<lambda>sp. (ca_char_start sp, ca_char_end sp, ca_text sp)) (segment_candidates nested_items source) =
     [(0, 15, source), (12, 15, ''- c'')]"
  by (simp add: segment_eval Let_def)

end
