(* ===== verification/Ancestry.thy ===== *)
theory Ancestry
  imports Knowledge Errors
begin

text \<open>
  The comparison of two commits in \<open>src/git_source.rs\<close>: a bounded walk over parents, with the object
  database of the repository (\<open>gix\<close>, not in this repository) as the partial function \<open>parents\<close>.
\<close>

section \<open>The walk\<close>

datatype AncestorResult = AncFound | AncNotFound | AncUnknown CoverageGapKind

text \<open>The stack is popped at its end; \<open>seen\<close> is the set of the walk as the list of its elements.\<close>

function ancestor_walk ::
  "('c \<Rightarrow> 'c list option) \<Rightarrow> 'c \<Rightarrow> nat \<Rightarrow> 'c list \<Rightarrow> 'c list \<Rightarrow> AncestorResult" where
  "ancestor_walk parents ancestor max_commits pending seen =
     (if pending = [] then AncNotFound
      else let commit = last pending; rest = butlast pending in
        if commit = ancestor then AncFound
        else if commit \<in> set seen then ancestor_walk parents ancestor max_commits rest seen
        else if max_commits < length seen + 1 then AncUnknown BudgetExceeded
        else case parents commit of
               None \<Rightarrow> AncUnknown ShallowHistory
             | Some ps \<Rightarrow> ancestor_walk parents ancestor max_commits (rest @ ps) (commit # seen))"
  by pat_completeness auto
termination
  by (relation "measures [\<lambda>(_, _, max_commits, _, seen). Suc max_commits - length seen, \<lambda>(_, _, _, pending, _). length pending]")
    auto

declare ancestor_walk.simps [simp del]

definition parse_object_id :: "(string \<Rightarrow> ('c, string) result) \<Rightarrow> GitObjectId \<Rightarrow> ('c, TexoError) result" where
  "parse_object_id oid i = map_sum (ErrSource ''.git/objects'') id (oid (git_hex i))"

definition ancestor_of ::
  "(string \<Rightarrow> ('c, string) result) \<Rightarrow> ('c \<Rightarrow> 'c list option) \<Rightarrow> GitObjectId \<Rightarrow> GitObjectId \<Rightarrow> nat \<Rightarrow>
   (AncestorResult, TexoError) result" where
  "ancestor_of oid parents ancestor descendant max_commits =
     res_bind (parse_object_id oid ancestor) (\<lambda>a.
     res_bind (parse_object_id oid descendant) (\<lambda>d.
       Inr (ancestor_walk parents a max_commits [d] [])))"

record GitComparison =
  gc_relation :: TemporalRelation
  gc_gap :: "CoverageGapKind option"

abbreviation compared :: "TemporalRelation \<Rightarrow> GitComparison" where
  "compared r \<equiv> \<lparr>gc_relation = r, gc_gap = None\<rparr>"

abbreviation undecided :: "CoverageGapKind \<Rightarrow> GitComparison" where
  "undecided kind \<equiv> \<lparr>gc_relation = Unknown, gc_gap = Some kind\<rparr>"

text \<open>\<open>opened\<close> is the outcome of opening the repository, with the error already worded.\<close>

definition compare_commits ::
  "(unit, TexoError) result \<Rightarrow> (string \<Rightarrow> ('c, string) result) \<Rightarrow> ('c \<Rightarrow> 'c list option) \<Rightarrow> GitObjectId \<Rightarrow>
   GitObjectId \<Rightarrow> nat \<Rightarrow> (GitComparison, TexoError) result" where
  "compare_commits opened oid parents left right max_commits =
     (if left = right then Inr (compared Same)
      else res_bind opened (\<lambda>_.
        res_bind (ancestor_of oid parents left right max_commits) (\<lambda>found.
          case found of
            AncFound \<Rightarrow> Inr (compared Before)
          | AncUnknown kind \<Rightarrow> Inr (undecided kind)
          | AncNotFound \<Rightarrow>
              res_bind (ancestor_of oid parents right left max_commits) (\<lambda>back.
                case back of
                  AncFound \<Rightarrow> Inr (compared After)
                | AncNotFound \<Rightarrow> Inr (compared Concurrent)
                | AncUnknown kind \<Rightarrow> Inr (undecided kind)))))"

section \<open>What the walk decides\<close>

text \<open>One commit is the parent of another; a commit descends from all it reaches.\<close>

definition parent_edges :: "('c \<Rightarrow> 'c list option) \<Rightarrow> ('c \<times> 'c) set" where
  "parent_edges parents = {(c, p). \<exists>ps. parents c = Some ps \<and> p \<in> set ps}"

abbreviation descends :: "('c \<Rightarrow> 'c list option) \<Rightarrow> 'c \<Rightarrow> 'c \<Rightarrow> bool" where
  "descends parents c a \<equiv> (c, a) \<in> (parent_edges parents)\<^sup>*"

lemma split_last: "pending \<noteq> [] \<Longrightarrow> set pending = insert (last pending) (set (butlast pending))"
  by (metis append_butlast_last_id list.simps(15) rotate1.simps(2) set_rotate1)

lemma walk_found:
  "ancestor_walk parents a n pending seen = AncFound \<Longrightarrow> \<exists>c \<in> set pending. descends parents c a"
proof (induction parents a n pending seen rule: ancestor_walk.induct)
  case (1 parents a n pending seen)
  show ?case
  proof (cases "pending = []")
    case False
    let ?c = "last pending" and ?rest = "butlast pending"
    note split = split_last [OF False]
    consider "?c = a" | "?c \<noteq> a" "?c \<in> set seen"
      | ps where "?c \<noteq> a" "?c \<notin> set seen" "\<not> n < length seen + 1" "parents ?c = Some ps"
      using 1(3) False by (subst (asm) ancestor_walk.simps) (auto simp: Let_def split: if_splits option.splits)
    then show ?thesis
    proof cases
      case 1
      then show ?thesis using split by auto
    next
      case 2
      then have "ancestor_walk parents a n ?rest seen = AncFound"
        using 1(3) False by (subst (asm) ancestor_walk.simps) (simp add: Let_def)
      from "1.IH"(1) [OF False refl refl 2 this] show ?thesis using split by auto
    next
      case 3
      then have "ancestor_walk parents a n (?rest @ ps) (?c # seen) = AncFound"
        using 1(3) False by (subst (asm) ancestor_walk.simps) (simp add: Let_def)
      from "1.IH"(2) [OF False refl refl 3(1,2) _ 3(4) this] 3(3)
      obtain c where c: "c \<in> set ?rest \<union> set ps" "descends parents c a" by auto
      show ?thesis
      proof (cases "c \<in> set ps")
        case True
        then have "(?c, c) \<in> parent_edges parents" using 3(4) by (auto simp: parent_edges_def)
        then have "descends parents ?c a" using c(2) by (rule converse_rtrancl_into_rtrancl)
        then show ?thesis using split by auto
      qed (use c split in auto)
    qed
  next
    case True
    then show ?thesis using 1(3) by (simp add: ancestor_walk.simps)
  qed
qed

text \<open>What was seen is closed: its parents are known, and seen or still pending.\<close>

definition walked :: "('c \<Rightarrow> 'c list option) \<Rightarrow> 'c \<Rightarrow> 'c list \<Rightarrow> 'c list \<Rightarrow> bool" where
  "walked parents a pending seen \<longleftrightarrow>
     (\<forall>c \<in> set seen. c \<noteq> a \<and> (\<exists>ps. parents c = Some ps \<and> set ps \<subseteq> set seen \<union> set pending))"

lemma closed_descends:
  assumes "walked parents a [] seen" "c \<in> set seen" "descends parents c d"
  shows "d \<in> set seen"
  using assms(3,2)
proof (induction rule: rtrancl_induct)
  case (step y z)
  then obtain ps where "parents y = Some ps" "set ps \<subseteq> set seen" "z \<in> set ps"
    using assms(1) by (force simp: walked_def parent_edges_def)
  then show ?case by blast
qed

lemma walk_not_found:
  "ancestor_walk parents a n pending seen = AncNotFound \<Longrightarrow> walked parents a pending seen \<Longrightarrow>
   c \<in> set pending \<union> set seen \<Longrightarrow> \<not> descends parents c a"
proof (induction parents a n pending seen rule: ancestor_walk.induct)
  case (1 parents a n pending seen)
  show ?case
  proof (cases "pending = []")
    case True
    then have w: "walked parents a [] seen" and c: "c \<in> set seen" using "1.prems"(2,3) by simp_all
    have "a \<notin> set seen" using w unfolding walked_def by blast
    then show ?thesis using closed_descends [OF w c] by blast
  next
    case False
    let ?c = "last pending" and ?rest = "butlast pending"
    note split = split_last [OF False]
    consider "?c \<noteq> a" "?c \<in> set seen"
      | ps where "?c \<noteq> a" "?c \<notin> set seen" "\<not> n < length seen + 1" "parents ?c = Some ps"
      using "1.prems"(1) False by (subst (asm) ancestor_walk.simps) (auto simp: Let_def split: if_splits option.splits)
    then show ?thesis
    proof cases
      case 1
      then have "ancestor_walk parents a n ?rest seen = AncNotFound"
        using "1.prems"(1) False by (subst (asm) ancestor_walk.simps) (simp add: Let_def)
      moreover have "walked parents a ?rest seen"
      proof -
        have eq: "set seen \<union> set pending = set seen \<union> set ?rest" unfolding split using 1(2) by blast
        show ?thesis using "1.prems"(2) unfolding walked_def eq .
      qed
      moreover have "c \<in> set ?rest \<union> set seen" using "1.prems"(3) 1(2) unfolding split by blast
      ultimately show ?thesis by (rule "1.IH"(1) [OF False refl refl 1])
    next
      case 2
      then have "ancestor_walk parents a n (?rest @ ps) (?c # seen) = AncNotFound"
        using "1.prems"(1) False by (subst (asm) ancestor_walk.simps) (simp add: Let_def)
      moreover have "walked parents a (?rest @ ps) (?c # seen)"
      proof -
        let ?all = "set (?c # seen) \<union> set (?rest @ ps)"
        have sub: "set seen \<union> set pending \<subseteq> ?all" unfolding split by auto
        have "\<exists>qs. parents d = Some qs \<and> set qs \<subseteq> ?all" if d: "d \<in> set seen" for d
        proof -
          from "1.prems"(2) d obtain qs where qs: "parents d = Some qs" "set qs \<subseteq> set seen \<union> set pending"
            unfolding walked_def by blast
          show ?thesis using qs(1) order_trans [OF qs(2) sub] by (intro exI conjI)
        qed
        moreover have "\<forall>d \<in> set seen. d \<noteq> a" using "1.prems"(2) unfolding walked_def by blast
        moreover have "\<exists>qs. parents ?c = Some qs \<and> set qs \<subseteq> ?all" using 2(4) by (intro exI conjI) (assumption, auto)
        ultimately show ?thesis using 2(1) unfolding walked_def by simp
      qed
      moreover have "c \<in> set (?rest @ ps) \<union> set (?c # seen)" using "1.prems"(3) split by auto
      ultimately show ?thesis by (rule "1.IH"(2) [OF False refl refl 2])
    qed
  qed
qed

lemma walk_decides:
  "finite R \<Longrightarrow> card R \<le> n \<Longrightarrow> \<forall>c \<in> R. \<exists>ps. parents c = Some ps \<and> set ps \<subseteq> R \<Longrightarrow>
   set pending \<subseteq> R \<Longrightarrow> set seen \<subseteq> R \<Longrightarrow> distinct seen \<Longrightarrow>
   ancestor_walk parents a n pending seen \<noteq> AncUnknown kind"
proof (induction parents a n pending seen rule: ancestor_walk.induct)
  case (1 parents a n pending seen)
  show ?case
  proof (cases "pending = []")
    case False
    let ?c = "last pending" and ?rest = "butlast pending"
    have cR: "?c \<in> R" "set ?rest \<subseteq> R" using split_last [OF False] "1.prems"(4) by auto
    consider "?c = a" | "?c \<noteq> a" "?c \<in> set seen" | "?c \<noteq> a" "?c \<notin> set seen" by blast
    then show ?thesis
    proof cases
      case 2
      from "1.IH"(1) [OF False refl refl 2 "1.prems"(1-3) cR(2) "1.prems"(5,6)]
      show ?thesis using False 2 by (subst ancestor_walk.simps) (simp add: Let_def)
    next
      case 3
      obtain ps where ps: "parents ?c = Some ps" "set ps \<subseteq> R" using "1.prems"(3) cR(1) by blast
      have "length (?c # seen) \<le> card R"
        using "1.prems"(1,5,6) 3(2) cR(1) by (metis card_mono distinct.simps(2) distinct_card insert_subset list.simps(15))
      then have room: "\<not> n < length seen + 1" using "1.prems"(2) by simp
      have "set (?rest @ ps) \<subseteq> R" "set (?c # seen) \<subseteq> R" "distinct (?c # seen)"
        using cR ps(2) "1.prems"(5,6) 3(2) by auto
      from "1.IH"(2) [OF False refl refl 3 room ps(1) "1.prems"(1-3) this]
      show ?thesis using False 3 room ps(1) by (subst ancestor_walk.simps) (simp add: Let_def)
    qed (use False in \<open>simp add: ancestor_walk.simps Let_def\<close>)
  qed (simp add: ancestor_walk.simps)
qed

lemma ancestor_of_Inr:
  assumes "oid (git_hex a) = Inr x" "oid (git_hex d) = Inr y"
  shows "ancestor_of oid parents a d n = Inr (ancestor_walk parents x n [y] [])"
  using assms by (simp add: ancestor_of_def parse_object_id_def)

lemma walk_start: "walked parents a [d] []"
  by (simp add: walked_def)

lemma compare_sound:
  assumes "oid (git_hex left) = Inr l" "oid (git_hex right) = Inr r"
    and "compare_commits opened oid parents left right n = Inr g"
  shows "(case gc_relation g of
      Same \<Rightarrow> left = right
    | Before \<Rightarrow> descends parents r l
    | After \<Rightarrow> descends parents l r \<and> \<not> descends parents r l
    | Concurrent \<Rightarrow> \<not> descends parents l r \<and> \<not> descends parents r l
    | Unknown \<Rightarrow> left \<noteq> right) \<and> (gc_relation g = Unknown \<longleftrightarrow> gc_gap g \<noteq> None)"
proof (cases "left = right")
  case True
  then show ?thesis using assms(3) by (auto simp: compare_commits_def)
next
  case False
  note anc = ancestor_of_Inr [OF assms(1,2)] ancestor_of_Inr [OF assms(2,1)]
  have o: "opened = Inr ()" using assms(3) False by (cases opened) (simp_all add: compare_commits_def)
  show ?thesis
  proof (cases "ancestor_walk parents l n [r] []")
    case AncFound
    then show ?thesis using assms(3) False o anc walk_found [OF AncFound] by (auto simp: compare_commits_def)
  next
    case AncNotFound
    then have not1: "\<not> descends parents r l" using walk_not_found [OF AncNotFound walk_start] by simp
    show ?thesis
    proof (cases "ancestor_walk parents r n [l] []")
      case AncFound
      then show ?thesis
        using assms(3) False o anc AncNotFound not1 walk_found [OF AncFound] by (auto simp: compare_commits_def)
    next
      case AncNotFound2: AncNotFound
      then have "\<not> descends parents l r" using walk_not_found [OF AncNotFound2 walk_start] by simp
      then show ?thesis using assms(3) False o anc AncNotFound AncNotFound2 not1 by (auto simp: compare_commits_def)
    next
      case (AncUnknown kind)
      then show ?thesis using assms(3) False o anc AncNotFound by (auto simp: compare_commits_def)
    qed
  next
    case (AncUnknown kind)
    then show ?thesis using assms(3) False o anc by (auto simp: compare_commits_def)
  qed
qed

text \<open>
  C38: The order of two commits is never invented.  When a comparison answers, its relation is true of
  the history: \<open>Before\<close> only if the right commit descends from the left one, \<open>After\<close> only if the left
  one descends from the right one and not the other way round, \<open>Concurrent\<close> only if neither descends
  from the other; and it is \<open>Unknown\<close> exactly when it names a gap.
\<close>

theorem ancestry_sound:
  assumes "oid (git_hex left) = Inr l" "oid (git_hex right) = Inr r"
    and "compare_commits opened oid parents left right n = Inr g"
  shows "(case gc_relation g of
      Same \<Rightarrow> left = right
    | Before \<Rightarrow> descends parents r l
    | After \<Rightarrow> descends parents l r \<and> \<not> descends parents r l
    | Concurrent \<Rightarrow> \<not> descends parents l r \<and> \<not> descends parents r l
    | Unknown \<Rightarrow> left \<noteq> right) \<and> (gc_relation g = Unknown \<longleftrightarrow> gc_gap g \<noteq> None)"
  by (rule compare_sound [OF assms])

text \<open>
  C39: The walk decides every history it can hold.  On a complete history whose commits fit the
  budget, the comparison of two of its commits ends with a decision: there is an answer, it is not
  \<open>Unknown\<close>, and it is \<open>Before\<close> exactly when the right commit descends from the left one.
\<close>

theorem ancestry_decides:
  assumes "oid (git_hex left) = Inr l" "oid (git_hex right) = Inr r" "opened = Inr ()"
    and "finite R" "card R \<le> n" "l \<in> R" "r \<in> R" "left \<noteq> right"
    and "\<forall>c \<in> R. \<exists>ps. parents c = Some ps \<and> set ps \<subseteq> R"
  shows "\<exists>g. compare_commits opened oid parents left right n = Inr g \<and> gc_relation g \<noteq> Unknown \<and> gc_gap g = None \<and>
    (gc_relation g = Before \<longleftrightarrow> descends parents r l)"
proof -
  have d: "ancestor_walk parents a n [c] [] \<noteq> AncUnknown kind" if "c \<in> R" for a c kind
    using walk_decides [OF assms(4,5,9)] that by simp
  have nf: "\<not> descends parents r l" if "ancestor_walk parents l n [r] [] = AncNotFound"
    using walk_not_found [OF that walk_start] by simp
  have f: "descends parents r l" if "ancestor_walk parents l n [r] [] = AncFound"
    using walk_found [OF that] by simp
  note anc = ancestor_of_Inr [OF assms(1,2)] ancestor_of_Inr [OF assms(2,1)]
  show ?thesis
  proof (cases "ancestor_walk parents l n [r] []")
    case AncNotFound
    then show ?thesis
      using nf d [OF assms(6)] anc assms(3,8) by (cases "ancestor_walk parents r n [l] []") (auto simp: compare_commits_def)
  qed (use d [OF assms(7)] f anc assms(3,8) in \<open>auto simp: compare_commits_def\<close>)
qed

text \<open>A history of three commits: two children of one root.\<close>

definition demo_parents :: "string \<Rightarrow> string list option" where
  "demo_parents c =
     (if c = ''a'' then Some [] else if c = ''b'' \<or> c = ''c'' then Some [''a''] else None)"

abbreviation demo_commit :: "string \<Rightarrow> GitObjectId" where
  "demo_commit h \<equiv> \<lparr>git_format = Sha1, git_hex = h\<rparr>"

lemma demo_compare: "compare_commits (Inr ()) Inr demo_parents (demo_commit ''b'') (demo_commit ''c'') 10 = Inr (compared Concurrent)"
  by (simp add: compare_commits_def ancestor_of_def parse_object_id_def ancestor_walk.simps demo_parents_def Let_def)

theorem ancestry_sound_witness:
  "compare_commits (Inr ()) Inr demo_parents (demo_commit ''b'') (demo_commit ''c'') 10 = Inr (compared Concurrent) \<and>
   \<not> descends demo_parents ''b'' ''c''"
  using demo_compare ancestry_sound [of Inr "demo_commit ''b''" "''b''" "demo_commit ''c''" "''c''" "Inr ()" demo_parents 10
      "compared Concurrent"] by simp

theorem ancestry_decides_witness:
  "\<exists>g. compare_commits (Inr ()) Inr demo_parents (demo_commit ''a'') (demo_commit ''b'') 10 = Inr g \<and>
     gc_relation g = Before"
proof -
  have "(''b'', ''a'') \<in> parent_edges demo_parents" by (simp add: parent_edges_def demo_parents_def)
  then have "descends demo_parents ''b'' ''a''" by (rule r_into_rtrancl)
  then show ?thesis
    using ancestry_decides [of Inr "demo_commit ''a''" "''a''" "demo_commit ''b''" "''b''" "Inr ()" "{''a'', ''b'', ''c''}" 10
        demo_parents] by (auto simp: demo_parents_def)
qed

end
