(* ===== verification/Capture.thy ===== *)
theory Capture
  imports Ancestry Markdown
begin

text \<open>
  The capture of a work tree in \<open>src/git_source.rs\<close>: the committed files of the resolved tree, the
  work-tree overlay over them, and the bounded accumulator both write to.  The repository (\<open>gix\<close>, not in
  this repository) and the file system are the record \<open>git_repo\<close> of what they answer, with errors worded
  as strings; paths and file contents are bytes, and \<open>utf8\<close> is the check of \<open>std::str::from_utf8\<close>.
\<close>

section \<open>Limits, sources, gaps\<close>

definition CAPTURE_SCHEMA :: string where
  "CAPTURE_SCHEMA = ''texo.git-capture.v1''"

definition LFS_HEADER :: string where
  "LFS_HEADER = ''version https://git-lfs.github.com/spec/v1'' @ [CHR 0x0A]"

definition MAX_GAPS :: nat where
  "MAX_GAPS = 256"

record CaptureLimits =
  cl_max_files :: nat
  cl_max_file_bytes :: u64
  cl_max_total_bytes :: u64

definition capture_limits_default :: CaptureLimits where
  "capture_limits_default =
     \<lparr>cl_max_files = 20000, cl_max_file_bytes = 4 * 1024 * 1024, cl_max_total_bytes = 128 * 1024 * 1024\<rparr>"

datatype CapturedLayer = Committed | Worktree

record CapturedSource =
  cp_path :: string
  cp_bytes :: string
  cp_blob_id :: "GitObjectId option"
  cp_layer :: CapturedLayer

section \<open>The accumulator\<close>

record CaptureAccumulator =
  ac_limits :: CaptureLimits
  ac_sources :: "(string, CapturedSource) btree"
  ac_deleted :: "(string, unit) btree"
  ac_total_bytes :: u64
  ac_sources_examined :: u64
  ac_truncated :: bool
  ac_gaps :: "CoverageGap list"

definition accumulator_new :: "CaptureLimits \<Rightarrow> CaptureAccumulator" where
  "accumulator_new limits =
     \<lparr>ac_limits = limits, ac_sources = [], ac_deleted = [], ac_total_bytes = 0, ac_sources_examined = 0,
      ac_truncated = False, ac_gaps = []\<rparr>"

definition acc_omit :: "string \<Rightarrow> CaptureAccumulator \<Rightarrow> CaptureAccumulator" where
  "acc_omit path a =
     (case bt_get (ac_sources a) path of
        None \<Rightarrow> a
      | Some s \<Rightarrow> a\<lparr>ac_sources := bt_remove path (ac_sources a),
                    ac_total_bytes := ac_total_bytes a - length (cp_bytes s)\<rparr>)"

definition acc_gap :: "string option \<Rightarrow> CoverageGapKind \<Rightarrow> CaptureAccumulator \<Rightarrow> CaptureAccumulator" where
  "acc_gap path kind a =
     (if length (ac_gaps a) < MAX_GAPS then a\<lparr>ac_gaps := ac_gaps a @ [\<lparr>gap_path = path, gap_kind = kind\<rparr>]\<rparr>
      else a\<lparr>ac_truncated := True\<rparr>)"

definition acc_remove :: "string \<Rightarrow> CaptureAccumulator \<Rightarrow> CaptureAccumulator" where
  "acc_remove path a = (let a = acc_omit path a in a\<lparr>ac_deleted := bt_insert path () (ac_deleted a)\<rparr>)"

definition acc_insert ::
  "string \<Rightarrow> string \<Rightarrow> GitObjectId option \<Rightarrow> CapturedLayer \<Rightarrow> CaptureAccumulator \<Rightarrow> CaptureAccumulator" where
  "acc_insert path bytes blob_id layer a =
     (let a = a\<lparr>ac_sources_examined := sat_add64 (ac_sources_examined a) 1\<rparr>;
          previous_len = (case bt_get (ac_sources a) path of None \<Rightarrow> 0 | Some s \<Rightarrow> length (cp_bytes s));
          next_total = sat_add64 (ac_total_bytes a - previous_len) (length bytes)
      in if starts_with bytes LFS_HEADER then acc_gap (Some path) LfsPointer (acc_omit path a)
         else if cl_max_file_bytes (ac_limits a) < length bytes
         then acc_gap (Some path) SourceTooLarge (acc_omit path a)
         else if cl_max_files (ac_limits a) \<le> length (ac_sources a) \<and> bt_get (ac_sources a) path = None
               \<or> cl_max_total_bytes (ac_limits a) < next_total
         then acc_gap (Some path) BudgetExceeded ((acc_omit path a)\<lparr>ac_truncated := True\<rparr>)
         else a\<lparr>ac_total_bytes := next_total, ac_deleted := bt_remove path (ac_deleted a),
               ac_sources := bt_insert path
                 \<lparr>cp_path = path, cp_bytes = bytes, cp_blob_id = blob_id, cp_layer = layer\<rparr> (ac_sources a)\<rparr>)"

definition acc_finish :: "CaptureAccumulator \<Rightarrow> CapturedSource list \<times> string list \<times> KnowledgeCoverage" where
  "acc_finish a =
     (bt_values (ac_sources a), bt_keys (ac_deleted a),
      \<lparr>cov_analysis_quality = Unavailable, cov_sources_examined = ac_sources_examined a,
       cov_occurrences = length (ac_sources a), cov_truncated = ac_truncated a, cov_gaps = ac_gaps a\<rparr>)"

section \<open>Scope and paths\<close>

definition is_wellknown_source_basename :: "string \<Rightarrow> bool" where
  "is_wellknown_source_basename name \<longleftrightarrow>
     name \<in> set [''Makefile'', ''makefile'', ''GNUmakefile'', ''Dockerfile'', ''Containerfile'', ''justfile'',
       ''Justfile'', ''Rakefile'', ''Gemfile'', ''Procfile'', ''Jenkinsfile'', ''BUILD'', ''WORKSPACE'']"

definition SOURCE_EXTENSIONS :: "string list" where
  "SOURCE_EXTENSIONS =
     [''md'', ''rs'', ''py'', ''js'', ''jsx'', ''ts'', ''tsx'', ''go'', ''java'', ''kt'', ''c'', ''h'', ''cc'',
      ''cpp'', ''hpp'', ''toml'', ''yaml'', ''yml'', ''json'', ''sh'']"

definition source_path_is_in_scope :: "string \<Rightarrow> bool" where
  "source_path_is_in_scope path =
     (if starts_with path ''.texo/'' \<or> starts_with path ''target/'' \<or> starts_with path ''.git/'' then False
      else if is_wellknown_source_basename (file_name path) then True
      else case extension path of None \<Rightarrow> False | Some e \<Rightarrow> to_ascii_lowercase e \<in> set SOURCE_EXTENSIONS)"

definition safe_relative_path :: "string \<Rightarrow> bool" where
  "safe_relative_path path \<longleftrightarrow>
     path \<noteq> [] \<and> (let parts = split_on (CHR ''/'') path in
       hd parts \<noteq> [] \<and> hd parts \<noteq> ''.'' \<and> ''..'' \<notin> set parts)"

definition note_out_of_scope :: "string \<Rightarrow> CaptureAccumulator \<Rightarrow> CaptureAccumulator" where
  "note_out_of_scope path a = (if extension path = None then acc_gap (Some path) OutOfScope a else a)"

definition git_object_id :: "(KnowledgeContractError \<Rightarrow> string) \<Rightarrow> string \<Rightarrow> (GitObjectId, TexoError) result" where
  "git_object_id contract hex =
     (if length hex = 40 then map_sum (\<lambda>e. ErrSource ''.git'' (contract e)) id (git_object_id_new Sha1 hex)
      else if length hex = 64 then map_sum (\<lambda>e. ErrSource ''.git'' (contract e)) id (git_object_id_new Sha256 hex)
      else Inl (ErrSource ''.git'' ''repository uses an unsupported Git object format''))"

definition git_error :: "string \<Rightarrow> string \<Rightarrow> TexoError" where
  "git_error path error = ErrSource path (''git capture: '' @ error)"

section \<open>The repository\<close>

datatype entry_mode = BlobMode | CommitMode | LinkMode

record tree_entry =
  te_path :: string
  te_mode :: entry_mode
  te_oid :: string

record index_row =
  ix_path :: string
  ix_id :: string
  ix_mode :: u32
  ix_stage :: u32

datatype file_kind = RegularFile | SymbolicLink | OtherFile

record file_stat =
  fs_kind :: file_kind
  fs_len :: u64
  fs_modified :: "nat option"

record git_repo =
  gr_root :: string
  gr_open :: "(unit, string) result"
  gr_work_dir :: "string option"
  gr_git_dir :: string
  gr_index_path :: string
  gr_head :: "(string, string) result"
  gr_tree :: "(string, string) result"
  gr_files :: "(tree_entry list, string) result"
  gr_header :: "string \<Rightarrow> (u64, string) result"
  gr_blob :: "string \<Rightarrow> (string, string) result"
  gr_index :: "(index_row list, string) result"
  gr_ending_index :: "(index_row list, string) result"
  gr_status :: "((string, string) result list, string) result"
  gr_stat :: "string \<Rightarrow> (file_stat option, TexoError) result"
  gr_read :: "string \<Rightarrow> (string, TexoError) result"
  gr_stat_after :: "string \<Rightarrow> (file_stat, TexoError) result"
  gr_utf8 :: "string \<Rightarrow> bool"

section \<open>Committed files\<close>

definition capture_entry ::
  "(KnowledgeContractError \<Rightarrow> string) \<Rightarrow> git_repo \<Rightarrow> tree_entry \<Rightarrow> CaptureAccumulator \<Rightarrow>
   (CaptureAccumulator, TexoError) result" where
  "capture_entry contract repo e a =
     (let path = te_path e in
      if \<not> gr_utf8 repo path then Inr (acc_gap None UnsupportedEncoding a)
      else if \<not> source_path_is_in_scope path then Inr (note_out_of_scope path a)
      else if te_mode e = CommitMode then Inr (acc_gap (Some path) Gitlink a)
      else if te_mode e = LinkMode then Inr (acc_gap (Some path) Symlink a)
      else res_bind (map_sum (git_error (gr_git_dir repo)) id (gr_header repo (te_oid e))) (\<lambda>size.
           if cl_max_file_bytes (ac_limits a) < size then Inr (acc_gap (Some path) SourceTooLarge a)
           else res_bind (map_sum (git_error (gr_git_dir repo)) id (gr_blob repo (te_oid e))) (\<lambda>bytes.
                res_bind (git_object_id contract (te_oid e)) (\<lambda>i.
                  Inr (acc_insert path bytes (Some i) Committed a)))))"

definition capture_committed ::
  "(KnowledgeContractError \<Rightarrow> string) \<Rightarrow> git_repo \<Rightarrow> CaptureAccumulator \<Rightarrow> (CaptureAccumulator, TexoError) result" where
  "capture_committed contract repo a =
     res_bind (map_sum (git_error (gr_git_dir repo)) id (gr_files repo)) (\<lambda>entries.
       res_fold (capture_entry contract repo) (sort_key te_path entries) a)"

definition semantic_index_digest :: "(string \<Rightarrow> string) \<Rightarrow> index_row list \<Rightarrow> string" where
  "semantic_index_digest B rows =
     B (''texo.git-index.v1'' @
        concat (map (\<lambda>r. be_bytes 8 (length (ix_path r)) @ ix_path r @ ix_id r @ be_bytes 4 (ix_mode r) @
                         be_bytes 4 (ix_stage r)) rows))"

section \<open>The work-tree overlay\<close>

datatype OverlayDigestEntry = OverlayBytes string | OverlayDeleted | OverlayOmitted string

type_synonym overlay = "(string, OverlayDigestEntry) btree"

fun overlay_text :: "OverlayDigestEntry \<Rightarrow> string" where
  "overlay_text (OverlayBytes digest) = digest"
| "overlay_text OverlayDeleted = ''deleted''"
| "overlay_text (OverlayOmitted kind) = kind"

definition overlay_digest :: "(string \<Rightarrow> string) \<Rightarrow> overlay \<Rightarrow> string" where
  "overlay_digest B entries =
     B (CAPTURE_SCHEMA @
        concat (map (\<lambda>(path, e). [CHR 0x1F] @ path @ [CHR 0x1E] @ overlay_text e) entries))"

definition modified_time_changed :: "file_stat \<Rightarrow> file_stat \<Rightarrow> bool" where
  "modified_time_changed before after =
     (case (fs_modified before, fs_modified after) of (Some b, Some a) \<Rightarrow> b \<noteq> a | _ \<Rightarrow> False)"

definition conflict_paths :: "git_repo \<Rightarrow> index_row list \<Rightarrow> string list" where
  "conflict_paths repo index =
     sort (remdups (filter (gr_utf8 repo) (map ix_path (filter (\<lambda>r. ix_stage r \<noteq> 0) index))))"

definition omit_overlay ::
  "string \<Rightarrow> string \<Rightarrow> CaptureAccumulator \<times> overlay \<Rightarrow> CaptureAccumulator \<times> overlay" where
  "omit_overlay kind path s = (acc_omit path (fst s), bt_insert path (OverlayOmitted kind) (snd s))"

text \<open>One changed path, by its metadata before the read.\<close>

definition worktree_file ::
  "(string \<Rightarrow> string) \<Rightarrow> git_repo \<Rightarrow> string \<Rightarrow> file_stat \<Rightarrow> CaptureAccumulator \<Rightarrow> overlay \<Rightarrow>
   (CaptureAccumulator \<times> overlay, TexoError) result" where
  "worktree_file B repo path m a ov =
     res_bind (gr_read repo path) (\<lambda>bytes.
     res_bind (gr_stat_after repo path) (\<lambda>after.
       if fs_kind after \<noteq> RegularFile \<or> fs_len after \<noteq> fs_len m \<or> length bytes \<noteq> fs_len m
          \<or> modified_time_changed m after
       then Inl (ErrSource path ''worktree file changed while the snapshot was being captured'')
       else Inr (acc_insert path bytes None Worktree a, bt_insert path (OverlayBytes (B bytes)) ov)))"

fun worktree_path ::
  "(string \<Rightarrow> string) \<Rightarrow> git_repo \<Rightarrow> string \<Rightarrow> file_stat option \<Rightarrow> CaptureAccumulator \<Rightarrow> overlay \<Rightarrow>
   (CaptureAccumulator \<times> overlay, TexoError) result" where
  "worktree_path B repo path None a ov = Inr (acc_remove path a, bt_insert path OverlayDeleted ov)"
| "worktree_path B repo path (Some m) a ov =
     (if fs_kind m = SymbolicLink
      then Inr (acc_gap (Some path) Symlink (acc_omit path a), bt_insert path (OverlayOmitted ''symlink'') ov)
      else if fs_kind m \<noteq> RegularFile then Inr (a, ov)
      else if cl_max_file_bytes (ac_limits a) < fs_len m
      then Inr (acc_gap (Some path) SourceTooLarge (acc_omit path a),
                bt_insert path (OverlayOmitted ''source-too-large'') ov)
      else worktree_file B repo path m a ov)"

definition status_entry ::
  "(string \<Rightarrow> string) \<Rightarrow> git_repo \<Rightarrow> string \<Rightarrow> string list \<Rightarrow> (string, string) result \<Rightarrow>
   CaptureAccumulator \<times> overlay \<Rightarrow> (CaptureAccumulator \<times> overlay, TexoError) result" where
  "status_entry B repo work_dir conflicts item s =
     res_bind (map_sum (git_error work_dir) id item) (\<lambda>path.
       let (a, ov) = s in
       if \<not> gr_utf8 repo path then Inr (acc_gap None UnsupportedEncoding a, ov)
       else if \<not> (source_path_is_in_scope path \<and> safe_relative_path path)
       then Inr (if safe_relative_path path then note_out_of_scope path a else a, ov)
       else if path \<in> set conflicts then Inr s
       else res_bind (gr_stat repo path) (\<lambda>found. worktree_path B repo path found a ov))"

definition capture_overlay ::
  "(string \<Rightarrow> string) \<Rightarrow> git_repo \<Rightarrow> string \<Rightarrow> index_row list \<Rightarrow> CaptureAccumulator \<Rightarrow>
   (CaptureAccumulator \<times> overlay, TexoError) result" where
  "capture_overlay B repo work_dir index a =
     (let conflicts = conflict_paths repo index;
          a = fold (\<lambda>path. acc_gap (Some path) WorktreeConflict) conflicts a
      in res_bind (map_sum (git_error work_dir) id (gr_status repo)) (\<lambda>status.
         let scoped = filter (\<lambda>p. source_path_is_in_scope p \<and> safe_relative_path p) conflicts
         in res_fold (status_entry B repo work_dir conflicts) status
              (fold (omit_overlay ''conflict'') scoped (a, []))))"

section \<open>The capture\<close>

record GitCapture =
  gt_repository_id :: RepositoryId
  gt_base_commit :: GitObjectId
  gt_base_tree :: GitObjectId
  gt_index_digest_hex :: string
  gt_overlay_digest_hex :: string
  gt_snapshot_id :: SourceSnapshotId
  gt_dirty :: bool
  gt_sources :: "CapturedSource list"
  gt_deleted :: "string list"
  gt_coverage :: KnowledgeCoverage

definition snapshot_material ::
  "RepositoryId \<Rightarrow> GitObjectId \<Rightarrow> GitObjectId \<Rightarrow> string \<Rightarrow> string \<Rightarrow> CaptureLimits \<Rightarrow> string" where
  "snapshot_material repository commit tree index_digest ov_digest limits =
     (let sep = [CHR 0x1F] in
      CAPTURE_SCHEMA @ sep @ repository_str repository @ sep @ git_hex commit @ sep @ git_hex tree @ sep @
      index_digest @ sep @ ov_digest @ sep @ show_nat (cl_max_files limits) @ sep @
      show_nat (cl_max_file_bytes limits) @ sep @ show_nat (cl_max_total_bytes limits))"

definition capture ::
  "(string \<Rightarrow> string) \<Rightarrow> (KnowledgeContractError \<Rightarrow> string) \<Rightarrow> git_repo \<Rightarrow> RepositoryId \<Rightarrow> CaptureLimits \<Rightarrow>
   (GitCapture, TexoError) result" where
  "capture B contract repo repository limits =
     res_bind (map_sum (git_error (gr_root repo)) id (gr_open repo)) (\<lambda>_.
     res_bind (ok_or (gr_work_dir repo)
       (ErrSource (gr_root repo) ''bare repositories have no developer worktree to snapshot'')) (\<lambda>work_dir.
     res_bind (map_sum (git_error (gr_root repo)) id (gr_head repo)) (\<lambda>head_hex.
     res_bind (git_object_id contract head_hex) (\<lambda>commit.
     res_bind (map_sum (git_error (gr_root repo)) id (gr_tree repo)) (\<lambda>tree_hex.
     res_bind (git_object_id contract tree_hex) (\<lambda>tree.
     res_bind (capture_committed contract repo (accumulator_new limits)) (\<lambda>committed.
     res_bind (map_sum (git_error work_dir) id (gr_index repo)) (\<lambda>index.
     res_bind (capture_overlay B repo work_dir index committed) (\<lambda>(a, ov).
     res_bind (map_sum (git_error work_dir) id (gr_ending_index repo)) (\<lambda>ending.
       if semantic_index_digest B ending \<noteq> semantic_index_digest B index
       then Inl (ErrSource (gr_index_path repo) ''Git index changed while the snapshot was being captured'')
       else let (sources, deleted, coverage) = acc_finish a;
                index_digest = semantic_index_digest B index; ov_digest = overlay_digest B ov
            in Inr \<lparr>gt_repository_id = repository, gt_base_commit = commit, gt_base_tree = tree,
                    gt_index_digest_hex = index_digest, gt_overlay_digest_hex = ov_digest,
                    gt_snapshot_id = snapshot_id_derive B
                      (snapshot_material repository commit tree index_digest ov_digest limits),
                    gt_dirty = (ov \<noteq> []), gt_sources = sources, gt_deleted = deleted, gt_coverage = coverage\<rparr>))))))))))"

section \<open>The accumulator keeps its bounds\<close>

definition source_ok :: "CaptureLimits \<Rightarrow> (string, unit) btree \<Rightarrow> string \<times> CapturedSource \<Rightarrow> bool" where
  "source_ok limits deleted x \<longleftrightarrow>
     cp_path (snd x) = fst x \<and> length (cp_bytes (snd x)) \<le> cl_max_file_bytes limits \<and>
     \<not> starts_with (cp_bytes (snd x)) LFS_HEADER \<and> bt_get deleted (fst x) = None"

definition acc_ok :: "CaptureLimits \<Rightarrow> CaptureAccumulator \<Rightarrow> bool" where
  "acc_ok limits a \<longleftrightarrow>
     ac_limits a = limits \<and> bt_ok (ac_sources a) \<and> bt_ok (ac_deleted a) \<and>
     ac_total_bytes a = bt_weight (length \<circ> cp_bytes) (ac_sources a) \<and>
     ac_total_bytes a \<le> cl_max_total_bytes limits \<and> length (ac_sources a) \<le> cl_max_files limits \<and>
     (\<forall>x \<in> set (ac_sources a). source_ok limits (ac_deleted a) x) \<and> length (ac_gaps a) \<le> MAX_GAPS"

named_theorems acc_intro "operations that keep the accumulator's bounds"

lemma acc_ok_new: "acc_ok limits (accumulator_new limits)"
  by (simp add: acc_ok_def accumulator_new_def bt_weight_def)

lemma acc_ok_gap [acc_intro]: "acc_ok limits a \<Longrightarrow> acc_ok limits (acc_gap path kind a)"
  by (auto simp: acc_ok_def acc_gap_def)

lemma acc_ok_truncated: "acc_ok limits a \<Longrightarrow> acc_ok limits (a\<lparr>ac_truncated := t\<rparr>)"
  by (simp add: acc_ok_def)

lemma acc_ok_examined: "acc_ok limits a \<Longrightarrow> acc_ok limits (a\<lparr>ac_sources_examined := n\<rparr>)"
  by (simp add: acc_ok_def)

lemma acc_ok_omit [acc_intro]: "acc_ok limits a \<Longrightarrow> acc_ok limits (acc_omit path a)"
proof (cases "bt_get (ac_sources a) path")
  case (Some s)
  assume ok: "acc_ok limits a"
  have "bt_weight (length \<circ> cp_bytes) (bt_remove path (ac_sources a)) = ac_total_bytes a - length (cp_bytes s)"
    using ok Some by (simp add: acc_ok_def bt_weight_remove)
  moreover have "length (bt_remove path (ac_sources a)) \<le> cl_max_files limits"
    using ok order_trans [OF bt_length_remove] by (auto simp: acc_ok_def)
  moreover have "set (bt_remove path (ac_sources a)) \<subseteq> set (ac_sources a)" by (auto simp: bt_remove_def)
  moreover have "acc_omit path a = a\<lparr>ac_sources := bt_remove path (ac_sources a),
      ac_total_bytes := ac_total_bytes a - length (cp_bytes s)\<rparr>" by (simp add: acc_omit_def Some)
  moreover have "ac_total_bytes a - length (cp_bytes s) \<le> cl_max_total_bytes limits"
    using ok diff_le_self order_trans by (auto simp: acc_ok_def)
  moreover have "\<forall>x \<in> set (bt_remove path (ac_sources a)). source_ok limits (ac_deleted a) x"
    using ok \<open>set (bt_remove path (ac_sources a)) \<subseteq> set (ac_sources a)\<close> unfolding acc_ok_def by blast
  ultimately show ?thesis using ok unfolding acc_ok_def by simp
qed (simp add: acc_omit_def)

lemma omit_gone: "bt_get (ac_sources (acc_omit path a)) path = None"
  by (auto simp: acc_omit_def split: option.split)

lemma acc_ok_remove [acc_intro]: "acc_ok limits a \<Longrightarrow> acc_ok limits (acc_remove path a)"
proof -
  assume "acc_ok limits a"
  then have ok: "acc_ok limits (acc_omit path a)" by (rule acc_ok_omit)
  have "path \<notin> fst ` set (ac_sources (acc_omit path a))"
    using omit_gone [of path a] by (simp add: map_of_eq_None_iff)
  then have "fst x \<noteq> path" if "x \<in> set (ac_sources (acc_omit path a))" for x using that by force
  then show ?thesis using ok by (auto simp: acc_remove_def acc_ok_def source_ok_def Let_def)
qed

lemma acc_ok_store:
  assumes ok: "acc_ok limits a" and room: "cl_max_total_bytes limits < u64_max"
    and fits: "length bytes \<le> cl_max_file_bytes limits" "\<not> starts_with bytes LFS_HEADER"
    and files: "\<not> (cl_max_files limits \<le> length (ac_sources a) \<and> bt_get (ac_sources a) path = None)"
    and total: "\<not> cl_max_total_bytes limits < next_total"
    and next_total: "next_total = sat_add64 (ac_total_bytes a -
       (case bt_get (ac_sources a) path of None \<Rightarrow> 0 | Some s \<Rightarrow> length (cp_bytes s))) (length bytes)"
  shows "acc_ok limits (a\<lparr>ac_total_bytes := next_total, ac_deleted := bt_remove path (ac_deleted a),
     ac_sources := bt_insert path \<lparr>cp_path = path, cp_bytes = bytes, cp_blob_id = i, cp_layer = l\<rparr> (ac_sources a)\<rparr>)"
proof -
  let ?s = "\<lparr>cp_path = path, cp_bytes = bytes, cp_blob_id = i, cp_layer = l\<rparr>"
  let ?w = "bt_weight (length \<circ> cp_bytes)"
  have src: "bt_ok (ac_sources a)" "ac_total_bytes a = ?w (ac_sources a)" using ok by (simp_all add: acc_ok_def)
  have "?w (bt_insert path ?s (ac_sources a)) = length bytes + ?w (bt_remove path (ac_sources a))"
    using bt_weight_insert [OF src(1)] by simp
  moreover have "?w (bt_remove path (ac_sources a)) = ac_total_bytes a -
       (case bt_get (ac_sources a) path of None \<Rightarrow> 0 | Some s \<Rightarrow> length (cp_bytes s))"
    using bt_weight_remove [OF src(1), of "length \<circ> cp_bytes" path] src(2) by (simp split: option.split)
  ultimately have w: "?w (bt_insert path ?s (ac_sources a)) = next_total"
    using next_total total room by (auto simp: sat_add64_def min_def split: if_splits)
  have "length (bt_insert path ?s (ac_sources a)) \<le> cl_max_files limits"
  proof (cases "bt_get (ac_sources a) path = None")
    case True
    then show ?thesis using files bt_length_insert [of path ?s "ac_sources a"] by simp
  next
    case False
    then show ?thesis using ok bt_length_insert_old [OF src(1) False] by (simp add: acc_ok_def)
  qed
  moreover have "source_ok limits (bt_remove path (ac_deleted a)) x" if "x \<in> set (bt_insert path ?s (ac_sources a))" for x
  proof (cases "x = (path, ?s)")
    case True
    then show ?thesis using fits by (simp add: source_ok_def)
  next
    case False
    then have "x \<in> set (ac_sources a)" using that bt_set_insert [of path ?s "ac_sources a"] by blast
    then show ?thesis using ok by (auto simp: acc_ok_def source_ok_def)
  qed
  ultimately show ?thesis using ok w total by (simp add: acc_ok_def)
qed

lemma acc_ok_insert [acc_intro]:
  assumes "acc_ok limits a" "cl_max_total_bytes limits < u64_max"
  shows "acc_ok limits (acc_insert path bytes i l a)"
proof -
  let ?a = "a\<lparr>ac_sources_examined := sat_add64 (ac_sources_examined a) 1\<rparr>"
  have ok: "acc_ok limits ?a" using assms(1) by (rule acc_ok_examined)
  then have l: "ac_limits ?a = limits" by (simp add: acc_ok_def)
  let ?next = "sat_add64 (ac_total_bytes ?a -
       (case bt_get (ac_sources ?a) path of None \<Rightarrow> 0 | Some s \<Rightarrow> length (cp_bytes s))) (length bytes)"
  let ?full = "cl_max_files limits \<le> length (ac_sources ?a) \<and> bt_get (ac_sources ?a) path = None \<or>
     cl_max_total_bytes limits < ?next"
  consider (lfs) "starts_with bytes LFS_HEADER"
    | (large) "\<not> starts_with bytes LFS_HEADER" "cl_max_file_bytes limits < length bytes"
    | (full) "\<not> starts_with bytes LFS_HEADER" "\<not> cl_max_file_bytes limits < length bytes" ?full
    | (stored) "\<not> starts_with bytes LFS_HEADER" "\<not> cl_max_file_bytes limits < length bytes" "\<not> ?full"
    by blast
  then show ?thesis
  proof cases
    case lfs
    then have "acc_insert path bytes i l a = acc_gap (Some path) LfsPointer (acc_omit path ?a)"
      by (simp add: acc_insert_def)
    then show ?thesis using ok by (simp add: acc_intro)
  next
    case large
    then have "acc_insert path bytes i l a = acc_gap (Some path) SourceTooLarge (acc_omit path ?a)"
      unfolding acc_insert_def Let_def l by (simp only: if_False if_True)
    then show ?thesis using ok by (simp add: acc_intro)
  next
    case full
    then have "acc_insert path bytes i l a = acc_gap (Some path) BudgetExceeded ((acc_omit path ?a)\<lparr>ac_truncated := True\<rparr>)"
      unfolding acc_insert_def Let_def l by (simp only: if_False if_True)
    then show ?thesis using ok by (simp add: acc_intro acc_ok_truncated)
  next
    case stored
    then have "acc_insert path bytes i l a = ?a\<lparr>ac_total_bytes := ?next, ac_deleted := bt_remove path (ac_deleted ?a),
       ac_sources := bt_insert path \<lparr>cp_path = path, cp_bytes = bytes, cp_blob_id = i, cp_layer = l\<rparr> (ac_sources ?a)\<rparr>"
      unfolding acc_insert_def Let_def l by (simp only: if_False)
    moreover have "acc_ok limits (?a\<lparr>ac_total_bytes := ?next, ac_deleted := bt_remove path (ac_deleted ?a),
       ac_sources := bt_insert path \<lparr>cp_path = path, cp_bytes = bytes, cp_blob_id = i, cp_layer = l\<rparr> (ac_sources ?a)\<rparr>)"
      by (rule acc_ok_store [OF ok assms(2) _ _ _ _ refl]) (use stored in \<open>simp_all add: not_less\<close>)
    ultimately show ?thesis by (simp only:)
  qed
qed

section \<open>What a capture holds\<close>

lemma note_out_ok [acc_intro]: "acc_ok limits a \<Longrightarrow> acc_ok limits (note_out_of_scope path a)"
  by (simp add: note_out_of_scope_def acc_ok_gap)

lemma capture_entry_ok:
  assumes "acc_ok limits a" "cl_max_total_bytes limits < u64_max" "capture_entry contract repo e a = Inr a'"
  shows "acc_ok limits a'"
  using assms unfolding capture_entry_def Let_def
  by (auto simp: res_bind_eq_Inr acc_intro split: if_splits)

lemma committed_ok:
  assumes "acc_ok limits a" "cl_max_total_bytes limits < u64_max" "capture_committed contract repo a = Inr a'"
  shows "acc_ok limits a'"
proof -
  obtain es where "res_fold (capture_entry contract repo) (sort_key te_path es) a = Inr a'"
    using assms(3) by (auto simp: capture_committed_def res_bind_eq_Inr)
  then show ?thesis by (rule res_fold_invariant) (use assms(1) capture_entry_ok [OF _ assms(2)] in blast)+
qed

text \<open>
  The overlay shadows the commit: a source is captured from the work tree exactly when the overlay names
  its path, and then with the bytes whose digest the overlay records.
\<close>

definition layered :: "(string \<Rightarrow> string) \<Rightarrow> overlay \<Rightarrow> string \<Rightarrow> CapturedSource \<Rightarrow> bool" where
  "layered B ov p x \<longleftrightarrow>
     (case bt_get ov p of
        None \<Rightarrow> cp_layer x = Committed
      | Some e \<Rightarrow> cp_layer x = Worktree \<and> e = OverlayBytes (B (cp_bytes x)))"

definition shadowed :: "(string \<Rightarrow> string) \<Rightarrow> CaptureAccumulator \<times> overlay \<Rightarrow> bool" where
  "shadowed B s \<longleftrightarrow> (\<forall>p x. bt_get (ac_sources (fst s)) p = Some x \<longrightarrow> layered B (snd s) p x)"

lemma gap_sources [simp]: "ac_sources (acc_gap p k a) = ac_sources a"
  by (simp add: acc_gap_def)

lemma note_sources [simp]: "ac_sources (note_out_of_scope p a) = ac_sources a"
  by (simp add: note_out_of_scope_def)

lemma omit_sources: "bt_get (ac_sources (acc_omit path a)) p = (if p = path then None else bt_get (ac_sources a) p)"
  by (auto simp: acc_omit_def split: option.split)

lemma remove_sources: "ac_sources (acc_remove path a) = ac_sources (acc_omit path a)"
  by (simp add: acc_remove_def Let_def)

lemma insert_sources:
  "bt_get (ac_sources (acc_insert path bytes i l a)) p =
     (if p \<noteq> path then bt_get (ac_sources a) p else bt_get (ac_sources (acc_insert path bytes i l a)) path)"
  "bt_get (ac_sources (acc_insert path bytes i l a)) path \<in>
     {None, Some \<lparr>cp_path = path, cp_bytes = bytes, cp_blob_id = i, cp_layer = l\<rparr>}"
  unfolding acc_insert_def Let_def by (simp_all add: omit_sources)

lemma layered_other: "p \<noteq> path \<Longrightarrow> layered B (bt_insert path e ov) p x = layered B ov p x"
  by (simp add: layered_def)

lemma shadowed_omit: "shadowed B (a, ov) \<Longrightarrow> shadowed B (acc_omit path a, bt_insert path e ov)"
  by (auto simp: shadowed_def omit_sources layered_other split: if_splits)

lemma shadowed_insert:
  assumes "shadowed B (a, ov)"
  shows "shadowed B (acc_insert path b i Worktree a, bt_insert path (OverlayBytes (B b)) ov)"
  unfolding shadowed_def fst_conv snd_conv
proof (intro allI impI)
  fix p x
  assume x: "bt_get (ac_sources (acc_insert path b i Worktree a)) p = Some x"
  show "layered B (bt_insert path (OverlayBytes (B b)) ov) p x"
  proof (cases "p = path")
    case True
    then show ?thesis using x insert_sources(2) [of path b i Worktree a] by (auto simp: layered_def)
  next
    case False
    then have "bt_get (ac_sources a) p = Some x" using x insert_sources(1) [of path b i Worktree a p] by simp
    then show ?thesis using assms False by (simp add: shadowed_def layered_other)
  qed
qed

lemma status_entry_cases:
  assumes "status_entry B repo work_dir conflicts (Inr path) (a, ov) = Inr s'"
  shows "s' \<in> {(acc_gap None UnsupportedEncoding a, ov), (note_out_of_scope path a, ov), (a, ov)} \<or>
      s' \<in> {(acc_remove path a, bt_insert path OverlayDeleted ov),
        (acc_gap (Some path) Symlink (acc_omit path a), bt_insert path (OverlayOmitted ''symlink'') ov),
        (acc_gap (Some path) SourceTooLarge (acc_omit path a), bt_insert path (OverlayOmitted ''source-too-large'') ov)} \<or>
      (\<exists>b. s' = (acc_insert path b None Worktree a, bt_insert path (OverlayBytes (B b)) ov))"
proof (cases "gr_utf8 repo path \<and> source_path_is_in_scope path \<and> safe_relative_path path \<and> path \<notin> set conflicts")
  case False
  then show ?thesis using assms by (auto simp: status_entry_def Let_def split: if_splits)
next
  case read: True
  then obtain found where found: "gr_stat repo path = Inr found"
    using assms by (auto simp: status_entry_def Let_def res_bind_eq_Inr)
  then have step: "worktree_path B repo path found a ov = Inr s'"
    using assms read by (simp add: status_entry_def)
  show ?thesis
  proof (cases found)
    case None
    then show ?thesis using step by simp
  next
    case (Some m)
    show ?thesis using step unfolding Some
      by (simp split: if_splits) (auto simp: worktree_file_def res_bind_eq_Inr split: if_splits)
  qed
qed

lemma status_entry_ok:
  assumes "acc_ok limits (fst s)" "shadowed B s" "cl_max_total_bytes limits < u64_max"
    and "status_entry B repo work_dir conflicts item s = Inr s'"
  shows "acc_ok limits (fst s') \<and> shadowed B s'"
proof -
  obtain a ov where s: "s = (a, ov)" by (cases s)
  have ok: "acc_ok limits a" and sh: "shadowed B (a, ov)" using assms(1,2) by (simp_all add: s)
  obtain path where item: "item = Inr path" using assms(4) by (cases item) (auto simp: status_entry_def)
  have gapped: "acc_ok limits (acc_gap p k x) \<and> shadowed B (acc_gap p k x, y)"
    if "acc_ok limits x" "shadowed B (x, y)" for p k x y
    using that by (simp add: acc_intro shadowed_def)
  have omitted: "acc_ok limits (acc_omit path a) \<and> shadowed B (acc_omit path a, bt_insert path e ov)" for e
    using ok sh by (simp add: acc_intro shadowed_omit)
  have removed: "acc_ok limits (acc_remove path a) \<and> shadowed B (acc_remove path a, bt_insert path OverlayDeleted ov)"
    using ok omitted by (simp add: acc_intro shadowed_def remove_sources)
  have inserted: "acc_ok limits (acc_insert path b i Worktree a) \<and>
      shadowed B (acc_insert path b i Worktree a, bt_insert path (OverlayBytes (B b)) ov)" for b i
    using ok assms(3) shadowed_insert [OF sh] by (simp add: acc_intro)
  have noted: "acc_ok limits (note_out_of_scope path a) \<and> shadowed B (note_out_of_scope path a, ov)"
    using ok sh by (simp add: acc_intro shadowed_def)
  have "s' \<in> {(acc_gap None UnsupportedEncoding a, ov), (note_out_of_scope path a, ov), (a, ov)} \<or>
      s' \<in> {(acc_remove path a, bt_insert path OverlayDeleted ov),
        (acc_gap (Some path) Symlink (acc_omit path a), bt_insert path (OverlayOmitted ''symlink'') ov),
        (acc_gap (Some path) SourceTooLarge (acc_omit path a), bt_insert path (OverlayOmitted ''source-too-large'') ov)} \<or>
      (\<exists>b. s' = (acc_insert path b None Worktree a, bt_insert path (OverlayBytes (B b)) ov))"
    using assms(4) unfolding s item by (rule status_entry_cases)
  then consider "s' = (acc_gap None UnsupportedEncoding a, ov)" | "s' = (note_out_of_scope path a, ov)" | "s' = (a, ov)"
    | "s' = (acc_remove path a, bt_insert path OverlayDeleted ov)"
    | k e where "s' = (acc_gap (Some path) k (acc_omit path a), bt_insert path e ov)"
    | b where "s' = (acc_insert path b None Worktree a, bt_insert path (OverlayBytes (B b)) ov)"
    by blast
  then show ?thesis
  proof cases
    case 1 then show ?thesis using gapped [OF ok sh] by simp
  next
    case 2 then show ?thesis using noted by simp
  next
    case 3 then show ?thesis using ok sh by simp
  next
    case 4 then show ?thesis using removed by simp
  next
    case 5 then show ?thesis using gapped [OF conjunct1 [OF omitted] conjunct2 [OF omitted]] by simp
  next
    case 6 then show ?thesis using inserted by simp
  qed
qed

lemma committed_layer:
  assumes "capture_committed contract repo (accumulator_new limits) = Inr a"
  shows "shadowed B (a, [])"
proof -
  obtain es where es: "res_fold (capture_entry contract repo) (sort_key te_path es) (accumulator_new limits) = Inr a"
    using assms by (auto simp: capture_committed_def res_bind_eq_Inr)
  have step: "shadowed B (a', [])" if old: "shadowed B (a, [])" and new: "capture_entry contract repo e a = Inr a'" for e a a'
  proof -
    consider "ac_sources a' = ac_sources a" | b i where "a' = acc_insert (te_path e) b i Committed a"
      using new unfolding capture_entry_def Let_def by (auto simp: res_bind_eq_Inr split: if_splits)
    then show ?thesis
    proof cases
      case 1
      then show ?thesis using old by (simp add: shadowed_def)
    next
      case 2
      have "layered B [] p x" if x: "bt_get (ac_sources a') p = Some x" for p x
      proof (cases "p = te_path e")
        case True
        then show ?thesis using x insert_sources(2) [of "te_path e" b i Committed a] by (auto simp: 2 layered_def)
      next
        case False
        then have "bt_get (ac_sources a) p = Some x"
          using x insert_sources(1) [of "te_path e" b i Committed a p] unfolding 2 by simp
        then show ?thesis using old by (simp add: shadowed_def)
      qed
      then show ?thesis by (simp add: shadowed_def)
    qed
  qed
  have "shadowed B (accumulator_new limits, [])" by (simp add: shadowed_def accumulator_new_def)
  with es show ?thesis by (rule res_fold_invariant) (rule step)
qed

lemma overlay_ok:
  assumes "acc_ok limits a" "shadowed B (a, [])" "cl_max_total_bytes limits < u64_max"
    and "capture_overlay B repo work_dir index a = Inr (a', ov)"
  shows "acc_ok limits a' \<and> shadowed B (a', ov)"
proof -
  let ?cs = "conflict_paths repo index"
  let ?scoped = "filter (\<lambda>p. source_path_is_in_scope p \<and> safe_relative_path p) ?cs"
  let ?P = "\<lambda>s. acc_ok limits (fst s) \<and> shadowed B s"
  let ?a = "fold (\<lambda>path. acc_gap (Some path) WorktreeConflict) ?cs a"
  have gaps: "acc_ok limits (fold (\<lambda>path. acc_gap (Some path) k) ps a) \<and> shadowed B (fold (\<lambda>path. acc_gap (Some path) k) ps a, [])"
    if "acc_ok limits a" "shadowed B (a, [])" for k ps and a :: CaptureAccumulator
    using that
  proof (induction ps arbitrary: a)
    case (Cons p ps)
    have "shadowed B (acc_gap (Some p) k a, [])" using Cons.prems(2) by (simp add: shadowed_def)
    then show ?case using Cons.IH Cons.prems(1) by (simp add: acc_intro)
  qed simp
  have omits: "?P (fold (omit_overlay k) ps s)" if "?P s" for k ps s
    using that
  proof (induction ps arbitrary: s)
    case (Cons p ps)
    then show ?case using shadowed_omit [of B "fst s" "snd s"] by (simp add: omit_overlay_def acc_intro)
  qed simp
  obtain status where "res_fold (status_entry B repo work_dir ?cs) status (fold (omit_overlay ''conflict'') ?scoped (?a, [])) = Inr (a', ov)"
    using assms(4) by (auto simp: capture_overlay_def Let_def res_bind_eq_Inr)
  moreover have "?P (fold (omit_overlay ''conflict'') ?scoped (?a, []))" using omits gaps [OF assms(1,2)] by simp
  ultimately have "?P (a', ov)" by (rule res_fold_invariant) (use status_entry_ok [OF _ _ assms(3)] in blast)
  then show ?thesis by simp
qed

lemma capture_state:
  assumes "capture B contract repo repository limits = Inr c" "cl_max_total_bytes limits < u64_max"
  obtains a ov where "acc_ok limits a" "shadowed B (a, ov)" "gt_overlay_digest_hex c = overlay_digest B ov"
    "gt_dirty c = (ov \<noteq> [])" "(gt_sources c, gt_deleted c, gt_coverage c) = acc_finish a"
proof -
  obtain a0 work_dir index a ov where "capture_committed contract repo (accumulator_new limits) = Inr a0"
      "capture_overlay B repo work_dir index a0 = Inr (a, ov)" "gt_overlay_digest_hex c = overlay_digest B ov"
      "gt_dirty c = (ov \<noteq> [])" "(gt_sources c, gt_deleted c, gt_coverage c) = acc_finish a"
    using assms(1) by (auto simp: capture_def res_bind_eq_Inr Let_def split: if_splits prod.splits)
  then show thesis
    using that overlay_ok [OF committed_ok [OF acc_ok_new assms(2)] committed_layer assms(2)] by blast
qed

lemma map_sum_eq_Inr: "map_sum f id r = Inr y \<longleftrightarrow> r = Inr y"
  by (cases r) auto

lemma captured_map_get:
  "bt_get (fold (\<lambda>s. bt_insert (cp_path s) s) sources []) path = Some s \<Longrightarrow> s \<in> set sources \<and> cp_path s = path"
proof -
  have "bt_get (fold (\<lambda>s. bt_insert (cp_path s) s) xs m) path = Some s \<Longrightarrow>
     s \<in> set xs \<and> cp_path s = path \<or> bt_get m path = Some s" for xs m
    by (induction xs arbitrary: m) (force split: if_splits)+
  then show "bt_get (fold (\<lambda>s. bt_insert (cp_path s) s) sources []) path = Some s \<Longrightarrow> ?thesis" by fastforce
qed

lemma capture_source_size:
  assumes "capture B contract repo repository limits = Inr c" "cl_max_total_bytes limits < u64_max" "s \<in> set (gt_sources c)"
  shows "length (cp_bytes s) \<le> cl_max_file_bytes limits"
proof -
  obtain a ov where a: "acc_ok limits a" "(gt_sources c, gt_deleted c, gt_coverage c) = acc_finish a"
    using capture_state [OF assms(1,2)] by metis
  then have "gt_sources c = map snd (ac_sources a)" "\<forall>x \<in> set (ac_sources a). source_ok limits (ac_deleted a) x"
    by (simp_all add: acc_finish_def bt_values_def acc_ok_def)
  then show ?thesis using assms(3) by (auto simp: source_ok_def)
qed

text \<open>
  A capture respects its bounds.  The sources of a capture are in strictly increasing path order, at
  most as many as the limit on files, each within the limit on one file and together within the limit on
  all; none is a pointer of the large-file store and none is also reported as deleted; the coverage counts
  them exactly and lists at most 256 gaps.
\<close>

theorem capture_bounded:
  assumes "capture B contract repo repository limits = Inr c" "cl_max_total_bytes limits < u64_max"
  shows "sorted_wrt (<) (map cp_path (gt_sources c)) \<and> length (gt_sources c) \<le> cl_max_files limits \<and>
    sum_list (map (length \<circ> cp_bytes) (gt_sources c)) \<le> cl_max_total_bytes limits \<and>
    (\<forall>s \<in> set (gt_sources c). length (cp_bytes s) \<le> cl_max_file_bytes limits \<and>
       \<not> starts_with (cp_bytes s) LFS_HEADER \<and> cp_path s \<notin> set (gt_deleted c)) \<and>
    cov_occurrences (gt_coverage c) = length (gt_sources c) \<and> length (cov_gaps (gt_coverage c)) \<le> MAX_GAPS"
proof -
  obtain a ov where a: "acc_ok limits a" "(gt_sources c, gt_deleted c, gt_coverage c) = acc_finish a"
    using capture_state [OF assms] by metis
  then have c: "gt_sources c = map snd (ac_sources a)" "gt_deleted c = map fst (ac_deleted a)"
    "cov_occurrences (gt_coverage c) = length (ac_sources a)" "cov_gaps (gt_coverage c) = ac_gaps a"
    by (simp_all add: acc_finish_def bt_values_def bt_keys_def)
  have ok: "\<forall>x \<in> set (ac_sources a). source_ok limits (ac_deleted a) x" "bt_ok (ac_sources a)"
    using a(1) by (simp_all add: acc_ok_def)
  have "map cp_path (map snd (ac_sources a)) = map fst (ac_sources a)" using ok(1) by (simp add: source_ok_def)
  then have "sorted_wrt (<) (map cp_path (gt_sources c))" using ok(2) unfolding c bt_ok_def by (simp only:)
  moreover have "sum_list (map (length \<circ> cp_bytes) (gt_sources c)) \<le> cl_max_total_bytes limits"
    using a(1) by (simp add: c acc_ok_def bt_weight_def o_assoc)
  moreover have "\<forall>s \<in> set (gt_sources c). length (cp_bytes s) \<le> cl_max_file_bytes limits \<and>
       \<not> starts_with (cp_bytes s) LFS_HEADER \<and> cp_path s \<notin> set (gt_deleted c)"
    using ok(1) by (auto simp: c source_ok_def map_of_eq_None_iff)
  ultimately show ?thesis using a(1) by (simp add: c acc_ok_def)
qed

text \<open>
  C18: The work tree shadows the commit.  There is an overlay, the one whose digest the capture records,
  such that the capture is dirty exactly when it is not empty, and every source is layered on it: named by
  the overlay, it comes from the work tree with the bytes whose digest the overlay holds; otherwise it is
  committed.
\<close>

theorem worktree_shadows_commit:
  assumes "capture B contract repo repository limits = Inr c" "cl_max_total_bytes limits < u64_max"
  shows "\<exists>ov. gt_overlay_digest_hex c = overlay_digest B ov \<and> gt_dirty c = (ov \<noteq> []) \<and>
    (\<forall>s \<in> set (gt_sources c). layered B ov (cp_path s) s)"
proof -
  obtain a ov where a: "acc_ok limits a" "shadowed B (a, ov)" "gt_overlay_digest_hex c = overlay_digest B ov"
    "gt_dirty c = (ov \<noteq> [])" "(gt_sources c, gt_deleted c, gt_coverage c) = acc_finish a"
    using capture_state [OF assms] by metis
  have src: "set (gt_sources c) = snd ` set (ac_sources a)" using a(5) by (simp add: acc_finish_def bt_values_def)
  have "layered B ov (cp_path s) s" if "s \<in> set (gt_sources c)" for s
  proof -
    from that obtain p where p: "(p, s) \<in> set (ac_sources a)" unfolding src by force
    then have "bt_get (ac_sources a) p = Some s" "cp_path s = p"
      using a(1) by (auto simp: acc_ok_def source_ok_def bt_ok_distinct)
    then show ?thesis using a(2) by (simp add: shadowed_def)
  qed
  then show ?thesis using a(3,4) by blast
qed

text \<open>A repository whose work tree adds one file to an empty commit.\<close>

definition demo_repo :: git_repo where
  "demo_repo =
     \<lparr>gr_root = ''/r'', gr_open = Inr (), gr_work_dir = Some ''/r'', gr_git_dir = ''/r/.git'',
      gr_index_path = ''/r/.git/index'', gr_head = Inr (replicate 40 (CHR ''0'')), gr_tree = Inr (replicate 40 (CHR ''1'')),
      gr_files = Inr [], gr_header = (\<lambda>_. Inl []), gr_blob = (\<lambda>_. Inl []), gr_index = Inr [], gr_ending_index = Inr [],
      gr_status = Inr [Inr ''a.md''],
      gr_stat = (\<lambda>_. Inr (Some \<lparr>fs_kind = RegularFile, fs_len = 2, fs_modified = None\<rparr>)), gr_read = (\<lambda>_. Inr ''hi''),
      gr_stat_after = (\<lambda>_. Inr \<lparr>fs_kind = RegularFile, fs_len = 2, fs_modified = None\<rparr>), gr_utf8 = (\<lambda>_. True)\<rparr>"

definition demo_limits :: CaptureLimits where
  "demo_limits = \<lparr>cl_max_files = 1, cl_max_file_bytes = 9, cl_max_total_bytes = 9\<rparr>"

lemma demo_paths: "source_path_is_in_scope ''a.md''" "safe_relative_path ''a.md''"
  by code_simp+

lemma demo_ids: "git_object_id c (replicate 40 (CHR ''0'')) = Inr \<lparr>git_format = Sha1, git_hex = replicate 40 (CHR ''0'')\<rparr>"
  "git_object_id c (replicate 40 (CHR ''1'')) = Inr \<lparr>git_format = Sha1, git_hex = replicate 40 (CHR ''1'')\<rparr>"
proof -
  have "is_lower_hex (CHR ''0'')" "is_lower_hex (CHR ''1'')" by code_simp+
  then show "git_object_id c (replicate 40 (CHR ''0'')) = Inr \<lparr>git_format = Sha1, git_hex = replicate 40 (CHR ''0'')\<rparr>"
    "git_object_id c (replicate 40 (CHR ''1'')) = Inr \<lparr>git_format = Sha1, git_hex = replicate 40 (CHR ''1'')\<rparr>"
    by (simp_all add: git_object_id_def git_object_id_new_def validate_lower_hex_def list_all_iff)
qed

lemma demo_overlay:
  "capture_overlay B demo_repo ''/r'' [] (accumulator_new demo_limits) =
     Inr (acc_insert ''a.md'' ''hi'' None Worktree (accumulator_new demo_limits), [(''a.md'', OverlayBytes (B ''hi''))])"
proof -
  have "status_entry B demo_repo ''/r'' [] (Inr ''a.md'') (accumulator_new demo_limits, []) =
     Inr (acc_insert ''a.md'' ''hi'' None Worktree (accumulator_new demo_limits), [(''a.md'', OverlayBytes (B ''hi''))])"
    using demo_paths
    by (simp add: status_entry_def demo_repo_def worktree_file_def modified_time_changed_def accumulator_new_def demo_limits_def)
  then show ?thesis by (simp add: capture_overlay_def conflict_paths_def demo_repo_def)
qed

definition demo_source :: CapturedSource where
  "demo_source = \<lparr>cp_path = ''a.md'', cp_bytes = ''hi'', cp_blob_id = None, cp_layer = Worktree\<rparr>"

lemma demo_capture:
  "\<exists>c. capture B (\<lambda>_. []) demo_repo repository demo_limits = Inr c \<and> gt_dirty c \<and> gt_sources c = [demo_source]"
proof -
  have "capture_committed (\<lambda>_. []) demo_repo (accumulator_new demo_limits) = Inr (accumulator_new demo_limits)"
    by (simp add: capture_committed_def demo_repo_def)
  moreover obtain deleted coverage where
    "acc_finish (acc_insert ''a.md'' ''hi'' None Worktree (accumulator_new demo_limits)) = ([demo_source], deleted, coverage)"
    by (simp add: acc_finish_def acc_insert_def accumulator_new_def demo_limits_def demo_source_def bt_values_def
        LFS_HEADER_def bt_remove_def sat_add64_def u64_max_def starts_with_def Let_def)
  ultimately show ?thesis
    using demo_overlay [of B] demo_ids unfolding capture_def
    by (simp add: demo_repo_def ok_or_def Let_def)
qed

theorem capture_bounded_witness:
  "\<exists>c. capture id (\<lambda>_. []) demo_repo (RepositoryId ''r'') demo_limits = Inr c \<and> length (gt_sources c) \<le> 1"
proof -
  obtain c where c: "capture id (\<lambda>_. []) demo_repo (RepositoryId ''r'') demo_limits = Inr c" using demo_capture by blast
  have "cl_max_total_bytes demo_limits < u64_max" by (simp add: demo_limits_def u64_max_def)
  from capture_bounded [OF c this] c show ?thesis by (auto simp: demo_limits_def)
qed

theorem worktree_shadows_commit_witness:
  "\<exists>c ov. capture id (\<lambda>_. []) demo_repo (RepositoryId ''r'') demo_limits = Inr c \<and> ov \<noteq> [] \<and>
     gt_overlay_digest_hex c = overlay_digest id ov \<and> (\<forall>s \<in> set (gt_sources c). layered id ov (cp_path s) s)"
proof -
  obtain c where c: "capture id (\<lambda>_. []) demo_repo (RepositoryId ''r'') demo_limits = Inr c" "gt_dirty c"
    using demo_capture by blast
  have "cl_max_total_bytes demo_limits < u64_max" by (simp add: demo_limits_def u64_max_def)
  from worktree_shadows_commit [OF c(1) this] c show ?thesis by blast
qed

end
