(* ===== verification/Ordering.thy ===== *)
theory Ordering
  imports Capture Snapshots Supersession
begin

text \<open>
  How snapshots and claims are ordered in time (\<open>src/ops/handlers/common.rs\<close>): the relations a new
  snapshot is recorded with, the policy that orders the claims of a view by the snapshots their evidence
  comes from, and the coverage reported with a view.
\<close>

section \<open>Relations of a new snapshot\<close>

definition MAX_TEMPORAL_SNAPSHOT_COMPARISONS :: nat where
  "MAX_TEMPORAL_SNAPSHOT_COMPARISONS = 1024"

definition MAX_GIT_ANCESTRY_WALK :: nat where
  "MAX_GIT_ANCESTRY_WALK = 100000"

type_synonym 'c history = "(unit, TexoError) result \<times> (string \<Rightarrow> ('c, string) result) \<times> ('c \<Rightarrow> 'c list option)"

definition history_compare :: "'c history \<Rightarrow> GitObjectId \<Rightarrow> GitObjectId \<Rightarrow> (GitComparison, TexoError) result" where
  "history_compare h left right =
     (case h of (opened, oid, parents) \<Rightarrow> compare_commits opened oid parents left right MAX_GIT_ANCESTRY_WALK)"

fun same_base_relation :: "bool \<Rightarrow> bool \<Rightarrow> TemporalRelation" where
  "same_base_relation False True = Before"
| "same_base_relation True False = After"
| "same_base_relation True True = Concurrent"
| "same_base_relation False False = Same"

text \<open>A dirty snapshot is not an ancestor of what follows its base.\<close>

fun overlay_relation :: "bool \<Rightarrow> bool \<Rightarrow> TemporalRelation \<Rightarrow> TemporalRelation" where
  "overlay_relation prior_dirty capture_dirty Before = (if prior_dirty then Concurrent else Before)"
| "overlay_relation prior_dirty capture_dirty After = (if capture_dirty then Concurrent else After)"
| "overlay_relation prior_dirty capture_dirty r = r"

definition overlay_aware_comparison ::
  "'c history \<Rightarrow> SourceSnapshotRecordedV1 \<Rightarrow> GitCapture \<Rightarrow> (GitComparison, TexoError) result" where
  "overlay_aware_comparison h prior c =
     (if sn_base_commit prior = gt_base_commit c then Inr (compared (same_base_relation (sn_dirty prior) (gt_dirty c)))
      else res_bind (history_compare h (sn_base_commit prior) (gt_base_commit c)) (\<lambda>g.
        Inr \<lparr>gc_relation = overlay_relation (sn_dirty prior) (gt_dirty c) (gc_relation g), gc_gap = gc_gap g\<rparr>))"

definition push_gap :: "CoverageGapKind option \<Rightarrow> CoverageGap list \<Rightarrow> CoverageGap list" where
  "push_gap kind gaps =
     (case kind of
        None \<Rightarrow> gaps
      | Some k \<Rightarrow> let gap = \<lparr>gap_path = None, gap_kind = k\<rparr> in if gap \<in> set gaps then gaps else gaps @ [gap])"

definition plan_relation ::
  "'c history \<Rightarrow> WorkspaceId \<Rightarrow> GitCapture \<Rightarrow> u64 \<Rightarrow> SourceSnapshotRecordedV1 \<Rightarrow>
   SourceSnapshotRelationV1 list \<times> CoverageGap list \<Rightarrow> (SourceSnapshotRelationV1 list \<times> CoverageGap list, TexoError) result" where
  "plan_relation h w c observed prior s =
     (if sn_snapshot_id prior = gt_snapshot_id c then Inr s
      else res_bind (if sn_repository_id prior = gt_repository_id c then overlay_aware_comparison h prior c
                     else Inr (undecided MissingObject)) (\<lambda>g.
        let gaps = push_gap (gc_gap g) (snd s) in
        if gc_relation g = Unknown then Inr (fst s, gaps)
        else Inr (fst s @ [\<lparr>sl_workspace_id = w, sl_repository_id = gt_repository_id c,
                            sl_left_snapshot_id = sn_snapshot_id prior, sl_right_snapshot_id = gt_snapshot_id c,
                            sl_left_commit = sn_base_commit prior, sl_right_commit = gt_base_commit c,
                            sl_relation = gc_relation g, sl_observed_at_ms = observed\<rparr>], gaps)))"

definition plan_snapshot_relations ::
  "'c history \<Rightarrow> WorkspaceId \<Rightarrow> GitCapture \<Rightarrow> SourceSnapshotRecordedV1 list \<Rightarrow> u64 \<Rightarrow>
   (SourceSnapshotRelationV1 list \<times> CoverageGap list, TexoError) result" where
  "plan_snapshot_relations h w c previous observed =
     (let skipped = length previous - MAX_TEMPORAL_SNAPSHOT_COMPARISONS;
          gaps = (if 0 < skipped then [\<lparr>gap_path = None, gap_kind = BudgetExceeded\<rparr>] else [])
      in res_fold (plan_relation h w c observed) (drop skipped previous) ([], gaps))"

definition attach_gap :: "CoverageGap \<Rightarrow> KnowledgeCoverage \<Rightarrow> KnowledgeCoverage" where
  "attach_gap gap cov =
     (if length (cov_gaps cov) < 256 \<and> gap \<notin> set (cov_gaps cov) then cov\<lparr>cov_gaps := cov_gaps cov @ [gap]\<rparr> else cov)"

definition plan_and_attach_snapshot_relations ::
  "'c history \<Rightarrow> WorkspaceId \<Rightarrow> GitCapture \<Rightarrow> SourceSnapshotRecordedV1 list \<Rightarrow> u64 \<Rightarrow>
   (SourceSnapshotRelationV1 list \<times> GitCapture, TexoError) result" where
  "plan_and_attach_snapshot_relations h w c previous observed =
     res_bind (plan_snapshot_relations h w c previous observed) (\<lambda>(relations, gaps).
       Inr (relations, c\<lparr>gt_coverage := fold attach_gap gaps (gt_coverage c)\<rparr>))"

definition recorded_capture_limits :: "SourceSnapshotRecordedV1 \<Rightarrow> CaptureLimits" where
  "recorded_capture_limits r =
     \<lparr>cl_max_files = sn_capture_max_files r, cl_max_file_bytes = sn_capture_max_file_bytes r,
      cl_max_total_bytes = sn_capture_max_total_bytes r\<rparr>"

section \<open>The order of claims\<close>

text \<open>\<open>max_by_key\<close>: the last of the elements with the greatest key.\<close>

fun max_by_key :: "('a \<Rightarrow> nat) \<Rightarrow> 'a list \<Rightarrow> 'a option" where
  "max_by_key f [] = None"
| "max_by_key f (x # xs) =
     (case max_by_key f xs of None \<Rightarrow> Some x | Some y \<Rightarrow> if f x \<le> f y then Some y else Some x)"

definition latest_support :: "EvidenceProjection \<Rightarrow> string \<Rightarrow> ClaimEvidence option" where
  "latest_support evidence claim_id =
     max_by_key ce_link_sequence
       (filter (\<lambda>e. ce_method e = Deterministic \<and> ce_stance e = Supports) (for_claim claim_id evidence))"

definition bind_latest ::
  "EvidenceProjection \<Rightarrow> ClaimView \<Rightarrow> RelateTemporalPolicy \<Rightarrow> (RelateTemporalPolicy, TexoError) result" where
  "bind_latest evidence v p =
     res_bind (map_sum ErrIdParse id (claim_id_try_from (cc_claim_id (cv_card v)))) (\<lambda>i.
       Inr (case latest_support evidence (claim_str i) of
              None \<Rightarrow> p
            | Some e \<Rightarrow> bind_claim i (occ_snapshot_id (ce_occurrence e)) p))"

definition policy_from ::
  "EvidenceProjection \<Rightarrow> TemporalProjection \<Rightarrow> WorkspaceView \<Rightarrow> (RelateTemporalPolicy, TexoError) result" where
  "policy_from evidence relations view =
     res_bind (res_fold (bind_latest evidence) (wv_claims view) policy_default) (\<lambda>p.
       Inr (fold (\<lambda>((left, right), r). insert_relation_ids left right r) relations p))"

definition workspace_temporal_policy_through ::
  "OpEnv \<Rightarrow> WorkspaceView \<Rightarrow> u64 \<Rightarrow> (RelateTemporalPolicy, TexoError) result option" where
  "workspace_temporal_policy_through env view frontier =
     (case evidence_through (env_store env) (env_workspace_id env) frontier of
        None \<Rightarrow> None
      | Some (Inl err) \<Rightarrow> Some (Inl err)
      | Some (Inr evidence) \<Rightarrow>
          map_option (\<lambda>r. res_bind r (\<lambda>relations. policy_from evidence relations view))
            (temporal_through (env_store env) (env_workspace_id env) frontier))"

definition workspace_temporal_policy :: "OpEnv \<Rightarrow> WorkspaceView \<Rightarrow> (RelateTemporalPolicy, TexoError) result option" where
  "workspace_temporal_policy env view = workspace_temporal_policy_through env view (wv_frontier view)"

section \<open>Coverage of a view\<close>

definition uncovered :: "WorkspaceView \<Rightarrow> KnowledgeCoverage" where
  "uncovered view =
     \<lparr>cov_analysis_quality = Unavailable, cov_sources_examined = length (wv_sources view),
      cov_occurrences = length (wv_claims view), cov_truncated = False,
      cov_gaps = [\<lparr>gap_path = None, gap_kind = GapSourceSnapshotUnavailable\<rparr>]\<rparr>"

definition coverage_for_view :: "OpEnv \<Rightarrow> WorkspaceView \<Rightarrow> SnapshotRead \<Rightarrow> (KnowledgeCoverage, TexoError) result option" where
  "coverage_for_view env view snap =
     map_option (\<lambda>r. res_bind r (\<lambda>latest.
         case latest of
           None \<Rightarrow> Inr (uncovered view)
         | Some recorded \<Rightarrow>
             if Some (sn_snapshot_id recorded) = sd_source_snapshot_id (sr_descriptor snap) then Inr (sn_coverage recorded)
             else Inr (uncovered view)))
       (latest_source_snapshot env (Some (wv_frontier view)))"

section \<open>Planned relations are sound\<close>

text \<open>What may be recorded between an earlier snapshot and the captured one.\<close>

definition relation_sound :: "'c history \<Rightarrow> SourceSnapshotRecordedV1 \<Rightarrow> GitCapture \<Rightarrow> TemporalRelation \<Rightarrow> bool" where
  "relation_sound h prior c r \<longleftrightarrow>
     (let left = sn_base_commit prior; right = gt_base_commit c;
          desc = (\<lambda>a b. \<exists>opened oid parents x y. h = (opened, oid, parents) \<and> oid (git_hex a) = Inr x \<and>
                   oid (git_hex b) = Inr y \<and> descends parents x y)
      in case r of
           Before \<Rightarrow> \<not> sn_dirty prior \<and> (left = right \<and> gt_dirty c \<or> left \<noteq> right \<and> desc right left)
         | After \<Rightarrow> \<not> gt_dirty c \<and> (left = right \<and> sn_dirty prior \<or> left \<noteq> right \<and> desc left right)
         | Same \<Rightarrow> left = right \<and> \<not> sn_dirty prior \<and> \<not> gt_dirty c
         | Concurrent \<Rightarrow> sn_dirty prior \<or> gt_dirty c \<or> left \<noteq> right \<and> \<not> desc right left \<and> \<not> desc left right
         | Unknown \<Rightarrow> False)"

lemma compare_parsed:
  assumes "compare_commits opened oid parents left right n = Inr g" "left \<noteq> right"
  obtains x y where "oid (git_hex left) = Inr x" "oid (git_hex right) = Inr y"
  using assms
  by (auto simp: compare_commits_def ancestor_of_def parse_object_id_def res_bind_eq_Inr map_sum_eq_Inr)

lemma overlay_comparison_sound:
  assumes "overlay_aware_comparison h prior c = Inr g" "gc_relation g \<noteq> Unknown"
  shows "relation_sound h prior c (gc_relation g)"
proof (cases "sn_base_commit prior = gt_base_commit c")
  case True
  then show ?thesis
    using assms by (cases "sn_dirty prior"; cases "gt_dirty c") (auto simp: overlay_aware_comparison_def relation_sound_def)
next
  case False
  obtain opened oid parents where h: "h = (opened, oid, parents)" by (cases h)
  obtain g0 where g0: "compare_commits opened oid parents (sn_base_commit prior) (gt_base_commit c) MAX_GIT_ANCESTRY_WALK = Inr g0"
    "gc_relation g = overlay_relation (sn_dirty prior) (gt_dirty c) (gc_relation g0)"
    using assms(1) False by (auto simp: overlay_aware_comparison_def history_compare_def h res_bind_eq_Inr)
  obtain x y where xy: "oid (git_hex (sn_base_commit prior)) = Inr x" "oid (git_hex (gt_base_commit c)) = Inr y"
    using compare_parsed [OF g0(1) False] by blast
  note sound = compare_sound [OF xy g0(1)]
  show ?thesis
    using sound assms(2) False g0(2) xy
    by (cases "gc_relation g0") (auto simp: relation_sound_def h split: if_splits)
qed

definition relation_planned ::
  "'c history \<Rightarrow> SourceSnapshotRecordedV1 list \<Rightarrow> GitCapture \<Rightarrow> SourceSnapshotRelationV1 \<Rightarrow> bool" where
  "relation_planned h previous c r \<longleftrightarrow>
     sl_right_snapshot_id r = gt_snapshot_id c \<and> sl_left_snapshot_id r \<noteq> gt_snapshot_id c \<and>
     (\<exists>prior \<in> set previous. sl_left_snapshot_id r = sn_snapshot_id prior \<and>
        sn_repository_id prior = gt_repository_id c \<and> relation_sound h prior c (sl_relation r))"

lemma plan_relation_sound:
  assumes "\<forall>r \<in> set (fst s). relation_planned h previous c r" "prior \<in> set previous"
    and "plan_relation h w c observed prior s = Inr s'"
  shows "(\<forall>r \<in> set (fst s'). relation_planned h previous c r) \<and> length (fst s') \<le> Suc (length (fst s))"
proof -
  consider "fst s' = fst s" | g where "sn_snapshot_id prior \<noteq> gt_snapshot_id c" "sn_repository_id prior = gt_repository_id c"
      "overlay_aware_comparison h prior c = Inr g" "gc_relation g \<noteq> Unknown"
      "fst s' = fst s @ [\<lparr>sl_workspace_id = w, sl_repository_id = gt_repository_id c,
          sl_left_snapshot_id = sn_snapshot_id prior, sl_right_snapshot_id = gt_snapshot_id c,
          sl_left_commit = sn_base_commit prior, sl_right_commit = gt_base_commit c,
          sl_relation = gc_relation g, sl_observed_at_ms = observed\<rparr>]"
    using assms(3) by (auto simp: plan_relation_def res_bind_eq_Inr Let_def split: if_splits)
  then show ?thesis
  proof cases
    case 2
    then show ?thesis
      using assms(1,2) overlay_comparison_sound [OF 2(3,4)] by (auto simp: relation_planned_def)
  qed (use assms(1) in simp)
qed

text \<open>
  C19: Recorded snapshot order is sound.  Every relation planned for a new snapshot connects it to another
  recorded snapshot of the same repository and is justified: \<open>Before\<close> only if the earlier snapshot was
  clean and the new base descends from its base (or is the same, with a dirty work tree on top), \<open>After\<close>
  only in the mirrored case, \<open>Same\<close> only for two clean snapshots of one commit, and never \<open>Unknown\<close>; and at
  most 1024 relations are planned.
\<close>

theorem planned_relations_sound:
  assumes "plan_snapshot_relations h w c previous observed = Inr (relations, gaps)"
  shows "(\<forall>r \<in> set relations. relation_planned h previous c r) \<and> length relations \<le> MAX_TEMPORAL_SNAPSHOT_COMPARISONS"
proof -
  let ?skip = "length previous - MAX_TEMPORAL_SNAPSHOT_COMPARISONS"
  let ?P = "\<lambda>s. \<forall>r \<in> set (fst s). relation_planned h previous c r"
  obtain gs where f: "res_fold (plan_relation h w c observed) (drop ?skip previous) ([], gs) = Inr (relations, gaps)"
    using assms by (auto simp: plan_snapshot_relations_def Let_def)
  have "?P (relations, gaps)"
  proof (rule res_fold_invariant [OF f, where P = ?P])
    fix prior s s'
    assume "prior \<in> set (drop ?skip previous)" "?P s" "plan_relation h w c observed prior s = Inr s'"
    then show "?P s'" using plan_relation_sound [of s h previous c prior w observed s'] in_set_dropD by fast
  qed simp
  moreover have "length (fst s') \<le> length (fst s) + length ps"
    if "res_fold (plan_relation h w c observed) ps s = Inr s'" "?P s" "set ps \<subseteq> set previous" for ps s s'
    using that
  proof (induction ps arbitrary: s)
    case (Cons p ps)
    then obtain t where t: "plan_relation h w c observed p s = Inr t" "res_fold (plan_relation h w c observed) ps t = Inr s'"
      by (auto simp: res_bind_eq_Inr)
    have "?P t \<and> length (fst t) \<le> Suc (length (fst s))" using plan_relation_sound [OF Cons.prems(2) _ t(1)] Cons.prems(3) by simp
    then show ?case using Cons.IH [OF t(2)] Cons.prems(3) by simp
  qed simp
  from this [OF f] have "length relations \<le> length (drop ?skip previous)" using set_drop_subset by fastforce
  ultimately show ?thesis by simp
qed

section \<open>The policy orders claims as their snapshots\<close>

lemma max_by_key_None: "max_by_key f xs = None \<longleftrightarrow> xs = []"
  by (cases xs) (auto split: option.splits)

lemma max_by_key_Some:
  "max_by_key f xs = Some x \<Longrightarrow> x \<in> set xs \<and> (\<forall>y \<in> set xs. f y \<le> f x)"
  by (induction xs arbitrary: x) (auto simp: max_by_key_None split: option.splits if_splits)

definition bound_snapshot :: "EvidenceProjection \<Rightarrow> WorkspaceView \<Rightarrow> ClaimId \<Rightarrow> SourceSnapshotId option" where
  "bound_snapshot evidence view i =
     (if claim_str i \<in> set (map (cc_claim_id \<circ> cv_card) (wv_claims view))
      then map_option (\<lambda>e. occ_snapshot_id (ce_occurrence e)) (latest_support evidence (claim_str i)) else None)"

lemma bind_fold:
  assumes "res_fold (bind_latest evidence) vs p = Inr p'"
  shows "tp_snapshot_relations p' = tp_snapshot_relations p \<and>
    bt_get (tp_claim_snapshots p') i =
      (case (if i \<in> set (map (cc_claim_id \<circ> cv_card) vs) then latest_support evidence i else None) of
         None \<Rightarrow> bt_get (tp_claim_snapshots p) i
       | Some e \<Rightarrow> Some (snapshot_str (occ_snapshot_id (ce_occurrence e))))"
  using assms
proof (induction vs arbitrary: p)
  case (Cons v vs)
  obtain c where c: "claim_id_try_from (cc_claim_id (cv_card v)) = Inr c"
    and rest: "res_fold (bind_latest evidence) vs (case latest_support evidence (claim_str c) of
        None \<Rightarrow> p | Some e \<Rightarrow> bind_claim c (occ_snapshot_id (ce_occurrence e)) p) = Inr p'"
  proof -
    obtain t where "bind_latest evidence v p = Inr t" "res_fold (bind_latest evidence) vs t = Inr p'"
      using Cons.prems by (auto simp: res_bind_eq_Inr)
    then show thesis using that by (auto simp: bind_latest_def [of evidence v] res_bind_eq_Inr map_sum_eq_Inr)
  qed
  have s: "claim_str c = cc_claim_id (cv_card v)" using claim_id_try_Inr [OF c] by simp
  show ?case
    using Cons.IH [OF rest] s by (auto simp: bind_claim_def split: option.splits)
qed simp

lemma insert_fold:
  "tp_claim_snapshots (fold (\<lambda>((left, right), r). insert_relation_ids left right r) rs p) = tp_claim_snapshots p \<and>
   bt_get (tp_snapshot_relations (fold (\<lambda>((left, right), r). insert_relation_ids left right r) rs p)) k =
     (case bt_get (tp_snapshot_relations p) k of Some r \<Rightarrow> Some r | None \<Rightarrow> map_of rs k)"
proof (induction rs arbitrary: p)
  case (Cons x rs)
  obtain l r t where x: "x = ((l, r), t)" by (metis surj_pair)
  show ?case using Cons.IH [of "insert_relation_ids l r t p"]
    by (auto simp: x insert_relation_ids_def bt_get_or_insert split: option.splits)
qed (simp split: option.split)

text \<open>
  C20: Claims are ordered as their evidence.  The temporal policy of a view compares two claims exactly as
  the recorded order compares the snapshots of their latest deterministic supporting evidence: nothing if
  neither has such evidence, unknown if only one has, and otherwise the recorded relation, read in either
  direction.
\<close>

theorem temporal_policy_exact:
  assumes "policy_from evidence relations view = Inr p"
  shows "compare_claims p a b =
    (case (bound_snapshot evidence view a, bound_snapshot evidence view b) of
       (None, None) \<Rightarrow> None
     | (Some l, Some r) \<Rightarrow> Some (temporal_compare relations l r)
     | _ \<Rightarrow> Some Unknown)"
proof -
  obtain q where q: "res_fold (bind_latest evidence) (wv_claims view) policy_default = Inr q"
    and p: "p = fold (\<lambda>((left, right), r). insert_relation_ids left right r) relations q"
    using assms by (auto simp: policy_from_def res_bind_eq_Inr)
  have snap: "bt_get (tp_claim_snapshots p) (claim_str i) = map_option snapshot_str (bound_snapshot evidence view i)" for i
    using bind_fold [OF q, of "claim_str i"] insert_fold [of relations q]
    by (auto simp: p bound_snapshot_def policy_default_def split: option.splits)
  have rel: "bt_get (tp_snapshot_relations p) k = bt_get relations k" for k
    using bind_fold [OF q] insert_fold [of relations q k] by (simp add: p policy_default_def)
  have str: "snapshot_str l = snapshot_str r \<longleftrightarrow> l = r" for l r by (metis SourceSnapshotId.expand)
  show ?thesis
    unfolding compare_claims_def snap rel temporal_compare_def
    by (auto simp: str split: option.splits)
qed

section \<open>Instances\<close>

definition demo_support :: "string \<Rightarrow> string \<Rightarrow> ClaimEvidence" where
  "demo_support claim snap =
     \<lparr>ce_claim_id = claim,
      ce_occurrence = \<lparr>occ_occurrence_id = EvidenceOccurrenceId ''evidence_1'', occ_snapshot_id = SourceSnapshotId snap,
        occ_source_kind = SkGitBlob, occ_path = ''a.md'', occ_byte_range = empty_byte_range,
        occ_line_range = first_line_range, occ_git_blob = None, occ_source_digest_hex = [], occ_excerpt = [],
        occ_analyzer_fingerprint = [], occ_analysis_quality = Syntactic\<rparr>,
      ce_stance = Supports, ce_method = Deterministic, ce_occurrence_sequence = 1, ce_link_sequence = 2,
      ce_reconciliation = None\<rparr>"

definition demo_evidence :: EvidenceProjection where
  "demo_evidence =
     \<lparr>ep_by_claim = [(''claim_a'', [demo_support ''claim_a'' ''snapshot_a'']), (''claim_b'', [demo_support ''claim_b'' ''snapshot_b''])],
      ep_incomplete = False\<rparr>"

theorem temporal_policy_exact_witness:
  "\<exists>p. policy_from demo_evidence [((''snapshot_a'', ''snapshot_b''), Before)] demo_batch = Inr p \<and>
     compare_claims p (ClaimId ''claim_b'') (ClaimId ''claim_a'') = Some After"
proof -
  obtain p where p: "policy_from demo_evidence [((''snapshot_a'', ''snapshot_b''), Before)] demo_batch = Inr p"
    by (auto simp: policy_from_def demo_batch_def demo_replacement_def bind_latest_def claim_id_try_from_def
        expect_prefix_def starts_with_def)
  have "bound_snapshot demo_evidence demo_batch (ClaimId ''claim_a'') = Some (SourceSnapshotId ''snapshot_a'')"
    "bound_snapshot demo_evidence demo_batch (ClaimId ''claim_b'') = Some (SourceSnapshotId ''snapshot_b'')"
    by (simp_all add: bound_snapshot_def demo_batch_def demo_replacement_def claim_card_default_def latest_support_def
        for_claim_def demo_evidence_def demo_support_def)
  then show ?thesis using p temporal_policy_exact [OF p, of "ClaimId ''claim_b''" "ClaimId ''claim_a''"]
    by (simp add: temporal_compare_def)
qed

abbreviation no_coverage :: KnowledgeCoverage where
  "no_coverage \<equiv> \<lparr>cov_analysis_quality = Unavailable, cov_sources_examined = 0, cov_occurrences = 0,
     cov_truncated = False, cov_gaps = []\<rparr>"

definition demo_prior :: SourceSnapshotRecordedV1 where
  "demo_prior =
     \<lparr>sn_workspace_id = WorkspaceId ''demo'', sn_repository_id = RepositoryId ''repo_1'',
      sn_snapshot_id = SourceSnapshotId ''snapshot_a'', sn_base_commit = demo_commit ''a'', sn_base_tree = demo_commit ''t'',
      sn_index_digest_hex = [], sn_overlay_digest_hex = [], sn_dirty = False, sn_coverage = no_coverage,
      sn_capture_max_files = 1, sn_capture_max_file_bytes = 1, sn_capture_max_total_bytes = 1, sn_observed_at_ms = 1\<rparr>"

definition demo_captured :: GitCapture where
  "demo_captured =
     \<lparr>gt_repository_id = RepositoryId ''repo_1'', gt_base_commit = demo_commit ''a'', gt_base_tree = demo_commit ''t'',
      gt_index_digest_hex = [], gt_overlay_digest_hex = [], gt_snapshot_id = SourceSnapshotId ''snapshot_b'',
      gt_dirty = True, gt_sources = [], gt_deleted = [], gt_coverage = no_coverage\<rparr>"

theorem planned_relations_sound_witness:
  "\<exists>r gaps. plan_snapshot_relations (Inr (), Inr, demo_parents) (WorkspaceId ''demo'') demo_captured [demo_prior] 7 =
     Inr ([r], gaps) \<and> sl_relation r = Before \<and>
     relation_planned (Inr (), Inr, demo_parents) [demo_prior] demo_captured r"
proof -
  obtain r gaps where r: "plan_snapshot_relations (Inr (), Inr, demo_parents) (WorkspaceId ''demo'') demo_captured [demo_prior] 7 =
     Inr ([r], gaps)" "sl_relation r = Before"
    by (simp add: plan_snapshot_relations_def MAX_TEMPORAL_SNAPSHOT_COMPARISONS_def plan_relation_def demo_prior_def
        demo_captured_def overlay_aware_comparison_def push_gap_def Let_def)
  from planned_relations_sound [OF r(1)] r show ?thesis by auto
qed

end
