(* ===== verification/Excerpts.thy ===== *)
theory Excerpts
  imports Ordering Effects
begin

text \<open>
  Exact evidence for claims (\<open>src/ops/handlers/knowledge_read.rs\<close>): the byte range of a range of lines,
  the occurrence and link planned for each claim of a view from the captured sources, and the events an
  index appends.
\<close>

section \<open>The byte range of lines\<close>

text \<open>The loop over the offsets of \<open>bytes\<close>, at the offset where \<open>rest\<close> is left.\<close>

fun line_scan :: "u32 \<Rightarrow> u32 \<Rightarrow> nat \<Rightarrow> u32 \<Rightarrow> nat \<Rightarrow> nat option \<Rightarrow> string \<Rightarrow> (nat \<times> nat) option" where
  "line_scan s e offset line line_start range_start [] =
     (let range_start = (if line = s then Some line_start else range_start) in
      if line = e then map_option (\<lambda>start. (start, offset)) range_start else None)"
| "line_scan s e offset line line_start range_start (c # rest) =
     (if c \<noteq> newline then line_scan s e (offset + 1) line line_start range_start rest
      else let range_start = (if line = s then Some line_start else range_start) in
           if line = e then map_option (\<lambda>start. (start, offset)) range_start
           else line_scan s e (offset + 1) (sat_add32 line 1) (offset + 1) range_start rest)"

definition line_byte_range :: "string \<Rightarrow> u32 \<Rightarrow> u32 \<Rightarrow> (nat \<times> nat) option" where
  "line_byte_range bytes s e = (if s = 0 \<or> e < s then None else line_scan s e 0 1 0 None bytes)"

section \<open>Planned evidence\<close>

datatype PlannedEvidence = PeSkip | PeGap CoverageGap | PeRow EvidenceOccurrence ClaimEvidenceLinkedV1

definition occurrence_material :: "SourceSnapshotId \<Rightarrow> string \<Rightarrow> nat \<Rightarrow> nat \<Rightarrow> string \<Rightarrow> string" where
  "occurrence_material snap path start end' claim =
     (let sep = [CHR 0x1F] in
      ''texo.evidence.occurrence.v1'' @ sep @ snapshot_str snap @ sep @ path @ sep @ show_nat start @ sep @
      show_nat end' @ sep @ claim)"

fun source_kind_of :: "CapturedLayer \<Rightarrow> EvidenceSourceKind" where
  "source_kind_of Committed = SkGitBlob"
| "source_kind_of Worktree = SkWorktreeOverlay"

abbreviation path_gap :: "string \<Rightarrow> CoverageGapKind \<Rightarrow> PlannedEvidence" where
  "path_gap path kind \<equiv> PeGap \<lparr>gap_path = Some path, gap_kind = kind\<rparr>"

text \<open>The occurrence of the lines of a claim, with the checks of its constructors.\<close>

definition evidence_row ::
  "(string \<Rightarrow> string) \<Rightarrow> (KnowledgeContractError \<Rightarrow> string) \<Rightarrow> ClaimCard \<Rightarrow> CapturedSource \<Rightarrow> SourceSnapshotId \<Rightarrow>
   WorkspaceId \<Rightarrow> u64 \<Rightarrow> nat \<Rightarrow> nat \<Rightarrow> (PlannedEvidence, TexoError) result" where
  "evidence_row B contract crd source snap w observed start end' =
     (let path = cp_path source;
          failed = (\<lambda>err. ErrSource path (contract err));
          i = evidence_id_derive B (occurrence_material snap path start end' (cc_claim_id crd))
      in res_bind (map_sum failed id (byte_range_new start end')) (\<lambda>bytes.
         res_bind (map_sum failed id (line_range_new (cc_line_start crd) (cc_line_end crd))) (\<lambda>lines.
         let occurrence =
           \<lparr>occ_occurrence_id = i, occ_snapshot_id = snap, occ_source_kind = source_kind_of (cp_layer source),
            occ_path = path, occ_byte_range = bytes, occ_line_range = lines, occ_git_blob = cp_blob_id source,
            occ_source_digest_hex = B (cp_bytes source),
            occ_excerpt = take (end' - start) (drop start (cp_bytes source)),
            occ_analyzer_fingerprint = cc_extractor_kind crd @ '':'' @ cc_extractor_model crd @ '':'' @ cc_prompt_version crd,
            occ_analysis_quality = Syntactic\<rparr>
         in res_bind (map_sum failed id (occurrence_validate occurrence)) (\<lambda>_.
            res_bind (map_sum ErrIdParse id (claim_id_try_from (cc_claim_id crd))) (\<lambda>claim.
              Inr (PeRow occurrence
                \<lparr>el_workspace_id = w, el_claim_id = claim, el_occurrence_id = i, el_stance = Supports,
                 el_method = Deterministic, el_observed_at_ms = observed\<rparr>))))))"

definition plan_claim_evidence_row ::
  "(string \<Rightarrow> string) \<Rightarrow> (KnowledgeContractError \<Rightarrow> string) \<Rightarrow> (string \<Rightarrow> bool) \<Rightarrow> ClaimView \<Rightarrow> CapturedSource option \<Rightarrow>
   SourceSnapshotId \<Rightarrow> WorkspaceId \<Rightarrow> u64 \<Rightarrow> (PlannedEvidence, TexoError) result" where
  "plan_claim_evidence_row B contract utf8 claim found snap w observed =
     (case found of
        None \<Rightarrow> Inr PeSkip
      | Some source \<Rightarrow>
          let crd = cv_card claim; path = cp_path source in
          res_bind (map_sum ErrIdParse id (source_id_from_hash (B (cp_bytes source)))) (\<lambda>captured.
            if source_str captured \<noteq> cc_source_id crd then Inr (path_gap path AnalysisIncomplete)
            else case line_byte_range (cp_bytes source) (cc_line_start crd) (cc_line_end crd) of
                   None \<Rightarrow> Inr (path_gap path AnalysisIncomplete)
                 | Some (start, end') \<Rightarrow>
                     let excerpt = take (end' - start) (drop start (cp_bytes source)) in
                     if \<not> utf8 excerpt then Inr (path_gap path UnsupportedEncoding)
                     else if MAX_EVIDENCE_EXCERPT_BYTES < length excerpt then Inr (path_gap path SourceTooLarge)
                     else evidence_row B contract crd source snap w observed start end'))"

record EvidencePlan =
  pn_rows :: "(EvidenceOccurrence \<times> ClaimEvidenceLinkedV1) list"
  pn_gaps :: "CoverageGap list"

fun add_planned :: "PlannedEvidence \<Rightarrow> EvidencePlan \<Rightarrow> EvidencePlan" where
  "add_planned PeSkip p = p"
| "add_planned (PeGap gap) p = p\<lparr>pn_gaps := pn_gaps p @ [gap]\<rparr>"
| "add_planned (PeRow occurrence link) p = p\<lparr>pn_rows := pn_rows p @ [(occurrence, link)]\<rparr>"

definition sources_by_path :: "CapturedSource list \<Rightarrow> (string, CapturedSource) btree" where
  "sources_by_path sources = fold (\<lambda>s. bt_insert (cp_path s) s) sources []"

definition plan_claim_evidence ::
  "(string \<Rightarrow> string) \<Rightarrow> (KnowledgeContractError \<Rightarrow> string) \<Rightarrow> (string \<Rightarrow> bool) \<Rightarrow> WorkspaceView \<Rightarrow>
   CapturedSource list \<Rightarrow> SourceSnapshotId \<Rightarrow> u64 \<Rightarrow> (EvidencePlan, TexoError) result" where
  "plan_claim_evidence B contract utf8 view sources snap observed =
     (let by_path = sources_by_path sources in
      res_bind (map_sum ErrIdParse id (workspace_id_new (wv_workspace_id view))) (\<lambda>w.
        res_fold (\<lambda>claim p.
            res_bind (plan_claim_evidence_row B contract utf8 claim (bt_get by_path (cc_source_path (cv_card claim))) snap w observed)
              (\<lambda>planned. Inr (add_planned planned p)))
          (wv_claims view) \<lparr>pn_rows = [], pn_gaps = []\<rparr>))"

section \<open>Appending an index\<close>

definition knowledge_events ::
  "WorkspaceId \<Rightarrow> SourceSnapshotRecordedV1 \<Rightarrow> (EvidenceOccurrence \<times> ClaimEvidenceLinkedV1) list \<Rightarrow>
   SourceSnapshotRelationV1 list \<Rightarrow> u64 \<Rightarrow> domain_event list" where
  "knowledge_events w snap rows relations observed =
     EvSourceSnapshotRecorded snap #
     concat (map (\<lambda>(occurrence, link).
        [EvEvidenceOccurrence \<lparr>eo_workspace_id = w, eo_occurrence = occurrence, eo_observed_at_ms = observed\<rparr>,
         EvClaimEvidenceLinked link]) rows) @
     map EvSourceSnapshotRelation relations"

definition append_knowledge_plan ::
  "'s ctx \<Rightarrow> (domain_event \<Rightarrow> (string, string) result) \<Rightarrow> WorkspaceId \<Rightarrow> SourceSnapshotRecordedV1 \<Rightarrow>
   (EvidenceOccurrence \<times> ClaimEvidenceLinkedV1) list \<Rightarrow> SourceSnapshotRelationV1 list \<Rightarrow> u64 \<Rightarrow> ('s, ReceiptNote list) op" where
  "append_knowledge_plan cx enc w snap rows relations observed =
     op_bind (op_for (append_json ''texo.knowledge.index'' cx enc) (knowledge_events w snap rows relations observed))
       (\<lambda>_. take_receipts)"

section \<open>The byte range is the range of lines\<close>

text \<open>The loop on the lines of the source, as \<open>split_on\<close> gives them.\<close>

fun scan_lines :: "u32 \<Rightarrow> u32 \<Rightarrow> u32 \<Rightarrow> nat \<Rightarrow> nat option \<Rightarrow> string list \<Rightarrow> (nat \<times> nat) option" where
  "scan_lines s e line start rs [] = None"
| "scan_lines s e line start rs (l # ls) =
     (let rs = (if line = s then Some start else rs) in
      if line = e then map_option (\<lambda>a. (a, start + length l)) rs
      else scan_lines s e (sat_add32 line 1) (start + length l + 1) rs ls)"

lemma line_scan_lines:
  "line_scan s e (start + length p) line start rs rest =
     scan_lines s e line start rs ((p @ hd (split_on newline rest)) # tl (split_on newline rest))"
proof (induction rest arbitrary: start p line rs)
  case (Cons c rest)
  show ?case
  proof (cases "c = newline")
    case True
    then show ?thesis
      using Cons.IH [of "Suc (start + length p)" "[]"] by (cases "split_on newline rest") (auto simp: Let_def)
  next
    case False
    then show ?thesis
      using Cons.IH [of start "p @ [c]" line rs] by (cases "split_on newline rest") (auto simp: Let_def)
  qed
qed simp

lemma join_Cons: "ls \<noteq> [] \<Longrightarrow> join sep (l # ls) = l @ sep @ join sep ls"
  by (cases ls) auto

lemma scan_open:
  "line + length ls \<le> u32_max \<Longrightarrow> s < line \<Longrightarrow> line \<le> e \<Longrightarrow>
   scan_lines s e line start (Some a) ls =
     (if e - line < length ls then Some (a, start + length (join [newline] (take (Suc (e - line)) ls))) else None)"
proof (induction ls arbitrary: line start)
  case (Cons l ls)
  show ?case
  proof (cases "line = e")
    case False
    then have step: "sat_add32 line 1 = Suc line" "Suc (e - Suc line) = e - line"
      using Cons.prems by (auto simp: sat_add32_def)
    have "take (e - line) ls \<noteq> []" if "e - line < Suc (length ls)" using that False Cons.prems(3) by (cases ls) auto
    then show ?thesis using Cons.IH [of "Suc line" "Suc (start + length l)"] Cons.prems False step by (auto simp: Let_def join_Cons)
  qed (use Cons.prems in simp)
qed simp

abbreviation line_offset :: "string list \<Rightarrow> nat" where
  "line_offset ls \<equiv> length (concat (map (\<lambda>l. l @ [newline]) ls))"

lemma scan_closed:
  "line + length ls \<le> u32_max \<Longrightarrow> line \<le> s \<Longrightarrow> s \<le> e \<Longrightarrow>
   scan_lines s e line start None ls =
     (if e - line < length ls
      then Some (start + line_offset (take (s - line) ls),
                 start + line_offset (take (s - line) ls) + length (join [newline] (take (Suc (e - s)) (drop (s - line) ls))))
      else None)"
proof (induction ls arbitrary: line start)
  case (Cons l ls)
  consider "line < s" | "line = s" "line = e" | "line = s" "line < e" using Cons.prems by linarith
  then show ?case
  proof cases
    case 1
    then have "sat_add32 line 1 = Suc line" "s - line = Suc (s - Suc line)" using Cons.prems by (auto simp: sat_add32_def)
    then show ?thesis using Cons.IH [of "Suc line" "Suc (start + length l)"] Cons.prems 1 by (auto simp: Let_def)
  next
    case 2
    then show ?thesis by simp
  next
    case 3
    then have step: "sat_add32 line 1 = Suc line" "Suc (e - Suc line) = e - line" using Cons.prems by (auto simp: sat_add32_def)
    have "take (e - line) ls \<noteq> []" if "e - line < Suc (length ls)" using that 3 by (cases ls) auto
    then show ?thesis
      using scan_open [of "Suc line" ls s e "Suc (start + length l)" start] Cons.prems 3 step
      by (auto simp: Let_def join_Cons)
  qed
qed simp

lemma split_on_length: "length (split_on d s) \<le> Suc (length s)"
  by (induction s) (auto split: list.splits)

lemma line_byte_range_lines:
  assumes "Suc (Suc (length bytes)) \<le> u32_max"
  shows "line_byte_range bytes s e =
    (let ls = split_on newline bytes; a = line_offset (take (s - 1) ls) in
     if 1 \<le> s \<and> s \<le> e \<and> e \<le> length ls
     then Some (a, a + length (join [newline] (take (Suc e - s) (drop (s - 1) ls)))) else None)"
proof -
  let ?ls = "split_on newline bytes"
  have len: "1 + length ?ls \<le> u32_max" using split_on_length [of newline bytes] assms by simp
  have "line_scan s e 0 1 0 None bytes = scan_lines s e 1 0 None ?ls"
    using line_scan_lines [of s e 0 "[]" 1 None bytes] by simp
  then show ?thesis
    using scan_closed [OF len, of s e 0] by (auto simp: line_byte_range_def Let_def Suc_diff_le)
qed

lemma join_split_at:
  "k < length ls \<Longrightarrow> join [newline] ls = concat (map (\<lambda>l. l @ [newline]) (take k ls)) @ join [newline] (drop k ls)"
proof (induction ls arbitrary: k)
  case (Cons l ls)
  show ?case
  proof (cases k)
    case (Suc n)
    then have n: "n < length ls" and ne: "ls \<noteq> []" using Cons.prems by auto
    show ?thesis using Cons.IH [OF n] Suc by (simp add: join_Cons [OF ne])
  qed simp
qed simp

lemma join_take: "\<exists>t. join sep ls = join sep (take k ls) @ t"
proof (induction ls arbitrary: k)
  case (Cons l ls)
  show ?case
  proof (cases "ls = [] \<or> k = 0")
    case True
    then show ?thesis by (cases k) auto
  next
    case False
    then obtain n where k: "k = Suc n" by (cases k) auto
    obtain t where "join sep ls = join sep (take n ls) @ t" using Cons.IH by blast
    then show ?thesis using False k by (cases "take n ls = []") (auto simp: join_Cons)
  qed
qed simp

lemma line_slice:
  assumes "Suc (Suc (length bytes)) \<le> u32_max" "line_byte_range bytes s e = Some (a, b)"
  shows "1 \<le> s \<and> s \<le> e \<and> e \<le> length (split_on newline bytes) \<and> a \<le> b \<and> b \<le> length bytes \<and>
    take (b - a) (drop a bytes) = join [newline] (take (Suc e - s) (drop (s - 1) (split_on newline bytes)))"
proof -
  let ?ls = "split_on newline bytes"
  let ?a = "line_offset (take (s - 1) ?ls)" and ?x = "join [newline] (take (Suc e - s) (drop (s - 1) ?ls))"
  have r: "1 \<le> s" "s \<le> e" "e \<le> length ?ls" "a = ?a" "b = ?a + length ?x"
    using assms(2) by (simp_all add: line_byte_range_lines [OF assms(1)] Let_def split: if_splits)
  have "bytes = concat (map (\<lambda>l. l @ [newline]) (take (s - 1) ?ls)) @ join [newline] (drop (s - 1) ?ls)"
    using join_split_at [of "s - 1" ?ls] r by (simp add: join_split_on)
  moreover obtain t where "join [newline] (drop (s - 1) ?ls) = ?x @ t" using join_take by blast
  ultimately have "bytes = concat (map (\<lambda>l. l @ [newline]) (take (s - 1) ?ls)) @ ?x @ t" by simp
  then have "drop ?a bytes = ?x @ t" "length bytes = ?a + length ?x + length t"
    by (metis append_eq_conv_conj, metis length_append add.assoc)
  then show ?thesis using r by simp
qed

text \<open>
  The byte range of lines is exact.  For a source shorter than the range of line numbers, the range of
  lines \<open>s\<close> to \<open>e\<close> exists exactly when it is a one-based, ordered range of lines of the source, and its
  bytes are then those lines, joined by newlines.
\<close>

theorem line_byte_range_exact:
  assumes "Suc (Suc (length bytes)) \<le> u32_max"
  shows "case line_byte_range bytes s e of
      None \<Rightarrow> \<not> (1 \<le> s \<and> s \<le> e \<and> e \<le> length (split_on newline bytes))
    | Some (a, b) \<Rightarrow> 1 \<le> s \<and> s \<le> e \<and> e \<le> length (split_on newline bytes) \<and> a \<le> b \<and> b \<le> length bytes \<and>
        take (b - a) (drop a bytes) = join [newline] (take (Suc e - s) (drop (s - 1) (split_on newline bytes)))"
proof (cases "line_byte_range bytes s e")
  case None
  then show ?thesis by (simp add: line_byte_range_lines [OF assms] Let_def split: if_splits)
next
  case (Some r)
  then show ?thesis using line_slice [OF assms, of s e "fst r" "snd r"] by (cases r) simp
qed

theorem line_byte_range_exact_witness:
  "case line_byte_range ''ab'' 1 1 of
      None \<Rightarrow> \<not> ((1::nat) \<le> 1 \<and> (1::nat) \<le> 1 \<and> 1 \<le> length (split_on newline ''ab''))
    | Some (a, b) \<Rightarrow> (1::nat) \<le> 1 \<and> (1::nat) \<le> 1 \<and> 1 \<le> length (split_on newline ''ab'') \<and> a \<le> b \<and> b \<le> length ''ab'' \<and>
        take (b - a) (drop a ''ab'') = join [newline] (take (Suc 1 - 1) (drop (1 - 1) (split_on newline ''ab'')))"
  by (rule line_byte_range_exact) (simp add: u32_max_def)

section \<open>Planned evidence is exact\<close>

text \<open>What a planned row promises of the claim and the captured source it was planned from.\<close>

definition exact_row ::
  "(string \<Rightarrow> string) \<Rightarrow> (string \<Rightarrow> bool) \<Rightarrow> SourceSnapshotId \<Rightarrow> ClaimView \<Rightarrow> CapturedSource \<Rightarrow>
   EvidenceOccurrence \<times> ClaimEvidenceLinkedV1 \<Rightarrow> bool" where
  "exact_row B utf8 snap claim source row \<longleftrightarrow>
     (let crd = cv_card claim; occ = fst row; link = snd row;
          lines = split_on newline (cp_bytes source); s = cc_line_start crd; e = cc_line_end crd in
      cp_path source = cc_source_path crd \<and>
      source_id_from_hash (B (cp_bytes source)) = Inr (SourceId (cc_source_id crd)) \<and>
      occ_snapshot_id occ = snap \<and> occ_path occ = cp_path source \<and> occ_source_digest_hex occ = B (cp_bytes source) \<and>
      1 \<le> s \<and> s \<le> e \<and> e \<le> length lines \<and>
      occ_excerpt occ = join [newline] (take (Suc e - s) (drop (s - 1) lines)) \<and>
      utf8 (occ_excerpt occ) \<and> occurrence_validate occ = Inr () \<and>
      claim_str (el_claim_id link) = cc_claim_id crd \<and> el_occurrence_id link = occ_occurrence_id occ \<and>
      el_stance link = Supports \<and> el_method link = Deterministic)"

lemma evidence_row_Inr:
  assumes "evidence_row B contract crd source snap w observed a b = Inr planned"
  shows "\<exists>occ link. planned = PeRow occ link \<and>
    occ_snapshot_id occ = snap \<and> occ_path occ = cp_path source \<and> occ_source_digest_hex occ = B (cp_bytes source) \<and>
    occ_excerpt occ = take (b - a) (drop a (cp_bytes source)) \<and> occurrence_validate occ = Inr () \<and>
    claim_id_try_from (cc_claim_id crd) = Inr (el_claim_id link) \<and> el_occurrence_id link = occ_occurrence_id occ \<and>
    el_stance link = Supports \<and> el_method link = Deterministic"
  using assms by (auto simp: evidence_row_def Let_def res_bind_eq_Inr map_sum_eq_Inr)

lemma map_sum_Inr_cases: "map_sum f g r = Inr x \<Longrightarrow> (\<And>y. r = Inr y \<Longrightarrow> x = g y \<Longrightarrow> P) \<Longrightarrow> P"
  by (cases r) auto

lemma claim_id_try_from_str: "claim_id_try_from s = Inr i \<Longrightarrow> claim_str i = s"
  by (auto simp: claim_id_try_from_def expect_prefix_def elim!: map_sum_Inr_cases split: if_splits)

lemma planned_row_exact:
  assumes "plan_claim_evidence_row B contract utf8 claim (Some source) snap w observed = Inr (PeRow occ link)"
    and "cp_path source = cc_source_path (cv_card claim)" "Suc (Suc (length (cp_bytes source))) \<le> u32_max"
  shows "exact_row B utf8 snap claim source (occ, link)"
proof -
  let ?c = "cv_card claim"
  obtain i a b where i: "source_id_from_hash (B (cp_bytes source)) = Inr i" "source_str i = cc_source_id ?c"
    and r: "line_byte_range (cp_bytes source) (cc_line_start ?c) (cc_line_end ?c) = Some (a, b)"
    and u: "utf8 (take (b - a) (drop a (cp_bytes source)))"
    and row: "evidence_row B contract ?c source snap w observed a b = Inr (PeRow occ link)"
    using assms(1)
    by (auto simp: plan_claim_evidence_row_def Let_def res_bind_eq_Inr map_sum_eq_Inr split: if_splits option.splits)
  have "i = SourceId (cc_source_id ?c)" using i(2) by (cases i) simp
  moreover note evidence_row_Inr [OF row] line_slice [OF assms(3) r]
  ultimately show ?thesis
    using i(1) u assms(2) by (auto simp: exact_row_def Let_def dest!: claim_id_try_from_str)
qed

lemma add_planned_rows:
  "set (pn_rows (add_planned planned p)) \<subseteq> set (pn_rows p) \<union> {(occ, link) | occ link. planned = PeRow occ link}"
  by (cases planned) auto

lemma planned_rows_from:
  assumes "plan_claim_evidence B contract utf8 view sources snap observed = Inr p" "(occ, link) \<in> set (pn_rows p)"
  obtains claim source w where "claim \<in> set (wv_claims view)" "source \<in> set sources"
    "cp_path source = cc_source_path (cv_card claim)"
    "plan_claim_evidence_row B contract utf8 claim (Some source) snap w observed = Inr (PeRow occ link)"
proof -
  let ?by = "sources_by_path sources"
  let ?row = "\<lambda>w claim. plan_claim_evidence_row B contract utf8 claim (bt_get ?by (cc_source_path (cv_card claim))) snap w observed"
  obtain w where f: "res_fold (\<lambda>claim p. res_bind (?row w claim) (\<lambda>planned. Inr (add_planned planned p)))
      (wv_claims view) \<lparr>pn_rows = [], pn_gaps = []\<rparr> = Inr p"
    using assms(1) by (auto simp: plan_claim_evidence_def Let_def res_bind_eq_Inr)
  let ?P = "\<lambda>p. \<forall>(occ, link) \<in> set (pn_rows p). \<exists>claim \<in> set (wv_claims view). ?row w claim = Inr (PeRow occ link)"
  have "?P p"
    using f
  proof (rule res_fold_invariant)
    fix claim q q'
    assume c: "claim \<in> set (wv_claims view)" and q: "?P q"
      and "res_bind (?row w claim) (\<lambda>planned. Inr (add_planned planned q)) = Inr q'"
    then obtain planned where r: "?row w claim = Inr planned" "q' = add_planned planned q" by (auto simp: res_bind_eq_Inr)
    show "?P q'" using add_planned_rows [of planned q] c q r by fastforce
  qed simp
  then obtain claim where c: "claim \<in> set (wv_claims view)" "?row w claim = Inr (PeRow occ link)" using assms(2) by blast
  then obtain source where s: "bt_get ?by (cc_source_path (cv_card claim)) = Some source"
    by (cases "bt_get ?by (cc_source_path (cv_card claim))") (simp_all add: plan_claim_evidence_row_def)
  show thesis using that [of claim source w] c s captured_map_get [OF s [unfolded sources_by_path_def]] by simp
qed

text \<open>
  C17: Planned evidence is exact.  When the claims of a view are matched with the sources of a bounded
  capture, every planned occurrence belongs to a claim of the view and a captured source at its path whose
  content hash is the source identity of the claim; the excerpt is exactly the lines of the claim, joined
  by newlines, valid text within the excerpt bound, and the link names the claim and the occurrence as
  deterministic support.
\<close>

theorem planned_evidence_exact:
  assumes "capture B contract' repo repository limits = Inr c"
    and "cl_max_total_bytes limits < u64_max" "Suc (Suc (cl_max_file_bytes limits)) \<le> u32_max"
    and "plan_claim_evidence B contract utf8 view (gt_sources c) snap observed = Inr p"
    and "row \<in> set (pn_rows p)"
  shows "\<exists>claim \<in> set (wv_claims view). \<exists>source \<in> set (gt_sources c).
    exact_row B utf8 snap claim source row \<and> length (occ_excerpt (fst row)) \<le> MAX_EVIDENCE_EXCERPT_BYTES"
proof -
  obtain occ link where row: "row = (occ, link)" by (cases row)
  obtain claim source w where s: "claim \<in> set (wv_claims view)" "source \<in> set (gt_sources c)"
    "cp_path source = cc_source_path (cv_card claim)"
    "plan_claim_evidence_row B contract utf8 claim (Some source) snap w observed = Inr (PeRow occ link)"
    using planned_rows_from [OF assms(4)] assms(5) unfolding row by blast
  have "length (cp_bytes source) \<le> cl_max_file_bytes limits" by (rule capture_source_size [OF assms(1,2) s(2)])
  then have "exact_row B utf8 snap claim source (occ, link)" using planned_row_exact [OF s(4,3)] assms(3) by simp
  moreover from this have "length (occ_excerpt occ) \<le> MAX_EVIDENCE_EXCERPT_BYTES"
    by (auto simp: exact_row_def Let_def occurrence_validate_def res_bind_eq_Inr split: if_splits)
  ultimately show ?thesis using s(1,2) unfolding row by auto
qed

text \<open>A view whose one claim is the one line of the source of the demonstration repository.\<close>

definition demo_digest :: "string \<Rightarrow> string" where
  "demo_digest x = replicate 64 (CHR ''a'')"

definition demo_claim :: ClaimView where
  "demo_claim =
     \<lparr>cv_card = claim_card_default\<lparr>cc_claim_id := ''claim_x'', cc_source_id := ''src_'' @ replicate 12 (CHR ''a''),
        cc_source_path := ''a.md'', cc_line_start := 1, cc_line_end := 1\<rparr>,
      cv_status = StCurrent, cv_supersedes = []\<rparr>"

definition demo_view :: WorkspaceView where
  "demo_view =
     \<lparr>wv_workspace_id = ''w'', wv_frontier = 1, wv_freshness = PfFresh, wv_claims = [demo_claim], wv_conflicts = [], wv_sources = []\<rparr>"

lemma demo_plan:
  "\<exists>p row. plan_claim_evidence demo_digest (\<lambda>_. []) (\<lambda>_. True) demo_view [demo_source] (SourceSnapshotId ''s'') 0 = Inr p \<and>
     row \<in> set (pn_rows p)"
proof -
  have h: "is_lower_hex (CHR ''a'')" "code (CHR ''a'') = 97" by code_simp+
  have o: "\<exists>occ link. plan_claim_evidence_row demo_digest (\<lambda>_. []) (\<lambda>_. True) demo_claim (Some demo_source) (SourceSnapshotId ''s'') w 0
    = Inr (PeRow occ link)" for w
    using h
    by (simp add: plan_claim_evidence_row_def demo_claim_def demo_source_def source_id_from_hash_def demo_digest_def str_get_to_def
        SOURCE_ID_HASH_LEN_def ok_or_def line_byte_range_def evidence_row_def byte_range_new_def line_range_new_def
        occurrence_validate_def validate_lower_hex_def MAX_EVIDENCE_EXCERPT_BYTES_def claim_id_try_from_def expect_prefix_def
        starts_with_def list_all_iff Let_def)
  obtain occ link where r: "plan_claim_evidence_row demo_digest (\<lambda>_. []) (\<lambda>_. True) demo_claim (Some demo_source) (SourceSnapshotId ''s'')
     (WorkspaceId ''w'') 0 = Inr (PeRow occ link)" using o by blast
  have p: "cc_source_path (cv_card demo_claim) = cp_path demo_source" by (simp add: demo_claim_def demo_source_def)
  show ?thesis
    by (simp add: plan_claim_evidence_def demo_view_def workspace_id_new_def validate_workspace_def sources_by_path_def p r)
qed

theorem planned_evidence_exact_witness:
  "\<exists>c p row. capture demo_digest (\<lambda>_. []) demo_repo (RepositoryId ''r'') demo_limits = Inr c \<and>
     plan_claim_evidence demo_digest (\<lambda>_. []) (\<lambda>_. True) demo_view (gt_sources c) (SourceSnapshotId ''s'') 0 = Inr p \<and>
     row \<in> set (pn_rows p) \<and>
     (\<exists>claim \<in> set (wv_claims demo_view). \<exists>source \<in> set (gt_sources c).
        exact_row demo_digest (\<lambda>_. True) (SourceSnapshotId ''s'') claim source row)"
proof -
  obtain c where c: "capture demo_digest (\<lambda>_. []) demo_repo (RepositoryId ''r'') demo_limits = Inr c" "gt_sources c = [demo_source]"
    using demo_capture by blast
  obtain p row where p: "plan_claim_evidence demo_digest (\<lambda>_. []) (\<lambda>_. True) demo_view (gt_sources c) (SourceSnapshotId ''s'') 0 = Inr p"
    "row \<in> set (pn_rows p)" using demo_plan c(2) by metis
  have "cl_max_total_bytes demo_limits < u64_max" "Suc (Suc (cl_max_file_bytes demo_limits)) \<le> u32_max"
    by (simp_all add: demo_limits_def u64_max_def u32_max_def)
  from planned_evidence_exact [OF c(1) this p] c(1) p show ?thesis by blast
qed

end
