(* ===== verification/CodeIndex.thy ===== *)
theory CodeIndex
  imports Capture
begin

text \<open>
  The code index (\<open>src/code_index/\<close>): the exact context of an occurrence, the import of a SCIP index, the
  built-in lexical and syntactic fallbacks, the artifact they fill within its bounds, and its persisted form.
  A parsed SCIP index, the matches of the Rust tags query, the binary codec, the clock, the file system and
  the UTF-8 check are parameters; offsets are \<open>usize\<close> values of slices in memory, whose sums do not wrap.
\<close>

section \<open>Offsets, lines and context\<close>

definition source_error :: "string \<Rightarrow> string \<Rightarrow> TexoError" where
  "source_error path detail = ErrSource path detail"

fun count_newlines :: "string \<Rightarrow> nat" where
  "count_newlines [] = 0"
| "count_newlines (c # cs) = (if c = newline then Suc (count_newlines cs) else count_newlines cs)"

definition u32_try :: "nat \<Rightarrow> u32" where
  "u32_try n = (if n \<le> u32_max then n else u32_max)"

definition byte_line_range :: "string \<Rightarrow> nat \<Rightarrow> nat \<Rightarrow> u32 \<times> u32" where
  "byte_line_range bytes s e =
     (let start_line = sat_add32 1 (u32_try (count_newlines (take s bytes)))
      in (start_line, sat_add32 start_line (u32_try (count_newlines (take (e - s) (drop s bytes))))))"

definition is_continuation :: "string \<Rightarrow> nat \<Rightarrow> bool" where
  "is_continuation bytes i \<longleftrightarrow> i < length bytes \<and> 128 \<le> code (bytes ! i) \<and> code (bytes ! i) < 192"

function skip_forward :: "string \<Rightarrow> nat \<Rightarrow> nat \<Rightarrow> nat" where
  "skip_forward bytes stop i = (if i < stop \<and> is_continuation bytes i then skip_forward bytes stop (Suc i) else i)"
  by pat_completeness auto

termination by (relation "measure (\<lambda>(_, stop, i). stop - i)") auto

fun skip_back :: "string \<Rightarrow> nat \<Rightarrow> nat \<Rightarrow> nat" where
  "skip_back bytes stop 0 = 0"
| "skip_back bytes stop (Suc i) = (if stop < Suc i \<and> is_continuation bytes (Suc i) then skip_back bytes stop i else Suc i)"

declare skip_forward.simps [simp del]

text \<open>The position after the last newline before an offset, and of the first newline from an offset on.\<close>

definition line_begin :: "string \<Rightarrow> nat \<Rightarrow> nat" where
  "line_begin bytes i = i - length (takeWhile (\<lambda>c. c \<noteq> newline) (rev (take i bytes)))"

definition line_finish :: "string \<Rightarrow> nat \<Rightarrow> nat" where
  "line_finish bytes i = i + length (takeWhile (\<lambda>c. c \<noteq> newline) (drop i bytes))"

text \<open>The bounds of the context of the occurrence at \<open>s\<close> to \<open>e\<close>, before they are moved to character boundaries.\<close>

definition context_bounds :: "string \<Rightarrow> nat \<Rightarrow> nat \<Rightarrow> nat \<times> nat" where
  "context_bounds bytes s e =
     (let available = MAX_EVIDENCE_EXCERPT_BYTES - (e - s);
          start = max (s - available div 2) (line_begin bytes s);
          end' = min (e + (available - (s - start))) (line_finish bytes e)
      in (if end' - start < MAX_EVIDENCE_EXCERPT_BYTES then max (end' - MAX_EVIDENCE_EXCERPT_BYTES) (line_begin bytes s)
          else start, end'))"

definition byte_slice :: "string \<Rightarrow> nat \<Rightarrow> nat \<Rightarrow> string" where
  "byte_slice bytes s e = take (e - s) (drop s bytes)"

definition source_context :: "(string \<Rightarrow> bool) \<Rightarrow> string \<Rightarrow> nat \<Rightarrow> nat \<Rightarrow> (string \<times> ByteRange \<times> LineRange) option" where
  "source_context utf8 bytes s e =
     (if e < s \<or> length bytes < e \<or> MAX_EVIDENCE_EXCERPT_BYTES < e - s then None
      else let (start, end') = context_bounds bytes s e;
               start = skip_forward bytes s start; end' = skip_back bytes e end';
               (first, final) = byte_line_range bytes start end'
           in if utf8 (byte_slice bytes start end')
              then Some (byte_slice bytes start end', \<lparr>br_start = start, br_end = end'\<rparr>, \<lparr>lr_start = first, lr_end = final\<rparr>)
              else None)"

section \<open>The artifact\<close>

definition ARTIFACT_SCHEMA :: string where
  "ARTIFACT_SCHEMA = ''texo.code-index.v3''"

text \<open>The analysis budget is the deadline of \<open>late\<close> below; it is kept in milliseconds.\<close>

record CodeIndexLimits =
  xl_max_scip_bytes :: u64
  xl_max_documents :: nat
  xl_max_occurrences :: nat
  xl_analysis_budget_ms :: u64

definition code_index_limits_default :: CodeIndexLimits where
  "code_index_limits_default =
     \<lparr>xl_max_scip_bytes = 64 * 1024 * 1024, xl_max_documents = 20000, xl_max_occurrences = 200000,
      xl_analysis_budget_ms = 30000\<rparr>"

record ArtifactBuilder =
  ab_limits :: CodeIndexLimits
  ab_occurrences :: "CodeOccurrence list"
  ab_sources_examined :: u64
  ab_truncated :: bool
  ab_gaps :: "CoverageGap list"
  ab_format :: CodeIndexFormat
  ab_quality :: AnalysisQuality

definition builder_new :: "CodeIndexLimits \<Rightarrow> KnowledgeCoverage \<Rightarrow> ArtifactBuilder" where
  "builder_new limits coverage =
     \<lparr>ab_limits = limits, ab_occurrences = [], ab_sources_examined = 0, ab_truncated = cov_truncated coverage,
      ab_gaps = cov_gaps coverage, ab_format = FmtLexical, ab_quality = Lexical\<rparr>"

definition builder_gap :: "string option \<Rightarrow> CoverageGapKind \<Rightarrow> ArtifactBuilder \<Rightarrow> ArtifactBuilder" where
  "builder_gap path kind b =
     (if length (ab_gaps b) < MAX_GAPS
      then let gap = \<lparr>gap_path = path, gap_kind = kind\<rparr>
           in if gap \<in> set (ab_gaps b) then b else b\<lparr>ab_gaps := ab_gaps b @ [gap]\<rparr>
      else b\<lparr>ab_truncated := True\<rparr>)"

definition builder_push :: "CodeOccurrence \<Rightarrow> ArtifactBuilder \<Rightarrow> bool \<times> ArtifactBuilder" where
  "builder_push occurrence b =
     (if xl_max_occurrences (ab_limits b) \<le> length (ab_occurrences b)
      then (False, builder_gap None BudgetExceeded (b\<lparr>ab_truncated := True\<rparr>))
      else (True, b\<lparr>ab_occurrences := ab_occurrences b @ [occurrence]\<rparr>))"

definition examined :: "ArtifactBuilder \<Rightarrow> ArtifactBuilder" where
  "examined b = b\<lparr>ab_sources_examined := sat_add64 (ab_sources_examined b) 1\<rparr>"

section \<open>Lexical discovery\<close>

definition MAX_LEXICAL_OCCURRENCES_PER_SOURCE :: nat where
  "MAX_LEXICAL_OCCURRENCES_PER_SOURCE = 512"

definition identifier_start :: "char \<Rightarrow> bool" where
  "identifier_start c \<longleftrightarrow> c = CHR ''_'' \<or> is_lower c \<or> is_upper c"

definition identifier_continue :: "char \<Rightarrow> bool" where
  "identifier_continue c \<longleftrightarrow> identifier_start c \<or> is_digit c"

definition LEXICAL_FINGERPRINT :: string where
  "LEXICAL_FINGERPRINT = ''texo-lexical:v2''"

text \<open>The occurrence of a name; \<open>None\<close> when its context is not text.\<close>

definition lexical_occurrence ::
  "(string \<Rightarrow> string) \<Rightarrow> (string \<Rightarrow> bool) \<Rightarrow> CapturedSource \<Rightarrow> string \<Rightarrow> nat \<Rightarrow> nat \<Rightarrow> CodeOccurrence option" where
  "lexical_occurrence B utf8 source name s e =
     (let bytes = cp_bytes source; (first, final) = byte_line_range bytes s e in
      map_option (\<lambda>(context, context_bytes, context_lines).
        \<lparr>co_symbol = ''lexical '' @ cp_path source @ ''#'' @ name @ ''@'' @ show_nat s, co_display_name = name,
         co_roles = [Reference], co_path = cp_path source, co_byte_range = \<lparr>br_start = s, br_end = e\<rparr>,
         co_line_range = \<lparr>lr_start = first, lr_end = final\<rparr>, co_source_digest_hex = B bytes, co_excerpt = name,
         co_context = context, co_context_byte_range = context_bytes, co_context_line_range = context_lines,
         co_analyzer_fingerprint = LEXICAL_FINGERPRINT, co_analysis_quality = Lexical\<rparr>)
        (source_context utf8 bytes s e))"

text \<open>The loop over the bytes, at \<open>offset\<close>, with the names seen so far.\<close>

function lexical_loop ::
  "(string \<Rightarrow> string) \<Rightarrow> (string \<Rightarrow> bool) \<Rightarrow> CapturedSource \<Rightarrow> nat \<Rightarrow> string \<Rightarrow> string list \<Rightarrow> ArtifactBuilder \<Rightarrow> ArtifactBuilder" where
  "lexical_loop B utf8 source offset [] names b = b"
| "lexical_loop B utf8 source offset (c # rest) names b =
     (if \<not> identifier_start c then lexical_loop B utf8 source (Suc offset) rest names b
      else let name = c # takeWhile identifier_continue rest;
               next = offset + length name; rest = dropWhile identifier_continue rest;
               key = to_ascii_lowercase name
           in if \<not> utf8 name \<or> length name < 3 \<or> key \<in> set names then lexical_loop B utf8 source next rest names b
              else if MAX_LEXICAL_OCCURRENCES_PER_SOURCE < Suc (length names)
              then builder_gap (Some (cp_path source)) BudgetExceeded (b\<lparr>ab_truncated := True\<rparr>)
              else case lexical_occurrence B utf8 source name offset next of
                     None \<Rightarrow> lexical_loop B utf8 source next rest (key # names)
                               (builder_gap (Some (cp_path source)) UnsupportedEncoding b)
                   | Some occurrence \<Rightarrow>
                       (case builder_push occurrence b of
                          (False, b) \<Rightarrow> b
                        | (True, b) \<Rightarrow> lexical_loop B utf8 source next rest (key # names) b))"
  by pat_completeness auto

termination
  by (relation "measure (\<lambda>(_, _, _, _, rest, _, _). length rest)") (auto simp: length_dropWhile_le less_Suc_eq_le)

definition analyze_lexical ::
  "(string \<Rightarrow> string) \<Rightarrow> (string \<Rightarrow> bool) \<Rightarrow> CapturedSource \<Rightarrow> ArtifactBuilder \<Rightarrow> ArtifactBuilder" where
  "analyze_lexical B utf8 source b = lexical_loop B utf8 source 0 (cp_bytes source) [] b"

section \<open>Syntax tags\<close>

text \<open>
  What the grammar answers for a source: the tree has errors, the matches of the tags query as their
  captures with names and nodes, and whether the match limit was exceeded; \<open>None\<close> when the deadline stopped
  the parser.
\<close>

record ts_node =
  nd_start :: nat
  nd_end :: nat
  nd_start_row :: nat
  nd_end_row :: nat

record rust_tree =
  rt_has_error :: bool
  rt_matches :: "(string \<times> ts_node) list list"
  rt_limit_exceeded :: bool

record rust_grammar =
  rg_tags_query :: string
  rg_parse :: "CapturedSource \<Rightarrow> (rust_tree option, TexoError) result"

definition rust_analyzer_fingerprint :: "(string \<Rightarrow> string) \<Rightarrow> rust_grammar option \<Rightarrow> string" where
  "rust_analyzer_fingerprint B grammar =
     (case grammar of
        None \<Rightarrow> ''tree-sitter-rust:disabled''
      | Some g \<Rightarrow> ''tree-sitter:0.26.11:rust:0.24.2:tags-'' @ B (rg_tags_query g))"

definition tag_role :: "string \<Rightarrow> CodeOccurrenceRole option" where
  "tag_role name =
     (if starts_with name ''definition.'' then Some Definition
      else if starts_with name ''reference.'' then Some Reference else None)"

definition match_role :: "(string \<times> ts_node) list \<Rightarrow> (CodeOccurrenceRole \<times> string) option" where
  "match_role captures =
     (case List.map_filter (\<lambda>(name, _). map_option (\<lambda>r. (r, name)) (tag_role name)) captures of
        [] \<Rightarrow> None | r # _ \<Rightarrow> Some r)"

definition tag_occurrence ::
  "(string \<Rightarrow> string) \<Rightarrow> (KnowledgeContractError \<Rightarrow> string) \<Rightarrow> string \<Rightarrow> CapturedSource \<Rightarrow> CodeOccurrenceRole \<Rightarrow> string \<Rightarrow>
   ts_node \<Rightarrow> string \<times> ByteRange \<times> LineRange \<Rightarrow> (CodeOccurrence, TexoError) result" where
  "tag_occurrence B contract analyzer source role kind node ctx =
     (let display_name = byte_slice (cp_bytes source) (nd_start node) (nd_end node);
          failed = (\<lambda>err. source_error (cp_path source) (contract err)) in
      res_bind (map_sum failed id (byte_range_new (nd_start node) (nd_end node))) (\<lambda>bytes.
      res_bind (map_sum failed id (line_range_new (u32_try (Suc (nd_start_row node))) (u32_try (Suc (nd_end_row node))))) (\<lambda>lines.
        Inr \<lparr>co_symbol = ''syntax rust '' @ cp_path source @ ''#'' @ kind @ '':'' @ display_name @ ''@'' @ show_nat (nd_start node),
             co_display_name = display_name, co_roles = [role], co_path = cp_path source, co_byte_range = bytes,
             co_line_range = lines, co_source_digest_hex = B (cp_bytes source), co_excerpt = display_name,
             co_context = fst ctx, co_context_byte_range = fst (snd ctx), co_context_line_range = snd (snd ctx),
             co_analyzer_fingerprint = analyzer, co_analysis_quality = Syntactic\<rparr>)))"

fun tag_loop ::
  "(string \<Rightarrow> string) \<Rightarrow> (KnowledgeContractError \<Rightarrow> string) \<Rightarrow> (string \<Rightarrow> bool) \<Rightarrow> string \<Rightarrow> CapturedSource \<Rightarrow>
   (string \<times> ts_node) list list \<Rightarrow> ArtifactBuilder \<Rightarrow> (ArtifactBuilder, TexoError) result" where
  "tag_loop B contract utf8 analyzer source [] b = Inr b"
| "tag_loop B contract utf8 analyzer source (captures # rest) b =
     (let more = tag_loop B contract utf8 analyzer source rest;
          undecoded = builder_gap (Some (cp_path source)) UnsupportedEncoding b
      in case (match_role captures, map_of captures ''name'') of
           (Some (role, kind), Some node) \<Rightarrow>
             if \<not> utf8 (byte_slice (cp_bytes source) (nd_start node) (nd_end node)) then more undecoded
             else (case source_context utf8 (cp_bytes source) (nd_start node) (nd_end node) of
                     None \<Rightarrow> more undecoded
                   | Some ctx \<Rightarrow>
                       res_bind (tag_occurrence B contract analyzer source role kind node ctx) (\<lambda>occurrence.
                         case builder_push occurrence b of (False, b) \<Rightarrow> Inr b | (True, b) \<Rightarrow> more b))
         | _ \<Rightarrow> more b)"

definition collect_rust_tags ::
  "(string \<Rightarrow> string) \<Rightarrow> (KnowledgeContractError \<Rightarrow> string) \<Rightarrow> (string \<Rightarrow> bool) \<Rightarrow> string \<Rightarrow> CapturedSource \<Rightarrow> rust_tree \<Rightarrow>
   ArtifactBuilder \<Rightarrow> (ArtifactBuilder, TexoError) result" where
  "collect_rust_tags B contract utf8 analyzer source tree b =
     res_bind (tag_loop B contract utf8 analyzer source (rt_matches tree) b) (\<lambda>b.
       Inr (if rt_limit_exceeded tree
            then builder_gap (Some (cp_path source)) BudgetExceeded (b\<lparr>ab_truncated := True\<rparr>) else b))"

definition analyze_rust ::
  "(string \<Rightarrow> string) \<Rightarrow> (KnowledgeContractError \<Rightarrow> string) \<Rightarrow> (string \<Rightarrow> bool) \<Rightarrow> rust_grammar \<Rightarrow> CapturedSource \<Rightarrow>
   ArtifactBuilder \<Rightarrow> (bool \<times> ArtifactBuilder, TexoError) result" where
  "analyze_rust B contract utf8 g source b =
     res_bind (rg_parse g source) (\<lambda>parsed.
       case parsed of
         None \<Rightarrow> Inr (False, b)
       | Some tree \<Rightarrow>
           let b = (if rt_has_error tree then builder_gap (Some (cp_path source)) AnalysisIncomplete b else b)
           in res_bind (collect_rust_tags B contract utf8 (rust_analyzer_fingerprint B (Some g)) source tree b)
                (\<lambda>b. Inr (True, b)))"

section \<open>The fallbacks\<close>

definition SKIPPED_DIRECTORIES :: "string list" where
  "SKIPPED_DIRECTORIES = [''dist'', ''build'', ''node_modules'', ''.next'', ''coverage'']"

definition CODE_EXTENSIONS :: "string list" where
  "CODE_EXTENSIONS =
     [''rs'', ''py'', ''js'', ''jsx'', ''ts'', ''tsx'', ''go'', ''java'', ''kt'', ''c'', ''h'', ''cc'', ''cpp'',
      ''hpp'', ''sh'', ''toml'', ''yaml'', ''yml'', ''json'']"

definition code_index_path_is_in_scope :: "string \<Rightarrow> bool" where
  "code_index_path_is_in_scope path =
     (if (\<exists>part \<in> set (split_on (CHR ''/'') path). to_ascii_lowercase part \<in> set SKIPPED_DIRECTORIES)
         \<or> to_ascii_lowercase (file_name path) \<in> {''pnpm-lock.yaml'', ''pnpm-lock.yml''} then False
      else if is_wellknown_source_basename (file_name path) then True
      else case extension path of None \<Rightarrow> False | Some e \<Rightarrow> to_ascii_lowercase e \<in> set CODE_EXTENSIONS)"

definition is_rust_path :: "string \<Rightarrow> bool" where
  "is_rust_path path = (case extension path of None \<Rightarrow> False | Some e \<Rightarrow> eq_ignore_ascii_case e ''rs'')"

text \<open>The state of the loop: the builder, whether syntax and lexical analysis were used, and whether it left.\<close>

type_synonym fallback = "ArtifactBuilder \<times> bool \<times> bool"

definition fallback_source ::
  "(string \<Rightarrow> string) \<Rightarrow> (KnowledgeContractError \<Rightarrow> string) \<Rightarrow> (string \<Rightarrow> bool) \<Rightarrow> rust_grammar option \<Rightarrow> CapturedSource \<Rightarrow>
   fallback \<Rightarrow> (fallback, TexoError) result" where
  "fallback_source B contract utf8 grammar source s =
     (let (b, used_syntax, used_lexical) = s; b = examined b; path = Some (cp_path source);
          lexical = (\<lambda>b. Inr (analyze_lexical B utf8 source b, used_syntax, True))
      in if \<not> utf8 (cp_bytes source) then Inr (builder_gap path UnsupportedEncoding b, used_syntax, used_lexical)
         else case grammar of
                None \<Rightarrow> lexical b
              | Some g \<Rightarrow>
                  if \<not> is_rust_path (cp_path source) then lexical b
                  else res_bind (analyze_rust B contract utf8 g source b) (\<lambda>(parsed, b).
                         if parsed then Inr (b, True, used_lexical)
                         else lexical (builder_gap path AnalysisIncomplete b)))"

fun fallback_loop ::
  "(string \<Rightarrow> string) \<Rightarrow> (KnowledgeContractError \<Rightarrow> string) \<Rightarrow> (string \<Rightarrow> bool) \<Rightarrow> rust_grammar option \<Rightarrow> (string \<Rightarrow> bool) \<Rightarrow>
   string set \<Rightarrow> CapturedSource list \<Rightarrow> fallback \<Rightarrow> (fallback, TexoError) result" where
  "fallback_loop B contract utf8 grammar late indexed [] s = Inr s"
| "fallback_loop B contract utf8 grammar late indexed (source # rest) s =
     (if cp_path source \<in> indexed \<or> \<not> code_index_path_is_in_scope (cp_path source)
      then fallback_loop B contract utf8 grammar late indexed rest s
      else if late (cp_path source)
      then Inr (builder_gap None BudgetExceeded ((fst s)\<lparr>ab_truncated := True\<rparr>), snd s)
      else res_bind (fallback_source B contract utf8 grammar source s)
             (fallback_loop B contract utf8 grammar late indexed rest))"

text \<open>\<open>late\<close> tells at which source the deadline is found to have passed.\<close>

definition analyze_fallbacks ::
  "(string \<Rightarrow> string) \<Rightarrow> (KnowledgeContractError \<Rightarrow> string) \<Rightarrow> (string \<Rightarrow> bool) \<Rightarrow> rust_grammar option \<Rightarrow> (string \<Rightarrow> bool) \<Rightarrow>
   CapturedSource list \<Rightarrow> string set \<Rightarrow> ArtifactBuilder \<Rightarrow> (string \<times> ArtifactBuilder, TexoError) result" where
  "analyze_fallbacks B contract utf8 grammar late sources indexed b =
     res_bind (fallback_loop B contract utf8 grammar late indexed sources (b, False, False)) (\<lambda>(b, used_syntax, used_lexical).
       let b = (if used_syntax \<and> ab_format b = FmtLexical then b\<lparr>ab_quality := Syntactic, ab_format := FmtSyntax\<rparr> else b);
           rust = rust_analyzer_fingerprint B grammar
       in Inr (if used_syntax then (if used_lexical then rust @ ''+'' @ LEXICAL_FINGERPRINT else rust)
               else if used_lexical then LEXICAL_FINGERPRINT else [], b))"

section \<open>Importing SCIP\<close>

text \<open>The parsed messages, as the protocol gives them; the last constructor stands for any other typed range.\<close>

datatype typed_range = SingleLineRange int int int | MultiLineRange int int int int | OtherRange

record scip_occurrence =
  so_symbol :: string
  so_symbol_roles :: "32 word"
  so_typed_range :: "typed_range option"
  so_range :: "int list"

record scip_document =
  dm_relative_path :: string
  dm_utf8_positions :: bool
  dm_occurrences :: "scip_occurrence list"

record scip_index =
  si_tool :: "(string \<times> string) option"
  si_documents :: "scip_document list"

record ZeroRange =
  zr_start_line :: nat
  zr_start_character :: nat
  zr_end_line :: nat
  zr_end_character :: nat

definition nonnegative :: "int \<Rightarrow> nat option" where
  "nonnegative v = (if 0 \<le> v then Some (nat v) else None)"

definition zero_range :: "int \<Rightarrow> int \<Rightarrow> int \<Rightarrow> int \<Rightarrow> ZeroRange option" where
  "zero_range start_line start end_line end' =
     (case (nonnegative start_line, nonnegative start, nonnegative end_line, nonnegative end') of
        (Some sl, Some s, Some el, Some e) \<Rightarrow>
          Some \<lparr>zr_start_line = sl, zr_start_character = s, zr_end_line = el, zr_end_character = e\<rparr>
      | _ \<Rightarrow> None)"

fun untyped_range :: "int list \<Rightarrow> ZeroRange option" where
  "untyped_range [line, start, end'] = zero_range line start line end'"
| "untyped_range [start_line, start, end_line, end'] = zero_range start_line start end_line end'"
| "untyped_range _ = None"

definition scip_range :: "scip_occurrence \<Rightarrow> ZeroRange option" where
  "scip_range occ =
     (case so_typed_range occ of
        Some (SingleLineRange line start end') \<Rightarrow> zero_range line start line end'
      | Some (MultiLineRange start_line start end_line end') \<Rightarrow> zero_range start_line start end_line end'
      | Some OtherRange \<Rightarrow> None
      | None \<Rightarrow> untyped_range (so_range occ))"

fun offsets_from :: "nat \<Rightarrow> string \<Rightarrow> nat list" where
  "offsets_from offset [] = []"
| "offsets_from offset (c # cs) = (if c = newline then [Suc offset] else []) @ offsets_from (Suc offset) cs"

definition line_offsets :: "string \<Rightarrow> nat list" where
  "line_offsets bytes = 0 # offsets_from 0 bytes"

definition nth_opt :: "'a list \<Rightarrow> nat \<Rightarrow> 'a option" where
  "nth_opt xs i = (if i < length xs then Some (xs ! i) else None)"

definition resolve_range :: "nat list \<Rightarrow> string \<Rightarrow> ZeroRange \<Rightarrow> (ByteRange \<times> LineRange) option" where
  "resolve_range lines bytes r =
     (case (nth_opt lines (zr_start_line r), nth_opt lines (zr_end_line r)) of
        (Some sl, Some el) \<Rightarrow>
          (let s = sl + zr_start_character r; e = el + zr_end_character r in
           if e < s \<or> length bytes < e then None
           else if u32_max < Suc (zr_start_line r) \<or> u32_max < Suc (zr_end_line r) then None
           else case (byte_range_new s e, line_range_new (Suc (zr_start_line r)) (Suc (zr_end_line r))) of
                  (Inr bytes, Inr lines) \<Rightarrow> Some (bytes, lines)
                | _ \<Rightarrow> None)
      | _ \<Rightarrow> None)"

definition SCIP_ROLE_BITS :: "(32 word \<times> CodeOccurrenceRole) list" where
  "SCIP_ROLE_BITS =
     [(0x2, Import), (0x4, Write), (0x8, Read), (0x10, Generated), (0x20, TestRole), (0x40, ForwardDefinition)]"

definition scip_roles :: "32 word \<Rightarrow> CodeOccurrenceRole list" where
  "scip_roles bits =
     (if and bits 0x1 \<noteq> 0 then Definition else Reference) #
     map snd (filter (\<lambda>(mask, _). and bits mask \<noteq> 0) SCIP_ROLE_BITS)"

definition scip_analyzer_fingerprint :: "scip_index \<Rightarrow> string" where
  "scip_analyzer_fingerprint index =
     (let (name, version) = (case si_tool index of None \<Rightarrow> (''unknown'', ''unknown'') | Some t \<Rightarrow> t)
      in ''scip:'' @ name @ '':'' @ version @ '':protocol-v0'')"

text \<open>One occurrence of a document: the row it becomes, nothing, or the gap it leaves.\<close>

datatype scip_row = ScipSkip | ScipGap CoverageGapKind | ScipRow CodeOccurrence

definition scip_row_of ::
  "(string \<Rightarrow> string) \<Rightarrow> (string \<Rightarrow> bool) \<Rightarrow> string \<Rightarrow> string \<Rightarrow> CapturedSource \<Rightarrow> scip_occurrence \<Rightarrow> scip_row" where
  "scip_row_of B utf8 analyzer path source occ =
     (let bytes = cp_bytes source in
      if so_symbol occ = [] then ScipSkip
      else case Option.bind (scip_range occ) (resolve_range (line_offsets bytes) bytes) of
             None \<Rightarrow> ScipGap AnalysisIncomplete
           | Some (byte_range, line_range) \<Rightarrow>
               (let s = br_start byte_range; e = br_end byte_range; excerpt = byte_slice bytes s e in
                if \<not> utf8 excerpt then ScipGap UnsupportedEncoding
                else if MAX_EVIDENCE_EXCERPT_BYTES < length excerpt then ScipGap SourceTooLarge
                else case source_context utf8 bytes s e of
                       None \<Rightarrow> ScipGap UnsupportedEncoding
                     | Some (context, context_bytes, context_lines) \<Rightarrow>
                         ScipRow \<lparr>co_symbol = so_symbol occ, co_display_name = (if excerpt = [] then so_symbol occ else excerpt),
                           co_roles = scip_roles (so_symbol_roles occ), co_path = path, co_byte_range = byte_range,
                           co_line_range = line_range, co_source_digest_hex = B bytes, co_excerpt = excerpt,
                           co_context = context, co_context_byte_range = context_bytes,
                           co_context_line_range = context_lines, co_analyzer_fingerprint = analyzer,
                           co_analysis_quality = Precise\<rparr>))"

fun import_scip_document :: "string \<Rightarrow> scip_row list \<Rightarrow> ArtifactBuilder \<Rightarrow> ArtifactBuilder" where
  "import_scip_document path [] b = b"
| "import_scip_document path (ScipSkip # rows) b = import_scip_document path rows b"
| "import_scip_document path (ScipGap kind # rows) b = import_scip_document path rows (builder_gap (Some path) kind b)"
| "import_scip_document path (ScipRow occurrence # rows) b =
     (case builder_push occurrence b of (False, b) \<Rightarrow> b | (True, b) \<Rightarrow> import_scip_document path rows b)"

definition import_document ::
  "(string \<Rightarrow> string) \<Rightarrow> (string \<Rightarrow> bool) \<Rightarrow> string \<Rightarrow> (string, CapturedSource) btree \<Rightarrow> scip_document \<Rightarrow>
   ArtifactBuilder \<times> string set \<Rightarrow> ArtifactBuilder \<times> string set" where
  "import_document B utf8 analyzer sources document s =
     (let (b, indexed) = s; path = dm_relative_path document in
      if \<not> safe_relative_path path then (builder_gap (Some path) AnalysisIncomplete b, indexed)
      else let b = examined b in
           case bt_get sources path of
             None \<Rightarrow> (builder_gap (Some path) MissingObject b, indexed)
           | Some source \<Rightarrow>
               if \<not> dm_utf8_positions document \<or> \<not> utf8 (cp_bytes source)
               then (builder_gap (Some path) UnsupportedEncoding b, indexed)
               else let b' = import_scip_document path (map (scip_row_of B utf8 analyzer path source) (dm_occurrences document)) b
                    in (b', if length (ab_occurrences b) < length (ab_occurrences b') then insert path indexed else indexed))"

definition import_scip ::
  "(string \<Rightarrow> string) \<Rightarrow> (string \<Rightarrow> bool) \<Rightarrow> (string \<Rightarrow> (scip_index, string) result) \<Rightarrow> string \<Rightarrow>
   (string, CapturedSource) btree \<Rightarrow> ArtifactBuilder \<Rightarrow> (string \<times> ArtifactBuilder \<times> string set, TexoError) result" where
  "import_scip B utf8 parse bytes sources b =
     res_bind (map_sum (source_error ''index.scip'') id (parse bytes)) (\<lambda>index.
       let analyzer = scip_analyzer_fingerprint index; n = xl_max_documents (ab_limits b);
           (b, indexed) = fold (import_document B utf8 analyzer sources) (take n (si_documents index)) (b, {});
           b = (if n < length (si_documents index) then builder_gap None BudgetExceeded (b\<lparr>ab_truncated := True\<rparr>) else b)
       in Inr (analyzer, b, indexed))"

section \<open>Building the artifact\<close>

fun role_rank :: "CodeOccurrenceRole \<Rightarrow> nat" where
  "role_rank Definition = 0"
| "role_rank Reference = 1"
| "role_rank Import = 2"
| "role_rank Write = 3"
| "role_rank Read = 4"
| "role_rank Generated = 5"
| "role_rank TestRole = 6"
| "role_rank ForwardDefinition = 7"
| "role_rank Implementation = 8"

definition code_occurrence_order :: "CodeOccurrence \<Rightarrow> string \<times> string \<times> u64 \<times> u64 \<times> nat list" where
  "code_occurrence_order o' =
     (co_symbol o', co_path o', br_start (co_byte_range o'), br_end (co_byte_range o'), map role_rank (co_roles o'))"

record PreparedCodeIndex =
  px_artifact :: CodeIndexArtifact
  px_artifact_digest_hex :: string
  px_bytes :: string

text \<open>The outside functions of the index: the SCIP parser, the encoders of the codec, the grammar and the clock.\<close>

record index_tools =
  it_hash :: "string \<Rightarrow> string"
  it_contract :: "KnowledgeContractError \<Rightarrow> string"
  it_utf8 :: "string \<Rightarrow> bool"
  it_parse_scip :: "string \<Rightarrow> (scip_index, string) result"
  it_grammar :: "rust_grammar option"
  it_late :: "string \<Rightarrow> bool"
  it_encode_occurrences :: "CodeOccurrence list \<Rightarrow> (string, string) result"
  it_encode_artifact :: "CodeIndexArtifact \<Rightarrow> (string, string) result"
  it_decode_artifact :: "string \<Rightarrow> (CodeIndexArtifact, string) result"

definition source_map :: "CapturedSource list \<Rightarrow> (string, CapturedSource) btree" where
  "source_map sources = fold (\<lambda>s. bt_insert (cp_path s) s) sources []"

definition build_scip ::
  "index_tools \<Rightarrow> GitCapture \<Rightarrow> string option \<Rightarrow> ArtifactBuilder \<Rightarrow>
   (string list \<times> ArtifactBuilder \<times> string set, TexoError) result" where
  "build_scip t cap scip_bytes b =
     (case scip_bytes of
        None \<Rightarrow> Inr ([], b, {})
      | Some bytes \<Rightarrow>
          res_bind (import_scip (it_hash t) (it_utf8 t) (it_parse_scip t) bytes (source_map (gt_sources cap)) b)
            (\<lambda>(analyzer, b', indexed).
              Inr ([analyzer], if length (ab_occurrences b) < length (ab_occurrences b')
                               then b'\<lparr>ab_format := FmtScip, ab_quality := Precise\<rparr> else b', indexed)))"

definition occurrence_identity :: "index_tools \<Rightarrow> GitCapture \<Rightarrow> string \<Rightarrow> string \<Rightarrow> CodeIndexId" where
  "occurrence_identity t cap material analyzer =
     code_index_id_derive (it_hash t)
       (ARTIFACT_SCHEMA @ [US] @ snapshot_str (gt_snapshot_id cap) @ [US] @ it_hash t material @ [US] @ analyzer)"

definition finish_artifact ::
  "index_tools \<Rightarrow> GitCapture \<Rightarrow> string list \<Rightarrow> ArtifactBuilder \<Rightarrow> (PreparedCodeIndex, TexoError) result" where
  "finish_artifact t cap analyzer_parts b =
     (let analyzer = join ''+'' (if analyzer_parts = [] then [LEXICAL_FINGERPRINT] else analyzer_parts);
          occurrences = remdups_adj (sort_key code_occurrence_order (ab_occurrences b));
          failed = source_error ''.texo/cache/code-index''
      in res_bind (map_sum failed id (it_encode_occurrences t occurrences)) (\<lambda>material.
         let artifact =
           \<lparr>art_schema = ARTIFACT_SCHEMA, art_snapshot_id = gt_snapshot_id cap,
            art_index_id = occurrence_identity t cap material analyzer, art_format = ab_format b,
            art_analyzer_fingerprint = analyzer, art_occurrences = occurrences,
            art_coverage = \<lparr>cov_analysis_quality = ab_quality b, cov_sources_examined = ab_sources_examined b,
              cov_occurrences = length occurrences, cov_truncated = ab_truncated b, cov_gaps = ab_gaps b\<rparr>\<rparr>
         in res_bind (map_sum failed id (it_encode_artifact t artifact)) (\<lambda>bytes.
              Inr \<lparr>px_artifact = artifact, px_artifact_digest_hex = it_hash t bytes, px_bytes = bytes\<rparr>)))"

definition build :: "index_tools \<Rightarrow> GitCapture \<Rightarrow> string option \<Rightarrow> CodeIndexLimits \<Rightarrow> (PreparedCodeIndex, TexoError) result" where
  "build t cap scip_bytes limits =
     res_bind (build_scip t cap scip_bytes (builder_new limits (gt_coverage cap))) (\<lambda>(parts, b, indexed).
     res_bind (analyze_fallbacks (it_hash t) (it_contract t) (it_utf8 t) (it_grammar t) (it_late t) (gt_sources cap) indexed b)
       (\<lambda>(fallback, b). finish_artifact t cap (if fallback = [] then parts else parts @ [fallback]) b))"

section \<open>Persistence\<close>

definition artifact_path :: "string \<Rightarrow> CodeIndexId \<Rightarrow> string" where
  "artifact_path root i = root @ ''/.texo/cache/code-index/'' @ code_index_str i @ ''.bin''"

text \<open>The files under the workspace; a missing file reads as \<open>None\<close>, and a replacement is atomic.\<close>

type_synonym files = "string \<Rightarrow> string option"

definition persist :: "string \<Rightarrow> PreparedCodeIndex \<Rightarrow> files \<Rightarrow> string \<times> files" where
  "persist root prepared files =
     (let path = artifact_path root (art_index_id (px_artifact prepared)) in (path, files(path \<mapsto> px_bytes prepared)))"

definition load :: "index_tools \<Rightarrow> files \<Rightarrow> string \<Rightarrow> CodeIndexId \<Rightarrow> string \<Rightarrow> (CodeIndexArtifact option, TexoError) result" where
  "load t files root i expected_digest_hex =
     (let path = artifact_path root i in
      case files path of
        None \<Rightarrow> Inr None
      | Some bytes \<Rightarrow>
          if it_hash t bytes \<noteq> expected_digest_hex then Inl (source_error path ''code-index artifact digest mismatch'')
          else res_bind (map_sum (ErrDecode (code_index_str i)) id (it_decode_artifact t bytes)) (\<lambda>artifact.
            if art_schema artifact \<noteq> ARTIFACT_SCHEMA then Inr None
            else if art_index_id artifact \<noteq> i then Inl (source_error path ''code-index artifact identity mismatch'')
            else Inr (Some artifact)))"

section \<open>The context is exact\<close>

lemma skip_forward_bounds: "i \<le> stop \<Longrightarrow> i \<le> skip_forward bytes stop i \<and> skip_forward bytes stop i \<le> stop"
proof (induction bytes stop i rule: skip_forward.induct)
  case (1 bytes stop i)
  then show ?case by (subst (1 2) skip_forward.simps) auto
qed

lemma skip_back_bounds: "stop \<le> i \<Longrightarrow> stop \<le> skip_back bytes stop i \<and> skip_back bytes stop i \<le> i"
  by (induction i) auto

lemma line_begin_bound: "line_begin bytes i \<le> i"
  by (simp add: line_begin_def)

lemma line_finish_bound: "i \<le> line_finish bytes i" "i \<le> length bytes \<Longrightarrow> line_finish bytes i \<le> length bytes"
  using length_takeWhile_le [of "\<lambda>c. c \<noteq> newline" "drop i bytes"] by (auto simp: line_finish_def)

lemma newline_before:
  assumes "line_begin bytes s \<le> a" "s \<le> length bytes"
  shows "newline \<notin> set (byte_slice bytes a s)"
proof
  let ?p = "takeWhile (\<lambda>c. c \<noteq> newline) (rev (take s bytes))"
  assume "newline \<in> set (byte_slice bytes a s)"
  then obtain i where i: "a + i < s" "bytes ! (a + i) = newline" using assms(2)
    by (auto simp: byte_slice_def in_set_conv_nth less_diff_conv add.commute)
  let ?k = "s - Suc (a + i)"
  have k: "?k < length ?p" using i(1) assms(1) length_takeWhile_le [of "\<lambda>c. c \<noteq> newline" "rev (take s bytes)"] assms(2)
    by (auto simp: line_begin_def)
  then have "?p ! ?k = rev (take s bytes) ! ?k" by (rule takeWhile_nth)
  also have "\<dots> = bytes ! (a + i)" using i(1) assms(2) by (simp add: rev_nth)
  finally have "?p ! ?k = newline" using i(2) by simp
  moreover have "?p ! ?k \<noteq> newline" using nth_mem [OF k] by (auto dest: set_takeWhileD)
  ultimately show False by simp
qed

lemma newline_after:
  assumes "z \<le> line_finish bytes e"
  shows "newline \<notin> set (byte_slice bytes e z)"
proof
  let ?p = "takeWhile (\<lambda>c. c \<noteq> newline) (drop e bytes)"
  have "byte_slice bytes e z = take (z - e) ?p" if "z - e \<le> length ?p"
  proof -
    have "take (length ?p) (drop e bytes) = ?p" by (metis takeWhile_eq_take)
    then have "take (z - e) ?p = take (min (z - e) (length ?p)) (drop e bytes)" by (metis take_take)
    then show ?thesis using that by (simp add: byte_slice_def min_def)
  qed
  moreover have "z - e \<le> length ?p" using assms by (simp add: line_finish_def)
  moreover assume "newline \<in> set (byte_slice bytes e z)"
  ultimately show False by (metis in_set_takeD set_takeWhileD)
qed

lemma context_bounds_ok:
  assumes "context_bounds bytes s e = (a, z)" "s \<le> e" "e - s \<le> MAX_EVIDENCE_EXCERPT_BYTES"
  shows "line_begin bytes s \<le> a" "a \<le> s" "e \<le> z" "z \<le> line_finish bytes e" "z - a \<le> MAX_EVIDENCE_EXCERPT_BYTES"
proof -
  define M available L F start where d: "M = MAX_EVIDENCE_EXCERPT_BYTES" "available = M - (e - s)" "L = line_begin bytes s"
    "F = line_finish bytes e" "start = max (s - available div 2) L"
  define stop where stop: "stop = min (e + (available - (s - start))) F"
  have "(a, z) = (if stop - start < M then max (stop - M) L else start, stop)"
    unfolding assms(1) [symmetric] context_bounds_def Let_def d stop by (rule refl)
  then have r: "z = stop" "a = (if stop - start < M then max (stop - M) L else start)" by (simp_all only: prod.inject)
  have b: "L \<le> s" "e \<le> F" "e - s \<le> M" using line_begin_bound line_finish_bound(1) assms(3) by (simp_all add: d)
  have st: "L \<le> start" "start \<le> s" "s - start \<le> available" using b(1) by (auto simp: d(5))
  have sp: "e \<le> stop" "stop \<le> F" "stop \<le> e + (available - (s - start))" using b(2) by (auto simp: stop)
  have m: "available + (e - s) = M" using b(3) by (simp add: d(2))
  have "stop - M \<le> s" using sp(3) m assms(2) by linarith
  then show "line_begin bytes s \<le> a" "a \<le> s" using st b(1) by (auto simp: r d(3))
  show "e \<le> z" "z \<le> line_finish bytes e" using sp by (simp_all add: r d(4))
  have "stop - start \<le> M" using sp(3) st m assms(2) by linarith
  then show "z - a \<le> MAX_EVIDENCE_EXCERPT_BYTES" by (auto simp: r d(1))
qed

text \<open>What an occurrence quotes of a source.\<close>

definition context_exact :: "string \<Rightarrow> ByteRange \<Rightarrow> string \<Rightarrow> ByteRange \<Rightarrow> LineRange \<Rightarrow> bool" where
  "context_exact bytes r context cr lr \<longleftrightarrow>
     br_start cr \<le> br_start r \<and> br_start r \<le> br_end r \<and> br_end r \<le> br_end cr \<and> br_end cr \<le> length bytes \<and>
     context = byte_slice bytes (br_start cr) (br_end cr) \<and> length context \<le> MAX_EVIDENCE_EXCERPT_BYTES \<and>
     newline \<notin> set (byte_slice bytes (br_start cr) (br_start r)) \<and> newline \<notin> set (byte_slice bytes (br_end r) (br_end cr)) \<and>
     (lr_start lr, lr_end lr) = byte_line_range bytes (br_start cr) (br_end cr)"

lemma source_context_exact:
  assumes "source_context utf8 bytes s e = Some (context, cr, lr)" "br_start r = s" "br_end r = e"
  shows "context_exact bytes r context cr lr"
proof -
  have se: "s \<le> e" "e \<le> length bytes" "e - s \<le> MAX_EVIDENCE_EXCERPT_BYTES"
    using assms(1) by (auto simp: source_context_def split: if_splits)
  obtain a z where az: "context_bounds bytes s e = (a, z)" by fastforce
  note bounds = context_bounds_ok [OF az se(1,3)]
  let ?a = "skip_forward bytes s a" and ?z = "skip_back bytes e z"
  have a: "a \<le> ?a" "?a \<le> s" using skip_forward_bounds [OF bounds(2)] by auto
  have z: "e \<le> ?z" "?z \<le> z" using skip_back_bounds [OF bounds(3)] by auto
  have c: "context = byte_slice bytes ?a ?z" "br_start cr = ?a" "br_end cr = ?z"
    "(lr_start lr, lr_end lr) = byte_line_range bytes ?a ?z"
    using assms(1) az by (auto simp: source_context_def Let_def split: if_splits prod.splits)
  have "newline \<notin> set (byte_slice bytes ?a s)" using newline_before [of bytes s ?a] bounds(1) a(1) se by simp
  moreover have "newline \<notin> set (byte_slice bytes e ?z)" using newline_after [of ?z bytes e] bounds(4) z(2) by simp
  moreover have "?z \<le> length bytes" using line_finish_bound(2) [OF se(2)] bounds(4) z(2) by simp
  moreover have "length context \<le> MAX_EVIDENCE_EXCERPT_BYTES" using bounds(5) a z by (simp add: c(1) byte_slice_def)
  ultimately show ?thesis using a z c(2-4) se assms(2,3) unfolding c(1) by (simp add: context_exact_def)
qed

section \<open>The artifact quotes the capture\<close>

definition occurrence_exact :: "(string \<Rightarrow> string) \<Rightarrow> CapturedSource \<Rightarrow> CodeOccurrence \<Rightarrow> bool" where
  "occurrence_exact B source occ \<longleftrightarrow>
     co_path occ = cp_path source \<and> co_source_digest_hex occ = B (cp_bytes source) \<and>
     co_excerpt occ = byte_slice (cp_bytes source) (br_start (co_byte_range occ)) (br_end (co_byte_range occ)) \<and>
     context_exact (cp_bytes source) (co_byte_range occ) (co_context occ) (co_context_byte_range occ) (co_context_line_range occ)"

definition builder_ok :: "(CodeOccurrence \<Rightarrow> bool) \<Rightarrow> CodeIndexLimits \<Rightarrow> ArtifactBuilder \<Rightarrow> bool" where
  "builder_ok P limits b \<longleftrightarrow>
     ab_limits b = limits \<and> length (ab_occurrences b) \<le> xl_max_occurrences limits \<and> length (ab_gaps b) \<le> MAX_GAPS \<and>
     (\<forall>occ \<in> set (ab_occurrences b). P occ) \<and>
     (ab_quality b = Precise \<longrightarrow> (\<exists>occ \<in> set (ab_occurrences b). co_analysis_quality occ = Precise))"

lemma builder_ok_new: "length (cov_gaps coverage) \<le> MAX_GAPS \<Longrightarrow> builder_ok P limits (builder_new limits coverage)"
  by (simp add: builder_ok_def builder_new_def)

lemma builder_ok_gap [simp]: "builder_ok P limits b \<Longrightarrow> builder_ok P limits (builder_gap path kind b)"
  by (auto simp: builder_ok_def builder_gap_def Let_def)

lemma builder_ok_truncated [simp]: "builder_ok P limits (b\<lparr>ab_truncated := t\<rparr>) = builder_ok P limits b"
  by (simp add: builder_ok_def)

lemma builder_ok_examined [simp]: "builder_ok P limits (examined b) = builder_ok P limits b"
  by (simp add: builder_ok_def examined_def)

lemma builder_push_ok:
  assumes "builder_push occ b = (r, b')" "builder_ok P limits b" "P occ"
  shows "builder_ok P limits b'"
proof (cases "xl_max_occurrences (ab_limits b) \<le> length (ab_occurrences b)")
  case True
  then show ?thesis using assms(1,2) by (auto simp: builder_push_def)
next
  case False
  then have "b' = b\<lparr>ab_occurrences := ab_occurrences b @ [occ]\<rparr>" using assms(1) by (auto simp: builder_push_def)
  then show ?thesis using assms(2,3) False by (auto simp: builder_ok_def)
qed

lemma lexical_occurrence_exact:
  assumes "lexical_occurrence B utf8 source name s e = Some occ" "name = byte_slice (cp_bytes source) s e"
  shows "occurrence_exact B source occ"
  using assms source_context_exact
  by (auto simp: lexical_occurrence_def Let_def occurrence_exact_def split: prod.splits)

lemma lexical_loop_ok:
  assumes "\<And>occ. occurrence_exact B source occ \<Longrightarrow> P occ" "rest = drop offset (cp_bytes source)" "builder_ok P limits b"
  shows "builder_ok P limits (lexical_loop B utf8 source offset rest names b)"
  using assms
proof (induction B utf8 source offset rest names b rule: lexical_loop.induct)
  case (2 B utf8 source offset c rest names b)
  let ?name = "c # takeWhile identifier_continue rest" and ?rest = "dropWhile identifier_continue rest"
  let ?stop = "offset + length ?name"
  have step: "rest = drop (Suc offset) (cp_bytes source)" by (metis "2.prems"(2) drop_Suc list.sel(3) tl_drop)
  then have skip: "?rest = drop ?stop (cp_bytes source)" by (simp add: dropWhile_eq_drop add.commute)
  have "?name = take (length ?name) (c # rest)" by (simp flip: takeWhile_eq_take)
  then have name: "?name = byte_slice (cp_bytes source) offset ?stop"
    by (metis byte_slice_def "2.prems"(2) add_diff_cancel_left')
  consider "\<not> identifier_start c"
    | "identifier_start c" "\<not> utf8 ?name \<or> length ?name < 3 \<or> to_ascii_lowercase ?name \<in> set names"
    | "identifier_start c" "utf8 ?name" "3 \<le> length ?name" "to_ascii_lowercase ?name \<notin> set names"
        "MAX_LEXICAL_OCCURRENCES_PER_SOURCE < Suc (length names)"
    | "identifier_start c" "utf8 ?name" "3 \<le> length ?name" "to_ascii_lowercase ?name \<notin> set names"
        "\<not> MAX_LEXICAL_OCCURRENCES_PER_SOURCE < Suc (length names)" by linarith
  then show ?case
  proof cases
    case 1
    then show ?thesis using "2.IH"(1) "2.prems"(1,3) step by simp
  next
    case 2
    then show ?thesis using "2.IH"(2) [of ?name ?stop ?rest "to_ascii_lowercase ?name"] "2.prems"(1,3) skip
      by (auto simp: Let_def)
  next
    case 3
    then show ?thesis using "2.prems"(3) by (simp add: Let_def)
  next
    case 4
    show ?thesis
    proof (cases "lexical_occurrence B utf8 source ?name offset ?stop")
      case None
      then show ?thesis using 4 "2.IH"(3) [of ?name ?stop ?rest "to_ascii_lowercase ?name"] "2.prems"(1,3) skip
        by (simp add: Let_def)
    next
      case (Some occ)
      obtain r b' where push: "builder_push occ b = (r, b')" by fastforce
      have ok: "builder_ok P limits b'"
        using builder_push_ok [OF push "2.prems"(3)] "2.prems"(1) lexical_occurrence_exact [OF Some name] by blast
      show ?thesis
      proof (cases r)
        case True
        show ?thesis
          using 4 Some push True "2.IH"(4) [of ?name ?stop ?rest "to_ascii_lowercase ?name" occ True b']  "2.prems"(1) ok skip
          by (simp add: Let_def)
      next
        case False
        then show ?thesis using 4 Some push ok by (simp add: Let_def)
      qed
    qed
  qed
qed simp

lemma analyze_lexical_ok:
  "(\<And>occ. occurrence_exact B source occ \<Longrightarrow> P occ) \<Longrightarrow> builder_ok P limits b \<Longrightarrow>
   builder_ok P limits (analyze_lexical B utf8 source b)"
  by (simp add: analyze_lexical_def lexical_loop_ok)

lemma tag_occurrence_exact:
  assumes "tag_occurrence B contract analyzer source role kind node ctx = Inr occ"
    and "source_context utf8 (cp_bytes source) (nd_start node) (nd_end node) = Some ctx"
  shows "occurrence_exact B source occ"
proof -
  obtain x cr lr where ctx: "ctx = (x, cr, lr)" by (cases ctx)
  show ?thesis
    using assms(1) source_context_exact [OF assms(2) [unfolded ctx], of "co_byte_range occ"]
    by (auto simp: tag_occurrence_def Let_def res_bind_eq_Inr map_sum_eq_Inr byte_range_new_def occurrence_exact_def ctx
        split: if_splits)
qed

lemma tag_loop_ok:
  assumes "\<And>occ. occurrence_exact B source occ \<Longrightarrow> P occ"
  shows "tag_loop B contract utf8 analyzer source ms b = Inr b' \<Longrightarrow> builder_ok P limits b \<Longrightarrow> builder_ok P limits b'"
proof (induction ms arbitrary: b)
  case (Cons captures rest)
  let ?gap = "builder_gap (Some (cp_path source)) UnsupportedEncoding b"
  let ?text = "\<lambda>node. byte_slice (cp_bytes source) (nd_start node) (nd_end node)"
  let ?ctx = "\<lambda>node. source_context utf8 (cp_bytes source) (nd_start node) (nd_end node)"
  show ?case
  proof (cases "\<exists>role kind node ctx. match_role captures = Some (role, kind) \<and> map_of captures ''name'' = Some node \<and>
      utf8 (?text node) \<and> ?ctx node = Some ctx")
    case False
    then have "tag_loop B contract utf8 analyzer source rest b = Inr b' \<or> tag_loop B contract utf8 analyzer source rest ?gap = Inr b'"
      using Cons.prems(1) by (auto simp: Let_def split: option.splits prod.splits if_splits)
    then show ?thesis using Cons.IH Cons.prems(2) by auto
  next
    case True
    then obtain role kind node ctx where c: "match_role captures = Some (role, kind)" "map_of captures ''name'' = Some node"
      "utf8 (?text node)" "?ctx node = Some ctx" by blast
    then obtain occ where o: "tag_occurrence B contract analyzer source role kind node ctx = Inr occ"
      "(case builder_push occ b of (False, b) \<Rightarrow> Inr b | (True, b) \<Rightarrow> tag_loop B contract utf8 analyzer source rest b) = Inr b'"
      using Cons.prems(1) by (simp add: Let_def res_bind_eq_Inr) blast
    obtain r b1 where push: "builder_push occ b = (r, b1)" by fastforce
    have "builder_ok P limits b1"
      by (rule builder_push_ok [OF push Cons.prems(2)]) (rule assms, rule tag_occurrence_exact [OF o(1) c(4)])
    then show ?thesis using o(2) push Cons.IH by (cases r) auto
  qed
qed simp

lemma analyze_rust_ok:
  assumes "\<And>occ. occurrence_exact B source occ \<Longrightarrow> P occ"
    and "analyze_rust B contract utf8 g source b = Inr (parsed, b')" "builder_ok P limits b"
  shows "builder_ok P limits b'"
  using assms(2,3) tag_loop_ok [OF assms(1)]
  by (auto simp: analyze_rust_def collect_rust_tags_def Let_def res_bind_eq_Inr split: option.splits if_splits)

lemma fallback_source_ok:
  assumes "\<And>occ. occurrence_exact B source occ \<Longrightarrow> P occ"
    and "fallback_source B contract utf8 grammar source (b, us, ul) = Inr (b', us', ul')" "builder_ok P limits b"
  shows "builder_ok P limits b'"
proof -
  note lexical = analyze_lexical_ok [OF assms(1)]
  note rust = analyze_rust_ok [OF assms(1)]
  show ?thesis
    using assms(2,3) lexical rust
    by (auto simp: fallback_source_def Let_def res_bind_eq_Inr split: option.splits if_splits prod.splits)
qed

lemma fallback_loop_ok:
  assumes "\<And>source occ. source \<in> S \<Longrightarrow> occurrence_exact B source occ \<Longrightarrow> P occ"
  shows "fallback_loop B contract utf8 grammar late indexed sources s = Inr s' \<Longrightarrow> set sources \<subseteq> S \<Longrightarrow>
    builder_ok P limits (fst s) \<Longrightarrow> builder_ok P limits (fst s')"
proof (induction sources arbitrary: s)
  case (Cons source rest)
  obtain b us ul where s: "s = (b, us, ul)" by (cases s)
  from Cons.prems(1) consider "fallback_loop B contract utf8 grammar late indexed rest s = Inr s'"
    | "s' = (builder_gap None BudgetExceeded (b\<lparr>ab_truncated := True\<rparr>), us, ul)"
    | b1 us1 ul1 where "fallback_source B contract utf8 grammar source (b, us, ul) = Inr (b1, us1, ul1)"
        "fallback_loop B contract utf8 grammar late indexed rest (b1, us1, ul1) = Inr s'"
    by (auto simp: s res_bind_eq_Inr split: if_splits)
  then show ?case
  proof cases
    case 1
    then show ?thesis using Cons by simp
  next
    case 2
    then show ?thesis using Cons.prems(3) by (simp add: s)
  next
    case 3
    have "builder_ok P limits b1"
      by (rule fallback_source_ok [OF _ 3(1)]) (use assms Cons.prems(2,3) s in auto)
    then show ?thesis using Cons.IH [OF 3(2)] Cons.prems(2) by simp
  qed
qed simp

lemma scip_row_exact:
  assumes "scip_row_of B utf8 analyzer path source o' = ScipRow occ" "cp_path source = path"
  shows "occurrence_exact B source occ \<and> co_analysis_quality occ = Precise"
proof -
  obtain r lines x cr lr where
    "source_context utf8 (cp_bytes source) (br_start r) (br_end r) = Some (x, cr, lr)"
    "co_byte_range occ = r" "co_excerpt occ = byte_slice (cp_bytes source) (br_start r) (br_end r)" "co_path occ = path"
    "co_source_digest_hex occ = B (cp_bytes source)" "co_context occ = x" "co_context_byte_range occ = cr"
    "co_context_line_range occ = lr" "co_analysis_quality occ = Precise"
    using assms(1) by (auto simp: scip_row_of_def Let_def split: if_splits option.splits prod.splits)
  note r = this
  have "context_exact (cp_bytes source) (co_byte_range occ) (co_context occ) (co_context_byte_range occ) (co_context_line_range occ)"
    unfolding r(2,6,7,8) by (rule source_context_exact [OF r(1) refl refl])
  then show ?thesis using r(2-5,9) assms(2) by (simp add: occurrence_exact_def)
qed

lemma import_rows_ok:
  "(\<And>occ. ScipRow occ \<in> set rows \<Longrightarrow> P occ) \<Longrightarrow> builder_ok P limits b \<Longrightarrow> builder_ok P limits (import_scip_document path rows b)"
proof (induction path rows b rule: import_scip_document.induct)
  case (4 path occ rows b)
  obtain r b1 where push: "builder_push occ b = (r, b1)" by fastforce
  have "builder_ok P limits b1" using builder_push_ok [OF push "4.prems"(2)] "4.prems"(1) by simp
  then show ?case using 4 push by (cases r) auto
qed auto

lemma import_document_ok:
  assumes "\<And>source occ. source \<in> set sources \<Longrightarrow> occurrence_exact B source occ \<Longrightarrow> co_analysis_quality occ = Precise \<Longrightarrow> P occ"
    and "builder_ok P limits (fst s)"
  shows "builder_ok P limits (fst (import_document B utf8 analyzer (source_map sources) document s))"
proof (cases "bt_get (source_map sources) (dm_relative_path document)")
  case None
  then show ?thesis using assms(2) by (cases s) (simp add: import_document_def Let_def)
next
  case (Some source)
  have "source \<in> set sources \<and> cp_path source = dm_relative_path document"
    by (rule captured_map_get [OF Some [unfolded source_map_def]])
  then have row: "P occ" if "scip_row_of B utf8 analyzer (dm_relative_path document) source o' = ScipRow occ" for o' occ
    using scip_row_exact [OF that] assms(1) by blast
  have "builder_ok P limits (import_scip_document path (map (scip_row_of B utf8 analyzer (dm_relative_path document) source) os) b)"
    if "builder_ok P limits b" for b path os
  proof (rule import_rows_ok [OF _ that])
    fix occ
    assume "ScipRow occ \<in> set (map (scip_row_of B utf8 analyzer (dm_relative_path document) source) os)"
    then obtain o' where "ScipRow occ = scip_row_of B utf8 analyzer (dm_relative_path document) source o'" by auto
    then show "P occ" using row by metis
  qed
  then show ?thesis using assms(2) Some by (cases s) (simp add: import_document_def Let_def)
qed

lemma import_documents_ok:
  assumes "\<And>source occ. source \<in> set sources \<Longrightarrow> occurrence_exact B source occ \<Longrightarrow> co_analysis_quality occ = Precise \<Longrightarrow> P occ"
  shows "builder_ok P limits (fst s) \<Longrightarrow> builder_ok P limits (fst (fold (import_document B utf8 analyzer (source_map sources)) documents s))"
proof (induction documents arbitrary: s)
  case (Cons document documents)
  then show ?case using import_document_ok [of sources B P limits s utf8 analyzer document] assms by simp
qed simp

lemma builder_ok_mono: "builder_ok P limits b \<Longrightarrow> (\<And>occ. P occ \<Longrightarrow> Q occ) \<Longrightarrow> builder_ok Q limits b"
  by (auto simp: builder_ok_def)

lemma import_scip_ok:
  assumes "\<And>source occ. source \<in> set sources \<Longrightarrow> occurrence_exact B source occ \<Longrightarrow> co_analysis_quality occ = Precise \<Longrightarrow> P occ"
    and "import_scip B utf8 parse bytes (source_map sources) b = Inr (analyzer, b', indexed)" "builder_ok P limits b"
  shows "builder_ok P limits b'"
proof -
  obtain index where i: "map_sum (source_error ''index.scip'') id (parse bytes) = Inr index"
    using assms(2) by (auto simp: import_scip_def res_bind_eq_Inr)
  obtain b1 i1 where f: "fold (import_document B utf8 (scip_analyzer_fingerprint index) (source_map sources))
      (take (xl_max_documents (ab_limits b)) (si_documents index)) (b, {}) = (b1, i1)" by fastforce
  have "builder_ok P limits b1"
    using import_documents_ok [of sources B P limits "(b, {})"] assms(1,3) f by (metis fst_conv)
  then show ?thesis using assms(2) i f by (auto simp: import_scip_def Let_def split: if_splits)
qed

lemma build_scip_ok:
  assumes "build_scip t cap scip_bytes (builder_new limits coverage) = Inr (parts, b, indexed)" "length (cov_gaps coverage) \<le> MAX_GAPS"
  shows "builder_ok (\<lambda>occ. \<exists>source \<in> set (gt_sources cap). occurrence_exact (it_hash t) source occ) limits b"
proof -
  let ?P = "\<lambda>occ. \<exists>source \<in> set (gt_sources cap). occurrence_exact (it_hash t) source occ"
  let ?Q = "\<lambda>occ. ?P occ \<and> co_analysis_quality occ = Precise"
  let ?new = "builder_new limits coverage"
  have new: "builder_ok R limits ?new" for R using assms(2) by (rule builder_ok_new)
  show ?thesis
  proof (cases scip_bytes)
    case None
    then show ?thesis using assms(1) new by (simp add: build_scip_def)
  next
    case (Some bytes)
    then obtain analyzer b1 i where
        i: "import_scip (it_hash t) (it_utf8 t) (it_parse_scip t) bytes (source_map (gt_sources cap)) ?new = Inr (analyzer, b1, i)"
      and b: "b = (if ab_occurrences b1 \<noteq> [] then b1\<lparr>ab_format := FmtScip, ab_quality := Precise\<rparr> else b1)"
      using assms(1) by (auto simp: build_scip_def res_bind_eq_Inr builder_new_def)
    have "builder_ok ?Q limits b1" by (rule import_scip_ok [OF _ i new]) blast
    then have "builder_ok ?Q limits b" using b by (cases "ab_occurrences b1") (auto simp: builder_ok_def)
    then show ?thesis by (rule builder_ok_mono) blast
  qed
qed

lemma build_state:
  assumes "build t cap scip_bytes limits = Inr p" "length (cov_gaps (gt_coverage cap)) \<le> MAX_GAPS"
  obtains parts b where "finish_artifact t cap parts b = Inr p"
    "builder_ok (\<lambda>occ. \<exists>source \<in> set (gt_sources cap). occurrence_exact (it_hash t) source occ) limits b"
proof -
  let ?P = "\<lambda>occ. \<exists>source \<in> set (gt_sources cap). occurrence_exact (it_hash t) source occ"
  obtain parts b indexed fallback b1 where
      s: "build_scip t cap scip_bytes (builder_new limits (gt_coverage cap)) = Inr (parts, b, indexed)"
    and f: "analyze_fallbacks (it_hash t) (it_contract t) (it_utf8 t) (it_grammar t) (it_late t) (gt_sources cap) indexed b =
        Inr (fallback, b1)"
    and p: "finish_artifact t cap (if fallback = [] then parts else parts @ [fallback]) b1 = Inr p"
    using assms(1) by (auto simp: build_def res_bind_eq_Inr)
  obtain b2 us ul where l: "fallback_loop (it_hash t) (it_contract t) (it_utf8 t) (it_grammar t) (it_late t) indexed
      (gt_sources cap) (b, False, False) = Inr (b2, us, ul)"
    and b1: "b1 = b2 \<or> b1 = b2\<lparr>ab_quality := Syntactic, ab_format := FmtSyntax\<rparr>"
    using f by (auto simp: analyze_fallbacks_def Let_def res_bind_eq_Inr split: if_splits)
  have "builder_ok ?P limits b2"
    using fallback_loop_ok [OF _ l, of "set (gt_sources cap)" ?P limits] build_scip_ok [OF s assms(2)] by auto
  then have "builder_ok ?P limits b1" using b1 by (auto simp: builder_ok_def)
  then show thesis using that p by blast
qed

lemma sorted_map_dedup: "sorted (map f xs) \<Longrightarrow> sorted (map f (remdups_adj xs))"
  by (induction xs rule: remdups_adj.induct) auto

lemma finish_fields:
  assumes "finish_artifact t cap parts b = Inr p"
  shows "art_occurrences (px_artifact p) = remdups_adj (sort_key code_occurrence_order (ab_occurrences b))"
    "art_snapshot_id (px_artifact p) = gt_snapshot_id cap"
    "art_coverage (px_artifact p) = \<lparr>cov_analysis_quality = ab_quality b, cov_sources_examined = ab_sources_examined b,
       cov_occurrences = length (art_occurrences (px_artifact p)), cov_truncated = ab_truncated b, cov_gaps = ab_gaps b\<rparr>"
    "it_encode_artifact t (px_artifact p) = Inr (px_bytes p)" "art_schema (px_artifact p) = ARTIFACT_SCHEMA"
    "px_artifact_digest_hex p = it_hash t (px_bytes p)"
  using assms by (auto simp: finish_artifact_def Let_def res_bind_eq_Inr map_sum_eq_Inr)

lemma built_exact:
  assumes "build t cap scip_bytes limits = Inr p" "length (cov_gaps (gt_coverage cap)) \<le> MAX_GAPS"
    and "occ \<in> set (art_occurrences (px_artifact p))"
  shows "\<exists>source \<in> set (gt_sources cap). occurrence_exact (it_hash t) source occ"
proof -
  obtain parts b where f: "finish_artifact t cap parts b = Inr p" and
    ok: "builder_ok (\<lambda>occ. \<exists>source \<in> set (gt_sources cap). occurrence_exact (it_hash t) source occ) limits b"
    using build_state [OF assms(1,2)] by blast
  then show ?thesis using assms(3) by (simp add: finish_fields(1) [OF f] builder_ok_def)
qed

text \<open>The codec reads back what it wrote.\<close>

definition decodes :: "index_tools \<Rightarrow> CodeIndexArtifact \<Rightarrow> bool" where
  "decodes t a \<longleftrightarrow> (\<forall>bytes. it_encode_artifact t a = Inr bytes \<longrightarrow> it_decode_artifact t bytes = Inr a)"

lemma persisted_loads:
  assumes "build t cap scip_bytes limits = Inr p" "decodes t (px_artifact p)"
  shows "load t (snd (persist root p files)) root (art_index_id (px_artifact p)) (px_artifact_digest_hex p) = Inr (Some (px_artifact p))"
proof -
  obtain parts b where f: "finish_artifact t cap parts b = Inr p" using assms(1) by (auto simp: build_def res_bind_eq_Inr)
  show ?thesis
    using finish_fields(4-6) [OF f] assms(2) by (simp add: load_def persist_def Let_def decodes_def)
qed

text \<open>
  C21: The code index quotes the capture.  Every occurrence of a built artifact belongs to a captured source
  with its digest; its excerpt is the bytes at its range, and its context is a bounded slice of the source
  around it that adds no other line.  The occurrences are in order, within the limit and counted by the
  coverage, which lists at most 256 gaps; and precise analysis is claimed only when a precise occurrence is
  in the artifact.
\<close>

theorem code_index_exact:
  assumes "build t cap scip_bytes limits = Inr p" "length (cov_gaps (gt_coverage cap)) \<le> MAX_GAPS"
  shows "(\<forall>occ \<in> set (art_occurrences (px_artifact p)).
        \<exists>source \<in> set (gt_sources cap). occurrence_exact (it_hash t) source occ) \<and>
    sorted (map code_occurrence_order (art_occurrences (px_artifact p))) \<and>
    length (art_occurrences (px_artifact p)) \<le> xl_max_occurrences limits \<and>
    art_snapshot_id (px_artifact p) = gt_snapshot_id cap \<and>
    (let coverage = art_coverage (px_artifact p) in
       cov_occurrences coverage = length (art_occurrences (px_artifact p)) \<and> length (cov_gaps coverage) \<le> MAX_GAPS \<and>
       (cov_analysis_quality coverage = Precise \<longrightarrow>
          (\<exists>occ \<in> set (art_occurrences (px_artifact p)). co_analysis_quality occ = Precise)))"
proof -
  obtain parts b where f: "finish_artifact t cap parts b = Inr p" and
    ok: "builder_ok (\<lambda>occ. \<exists>source \<in> set (gt_sources cap). occurrence_exact (it_hash t) source occ) limits b"
    using build_state [OF assms] by blast
  let ?occs = "remdups_adj (sort_key code_occurrence_order (ab_occurrences b))"
  note a = finish_fields(1-3) [OF f]
  have "sorted (map code_occurrence_order ?occs)" by (rule sorted_map_dedup) simp
  moreover have "length ?occs \<le> xl_max_occurrences limits"
    using remdups_adj_length [of "sort_key code_occurrence_order (ab_occurrences b)"] ok by (simp add: builder_ok_def)
  ultimately show ?thesis using ok by (simp add: a builder_ok_def Let_def)
qed

section \<open>Persisted artifacts\<close>

text \<open>
  A persisted index reads back.  Loading the artifact a build persisted, under its own identity and
  digest, gives that artifact, whatever else was in the file system; and any other bytes at its path with a
  different digest are refused.
\<close>

theorem code_index_roundtrip:
  assumes "build t cap scip_bytes limits = Inr p"
    and "decodes t (px_artifact p)"
  shows "load t (snd (persist root p files)) root (art_index_id (px_artifact p)) (px_artifact_digest_hex p) = Inr (Some (px_artifact p)) \<and>
    (\<forall>bytes. it_hash t bytes \<noteq> px_artifact_digest_hex p \<longrightarrow>
       load t (files(artifact_path root (art_index_id (px_artifact p)) \<mapsto> bytes)) root (art_index_id (px_artifact p))
         (px_artifact_digest_hex p) =
       Inl (source_error (artifact_path root (art_index_id (px_artifact p))) ''code-index artifact digest mismatch''))"
  using persisted_loads [OF assms] by (simp add: load_def)

text \<open>
  C22: The identity of an index does not cover its coverage.  Two builds with the same occurrences and
  analyzers have the same identity, so they share one path: once the second is persisted, an index recorded
  with the digest of the first can no longer be loaded, even though the identity is meant to follow what is
  on disk.
\<close>

theorem index_identity_ignores_coverage:
  assumes "build t cap scip1 l1 = Inr p1" "build t cap scip2 l2 = Inr p2"
    and "art_occurrences (px_artifact p1) = art_occurrences (px_artifact p2)"
    and "art_analyzer_fingerprint (px_artifact p1) = art_analyzer_fingerprint (px_artifact p2)"
    and "px_artifact_digest_hex p1 \<noteq> px_artifact_digest_hex p2"
  shows "art_index_id (px_artifact p1) = art_index_id (px_artifact p2) \<and>
    load t (snd (persist root p2 (snd (persist root p1 files)))) root (art_index_id (px_artifact p1)) (px_artifact_digest_hex p1) =
      Inl (source_error (artifact_path root (art_index_id (px_artifact p1))) ''code-index artifact digest mismatch'')"
proof -
  have fields: "\<exists>material. it_encode_occurrences t (art_occurrences (px_artifact p)) = Inr material \<and>
      art_index_id (px_artifact p) = occurrence_identity t cap material (art_analyzer_fingerprint (px_artifact p)) \<and>
      px_artifact_digest_hex p = it_hash t (px_bytes p)"
    if "build t cap scip l = Inr p" for scip l p
    using that by (auto simp: build_def finish_artifact_def Let_def res_bind_eq_Inr map_sum_eq_Inr)
  obtain m1 where m1: "it_encode_occurrences t (art_occurrences (px_artifact p1)) = Inr m1"
    "art_index_id (px_artifact p1) = occurrence_identity t cap m1 (art_analyzer_fingerprint (px_artifact p1))"
    using fields [OF assms(1)] by blast
  obtain m2 where m2: "it_encode_occurrences t (art_occurrences (px_artifact p2)) = Inr m2"
    "art_index_id (px_artifact p2) = occurrence_identity t cap m2 (art_analyzer_fingerprint (px_artifact p2))"
    "px_artifact_digest_hex p2 = it_hash t (px_bytes p2)"
    using fields [OF assms(2)] by blast
  have "m1 = m2" using m1(1) m2(1) assms(3) by simp
  then have same: "art_index_id (px_artifact p1) = art_index_id (px_artifact p2)" using m1(2) m2(2) assms(4) by simp
  then show ?thesis using assms(5) m2(3) by (simp add: load_def persist_def Let_def)
qed

section \<open>Lexical discovery is complete\<close>

text \<open>The identifiers of a text: its maximal runs of identifier bytes, without leading digits.\<close>

fun runs :: "string \<Rightarrow> string list" where
  "runs [] = [[]]"
| "runs (c # cs) = (if identifier_continue c then (c # hd (runs cs)) # tl (runs cs) else [] # runs cs)"

definition identifiers :: "string \<Rightarrow> string list" where
  "identifiers bytes = filter (\<lambda>w. w \<noteq> []) (map (dropWhile is_digit) (runs bytes))"

text \<open>The first spelling of every name, compared without case.\<close>

fun first_spellings :: "string list \<Rightarrow> string list \<Rightarrow> string list" where
  "first_spellings seen [] = []"
| "first_spellings seen (w # ws) =
     (if to_ascii_lowercase w \<in> set seen then first_spellings seen ws
      else w # first_spellings (to_ascii_lowercase w # seen) ws)"

definition long_names :: "string \<Rightarrow> string list" where
  "long_names bytes = filter (\<lambda>w. 3 \<le> length w) (identifiers bytes)"

lemma runs_head: "runs cs = takeWhile identifier_continue cs # tl (runs (dropWhile identifier_continue cs))"
proof (induction cs)
  case (Cons c cs)
  show ?case
  proof (cases "identifier_continue c")
    case True
    then show ?thesis using Cons by (metis dropWhile.simps(2) list.sel(1,3) runs.simps(2) takeWhile.simps(2))
  qed (cases "runs cs", simp_all)
qed simp

lemma start_continue: "identifier_start c \<Longrightarrow> identifier_continue c \<and> \<not> is_digit c"
proof -
  have "code (CHR ''_'') = 95" by code_simp
  then show "identifier_start c \<Longrightarrow> ?thesis"
    by (auto simp: identifier_start_def identifier_continue_def is_digit_def is_lower_def is_upper_def)
qed

lemma identifiers_skip:
  assumes "\<not> identifier_start c"
  shows "identifiers (c # cs) = identifiers cs"
proof -
  obtain w ws where r: "runs cs = w # ws" using runs_head by blast
  have "identifier_continue c = is_digit c" using assms by (simp add: identifier_continue_def)
  then show ?thesis by (cases "is_digit c") (simp_all add: identifiers_def r)
qed

lemma tail_runs: "runs (dropWhile identifier_continue cs) = [] # tl (runs (dropWhile identifier_continue cs))"
proof (cases "dropWhile identifier_continue cs")
  case (Cons a as)
  then have "\<not> identifier_continue a" by (metis dropWhile_eq_Cons_conv)
  then show ?thesis by (simp add: Cons)
next
  case Nil
  show ?thesis unfolding Nil by simp
qed

lemma identifiers_name:
  assumes "identifier_start c"
  shows "identifiers (c # cs) =
    (c # takeWhile identifier_continue cs) # identifiers (dropWhile identifier_continue cs)"
proof -
  have "runs (c # cs) = (c # takeWhile identifier_continue cs) # tl (runs (dropWhile identifier_continue cs))"
    using start_continue [OF assms] runs_head [of cs] by simp
  moreover have "identifiers (dropWhile identifier_continue cs) =
      filter (\<lambda>w. w \<noteq> []) (map (dropWhile is_digit) (tl (runs (dropWhile identifier_continue cs))))"
    unfolding identifiers_def by (subst tail_runs) simp
  ultimately show ?thesis using start_continue [OF assms] by (simp add: identifiers_def)
qed

lemma long_names_skip: "\<not> identifier_start c \<Longrightarrow> long_names (c # cs) = long_names cs"
  by (simp add: long_names_def identifiers_skip)

lemma long_names_name:
  "identifier_start c \<Longrightarrow> long_names (c # cs) =
     (let name = c # takeWhile identifier_continue cs; rest = long_names (dropWhile identifier_continue cs)
      in if 3 \<le> length name then name # rest else rest)"
  by (simp add: long_names_def identifiers_name Let_def)

definition ascii :: "string \<Rightarrow> bool" where
  "ascii bytes \<longleftrightarrow> (\<forall>c \<in> set bytes. code c < 128)"

text \<open>The UTF-8 check accepts ASCII.\<close>

definition accepts_ascii :: "(string \<Rightarrow> bool) \<Rightarrow> bool" where
  "accepts_ascii utf8 \<longleftrightarrow> (\<forall>bytes. ascii bytes \<longrightarrow> utf8 bytes)"

lemma lexical_occurrence_ascii:
  assumes "accepts_ascii utf8" "ascii (cp_bytes source)"
    and "s \<le> e" "e \<le> length (cp_bytes source)" "e - s \<le> MAX_EVIDENCE_EXCERPT_BYTES"
  shows "\<exists>occ. lexical_occurrence B utf8 source name s e = Some occ \<and> co_display_name occ = name"
proof -
  let ?bytes = "cp_bytes source"
  have u: "utf8 (byte_slice ?bytes a z)" for a z
  proof -
    have "set (byte_slice ?bytes a z) \<subseteq> set ?bytes"
      unfolding byte_slice_def using set_take_subset set_drop_subset by fast
    then show ?thesis using assms(1,2) by (auto simp: accepts_ascii_def ascii_def)
  qed
  obtain a z where az: "context_bounds ?bytes s e = (a, z)" by fastforce
  obtain first final where l: "byte_line_range ?bytes (skip_forward ?bytes s a) (skip_back ?bytes e z) = (first, final)" by fastforce
  have "\<not> (e < s \<or> length ?bytes < e \<or> MAX_EVIDENCE_EXCERPT_BYTES < e - s)" using assms(3-5) by simp
  then have c: "source_context utf8 ?bytes s e =
      Some (byte_slice ?bytes (skip_forward ?bytes s a) (skip_back ?bytes e z),
        \<lparr>br_start = skip_forward ?bytes s a, br_end = skip_back ?bytes e z\<rparr>, \<lparr>lr_start = first, lr_end = final\<rparr>)"
    unfolding source_context_def by (simp only: az l u Let_def if_False if_True case_prod_conv)
  obtain f g where "byte_line_range ?bytes s e = (f, g)" by fastforce
  then show ?thesis using c by (simp add: lexical_occurrence_def Let_def)
qed

lemma lexical_loop_names:
  assumes "accepts_ascii utf8" "ascii (cp_bytes source)"
    and "rest = drop offset (cp_bytes source)" "\<forall>w \<in> set (long_names rest). length w \<le> MAX_EVIDENCE_EXCERPT_BYTES"
    and "length names + length (first_spellings names (long_names rest)) \<le> MAX_LEXICAL_OCCURRENCES_PER_SOURCE"
    and "length (ab_occurrences b) + length (first_spellings names (long_names rest)) \<le> xl_max_occurrences (ab_limits b)"
  shows "\<exists>occs. lexical_loop B utf8 source offset rest names b = b\<lparr>ab_occurrences := ab_occurrences b @ occs\<rparr> \<and>
    map co_display_name occs = first_spellings names (long_names rest)"
  using assms
proof (induction B utf8 source offset rest names b rule: lexical_loop.induct)
  case (1 B utf8 source offset names b)
  then show ?case by (simp add: long_names_def identifiers_def)
next
  case (2 B utf8 source offset c rest names b)
  let ?name = "c # takeWhile identifier_continue rest" and ?rest = "dropWhile identifier_continue rest"
  let ?stop = "offset + length ?name" and ?key = "to_ascii_lowercase (c # takeWhile identifier_continue rest)"
  note ascii = "2.prems"(1,2)
  have step: "rest = drop (Suc offset) (cp_bytes source)" by (metis "2.prems"(3) drop_Suc list.sel(3) tl_drop)
  then have skip: "?rest = drop ?stop (cp_bytes source)" by (simp add: dropWhile_eq_drop add.commute)
  have "set (c # rest) \<subseteq> set (cp_bytes source)" by (metis "2.prems"(3) set_drop_subset)
  then have "set ?name \<subseteq> set (cp_bytes source)" using set_takeWhileD by fastforce
  then have "ascii ?name" using ascii(2) unfolding ascii_def by (metis subsetD)
  then have u: "utf8 ?name" using ascii(1) by (simp add: accepts_ascii_def)
  consider "\<not> identifier_start c"
    | "identifier_start c" "length ?name < 3 \<or> ?key \<in> set names"
    | "identifier_start c" "\<not> length ?name < 3" "?key \<notin> set names" by blast
  then show ?case
  proof cases
    case 1
    then show ?thesis using "2.IH"(1) [OF 1 ascii step] "2.prems"(4-6) by (simp add: long_names_skip)
  next
    case 2
    have names: "first_spellings names (long_names (c # rest)) = first_spellings names (long_names ?rest)"
      "set (long_names ?rest) \<subseteq> set (long_names (c # rest))"
      using 2 by (auto simp: long_names_name Let_def)
    have "\<exists>occs. lexical_loop B utf8 source ?stop ?rest names b = b\<lparr>ab_occurrences := ab_occurrences b @ occs\<rparr> \<and>
       map co_display_name occs = first_spellings names (long_names ?rest)"
      using 2 names "2.prems"(4-6) by (intro "2.IH"(2) [OF _ refl refl refl refl _ ascii skip]) auto
    moreover have "lexical_loop B utf8 source offset (c # rest) names b = lexical_loop B utf8 source ?stop ?rest names b"
      using 2 by (auto simp: Let_def)
    ultimately show ?thesis using names(1) by simp
  next
    case 3
    have names: "first_spellings names (long_names (c # rest)) = ?name # first_spellings (?key # names) (long_names ?rest)"
      "long_names (c # rest) = ?name # long_names ?rest"
      using 3 by (auto simp: long_names_name Let_def)
    have len: "length ?name \<le> MAX_EVIDENCE_EXCERPT_BYTES" using "2.prems"(4) names(2) by simp
    have "length (takeWhile identifier_continue rest) \<le> length rest" by (rule length_takeWhile_le)
    then have fits: "?stop \<le> length (cp_bytes source)"
      using arg_cong [OF "2.prems"(3), of length] by simp
    obtain occ where o: "lexical_occurrence B utf8 source ?name offset ?stop = Some occ" "co_display_name occ = ?name"
      using lexical_occurrence_ascii [where s = offset and e = ?stop and B = B and name = ?name, OF ascii _ fits] len by auto
    let ?b = "b\<lparr>ab_occurrences := ab_occurrences b @ [occ]\<rparr>"
    have push: "builder_push occ b = (True, ?b)" using "2.prems"(6) names(1) by (simp add: builder_push_def)
    have room: "\<not> MAX_LEXICAL_OCCURRENCES_PER_SOURCE < Suc (length names)" using "2.prems"(5) names(1) by simp
    have "\<exists>occs. lexical_loop B utf8 source ?stop ?rest (?key # names) ?b = ?b\<lparr>ab_occurrences := ab_occurrences ?b @ occs\<rparr> \<and>
       map co_display_name occs = first_spellings (?key # names) (long_names ?rest)"
      by (rule "2.IH"(4) [OF _ refl refl refl refl _ room o(1) push [symmetric] refl ascii skip])
        (use 3 u names "2.prems"(4-6) in auto)
    then obtain occs where occs: "lexical_loop B utf8 source ?stop ?rest (?key # names) ?b = ?b\<lparr>ab_occurrences := ab_occurrences ?b @ occs\<rparr>"
      "map co_display_name occs = first_spellings (?key # names) (long_names ?rest)" by blast
    have "lexical_loop B utf8 source offset (c # rest) names b = lexical_loop B utf8 source ?stop ?rest (?key # names) ?b"
      using 3 u room o(1) push by (simp add: Let_def)
    then show ?thesis using occs o(2) names(1) by (intro exI [of _ "occ # occs"]) simp
  qed
qed

text \<open>
  Lexical discovery finds every name once.  For an ASCII source within the bounds, the names indexed are
  exactly its identifiers of at least three bytes, in the first spelling of each and in the order of the
  source, where an identifier is a maximal run of letters, digits and underscores without leading digits.
\<close>

theorem lexical_discovery_exact:
  assumes "accepts_ascii utf8" "ascii (cp_bytes source)"
    and "\<forall>w \<in> set (long_names (cp_bytes source)). length w \<le> MAX_EVIDENCE_EXCERPT_BYTES"
    and "length (first_spellings [] (long_names (cp_bytes source))) \<le> MAX_LEXICAL_OCCURRENCES_PER_SOURCE"
    and "length (ab_occurrences b) + length (first_spellings [] (long_names (cp_bytes source))) \<le> xl_max_occurrences (ab_limits b)"
  shows "\<exists>occs. analyze_lexical B utf8 source b = b\<lparr>ab_occurrences := ab_occurrences b @ occs\<rparr> \<and>
    map co_display_name occs = first_spellings [] (long_names (cp_bytes source))"
  unfolding analyze_lexical_def by (rule lexical_loop_names) (use assms in auto)

section \<open>Witnesses\<close>

text \<open>
  Tools for a capture with one short ASCII file: the digest is the content itself, the SCIP parser finds one
  document that is not in the capture, and an encoded artifact shows its occurrences and whether it was
  truncated.
\<close>

definition demo_tools :: index_tools where
  "demo_tools =
     \<lparr>it_hash = id, it_contract = (\<lambda>_. []), it_utf8 = (\<lambda>_. True),
      it_parse_scip = (\<lambda>_. Inr \<lparr>si_tool = None, si_documents = [\<lparr>dm_relative_path = ''b.rs'', dm_utf8_positions = True, dm_occurrences = []\<rparr>]\<rparr>),
      it_grammar = None, it_late = (\<lambda>_. False), it_encode_occurrences = (\<lambda>occs. Inr (concat (map co_symbol occs))),
      it_encode_artifact = (\<lambda>a. Inr (if cov_truncated (art_coverage a) then ''t'' else ''f'')),
      it_decode_artifact = (\<lambda>_. Inl [])\<rparr>"

definition demo_code :: CapturedSource where
  "demo_code = \<lparr>cp_path = ''a.c'', cp_bytes = ''x = abc'', cp_blob_id = None, cp_layer = Committed\<rparr>"

definition demo_code_capture :: GitCapture where
  "demo_code_capture =
     \<lparr>gt_repository_id = RepositoryId ''r'', gt_base_commit = demo_commit ''a'', gt_base_tree = demo_commit ''t'',
      gt_index_digest_hex = [], gt_overlay_digest_hex = [], gt_snapshot_id = SourceSnapshotId ''s'', gt_dirty = False,
      gt_sources = [demo_code], gt_deleted = [],
      gt_coverage = \<lparr>cov_analysis_quality = Unavailable, cov_sources_examined = 1, cov_occurrences = 1, cov_truncated = False,
        cov_gaps = []\<rparr>\<rparr>"

definition demo_code_limits :: "nat \<Rightarrow> CodeIndexLimits" where
  "demo_code_limits n =
     \<lparr>xl_max_scip_bytes = 9, xl_max_documents = n, xl_max_occurrences = 9, xl_analysis_budget_ms = 9\<rparr>"

lemma demo_names: "long_names ''x = abc'' = [''abc'']" "first_spellings [] [''abc''] = [''abc'']"
  by code_simp+

theorem lexical_discovery_exact_witness:
  "\<exists>occs. analyze_lexical id (\<lambda>_. True) demo_code (builder_new (demo_code_limits 0) (gt_coverage demo_code_capture)) =
     (builder_new (demo_code_limits 0) (gt_coverage demo_code_capture))\<lparr>ab_occurrences := occs\<rparr> \<and>
     map co_display_name occs = [''abc'']"
proof -
  let ?b = "builder_new (demo_code_limits 0) (gt_coverage demo_code_capture)"
  have a: "accepts_ascii (\<lambda>_. True)" by (simp add: accepts_ascii_def)
  have "ascii ''x = abc''" by code_simp
  then have b: "ascii (cp_bytes demo_code)" by (simp add: demo_code_def)
  have n: "long_names (cp_bytes demo_code) = [''abc'']" by (simp add: demo_code_def demo_names)
  from lexical_discovery_exact [OF a b, of ?b id] show ?thesis
    by (simp add: n demo_names MAX_EVIDENCE_EXCERPT_BYTES_def MAX_LEXICAL_OCCURRENCES_PER_SOURCE_def builder_new_def
        demo_code_limits_def)
qed

definition demo_occurrence :: CodeOccurrence where
  "demo_occurrence = the (lexical_occurrence id (\<lambda>_. True) demo_code ''abc'' 4 7)"

lemma demo_lexical:
  assumes "ab_occurrences b = []" "xl_max_occurrences (ab_limits b) = 9"
  shows "analyze_lexical id (\<lambda>_. True) demo_code b = b\<lparr>ab_occurrences := [demo_occurrence]\<rparr>"
proof -
  have "\<exists>occ. lexical_occurrence id (\<lambda>_. True) demo_code ''abc'' 4 7 = Some occ \<and> co_display_name occ = ''abc''"
    by (rule lexical_occurrence_ascii) (simp_all add: accepts_ascii_def ascii_def demo_code_def MAX_EVIDENCE_EXCERPT_BYTES_def, code_simp)
  then have occ: "lexical_occurrence id (\<lambda>_. True) demo_code ''abc'' 4 7 = Some demo_occurrence" by (auto simp: demo_occurrence_def)
  have i: "identifier_start (CHR ''x'')" "\<not> identifier_start (CHR '' '')" "\<not> identifier_start (CHR ''='')" "identifier_start (CHR ''a'')"
    "identifier_continue (CHR ''b'')" "identifier_continue (CHR ''c'')" "\<not> identifier_continue (CHR '' '')" by code_simp+
  have bytes: "cp_bytes demo_code = ''x = abc''" by (simp add: demo_code_def)
  have occ': "lexical_occurrence id (\<lambda>_. True) demo_code ''abc'' (Suc (Suc (Suc (Suc 0))))
      (Suc (Suc (Suc (Suc (Suc (Suc (Suc 0))))))) = Some demo_occurrence" using occ by (simp add: eval_nat_numeral)
  have push: "builder_push demo_occurrence b = (True, b\<lparr>ab_occurrences := [demo_occurrence]\<rparr>)" using assms by (simp add: builder_push_def)
  show ?thesis
    using occ' push by (simp add: analyze_lexical_def bytes i MAX_LEXICAL_OCCURRENCES_PER_SOURCE_def Let_def)
qed

definition demo_builder :: "nat \<Rightarrow> ArtifactBuilder" where
  "demo_builder n =
     (let b = builder_new (demo_code_limits n) (gt_coverage demo_code_capture) in
      if n = 0 then builder_gap None BudgetExceeded (b\<lparr>ab_truncated := True\<rparr>)
      else builder_gap (Some ''b.rs'') MissingObject (examined b))"

lemma demo_finish:
  assumes "n \<le> 1"
  shows "build demo_tools demo_code_capture (Some []) (demo_code_limits n) =
    finish_artifact demo_tools demo_code_capture [''scip:unknown:unknown:protocol-v0'', ''texo-lexical:v2'']
      ((examined (demo_builder n))\<lparr>ab_occurrences := [demo_occurrence]\<rparr>)"
proof -
  have paths: "safe_relative_path ''b.rs''" "code_index_path_is_in_scope ''a.c''" by code_simp+
  have n: "n = 0 \<or> n = 1" using assms by auto
  have s: "build_scip demo_tools demo_code_capture (Some []) (builder_new (demo_code_limits n) (gt_coverage demo_code_capture)) =
      Inr ([''scip:unknown:unknown:protocol-v0''], demo_builder n, {})"
    using n paths
    by (auto simp: build_scip_def import_scip_def demo_tools_def scip_analyzer_fingerprint_def import_document_def source_map_def
        demo_code_capture_def demo_code_def demo_builder_def builder_new_def demo_code_limits_def examined_def builder_gap_def MAX_GAPS_def
        source_error_def Let_def)
  have b: "ab_occurrences (demo_builder n) = []" "xl_max_occurrences (ab_limits (demo_builder n)) = 9"
    using n by (auto simp: demo_builder_def builder_new_def demo_code_limits_def demo_code_capture_def examined_def builder_gap_def
        MAX_GAPS_def Let_def)
  then have "analyze_lexical id (\<lambda>_. True) demo_code (examined (demo_builder n)) = (examined (demo_builder n))\<lparr>ab_occurrences := [demo_occurrence]\<rparr>"
    by (intro demo_lexical) (simp_all add: examined_def)
  then show ?thesis
    using s paths
    by (simp add: build_def analyze_fallbacks_def fallback_source_def demo_tools_def demo_code_capture_def Let_def
        LEXICAL_FINGERPRINT_def demo_code_def)
qed

lemma demo_build:
  assumes "n \<le> 1"
  shows "\<exists>p. build demo_tools demo_code_capture (Some []) (demo_code_limits n) = Inr p \<and>
    art_occurrences (px_artifact p) = [demo_occurrence] \<and>
    art_analyzer_fingerprint (px_artifact p) = ''scip:unknown:unknown:protocol-v0+texo-lexical:v2'' \<and>
    px_artifact_digest_hex p = (if n = 0 then ''t'' else ''f'')"
proof -
  have "n = 0 \<or> n = 1" using assms by auto
  then have "ab_truncated (demo_builder n) = (n = 0)"
    by (auto simp: demo_builder_def builder_new_def demo_code_capture_def examined_def builder_gap_def MAX_GAPS_def Let_def)
  then show ?thesis
    unfolding demo_finish [OF assms] by (simp add: finish_artifact_def demo_tools_def examined_def Let_def)
qed

theorem code_index_exact_witness:
  "\<exists>p. build demo_tools demo_code_capture (Some []) (demo_code_limits 1) = Inr p \<and>
     art_occurrences (px_artifact p) \<noteq> [] \<and>
     (\<forall>occ \<in> set (art_occurrences (px_artifact p)). \<exists>source \<in> set (gt_sources demo_code_capture). occurrence_exact id source occ)"
proof -
  obtain p where p: "build demo_tools demo_code_capture (Some []) (demo_code_limits 1) = Inr p"
    "art_occurrences (px_artifact p) = [demo_occurrence]" using demo_build [of 1] by auto
  have "length (cov_gaps (gt_coverage demo_code_capture)) \<le> MAX_GAPS" by (simp add: demo_code_capture_def)
  from code_index_exact [OF p(1) this] p show ?thesis by (auto simp: demo_tools_def)
qed

theorem index_identity_ignores_coverage_witness:
  "\<exists>p1 p2. build demo_tools demo_code_capture (Some []) (demo_code_limits 0) = Inr p1 \<and>
     build demo_tools demo_code_capture (Some []) (demo_code_limits 1) = Inr p2 \<and>
     load demo_tools (snd (persist [] p2 (snd (persist [] p1 (\<lambda>_. None))))) [] (art_index_id (px_artifact p1)) (px_artifact_digest_hex p1) =
       Inl (source_error (artifact_path [] (art_index_id (px_artifact p1))) ''code-index artifact digest mismatch'')"
proof -
  obtain p1 where p1: "build demo_tools demo_code_capture (Some []) (demo_code_limits 0) = Inr p1"
    "art_occurrences (px_artifact p1) = [demo_occurrence]"
    "art_analyzer_fingerprint (px_artifact p1) = ''scip:unknown:unknown:protocol-v0+texo-lexical:v2''" "px_artifact_digest_hex p1 = ''t''"
    using demo_build [of 0] by auto
  obtain p2 where p2: "build demo_tools demo_code_capture (Some []) (demo_code_limits 1) = Inr p2"
    "art_occurrences (px_artifact p2) = [demo_occurrence]"
    "art_analyzer_fingerprint (px_artifact p2) = ''scip:unknown:unknown:protocol-v0+texo-lexical:v2''" "px_artifact_digest_hex p2 = ''f''"
    using demo_build [of 1] by auto
  from index_identity_ignores_coverage [OF p1(1) p2(1)] p1 p2 show ?thesis by fastforce
qed

text \<open>Tools whose codec keeps the artifact it encoded last.\<close>

theorem code_index_roundtrip_witness:
  "\<exists>t p. build t demo_code_capture (Some []) (demo_code_limits 1) = Inr p \<and>
     load t (snd (persist [] p (\<lambda>_. None))) [] (art_index_id (px_artifact p)) (px_artifact_digest_hex p) = Inr (Some (px_artifact p))"
proof -
  obtain p where p: "build demo_tools demo_code_capture (Some []) (demo_code_limits 1) = Inr p" using demo_build [of 1] by auto
  let ?t = "demo_tools\<lparr>it_decode_artifact := (\<lambda>_. Inr (px_artifact p))\<rparr>"
  have "build ?t demo_code_capture (Some []) (demo_code_limits 1) = build demo_tools demo_code_capture (Some []) (demo_code_limits 1)"
    by (simp add: build_def build_scip_def finish_artifact_def occurrence_identity_def)
  with p have b: "build ?t demo_code_capture (Some []) (demo_code_limits 1) = Inr p" by simp
  from code_index_roundtrip [OF b, of "[]" "\<lambda>_. None"] b show ?thesis by (auto simp: decodes_def)
qed

section \<open>A SCIP range past its line\<close>

text \<open>A character past the end of its line is accepted, and the range it gives spans lines it does not name.\<close>

lemma scip_character_overrun:
  "resolve_range (line_offsets (''ab'' @ newline # ''cd'')) (''ab'' @ newline # ''cd'')
     \<lparr>zr_start_line = 0, zr_start_character = 0, zr_end_line = 0, zr_end_character = 4\<rparr> =
     Some (\<lparr>br_start = 0, br_end = 4\<rparr>, \<lparr>lr_start = 1, lr_end = 1\<rparr>)"
  "byte_line_range (''ab'' @ newline # ''cd'') 0 4 = (1, 2)"
  by (simp_all add: resolve_range_def line_offsets_def nth_opt_def byte_range_new_def line_range_new_def u32_max_def
      byte_line_range_def u32_try_def sat_add32_def take_Cons drop_Cons split: nat.splits)

end
