(* ===== verification/Triangulate.thy ===== *)
theory Triangulate
  imports Relate Excerpts CodeIndex
begin

text \<open>
  Answers with their evidence (\<open>src/ops/handlers/knowledge_read.rs\<close>, and the claim rows of
  \<open>src/ops/handlers/claims.rs\<close>): the claims a target names, their exact evidence, the code occurrences of
  the indexed snapshot, and what the answer discloses about its own coverage.  What a read handler reads is
  the record \<open>read_env\<close>; a read that loops over the journal answers \<open>None\<close> if it does not return.
\<close>

type_synonym 'a read = "('a, TexoError) result option"

definition read_bind :: "'a read \<Rightarrow> ('a \<Rightarrow> 'b read) \<Rightarrow> 'b read" where
  "read_bind m f = (case m of None \<Rightarrow> None | Some (Inl e) \<Rightarrow> Some (Inl e) | Some (Inr x) \<Rightarrow> f x)"

lemma read_bind_Inr: "read_bind m f = Some (Inr y) \<longleftrightarrow> (\<exists>x. m = Some (Inr x) \<and> f x = Some (Inr y))"
  by (auto simp: read_bind_def split: option.splits sum.splits)

lemma read_bind_simps [simp]:
  "read_bind (Some (Inr x)) f = f x" "read_bind (Some (Inl e)) f = Some (Inl e)" "read_bind None f = None"
  by (simp_all add: read_bind_def)

record read_env =
  re_env :: OpEnv
  re_hash :: "string \<Rightarrow> string"
  re_scope_entries :: "IndexEntry list"
  re_entity_entries :: "string \<Rightarrow> IndexEntry list"
  re_latest_checkpoint :: "WorkspaceView \<Rightarrow> (RelationCampaignCheckpointV1 option, TexoError) result"
  re_candidate_policy :: string
  re_root :: string
  re_files :: files
  re_tools :: index_tools

section \<open>Claim rows\<close>

record AgentSourceRow =
  as_source_id :: string
  as_path :: string
  as_line_start :: u32

record AgentClaimRow =
  ar_claim_id :: string
  ar_status :: ClaimStatus
  ar_subject_hint :: "string option"
  ar_text :: string
  ar_source :: AgentSourceRow
  ar_receipt :: AgentReceiptRow
  ar_supersedes :: "string list"
  ar_superseded_by :: "string option"

definition event_id_hex :: "nat \<Rightarrow> string" where
  "event_id_hex i = hex_pad 32 i"

definition claim_receipt :: "read_env \<Rightarrow> string \<Rightarrow> (AgentReceiptRow, TexoError) result" where
  "claim_receipt env claim_id =
     (let entity = entity_for_claim claim_id in
      res_bind (ok_or (find (\<lambda>e. ie_kind e = KClaimRecorded) (re_entity_entries env entity)) (ErrMissingEntity entity))
        (\<lambda>e. Inr \<lparr>rr_event_id = event_id_hex (ie_id e), rr_sequence = ie_seq e\<rparr>))"

definition claim_row :: "ClaimView \<Rightarrow> AgentReceiptRow \<Rightarrow> AgentClaimRow" where
  "claim_row v receipt =
     (let c = cv_card v in
      \<lparr>ar_claim_id = cc_claim_id c, ar_status = cv_status v, ar_subject_hint = cc_subject_hint c, ar_text = cc_text c,
       ar_source = \<lparr>as_source_id = cc_source_id c, as_path = cc_source_path c, as_line_start = cc_line_start c\<rparr>,
       ar_receipt = receipt, ar_supersedes = cv_supersedes v, ar_superseded_by = cc_superseded_by c\<rparr>)"

definition push_claim_row ::
  "read_env \<Rightarrow> (string, AgentReceiptRow) btree \<Rightarrow> string option \<Rightarrow> ClaimView \<Rightarrow> AgentClaimRow list \<Rightarrow>
   (AgentClaimRow list, TexoError) result" where
  "push_claim_row env receipts subject v rows =
     (if subject \<noteq> None \<and> cc_subject_hint (cv_card v) \<noteq> subject then Inr rows
      else res_bind (case bt_get receipts (cc_claim_id (cv_card v)) of
                       Some row \<Rightarrow> Inr row | None \<Rightarrow> claim_receipt env (cc_claim_id (cv_card v)))
             (\<lambda>receipt. Inr (rows @ [claim_row v receipt])))"

definition claim_list_rows :: "read_env \<Rightarrow> WorkspaceView \<Rightarrow> string option \<Rightarrow> (AgentClaimRow list, TexoError) result" where
  "claim_list_rows env view subject =
     res_fold (push_claim_row env (claim_record_receipts (re_scope_entries env)) subject) (wv_claims view) []"

section \<open>Code evidence\<close>

definition MAX_TRIANGULATION_CODE_OCCURRENCES :: nat where
  "MAX_TRIANGULATION_CODE_OCCURRENCES = 200"

fun as_code_index :: "domain_event \<Rightarrow> CodeIndexRecordedV1 option" where
  "as_code_index (EvCodeIndexRecorded p) = Some p"
| "as_code_index _ = None"

definition keep_index :: "SourceSnapshotId \<Rightarrow> IndexEntry \<Rightarrow> CodeIndexRecordedV1 \<Rightarrow> CodeIndexRecordedV1 option \<Rightarrow> CodeIndexRecordedV1 option" where
  "keep_index snap e p latest = (if ci_snapshot_id p = snap then Some p else latest)"

definition latest_code_index :: "OpEnv \<Rightarrow> u64 option \<Rightarrow> SourceSnapshotId \<Rightarrow> CodeIndexRecordedV1 option read" where
  "latest_code_index env frontier snap =
     (case pages (\<lambda>a. jr_query (env_store env) (scope_for_workspace (env_workspace_id env)) a 256)
             (entries_loop (collect_entry (env_store env) frontier KCodeIndexRecorded as_code_index (keep_index snap))) None None of
        None \<Rightarrow> None
      | Some (latest, Fail err) \<Rightarrow> Some (Inl err)
      | Some (latest, _) \<Rightarrow> Some (Inr latest))"

record LoadedCodeArtifact =
  la_artifact :: "CodeIndexArtifact option"
  la_coverage :: "KnowledgeCoverage option"
  la_unavailable :: bool

definition load_code_artifact_at :: "read_env \<Rightarrow> u64 \<Rightarrow> SourceSnapshotId \<Rightarrow> LoadedCodeArtifact read" where
  "load_code_artifact_at env frontier snap =
     read_bind (latest_code_index (re_env env) (Some frontier) snap) (\<lambda>recorded.
       case recorded of
         None \<Rightarrow> Some (Inr \<lparr>la_artifact = None, la_coverage = None, la_unavailable = True\<rparr>)
       | Some r \<Rightarrow>
           Some (res_bind (load (re_tools env) (re_files env) (re_root env) (ci_index_id r) (ci_artifact_digest_hex r)) (\<lambda>artifact.
             if (case artifact of None \<Rightarrow> False | Some a \<Rightarrow> art_snapshot_id a \<noteq> snap)
             then Inl (ErrSnapshot SourceUnavailable ''code-index artifact belongs to a different source snapshot'')
             else Inr \<lparr>la_artifact = artifact, la_coverage = Some (ci_coverage r), la_unavailable = (artifact = None)\<rparr>)))"

fun bounds_lines :: "u32 option \<Rightarrow> u32 option \<Rightarrow> u32 \<Rightarrow> u32 \<Rightarrow> bool" where
  "bounds_lines line_start line_end first final \<longleftrightarrow>
     (case line_start of None \<Rightarrow> True | Some s \<Rightarrow> s \<le> final) \<and> (case line_end of None \<Rightarrow> True | Some e \<Rightarrow> first \<le> e)"

fun code_occurrence_matches :: "CodeOccurrence \<Rightarrow> TriangulationTarget \<Rightarrow> bool" where
  "code_occurrence_matches o' (TargetClaim c) = False"
| "code_occurrence_matches o' (TargetPath path s e) =
     (co_path o' = path \<and> bounds_lines s e (lr_start (co_line_range o')) (lr_end (co_line_range o')))"
| "code_occurrence_matches o' (TargetSymbol symbol) = (co_symbol o' = symbol \<or> co_display_name o' = symbol)"

record CodeEvidenceLookup =
  lk_rows :: "CodeOccurrence list"
  lk_coverage :: "KnowledgeCoverage option"
  lk_unavailable :: bool

definition add_gap_once :: "CoverageGapKind \<Rightarrow> (CoverageGap \<Rightarrow> bool) \<Rightarrow> KnowledgeCoverage \<Rightarrow> KnowledgeCoverage" where
  "add_gap_once kind present c =
     (if \<exists>g \<in> set (cov_gaps c). present g then c
      else c\<lparr>cov_gaps := cov_gaps c @ [\<lparr>gap_path = None, gap_kind = kind\<rparr>]\<rparr>)"

definition code_rows :: "CodeIndexArtifact \<Rightarrow> TriangulationTarget \<Rightarrow> CodeEvidenceLookup" where
  "code_rows artifact target =
     (let n = MAX_TRIANGULATION_CODE_OCCURRENCES; coverage = art_coverage artifact;
          rows = take (n + 1) (filter (\<lambda>o'. code_occurrence_matches o' target) (art_occurrences artifact))
      in if n < length rows
         then \<lparr>lk_rows = take n rows,
               lk_coverage = Some (add_gap_once BudgetExceeded (\<lambda>g. gap_path g = None \<and> gap_kind g = BudgetExceeded)
                 (coverage\<lparr>cov_truncated := True\<rparr>)), lk_unavailable = False\<rparr>
         else \<lparr>lk_rows = rows, lk_coverage = Some coverage, lk_unavailable = False\<rparr>)"

definition code_evidence_for_target ::
  "read_env \<Rightarrow> u64 \<Rightarrow> SnapshotRead \<Rightarrow> TriangulationTarget \<Rightarrow> CodeEvidenceLookup read" where
  "code_evidence_for_target env frontier snap target =
     (case sd_source_snapshot_id (sr_descriptor snap) of
        None \<Rightarrow> Some (Inr \<lparr>lk_rows = [], lk_coverage = None, lk_unavailable = True\<rparr>)
      | Some i \<Rightarrow>
          read_bind (load_code_artifact_at env frontier i) (\<lambda>loaded.
            Some (Inr (case la_artifact loaded of
              None \<Rightarrow> \<lparr>lk_rows = [], lk_coverage = la_coverage loaded, lk_unavailable = la_unavailable loaded\<rparr>
            | Some artifact \<Rightarrow> code_rows artifact target))))"

fun analysis_quality_rank :: "AnalysisQuality \<Rightarrow> nat" where
  "analysis_quality_rank Precise = 3"
| "analysis_quality_rank Syntactic = 2"
| "analysis_quality_rank Lexical = 1"
| "analysis_quality_rank Unavailable = 0"

fun merge_gaps :: "CoverageGap list \<Rightarrow> KnowledgeCoverage \<Rightarrow> KnowledgeCoverage" where
  "merge_gaps [] c = c"
| "merge_gaps (gap # gaps) c =
     (if 256 \<le> length (cov_gaps c) then c\<lparr>cov_truncated := True\<rparr>
      else if gap \<in> set (cov_gaps c) then merge_gaps gaps c
      else merge_gaps gaps (c\<lparr>cov_gaps := cov_gaps c @ [gap]\<rparr>))"

definition merge_coverage :: "KnowledgeCoverage \<Rightarrow> KnowledgeCoverage \<Rightarrow> KnowledgeCoverage" where
  "merge_coverage target source =
     merge_gaps (cov_gaps source)
       (target\<lparr>cov_analysis_quality :=
                 (if analysis_quality_rank (cov_analysis_quality target) < analysis_quality_rank (cov_analysis_quality source)
                  then cov_analysis_quality source else cov_analysis_quality target),
               cov_sources_examined := max (cov_sources_examined target) (cov_sources_examined source),
               cov_occurrences := sat_add64 (cov_occurrences target) (cov_occurrences source),
               cov_truncated := (cov_truncated target \<or> cov_truncated source)\<rparr>)"

definition merge_optional :: "KnowledgeCoverage \<Rightarrow> KnowledgeCoverage option \<Rightarrow> KnowledgeCoverage" where
  "merge_optional target source = (case source of None \<Rightarrow> target | Some s \<Rightarrow> merge_coverage target s)"

definition status_coverage :: "read_env \<Rightarrow> WorkspaceView \<Rightarrow> SnapshotRead \<Rightarrow> (KnowledgeCoverage \<times> bool) read" where
  "status_coverage env view snap =
     read_bind (coverage_for_view (re_env env) view snap) (\<lambda>coverage.
       case sd_source_snapshot_id (sr_descriptor snap) of
         None \<Rightarrow> Some (Inr (coverage, False))
       | Some i \<Rightarrow>
           read_bind (load_code_artifact_at env (wv_frontier view) i) (\<lambda>loaded.
             let coverage = merge_optional coverage (la_coverage loaded);
                 coverage = (if la_unavailable loaded
                   then coverage\<lparr>cov_gaps := cov_gaps coverage @ [\<lparr>gap_path = None, gap_kind = GapCodeIndexUnavailable\<rparr>]\<rparr>
                   else coverage)
             in Some (Inr (coverage, \<not> la_unavailable loaded))))"

section \<open>Targets\<close>

definition target_error :: "string \<Rightarrow> TexoError" where
  "target_error detail = ErrOpInput ''texo.knowledge.triangulate'' detail"

fun validate_triangulation_target :: "TriangulationTarget \<Rightarrow> (unit, TexoError) result" where
  "validate_triangulation_target (TargetClaim c) =
     (if c = [] then Inl (target_error ''claim_id must not be empty'') else Inr ())"
| "validate_triangulation_target (TargetPath path line_start line_end) =
     (let valid_range = (case (line_start, line_end) of
            (None, None) \<Rightarrow> True | (Some s, Some e) \<Rightarrow> 0 < s \<and> s \<le> e | _ \<Rightarrow> False)
      in if safe_relative_path path \<and> valid_range then Inr ()
         else Inl (target_error ''path must be repository-relative and line bounds must be absent or an ordered one-based pair''))"
| "validate_triangulation_target (TargetSymbol symbol) =
     (if symbol = [] \<or> 1024 < length symbol then Inl (target_error ''symbol must contain between 1 and 1024 bytes'')
      else Inr ())"

fun triangulation_claim_ids :: "WorkspaceView \<Rightarrow> TriangulationTarget \<Rightarrow> (string list, TexoError) result" where
  "triangulation_claim_ids view (TargetClaim c) =
     (if \<exists>v \<in> set (wv_claims view). cc_claim_id (cv_card v) = c then Inr [c]
      else Inl (ErrMissingEntity (entity_for_claim c)))"
| "triangulation_claim_ids view (TargetPath path line_start line_end) =
     Inr (sorted_list_of_set (set (map (cc_claim_id \<circ> cv_card)
       (filter (\<lambda>v. cc_source_path (cv_card v) = path \<and>
          bounds_lines line_start line_end (cc_line_start (cv_card v)) (cc_line_end (cv_card v))) (wv_claims view)))))"
| "triangulation_claim_ids view (TargetSymbol symbol) = Inr []"

fun evidence_matches_target :: "TriangulationTarget \<Rightarrow> ClaimEvidence \<Rightarrow> bool" where
  "evidence_matches_target (TargetClaim c) e = True"
| "evidence_matches_target (TargetPath path s f) e =
     (let occ = ce_occurrence e in
      occ_path occ = path \<and> bounds_lines s f (lr_start (occ_line_range occ)) (lr_end (occ_line_range occ)))"
| "evidence_matches_target (TargetSymbol symbol) e = False"

definition answer_state_for_rows :: "AgentClaimRow list \<Rightarrow> ClaimEvidence list \<Rightarrow> CodeOccurrence list \<Rightarrow> AnswerState" where
  "answer_state_for_rows assertions evidence structural =
     (if \<exists>e \<in> set evidence. ce_stance e = Contradicts then Contradicted
      else if \<exists>c \<in> set assertions. ar_status c = StConflicting then Incomparable
      else if \<exists>c \<in> set assertions. ar_status c = StSuperseded then Stale
      else if assertions \<noteq> [] \<and> (\<exists>e \<in> set evidence. ce_stance e = Supports) \<or> structural \<noteq> [] then Supported
      else Unverified)"

definition answer_state_for_claim :: "ClaimStatus option \<Rightarrow> ClaimEvidence list \<Rightarrow> AnswerState" where
  "answer_state_for_claim status evidence =
     (case status of
        Some StSuperseded \<Rightarrow> Stale
      | Some StConflicting \<Rightarrow> Incomparable
      | Some StCurrent \<Rightarrow>
          if \<exists>e \<in> set evidence. ce_stance e = Contradicts then Contradicted
          else if \<exists>e \<in> set evidence. ce_stance e = Supports then Supported else Unverified
      | None \<Rightarrow> Unverified)"

section \<open>Triangulation\<close>

definition settlement_is_complete :: "read_env \<Rightarrow> WorkspaceView \<Rightarrow> bool read" where
  "settlement_is_complete env view =
     read_bind (workspace_temporal_policy (re_env env) view) (\<lambda>temporal.
       Some (map_sum id sg_complete
         (settlement_gate (re_hash env) view temporal (re_candidate_policy env) (re_latest_checkpoint env view))))"

record KnowledgeTriangulateOutput =
  kt_target :: TriangulationTarget
  kt_answer_state :: AnswerState
  kt_assertions :: "AgentClaimRow list"
  kt_evidence :: "ClaimEvidence list"
  kt_structural_evidence :: "CodeOccurrence list"
  kt_uncertainty :: "UncertaintyReason list"
  kt_coverage :: KnowledgeCoverage
  kt_settlement_complete :: bool
  kt_snapshot :: SnapshotRead

text \<open>The reasons of uncertainty, which the code inserts in the order of their set.\<close>

definition uncertainty_of :: "SnapshotRead \<Rightarrow> KnowledgeCoverage \<Rightarrow> bool \<Rightarrow> bool \<Rightarrow> bool \<Rightarrow> UncertaintyReason list" where
  "uncertainty_of snap coverage settled code_missing evidence_missing =
     (if sd_source_snapshot_id (sr_descriptor snap) = None then [SourceSnapshotUnavailable] else []) @
     (if cov_truncated coverage \<or> cov_gaps coverage \<noteq> [] then [PartialCoverage] else []) @
     (if \<not> settled then [SettlementIncomplete] else []) @
     (if code_missing then [CodeIndexUnavailable] else []) @
     (if evidence_missing then [ExactEvidenceUnavailable] else [])"

fun is_symbol :: "TriangulationTarget \<Rightarrow> bool" where
  "is_symbol (TargetSymbol s) = True"
| "is_symbol _ = False"

definition answer_of ::
  "SnapshotRead \<Rightarrow> TriangulationTarget \<Rightarrow> AgentClaimRow list \<Rightarrow> ClaimEvidence list \<Rightarrow> KnowledgeCoverage \<Rightarrow>
   CodeEvidenceLookup \<Rightarrow> bool \<Rightarrow> KnowledgeTriangulateOutput" where
  "answer_of snap target assertions evidence coverage found settled =
     (let code_missing = (is_symbol target \<and> lk_unavailable found);
          evidence_missing = (assertions \<noteq> [] \<and> evidence = [])
      in \<lparr>kt_target = target, kt_answer_state = answer_state_for_rows assertions evidence (lk_rows found),
          kt_assertions = assertions, kt_evidence = evidence, kt_structural_evidence = lk_rows found,
          kt_uncertainty = uncertainty_of snap coverage settled code_missing evidence_missing,
          kt_coverage = (if code_missing
            then add_gap_once GapCodeIndexUnavailable (\<lambda>g. gap_kind g = GapCodeIndexUnavailable) coverage else coverage),
          kt_settlement_complete = settled, kt_snapshot = snap\<rparr>)"

definition triangulate_from_view ::
  "read_env \<Rightarrow> WorkspaceView \<Rightarrow> SnapshotRead \<Rightarrow> TriangulationTarget \<Rightarrow> KnowledgeTriangulateOutput read" where
  "triangulate_from_view env view snap target =
     read_bind (Some (validate_triangulation_target target)) (\<lambda>_.
     read_bind (evidence_through (env_store (re_env env)) (env_workspace_id (re_env env)) (wv_frontier view)) (\<lambda>projection.
     read_bind (Some (triangulation_claim_ids view target)) (\<lambda>claim_ids.
     read_bind (Some (claim_list_rows env view None)) (\<lambda>rows.
     read_bind (coverage_for_view (re_env env) view snap) (\<lambda>coverage.
     read_bind (code_evidence_for_target env (wv_frontier view) snap target) (\<lambda>found.
       let assertions = filter (\<lambda>r. ar_claim_id r \<in> set claim_ids) rows;
           evidence = filter (evidence_matches_target target) (concat (map (\<lambda>c. for_claim c projection) claim_ids));
           coverage = merge_optional coverage (lk_coverage found);
           coverage = (if ep_incomplete projection
             then coverage\<lparr>cov_gaps := cov_gaps coverage @ [\<lparr>gap_path = None, gap_kind = AnalysisIncomplete\<rparr>]\<rparr> else coverage)
       in read_bind (settlement_is_complete env view) (\<lambda>settled.
            Some (Inr (answer_of snap target assertions evidence coverage found settled)))))))))"

section \<open>What an answer discloses\<close>

lemma merge_gaps_keeps: "cov_gaps c \<noteq> [] \<Longrightarrow> cov_gaps (merge_gaps gaps c) \<noteq> []"
  by (induction gaps c rule: merge_gaps.induct) auto

lemma code_rows_match:
  "lk_unavailable (code_rows artifact target) = False \<and>
   (\<forall>o' \<in> set (lk_rows (code_rows artifact target)). o' \<in> set (art_occurrences artifact) \<and> code_occurrence_matches o' target) \<and>
   length (lk_rows (code_rows artifact target)) \<le> MAX_TRIANGULATION_CODE_OCCURRENCES"
  by (auto simp: code_rows_def Let_def dest: in_set_takeD)

lemma code_evidence_match:
  assumes "code_evidence_for_target env frontier snap target = Some (Inr found)" "o' \<in> set (lk_rows found)"
  shows "code_occurrence_matches o' target"
  using assms code_rows_match
  by (auto simp: code_evidence_for_target_def read_bind_Inr split: option.splits)

lemma triangulate_parts:
  assumes "triangulate_from_view env view snap target = Some (Inr out)"
  obtains projection claim_ids rows coverage found settled where
    "evidence_through (env_store (re_env env)) (env_workspace_id (re_env env)) (wv_frontier view) = Some (Inr projection)"
    "triangulation_claim_ids view target = Inr claim_ids" "claim_list_rows env view None = Inr rows"
    "code_evidence_for_target env (wv_frontier view) snap target = Some (Inr found)"
    "out = answer_of snap target (filter (\<lambda>r. ar_claim_id r \<in> set claim_ids) rows)
       (filter (evidence_matches_target target) (concat (map (\<lambda>c. for_claim c projection) claim_ids))) coverage found settled"
  using assms unfolding triangulate_from_view_def by (auto simp: read_bind_Inr Let_def)

lemma answer_certain:
  assumes "kt_uncertainty (answer_of snap target assertions evidence coverage found settled) = []"
  shows "sd_source_snapshot_id (sr_descriptor snap) \<noteq> None \<and> \<not> cov_truncated coverage \<and> cov_gaps coverage = [] \<and> settled \<and>
    \<not> (is_symbol target \<and> lk_unavailable found) \<and> (assertions \<noteq> [] \<longrightarrow> evidence \<noteq> [])"
  using assms by (auto simp: answer_of_def uncertainty_of_def Let_def split: if_splits)

lemma supported_rows:
  assumes "answer_state_for_rows assertions evidence structural = Supported"
  shows "(\<forall>c \<in> set assertions. ar_status c = StCurrent) \<and> (\<forall>e \<in> set evidence. ce_stance e \<noteq> Contradicts) \<and>
    ((\<exists>e \<in> set evidence. ce_stance e = Supports) \<or> structural \<noteq> [])"
proof -
  have "\<forall>e \<in> set evidence. ce_stance e \<noteq> Contradicts" "\<forall>c \<in> set assertions. ar_status c \<noteq> StConflicting"
    "\<forall>c \<in> set assertions. ar_status c \<noteq> StSuperseded" "(\<exists>e \<in> set evidence. ce_stance e = Supports) \<or> structural \<noteq> []"
    using assms unfolding answer_state_for_rows_def by (simp_all only: split: if_splits) blast+
  moreover have "st = StCurrent" if "st \<noteq> StConflicting" "st \<noteq> StSuperseded" for st using that by (cases st) simp_all
  ultimately show ?thesis by blast
qed

lemma answer_coverage:
  "\<not> (is_symbol target \<and> lk_unavailable found) \<Longrightarrow>
     kt_coverage (answer_of snap target assertions evidence coverage found settled) = coverage"
  by (auto simp: answer_of_def Let_def)

lemma answer_fields [simp]:
  "kt_assertions (answer_of snap target assertions evidence coverage found settled) = assertions"
  "kt_evidence (answer_of snap target assertions evidence coverage found settled) = evidence"
  "kt_structural_evidence (answer_of snap target assertions evidence coverage found settled) = lk_rows found"
  "kt_settlement_complete (answer_of snap target assertions evidence coverage found settled) = settled"
  "kt_answer_state (answer_of snap target assertions evidence coverage found settled) =
     answer_state_for_rows assertions evidence (lk_rows found)"
  by (simp_all add: answer_of_def Let_def)

lemma answer_discloses:
  assumes out: "out = answer_of snap target assertions evidence coverage found settled"
    and shown: "\<forall>e \<in> set evidence. evidence_matches_target target e" "\<forall>o' \<in> set (lk_rows found). code_occurrence_matches o' target"
  shows "(kt_uncertainty out = [] \<longrightarrow>
      sd_source_snapshot_id (sr_descriptor snap) \<noteq> None \<and> \<not> cov_truncated (kt_coverage out) \<and> cov_gaps (kt_coverage out) = [] \<and>
      kt_settlement_complete out \<and> (kt_assertions out \<noteq> [] \<longrightarrow> kt_evidence out \<noteq> []) \<and> (is_symbol target \<longrightarrow> \<not> lk_unavailable found)) \<and>
    (kt_answer_state out = Supported \<longrightarrow>
      ((\<exists>e \<in> set (kt_evidence out). ce_stance e = Supports) \<or> kt_structural_evidence out \<noteq> []) \<and>
      (\<forall>e \<in> set (kt_evidence out). ce_stance e \<noteq> Contradicts) \<and> (\<forall>c \<in> set (kt_assertions out). ar_status c = StCurrent)) \<and>
    (kt_answer_state out = Contradicted \<longleftrightarrow> (\<exists>e \<in> set (kt_evidence out). ce_stance e = Contradicts)) \<and>
    (kt_assertions out = [] \<and> kt_evidence out = [] \<and> kt_structural_evidence out = [] \<longrightarrow> kt_answer_state out = Unverified) \<and>
    (\<forall>e \<in> set (kt_evidence out). evidence_matches_target target e) \<and>
    (\<forall>o' \<in> set (kt_structural_evidence out). code_occurrence_matches o' target)"
proof (intro conjI)
  show "kt_uncertainty out = [] \<longrightarrow>
      sd_source_snapshot_id (sr_descriptor snap) \<noteq> None \<and> \<not> cov_truncated (kt_coverage out) \<and> cov_gaps (kt_coverage out) = [] \<and>
      kt_settlement_complete out \<and> (kt_assertions out \<noteq> [] \<longrightarrow> kt_evidence out \<noteq> []) \<and> (is_symbol target \<longrightarrow> \<not> lk_unavailable found)"
  proof
    assume c: "kt_uncertainty out = []"
    note a = answer_certain [OF c [unfolded out]]
    then have "kt_coverage out = coverage" unfolding out by (intro answer_coverage) blast
    with a show "sd_source_snapshot_id (sr_descriptor snap) \<noteq> None \<and> \<not> cov_truncated (kt_coverage out) \<and> cov_gaps (kt_coverage out) = [] \<and>
      kt_settlement_complete out \<and> (kt_assertions out \<noteq> [] \<longrightarrow> kt_evidence out \<noteq> []) \<and> (is_symbol target \<longrightarrow> \<not> lk_unavailable found)"
      by (simp add: out)
  qed
  show "kt_answer_state out = Supported \<longrightarrow>
      ((\<exists>e \<in> set (kt_evidence out). ce_stance e = Supports) \<or> kt_structural_evidence out \<noteq> []) \<and>
      (\<forall>e \<in> set (kt_evidence out). ce_stance e \<noteq> Contradicts) \<and> (\<forall>c \<in> set (kt_assertions out). ar_status c = StCurrent)"
    unfolding out answer_fields using supported_rows [of assertions evidence "lk_rows found"] by blast
  show "kt_answer_state out = Contradicted \<longleftrightarrow> (\<exists>e \<in> set (kt_evidence out). ce_stance e = Contradicts)"
    unfolding out answer_fields answer_state_for_rows_def by simp
  show "kt_assertions out = [] \<and> kt_evidence out = [] \<and> kt_structural_evidence out = [] \<longrightarrow> kt_answer_state out = Unverified"
    unfolding out answer_fields answer_state_for_rows_def by simp
  show "\<forall>e \<in> set (kt_evidence out). evidence_matches_target target e" using shown(1) by (simp add: out)
  show "\<forall>o' \<in> set (kt_structural_evidence out). code_occurrence_matches o' target" using shown(2) by (simp add: out)
qed


section \<open>Structural evidence is exact\<close>

text \<open>The index recorded for a snapshot is the persisted build of its capture.\<close>

definition indexed_by :: "read_env \<Rightarrow> u64 \<Rightarrow> SourceSnapshotId \<Rightarrow> PreparedCodeIndex \<Rightarrow> bool" where
  "indexed_by env frontier i p \<longleftrightarrow>
     (\<exists>r files. latest_code_index (re_env env) (Some frontier) i = Some (Inr (Some r)) \<and>
        ci_index_id r = art_index_id (px_artifact p) \<and> ci_artifact_digest_hex r = px_artifact_digest_hex p \<and>
        re_files env = snd (persist (re_root env) p files))"

text \<open>
  C23: Structural evidence quotes the snapshot.  When the code index recorded for the snapshot of a read is
  the persisted build of its capture, every code occurrence of an answer quotes exactly the bytes of a
  captured source, matches the target, and at most 200 are shown; when some matching occurrence is left out,
  the coverage says it is truncated.
\<close>

theorem structural_evidence_exact:
  assumes "code_evidence_for_target env frontier snap target = Some (Inr found)"
    and "sd_source_snapshot_id (sr_descriptor snap) = Some (gt_snapshot_id cap)"
    and "build (re_tools env) cap scip limits = Inr p" "length (cov_gaps (gt_coverage cap)) \<le> MAX_GAPS"
    and "decodes (re_tools env) (px_artifact p)" "indexed_by env frontier (gt_snapshot_id cap) p"
  shows "(\<forall>o' \<in> set (lk_rows found). code_occurrence_matches o' target \<and>
      (\<exists>source \<in> set (gt_sources cap). occurrence_exact (it_hash (re_tools env)) source o')) \<and>
    length (lk_rows found) \<le> MAX_TRIANGULATION_CODE_OCCURRENCES \<and>
    (\<exists>coverage. lk_coverage found = Some coverage \<and>
      (cov_truncated coverage \<or>
       lk_rows found = filter (\<lambda>o'. code_occurrence_matches o' target) (art_occurrences (px_artifact p))))"
proof -
  obtain r files where r: "latest_code_index (re_env env) (Some frontier) (gt_snapshot_id cap) = Some (Inr (Some r))"
    "ci_index_id r = art_index_id (px_artifact p)" "ci_artifact_digest_hex r = px_artifact_digest_hex p"
    "re_files env = snd (persist (re_root env) p files)" using assms(6) unfolding indexed_by_def by blast
  have "art_snapshot_id (px_artifact p) = gt_snapshot_id cap"
    using assms(3) finish_fields(2) by (auto simp: build_def res_bind_eq_Inr)
  then have loaded: "load_code_artifact_at env frontier (gt_snapshot_id cap) =
      Some (Inr \<lparr>la_artifact = Some (px_artifact p), la_coverage = Some (ci_coverage r), la_unavailable = False\<rparr>)"
    using persisted_loads [OF assms(3,5)] r by (simp add: load_code_artifact_at_def)
  then have found: "found = code_rows (px_artifact p) target"
    using assms(1,2) by (simp add: code_evidence_for_target_def)
  have "\<exists>coverage. lk_coverage found = Some coverage \<and>
      (cov_truncated coverage \<or>
       lk_rows found = filter (\<lambda>o'. code_occurrence_matches o' target) (art_occurrences (px_artifact p)))"
    by (auto simp: found code_rows_def add_gap_once_def Let_def)
  then show ?thesis using code_rows_match [of "px_artifact p" target] built_exact [OF assms(3,4)] by (auto simp: found)
qed

section \<open>An indexed snapshot\<close>

definition demo_index_entry :: IndexEntry where
  "demo_index_entry = \<lparr>ie_seq = 1, ie_entity = ''code-index:i'', ie_kind = KCodeIndexRecorded, ie_id = 7\<rparr>"

definition demo_index_recorded :: "PreparedCodeIndex \<Rightarrow> CodeIndexRecordedV1" where
  "demo_index_recorded p =
     \<lparr>ci_workspace_id = WorkspaceId ''demo'', ci_snapshot_id = SourceSnapshotId ''s'', ci_index_id = art_index_id (px_artifact p),
      ci_format = art_format (px_artifact p), ci_analyzer_fingerprint = [], ci_artifact_digest_hex = px_artifact_digest_hex p,
      ci_coverage = art_coverage (px_artifact p), ci_observed_at_ms = 1\<rparr>"

definition demo_read_env :: "PreparedCodeIndex \<Rightarrow> read_env" where
  "demo_read_env p =
     \<lparr>re_env = \<lparr>env_store = memory_journal ''workspace:demo'' [(demo_index_entry, Inr (Payload (EvCodeIndexRecorded (demo_index_recorded p))))] (\<lambda>_. None),
        env_workspace_id = ''demo'', env_journal_id = JournalId ''canonical''\<rparr>,
      re_hash = id, re_scope_entries = [], re_entity_entries = (\<lambda>_. []), re_latest_checkpoint = (\<lambda>_. Inr None),
      re_candidate_policy = [], re_root = [], re_files = snd (persist [] p (\<lambda>_. None)),
      re_tools = demo_tools\<lparr>it_decode_artifact := (\<lambda>_. Inr (px_artifact p))\<rparr>\<rparr>"

definition demo_read_view :: WorkspaceView where
  "demo_read_view = \<lparr>wv_workspace_id = ''demo'', wv_frontier = 2, wv_freshness = PfFresh, wv_claims = [], wv_conflicts = [], wv_sources = []\<rparr>"

definition demo_read_snapshot :: SnapshotRead where
  "demo_read_snapshot =
     \<lparr>sr_token = SnapshotToken [],
      sr_descriptor = \<lparr>sd_workspace_id = WorkspaceId ''demo'', sd_journal_id = JournalId ''canonical'', sd_frontier = 1,
        sd_anchor_event_id_hex = [], sd_source_snapshot_id = Some (SourceSnapshotId ''s'')\<rparr>\<rparr>"

lemma one_page:
  assumes "0 < n"
  shows "pages (\<lambda>a. jr_query (memory_journal s [(e, r)] g) s a n) body None st = Some (body [e] st)"
proof -
  let ?q = "\<lambda>a. jr_query (memory_journal s [(e, r)] g) s a n"
  have "?q None = [e]" "?q (Some (ie_seq e)) = []" using assms by (simp_all add: memory_journal_def)
  then show ?thesis by (subst pages.simps) (simp split: prod.splits flow.splits add: pages.simps [of ?q body "Some (ie_seq e)"])
qed

lemma demo_reads_index:
  "evidence_through (env_store (re_env (demo_read_env p))) ''demo'' 2 = Some (Inr (evidence_join [] [] []))"
  "temporal_through (env_store (re_env (demo_read_env p))) ''demo'' 2 = Some (Inr [])"
  "latest_source_snapshot (re_env (demo_read_env p)) (Some 2) = Some (Inr None)"
  "latest_code_index (re_env (demo_read_env p)) (Some 2) (SourceSnapshotId ''s'') = Some (Inr (Some (demo_index_recorded p)))"
  by (simp_all add: evidence_through_def temporal_through_def latest_source_snapshot_def source_snapshots_through_def latest_code_index_def
      scope_for_workspace_def demo_read_env_def one_page PAGE_LIMIT_def evidence_entry_def temporal_entry_def collect_entry_def
      demo_index_entry_def)
    (simp add: memory_journal_def demo_index_entry_def decode_payload_def keep_index_def demo_index_recorded_def)

lemma demo_indexed:
  obtains p where "build (re_tools (demo_read_env p)) demo_code_capture (Some []) (demo_code_limits 1) = Inr p"
    "art_occurrences (px_artifact p) = [demo_occurrence]" "decodes (re_tools (demo_read_env p)) (px_artifact p)"
    "indexed_by (demo_read_env p) 2 (SourceSnapshotId ''s'') p"
proof -
  obtain p where p: "build demo_tools demo_code_capture (Some []) (demo_code_limits 1) = Inr p"
    "art_occurrences (px_artifact p) = [demo_occurrence]" using demo_build [of 1] by auto
  have "build (re_tools (demo_read_env p)) demo_code_capture (Some []) (demo_code_limits 1) = Inr p"
    using p(1) by (simp add: demo_read_env_def build_def build_scip_def finish_artifact_def occurrence_identity_def)
  moreover have "decodes (re_tools (demo_read_env p)) (px_artifact p)" by (simp add: decodes_def demo_read_env_def)
  moreover have "indexed_by (demo_read_env p) 2 (SourceSnapshotId ''s'') p"
    using demo_reads_index(4) [of p] by (auto simp: indexed_by_def demo_index_recorded_def demo_read_env_def)
  ultimately show thesis using p(2) that by blast
qed

lemma demo_occurrence_name: "co_display_name demo_occurrence = ''abc''"
proof -
  have "\<exists>occ. lexical_occurrence id (\<lambda>_. True) demo_code ''abc'' 4 7 = Some occ \<and> co_display_name occ = ''abc''"
    by (rule lexical_occurrence_ascii) (simp_all add: accepts_ascii_def ascii_def demo_code_def MAX_EVIDENCE_EXCERPT_BYTES_def, code_simp)
  then show ?thesis by (auto simp: demo_occurrence_def)
qed

lemma demo_lookup:
  assumes "build (re_tools (demo_read_env p)) demo_code_capture (Some []) (demo_code_limits 1) = Inr p"
    and "decodes (re_tools (demo_read_env p)) (px_artifact p)"
  shows "code_evidence_for_target (demo_read_env p) 2 demo_read_snapshot target = Some (Inr (code_rows (px_artifact p) target))"
proof -
  have "art_snapshot_id (px_artifact p) = SourceSnapshotId ''s''"
    using assms(1) finish_fields(2) by (auto simp: build_def res_bind_eq_Inr demo_code_capture_def)
  moreover have "load (re_tools (demo_read_env p)) (re_files (demo_read_env p)) (re_root (demo_read_env p))
      (art_index_id (px_artifact p)) (px_artifact_digest_hex p) = Inr (Some (px_artifact p))"
    using persisted_loads [OF assms] by (simp add: demo_read_env_def)
  ultimately show ?thesis
    by (simp add: code_evidence_for_target_def demo_read_snapshot_def load_code_artifact_at_def demo_reads_index demo_index_recorded_def)
qed

lemma demo_rows:
  assumes "art_occurrences (px_artifact p) = [demo_occurrence]"
  shows "lk_rows (code_rows (px_artifact p) (TargetSymbol ''abc'')) = [demo_occurrence]"
  using assms by (simp add: code_rows_def MAX_TRIANGULATION_CODE_OCCURRENCES_def demo_occurrence_name)

theorem structural_evidence_exact_witness:
  "\<exists>env found. code_evidence_for_target env 2 demo_read_snapshot (TargetSymbol ''abc'') = Some (Inr found) \<and> lk_rows found \<noteq> [] \<and>
     (\<forall>o' \<in> set (lk_rows found). \<exists>source \<in> set (gt_sources demo_code_capture). occurrence_exact id source o')"
proof -
  obtain p where p: "build (re_tools (demo_read_env p)) demo_code_capture (Some []) (demo_code_limits 1) = Inr p"
    "art_occurrences (px_artifact p) = [demo_occurrence]" "decodes (re_tools (demo_read_env p)) (px_artifact p)"
    "indexed_by (demo_read_env p) 2 (SourceSnapshotId ''s'') p" by (rule demo_indexed)
  have snap: "sd_source_snapshot_id (sr_descriptor demo_read_snapshot) = Some (gt_snapshot_id demo_code_capture)"
    and gaps: "length (cov_gaps (gt_coverage demo_code_capture)) \<le> MAX_GAPS"
    and i: "indexed_by (demo_read_env p) 2 (gt_snapshot_id demo_code_capture) p"
    using p(4) by (simp_all add: demo_read_snapshot_def demo_code_capture_def)
  have h: "it_hash (re_tools (demo_read_env p)) = id" by (simp add: demo_read_env_def demo_tools_def)
  from structural_evidence_exact [OF demo_lookup [OF p(1,3)] snap p(1) gaps p(3) i] demo_rows [OF p(2)]
  show ?thesis unfolding h using demo_lookup [OF p(1,3), of "TargetSymbol ''abc''"] by (metis list.distinct(1))
qed


end
