(* ===== verification/Search.thy ===== *)
theory Search
  imports Triangulate Conflicts
begin

text \<open>
  The claim handlers (\<open>src/ops/handlers/claims.rs\<close>): listing, the two searches with their cursors, the
  explanation of a claim and its manual supersession.  A read handler is modelled from the view and the
  snapshot it assembles.
\<close>

section \<open>Listing and searching claims\<close>

record ClaimsListOutput =
  lo_workspace_id :: string
  lo_frontier :: u64
  lo_claims :: "AgentClaimRow list"
  lo_snapshot :: SnapshotRead

definition claims_list :: "read_env \<Rightarrow> WorkspaceView \<Rightarrow> SnapshotRead \<Rightarrow> string option \<Rightarrow> (ClaimsListOutput, TexoError) result" where
  "claims_list env view snap subject =
     res_bind (claim_list_rows env view subject) (\<lambda>rows.
       Inr \<lparr>lo_workspace_id = wv_workspace_id view, lo_frontier = wv_frontier view, lo_claims = rows, lo_snapshot = snap\<rparr>)"

text \<open>\<open>str::strip_prefix\<close> and \<open>str::split_once\<close>.\<close>

definition strip_prefix :: "string \<Rightarrow> string \<Rightarrow> string option" where
  "strip_prefix p s = (if starts_with s p then Some (drop (length p) s) else None)"

definition split_once :: "char \<Rightarrow> string \<Rightarrow> (string \<times> string) option" where
  "split_once d s =
     (case dropWhile (\<lambda>c. c \<noteq> d) s of [] \<Rightarrow> None | _ # rest \<Rightarrow> Some (takeWhile (\<lambda>c. c \<noteq> d) s, rest))"

definition parse_claim_search_cursor :: "string option \<Rightarrow> (nat, TexoError) result" where
  "parse_claim_search_cursor cursor =
     (case cursor of
        None \<Rightarrow> Inr 0
      | Some c \<Rightarrow>
          (case strip_prefix ''texo-claims-v1:'' c of
             None \<Rightarrow> Inl (ErrOpInput ''texo.claims.search'' ''cursor has an unsupported schema'')
           | Some offset \<Rightarrow> ok_or (parse_u64 offset) (ErrOpInput ''texo.claims.search'' ''cursor offset is invalid'')))"

definition searchable_text :: "AgentClaimRow \<Rightarrow> string" where
  "searchable_text row =
     to_ascii_lowercase (ar_text row) @ '' '' @ to_ascii_lowercase (as_path (ar_source row)) @
     (case ar_subject_hint row of None \<Rightarrow> [] | Some s \<Rightarrow> '' '' @ to_ascii_lowercase s)"

definition claim_matches_query :: "AgentClaimRow \<Rightarrow> string list \<Rightarrow> bool" where
  "claim_matches_query row terms \<longleftrightarrow> (\<forall>term \<in> set terms. contains_sub (searchable_text row) term)"

record ClaimsSearchInput =
  si_query :: "string option"
  si_subject :: "string option"
  si_status :: "ClaimStatus option"
  si_limit :: "nat option"
  si_cursor :: "string option"

record ClaimsSearchOutput =
  so_workspace_id :: string
  so_frontier :: u64
  so_freshness :: ProjectionFreshness
  so_total :: nat
  so_returned :: nat
  so_has_more :: bool
  so_next_cursor :: "string option"
  so_claims :: "AgentClaimRow list"
  so_snapshot :: SnapshotRead

definition status_ok :: "ClaimStatus option \<Rightarrow> AgentClaimRow \<Rightarrow> bool" where
  "status_ok wanted row = (case wanted of None \<Rightarrow> True | Some s \<Rightarrow> ar_status row = s)"

definition validated_search :: "string \<Rightarrow> string option \<Rightarrow> nat option \<Rightarrow> (string \<times> nat, TexoError) result" where
  "validated_search op query limit =
     (let query = or_empty query; limit = (case limit of None \<Rightarrow> 25 | Some n \<Rightarrow> n) in
      if 256 < length query then Inl (ErrOpInput op ''query exceeds 256 bytes'')
      else if \<not> (1 \<le> limit \<and> limit \<le> 100) then Inl (ErrOpInput op ''limit must be between 1 and 100'')
      else Inr (query, limit))"

definition claims_search ::
  "read_env \<Rightarrow> WorkspaceView \<Rightarrow> SnapshotRead \<Rightarrow> ClaimsSearchInput \<Rightarrow> (ClaimsSearchOutput, TexoError) result" where
  "claims_search env view snap inp =
     res_bind (validated_search ''texo.claims.search'' (si_query inp) (si_limit inp)) (\<lambda>(query, limit).
     res_bind (parse_claim_search_cursor (si_cursor inp)) (\<lambda>offset.
     let terms = map to_ascii_lowercase (split_whitespace query) in
     res_bind (claim_list_rows env view (si_subject inp)) (\<lambda>all.
       let rows = filter (\<lambda>row. claim_matches_query row terms) (filter (status_ok (si_status inp)) all);
           page = take limit (drop offset rows);
           next_offset = sat_add64 offset (length page);
           has_more = (next_offset < length rows)
       in Inr \<lparr>so_workspace_id = wv_workspace_id view, so_frontier = wv_frontier view, so_freshness = wv_freshness view,
               so_total = length rows, so_returned = length page, so_has_more = has_more,
               so_next_cursor = (if has_more then Some (''texo-claims-v1:'' @ show_nat next_offset) else None),
               so_claims = page, so_snapshot = snap\<rparr>)))"

section \<open>Searching knowledge\<close>

record KnowledgeSearchInput =
  ks_query :: "string option"
  ks_subject :: "string option"
  ks_status :: "ClaimStatus option"
  ks_limit :: "nat option"
  ks_cursor :: "string option"

datatype KnowledgeSearchResult = ClaimResult AgentClaimRow | CodeResult CodeOccurrence

record RankedKnowledgeResult =
  rk_rank :: nat
  rk_key :: string
  rk_result :: KnowledgeSearchResult

record KnowledgeSearchOutput =
  kx_workspace_id :: string
  kx_frontier :: u64
  kx_total :: nat
  kx_returned :: nat
  kx_has_more :: bool
  kx_next_cursor :: "string option"
  kx_results :: "KnowledgeSearchResult list"
  kx_code_index_available :: bool
  kx_coverage :: KnowledgeCoverage
  kx_snapshot :: SnapshotRead

definition knowledge_search_identity :: "(string \<Rightarrow> string) \<Rightarrow> SnapshotRead \<Rightarrow> string \<Rightarrow> KnowledgeSearchInput \<Rightarrow> string" where
  "knowledge_search_identity B snap query inp =
     take 16 (B (''texo.knowledge.search.v1'' @ [US] @ token_str (sr_token snap) @ [US] @ query @ [US] @
       or_empty (ks_subject inp) @ [US] @ (case ks_status inp of None \<Rightarrow> [] | Some s \<Rightarrow> claim_status_str s)))"

definition invalid_knowledge_cursor :: TexoError where
  "invalid_knowledge_cursor = ErrOpInput ''texo.knowledge.search'' ''cursor is invalid for this query and snapshot''"

definition parse_knowledge_search_cursor :: "string option \<Rightarrow> string \<Rightarrow> (nat, TexoError) result" where
  "parse_knowledge_search_cursor cursor expected =
     (case cursor of
        None \<Rightarrow> Inr 0
      | Some c \<Rightarrow>
          (case Option.bind (strip_prefix ''texo-knowledge-v1:'' c) (split_once (CHR '':'')) of
             None \<Rightarrow> Inl invalid_knowledge_cursor
           | Some (identity, offset) \<Rightarrow>
               if identity \<noteq> expected then Inl invalid_knowledge_cursor
               else ok_or (parse_u64 offset) invalid_knowledge_cursor))"

definition claim_search_rank :: "AgentClaimRow \<Rightarrow> string \<Rightarrow> nat option" where
  "claim_search_rank row query =
     (if query = [] then Some 0
      else let text' = to_ascii_lowercase (ar_text row); subject = to_ascii_lowercase (or_empty (ar_subject_hint row));
               path = to_ascii_lowercase (as_path (ar_source row))
           in if text' = query \<or> subject = query then Some 0
              else if starts_with text' query \<or> starts_with subject query then Some 1
              else if contains_sub text' query \<or> contains_sub subject query then Some 2
              else if contains_sub path query then Some 3 else None)"

definition code_search_rank :: "CodeOccurrence \<Rightarrow> string \<Rightarrow> nat option" where
  "code_search_rank o' query =
     (if query = [] then Some 1
      else let name = to_ascii_lowercase (co_display_name o'); symbol = to_ascii_lowercase (co_symbol o');
               path = to_ascii_lowercase (co_path o')
           in if name = query \<or> symbol = query then Some 0
              else if starts_with name query then Some 1
              else if contains_sub name query \<or> contains_sub symbol query then Some 2
              else if contains_sub path query then Some 3 else None)"

definition ranked_claim :: "string \<Rightarrow> AgentClaimRow \<Rightarrow> RankedKnowledgeResult option" where
  "ranked_claim query row =
     map_option (\<lambda>rank. \<lparr>rk_rank = rank, rk_key = ''claim:'' @ ar_claim_id row, rk_result = ClaimResult row\<rparr>)
       (claim_search_rank row query)"

definition ranked_code :: "string \<Rightarrow> CodeOccurrence \<Rightarrow> RankedKnowledgeResult option" where
  "ranked_code query o' =
     map_option (\<lambda>rank. \<lparr>rk_rank = rank,
         rk_key = ''code:'' @ co_symbol o' @ '':'' @ co_path o' @ '':'' @ show_nat (br_start (co_byte_range o')),
         rk_result = CodeResult o'\<rparr>)
       (code_search_rank o' query)"

text \<open>The code plane of a search: its occurrences and coverage, when it is searched and available.\<close>

definition searched_code :: "read_env \<Rightarrow> WorkspaceView \<Rightarrow> SnapshotRead \<Rightarrow> bool \<Rightarrow> LoadedCodeArtifact read" where
  "searched_code env view snap code_searched =
     (let nothing = Some (Inr \<lparr>la_artifact = None, la_coverage = None, la_unavailable = True\<rparr>) in
      if \<not> code_searched then nothing
      else case sd_source_snapshot_id (sr_descriptor snap) of
             None \<Rightarrow> nothing
           | Some i \<Rightarrow> load_code_artifact_at env (wv_frontier view) i)"

definition search_code_searched :: "KnowledgeSearchInput \<Rightarrow> bool" where
  "search_code_searched inp \<longleftrightarrow> ks_subject inp = None \<and> ks_status inp = None"

text \<open>The ranked results of a search, the availability of the code index and the coverage.\<close>

definition ranked_results ::
  "read_env \<Rightarrow> WorkspaceView \<Rightarrow> SnapshotRead \<Rightarrow> string \<Rightarrow> KnowledgeSearchInput \<Rightarrow>
   (RankedKnowledgeResult list \<times> bool \<times> KnowledgeCoverage) read" where
  "ranked_results env view snap query inp =
     (let query = to_ascii_lowercase query; code_searched = search_code_searched inp in
      read_bind (Some (claim_list_rows env view (ks_subject inp))) (\<lambda>rows.
      read_bind (coverage_for_view (re_env env) view snap) (\<lambda>coverage.
      read_bind (searched_code env view snap code_searched) (\<lambda>loaded.
        let claims = List.map_filter (ranked_claim query) (filter (status_ok (ks_status inp)) rows);
            coverage = merge_optional coverage (la_coverage loaded);
            available = (la_artifact loaded \<noteq> None);
            codes = (case la_artifact loaded of None \<Rightarrow> [] | Some a \<Rightarrow> List.map_filter (ranked_code query) (art_occurrences a));
            coverage = (if code_searched \<and> \<not> available
              then add_gap_once GapCodeIndexUnavailable (\<lambda>g. gap_kind g = GapCodeIndexUnavailable) coverage else coverage)
        in Some (Inr (sort_key (\<lambda>r. (rk_rank r, rk_key r)) (claims @ codes), available, coverage))))))"

definition search_page ::
  "WorkspaceView \<Rightarrow> SnapshotRead \<Rightarrow> string \<Rightarrow> nat \<Rightarrow> nat \<Rightarrow> RankedKnowledgeResult list \<times> bool \<times> KnowledgeCoverage \<Rightarrow>
   KnowledgeSearchOutput" where
  "search_page view snap identity offset limit r =
     (let (ranked, available, coverage) = r; results = map rk_result (take limit (drop offset ranked));
          next_offset = sat_add64 offset (length results); has_more = (next_offset < length ranked)
      in \<lparr>kx_workspace_id = wv_workspace_id view, kx_frontier = wv_frontier view, kx_total = length ranked,
          kx_returned = length results, kx_has_more = has_more,
          kx_next_cursor = (if has_more then Some (''texo-knowledge-v1:'' @ identity @ '':'' @ show_nat next_offset) else None),
          kx_results = results, kx_code_index_available = available, kx_coverage = coverage, kx_snapshot = snap\<rparr>)"

definition search_knowledge_from_view ::
  "read_env \<Rightarrow> WorkspaceView \<Rightarrow> SnapshotRead \<Rightarrow> KnowledgeSearchInput \<Rightarrow> KnowledgeSearchOutput read" where
  "search_knowledge_from_view env view snap inp =
     read_bind (Some (validated_search ''texo.knowledge.search'' (ks_query inp) (ks_limit inp))) (\<lambda>(query, limit).
       let identity = knowledge_search_identity (re_hash env) snap query inp in
       read_bind (Some (parse_knowledge_search_cursor (ks_cursor inp) identity)) (\<lambda>offset.
       read_bind (ranked_results env view snap query inp) (\<lambda>r.
         Some (Inr (search_page view snap identity offset limit r)))))"

section \<open>Explaining a claim\<close>

record ClaimExplainOutput =
  xo_card :: ClaimCard
  xo_timeline :: "TimelineEntry list"
  xo_answer_state :: AnswerState
  xo_evidence :: "ClaimEvidence list"
  xo_coverage :: KnowledgeCoverage
  xo_snapshot :: SnapshotRead

fun claim_event_of :: "domain_event \<Rightarrow> claim_event option" where
  "claim_event_of (EvClaimRecorded e) = Some (Recorded e)"
| "claim_event_of (EvClaimSuperseded e) = Some (SupersededBy e)"
| "claim_event_of _ = None"

text \<open>A stored event applied to the timeline; \<open>bad\<close> is what a payload that does not decode leaves.\<close>

definition timeline_entry ::
  "OpEnv \<Rightarrow> (TimelineEntry list \<Rightarrow> TimelineEntry list) \<Rightarrow> u64 \<Rightarrow> IndexEntry \<Rightarrow> TimelineEntry list \<Rightarrow> TimelineEntry list \<times> flow" where
  "timeline_entry env bad frontier e entries =
     (if frontier < ie_seq e then (entries, Break)
      else case jr_read (env_store env) (ie_id e) of
             Inl err \<Rightarrow> (entries, Fail (ErrStore err))
           | Inr (Undecodable _) \<Rightarrow> (bad entries, Next)
           | Inr (Payload ev) \<Rightarrow>
               (case claim_event_of ev of None \<Rightarrow> entries | Some c \<Rightarrow> timeline_step c entries, Next))"

definition claim_timeline_through ::
  "read_env \<Rightarrow> (TimelineEntry list \<Rightarrow> TimelineEntry list) \<Rightarrow> string \<Rightarrow> u64 \<Rightarrow> (TimelineEntry list, TexoError) result" where
  "claim_timeline_through env bad entity frontier =
     (case entries_loop (timeline_entry (re_env env) bad frontier) (re_entity_entries env entity) [] of
        (_, Fail err) \<Rightarrow> Inl err
      | (entries, _) \<Rightarrow> Inr entries)"

definition claim_explain ::
  "read_env \<Rightarrow> (TimelineEntry list \<Rightarrow> TimelineEntry list) \<Rightarrow> WorkspaceView \<Rightarrow> SnapshotRead \<Rightarrow> string \<Rightarrow> ClaimExplainOutput read" where
  "claim_explain env bad view snap claim_id =
     (let entity = entity_for_claim claim_id in
      read_bind (Some (ok_or (find_claim view claim_id) (ErrMissingEntity entity))) (\<lambda>found.
      read_bind (Some (claim_timeline_through env bad entity (wv_frontier view))) (\<lambda>timeline.
      read_bind (evidence_through (env_store (re_env env)) (env_workspace_id (re_env env)) (wv_frontier view)) (\<lambda>projection.
      read_bind (coverage_for_view (re_env env) view snap) (\<lambda>coverage.
        let evidence = fst (take_claim claim_id projection)
        in Some (Inr \<lparr>xo_card = cv_card found, xo_timeline = timeline,
             xo_answer_state = answer_state_for_claim (map_option cv_status (find_claim view claim_id)) evidence,
             xo_evidence = evidence, xo_coverage = coverage, xo_snapshot = snap\<rparr>))))))"

section \<open>Superseding a claim\<close>

record ClaimSupersedeInput =
  ui_old :: string
  ui_new :: string
  ui_reason :: string
  ui_decided_by :: string
  ui_observed_at_ms :: u64

record ClaimSupersedeOutput =
  uo_old :: string
  uo_new :: string
  uo_already_applied :: bool
  uo_receipt :: "ReceiptNote option"

fun claim_phase_name :: "u64 \<Rightarrow> string" where
  "claim_phase_name phase =
     (if phase = 0 then ''unrecorded'' else if phase = 1 then ''current'' else if phase = 2 then ''superseded'' else ''invalid'')"

definition superseded_event :: "(string \<Rightarrow> string) \<Rightarrow> string \<Rightarrow> ClaimSupersedeInput \<Rightarrow> ClaimSupersededV2" where
  "superseded_event B workspace_id inp =
     \<lparr>cs_old_claim_id = ui_old inp, cs_new_claim_id = ui_new inp, cs_workspace_id = workspace_id,
      cs_reason = ui_reason inp, cs_decided_by = ui_decided_by inp, cs_observed_at_ms = ui_observed_at_ms inp,
      cs_transition = transition_record B CLAIM_MACHINE (entity_for_claim (ui_old inp)) 1 2
        [\<lparr>cause_lane = 0, cause_key = ''claim:'' @ ui_new inp\<rparr>] (ui_observed_at_ms inp)\<rparr>"

type_synonym 's claim_project = "'s append_env \<Rightarrow> string \<Rightarrow> (ClaimCard option, TexoError) result"

definition supersede_done :: "ClaimSupersedeInput \<Rightarrow> ReceiptNote option \<Rightarrow> ClaimSupersedeOutput" where
  "supersede_done inp receipt =
     \<lparr>uo_old = ui_old inp, uo_new = ui_new inp, uo_already_applied = (receipt = None), uo_receipt = receipt\<rparr>"

definition already_superseded :: "ClaimSupersedeInput \<Rightarrow> ClaimCard \<Rightarrow> string" where
  "already_superseded inp c =
     ''claim '' @ ui_old inp @ '' is already '' @ claim_phase_name (cc_phase c) @
     (case cc_superseded_by c of None \<Rightarrow> [] | Some successor \<Rightarrow> '' by '' @ successor)"

definition claim_supersede ::
  "(string \<Rightarrow> string) \<Rightarrow> 's ctx \<Rightarrow> (domain_event \<Rightarrow> (string, string) result) \<Rightarrow> 's claim_project \<Rightarrow>
   ClaimSupersedeInput \<Rightarrow> ('s, ClaimSupersedeOutput) op" where
  "claim_supersede B cx enc project inp =
     (if ui_old inp = ui_new inp then op_fail (ErrOpInput ''texo.claim.supersede'' ''old and new claims must differ'')
      else op_bind (query_view ''texo.claim.supersede'' cx) (\<lambda>_.
           let old_entity = entity_for_claim (ui_old inp); new_entity = entity_for_claim (ui_new inp) in
           op_bind (\<lambda>env. (env, project env old_entity)) (\<lambda>old_found.
           op_bind (\<lambda>env. (env, project env new_entity)) (\<lambda>new_found.
           op_bind (\<lambda>env. (env, Inr (ap_workspace_id env))) (\<lambda>workspace_id.
           op_bind (op_lift (ok_or old_found (ErrMissingEntity old_entity))) (\<lambda>old_card.
           op_bind (op_lift (ok_or new_found (ErrMissingEntity new_entity))) (\<lambda>_.
           if cc_phase old_card = 2 \<and> cc_superseded_by old_card = Some (ui_new inp)
           then op_return (supersede_done inp None)
           else if cc_phase old_card \<noteq> 1
           then op_fail (ErrTransition CLAIM_MACHINE (cc_phase old_card) 2 (Some (already_superseded inp old_card)))
           else op_bind (append_json ''texo.claim.supersede'' cx enc (EvClaimSuperseded (superseded_event B workspace_id inp))) (\<lambda>_.
                op_bind (take_one_receipt ''texo.claim.supersede'') (\<lambda>r. op_return (supersede_done inp (Some r)))))))))))"

section \<open>Following the cursors\<close>

text \<open>What a client collects by following the cursors of a search.\<close>

inductive search_chain :: "(string option \<Rightarrow> KnowledgeSearchOutput read) \<Rightarrow> string option \<Rightarrow> KnowledgeSearchResult list \<Rightarrow> bool"
  for search where
  final: "search c = Some (Inr out) \<Longrightarrow> kx_next_cursor out = None \<Longrightarrow> search_chain search c (kx_results out)"
| more: "search c = Some (Inr out) \<Longrightarrow> kx_next_cursor out = Some c' \<Longrightarrow> search_chain search (Some c') rs \<Longrightarrow>
    search_chain search c (kx_results out @ rs)"

lemma chain_final:
  "search c = Some (Inr out) \<Longrightarrow> kx_next_cursor out = None \<Longrightarrow> search_chain search c rs \<longleftrightarrow> rs = kx_results out"
  by (subst search_chain.simps) auto

lemma chain_more:
  "search c = Some (Inr out) \<Longrightarrow> kx_next_cursor out = Some c' \<Longrightarrow>
     search_chain search c rs \<longleftrightarrow> (\<exists>rs'. rs = kx_results out @ rs' \<and> search_chain search (Some c') rs')"
  by (subst search_chain.simps) auto

lemma takeWhile_colon: "CHR '':'' \<notin> set i \<Longrightarrow> split_once (CHR '':'') (i @ CHR '':'' # n) = Some (i, n)"
  by (induction i) (simp_all add: split_once_def split: list.splits)

lemma strip_prefix_append: "strip_prefix p (p @ s) = Some s"
  by (simp add: strip_prefix_def starts_with_append)

lemma cursor_parses:
  assumes "CHR '':'' \<notin> set identity" "n \<le> u64_max"
  shows "parse_knowledge_search_cursor (Some (''texo-knowledge-v1:'' @ identity @ '':'' @ show_nat n)) identity = Inr n"
proof -
  have "Option.bind (strip_prefix ''texo-knowledge-v1:'' (''texo-knowledge-v1:'' @ identity @ CHR '':'' # show_nat n)) (split_once (CHR '':'')) =
      Some (identity, show_nat n)"
    unfolding strip_prefix_append by (simp add: takeWhile_colon [OF assms(1)])
  then show ?thesis using parse_u64_show [OF assms(2)] by (simp add: parse_knowledge_search_cursor_def ok_or_def)
qed

lemma cursor_refused:
  assumes "CHR '':'' \<notin> set i" "i \<noteq> identity"
  shows "parse_knowledge_search_cursor (Some (''texo-knowledge-v1:'' @ i @ '':'' @ n)) identity = Inl invalid_knowledge_cursor"
proof -
  have "Option.bind (strip_prefix ''texo-knowledge-v1:'' (''texo-knowledge-v1:'' @ i @ CHR '':'' # n)) (split_once (CHR '':'')) = Some (i, n)"
    unfolding strip_prefix_append by (simp add: takeWhile_colon [OF assms(1)])
  then show ?thesis using assms(2) by (simp add: parse_knowledge_search_cursor_def)
qed

lemma identity_no_colon: "blake3_hex B \<Longrightarrow> CHR '':'' \<notin> set (knowledge_search_identity B snap query inp)"
proof -
  assume "blake3_hex B"
  moreover have "\<not> is_lower_hex (CHR '':'')" by code_simp
  ultimately show ?thesis by (auto simp: knowledge_search_identity_def blake3_hex_def dest: in_set_takeD)
qed

lemma search_pages:
  assumes "validated_search ''texo.knowledge.search'' (ks_query inp) (ks_limit inp) = Inr (query, limit)"
    and "ranked_results env view snap query inp = Some (Inr r)"
    and "parse_knowledge_search_cursor c (knowledge_search_identity (re_hash env) snap query inp) = Inr offset"
  shows "search_knowledge_from_view env view snap (inp\<lparr>ks_cursor := c\<rparr>) =
    Some (Inr (search_page view snap (knowledge_search_identity (re_hash env) snap query inp) offset limit r))"
proof -
  have same: "knowledge_search_identity (re_hash env) snap query (inp\<lparr>ks_cursor := c\<rparr>) = knowledge_search_identity (re_hash env) snap query inp"
    "ranked_results env view snap query (inp\<lparr>ks_cursor := c\<rparr>) = ranked_results env view snap query inp"
    by (simp_all add: knowledge_search_identity_def ranked_results_def search_code_searched_def)
  show ?thesis using assms by (simp add: search_knowledge_from_view_def same Let_def)
qed

lemma search_refused:
  assumes "validated_search ''texo.knowledge.search'' (ks_query inp) (ks_limit inp) = Inr (query, limit)"
    and "parse_knowledge_search_cursor c (knowledge_search_identity (re_hash env) snap query inp) = Inl err"
  shows "search_knowledge_from_view env view snap (inp\<lparr>ks_cursor := c\<rparr>) = Some (Inl err)"
proof -
  have same: "knowledge_search_identity (re_hash env) snap query (inp\<lparr>ks_cursor := c\<rparr>) = knowledge_search_identity (re_hash env) snap query inp"
    by (simp add: knowledge_search_identity_def)
  show ?thesis using assms by (simp add: search_knowledge_from_view_def same Let_def)
qed

lemma page_chain:
  assumes search: "\<And>c offset. parse_knowledge_search_cursor c identity = Inr offset \<Longrightarrow>
      search c = Some (Inr (search_page view snap identity offset limit (ranked, available, coverage)))"
    and identity: "CHR '':'' \<notin> set identity" and limit: "1 \<le> limit" and len: "length ranked \<le> u64_max"
  shows "parse_knowledge_search_cursor c identity = Inr offset \<Longrightarrow> offset \<le> length ranked \<Longrightarrow>
    search_chain search c rs \<longleftrightarrow> rs = map rk_result (drop offset ranked)"
proof (induction "length ranked - offset" arbitrary: c offset rs rule: less_induct)
  case less
  let ?out = "search_page view snap identity offset limit (ranked, available, coverage)"
  let ?next = "offset + length (take limit (drop offset ranked))"
  have out: "search c = Some (Inr ?out)" by (rule search [OF less.prems(1)])
  have next_le: "?next \<le> length ranked" using less.prems(2) by simp
  then have sat: "sat_add64 offset (length (take limit (drop offset ranked))) = ?next" using len by (simp add: sat_add64_def)
  have res: "kx_results ?out = map rk_result (take limit (drop offset ranked))" by (simp add: search_page_def Let_def)
  have cur: "kx_next_cursor ?out =
      (if ?next < length ranked then Some (''texo-knowledge-v1:'' @ identity @ '':'' @ show_nat ?next) else None)"
    by (simp add: search_page_def Let_def sat del: length_take length_drop)
  show ?case
  proof (cases "?next < length ranked")
    case False
    then have all: "take limit (drop offset ranked) = drop offset ranked" using next_le by simp
    from cur False have none: "kx_next_cursor ?out = None" by simp
    show ?thesis unfolding chain_final [where search = search, OF out none] res all ..
  next
    case True
    let ?c = "''texo-knowledge-v1:'' @ identity @ '':'' @ show_nat ?next"
    have parsed: "parse_knowledge_search_cursor (Some ?c) identity = Inr ?next"
      by (rule cursor_parses [OF identity]) (use True len in simp)
    have smaller: "length ranked - ?next < length ranked - offset" using True limit less.prems(2) by simp
    have chain: "search_chain search (Some ?c) rs \<longleftrightarrow> rs = map rk_result (drop ?next ranked)" for rs
      by (rule less.hyps [OF smaller parsed next_le])
    have split: "map rk_result (take limit (drop offset ranked)) @ map rk_result (drop ?next ranked) = map rk_result (drop offset ranked)"
      using True by (simp flip: map_append) (metis add.commute append_take_drop_id drop_drop less_or_eq_imp_le min.absorb1 nat_add_left_cancel_less not_less)
    from cur True have "kx_next_cursor ?out = Some ?c" by (simp only: if_True)
    from chain_more [where search = search, OF out this] have "search_chain search c rs \<longleftrightarrow>
      rs = map rk_result (take limit (drop offset ranked)) @ map rk_result (drop ?next ranked)" unfolding chain res by blast
    then show ?thesis unfolding split .
  qed
qed

text \<open>What a search finds: the claims and the code occurrences that have a rank for the query, not yet in order.\<close>

definition found_results ::
  "KnowledgeSearchInput \<Rightarrow> AgentClaimRow list \<Rightarrow> CodeIndexArtifact option \<Rightarrow> RankedKnowledgeResult list" where
  "found_results inp rows artifact =
     (let query = to_ascii_lowercase (or_empty (ks_query inp)) in
      List.map_filter (ranked_claim query) (filter (status_ok (ks_status inp)) rows) @
      (case artifact of None \<Rightarrow> [] | Some a \<Rightarrow> List.map_filter (ranked_code query) (art_occurrences a)))"

lemma ranked_found:
  assumes "ranked_results env view snap (or_empty (ks_query inp)) inp = Some (Inr (ranked, available, coverage))"
  obtains rows loaded where "claim_list_rows env view (ks_subject inp) = Inr rows"
    "searched_code env view snap (search_code_searched inp) = Some (Inr loaded)"
    "mset ranked = mset (found_results inp rows (la_artifact loaded))"
  using assms by (auto simp: ranked_results_def found_results_def read_bind_Inr Let_def)


section \<open>A claim is superseded once\<close>

text \<open>
  What is relied on of the projection: the supersession has not been committed before, so that after its
  append the old card is the card with that event applied, and the successor is still recorded.
\<close>

definition claim_refolds ::
  "(string \<Rightarrow> string) \<Rightarrow> 's ctx \<Rightarrow> (domain_event \<Rightarrow> (string, string) result) \<Rightarrow> 's claim_project \<Rightarrow>
   's append_env \<Rightarrow> ClaimSupersedeInput \<Rightarrow> bool" where
  "claim_refolds B cx enc project env inp \<longleftrightarrow>
     (\<forall>op env' c d. project env (entity_for_claim (ui_old inp)) = Inr (Some c) \<longrightarrow>
        project env (entity_for_claim (ui_new inp)) = Inr (Some d) \<longrightarrow>
        append_json op cx enc (EvClaimSuperseded (superseded_event B (ap_workspace_id env) inp)) env = (env', Inr ()) \<longrightarrow>
        project (env'\<lparr>ap_receipts := []\<rparr>) (entity_for_claim (ui_old inp)) =
          Inr (Some (claim_on_superseded (superseded_event B (ap_workspace_id env) inp) c)) \<and>
        project (env'\<lparr>ap_receipts := []\<rparr>) (entity_for_claim (ui_new inp)) = Inr (Some d))"

lemma supersede_fresh:
  assumes "claim_supersede B cx enc project inp env = (env', Inr out)" "\<not> uo_already_applied out" "forwards ex api cx"
  obtains c d env1 r where
    "project env (entity_for_claim (ui_old inp)) = Inr (Some c)" "cc_phase c = 1" "ui_old inp \<noteq> ui_new inp"
    "project env (entity_for_claim (ui_new inp)) = Inr (Some d)"
    "append_json ''texo.claim.supersede'' cx enc (EvClaimSuperseded (superseded_event B (ap_workspace_id env) inp)) env = (env1, Inr ())"
    "rn_kind_bits r = KClaimSuperseded" "env' = env1\<lparr>ap_receipts := []\<rparr>" "out = supersede_done inp (Some r)"
proof -
  obtain c d env1 where c: "project env (entity_for_claim (ui_old inp)) = Inr (Some c)" "cc_phase c = 1" "ui_old inp \<noteq> ui_new inp"
      "project env (entity_for_claim (ui_new inp)) = Inr (Some d)"
      "append_json ''texo.claim.supersede'' cx enc (EvClaimSuperseded (superseded_event B (ap_workspace_id env) inp)) env = (env1, Inr ())"
    and rest: "op_bind (take_one_receipt ''texo.claim.supersede'') (\<lambda>r. op_return (supersede_done inp (Some r))) env1 = (env', Inr out)"
    using assms(1,2)
    by (auto simp: claim_supersede_def supersede_done_def query_view_def op_bind_Inr op_defs Let_def ok_or_eq_Inr split: if_splits)
  obtain r where r: "ap_receipts env1 = ap_receipts env @ [r]" "rn_kind_bits r = KClaimSuperseded"
    using append_json_receipt [OF c(5) assms(3)] by auto
  have "env' = env1\<lparr>ap_receipts := []\<rparr>" "out = supersede_done inp (Some r)"
    using rest by (auto simp: op_bind_def take_one_after [OF r(1)] op_return_def)
  with c r(2) show thesis by (rule that)
qed

text \<open>
  C26: A claim is superseded once.  When a manual supersession of a clean claim is appended, the claim was
  current, one receipt is returned, and from then on the same supersession is answered as already applied
  without an append, while any other recorded successor is refused as an illegal transition.
\<close>

theorem claim_supersede_once:
  assumes ctx: "forwards ex api cx" "claim_refolds B cx enc project env inp" "\<And>env q. cx_query cx env q = Inr ()"
    and clean: "\<And>c. project env (entity_for_claim (ui_old inp)) = Inr (Some c) \<Longrightarrow> claim_wf c \<and> cc_anomalies c = []"
    and first: "claim_supersede B cx enc project inp env = (env', Inr out)" "\<not> uo_already_applied out"
    and again: "ui_old inp' = ui_old inp" "ui_new inp' \<noteq> ui_old inp"
      "ui_new inp' = ui_new inp \<or> (\<exists>d. project env' (entity_for_claim (ui_new inp')) = Inr (Some d))"
  shows "(\<exists>c. project env (entity_for_claim (ui_old inp)) = Inr (Some c) \<and> cc_phase c = 1) \<and> uo_receipt out \<noteq> None \<and>
      (if ui_new inp' = ui_new inp
       then claim_supersede B cx enc project inp' env' = (env', Inr (supersede_done inp None))
       else \<exists>reason. claim_supersede B cx enc project inp' env' = (env', Inl (ErrTransition CLAIM_MACHINE 2 2 (Some reason))))"
proof -
  obtain c d env1 r where c: "project env (entity_for_claim (ui_old inp)) = Inr (Some c)" "cc_phase c = 1" "ui_old inp \<noteq> ui_new inp"
    and d: "project env (entity_for_claim (ui_new inp)) = Inr (Some d)"
    and app: "append_json ''texo.claim.supersede'' cx enc (EvClaimSuperseded (superseded_event B (ap_workspace_id env) inp)) env = (env1, Inr ())"
    and env': "env' = env1\<lparr>ap_receipts := []\<rparr>" and out: "out = supersede_done inp (Some r)"
    by (rule supersede_fresh [OF first ctx(1)])
  let ?c = "claim_on_superseded (superseded_event B (ap_workspace_id env) inp) c"
  have proj: "project env' (entity_for_claim (ui_old inp)) = Inr (Some ?c)"
    "project env' (entity_for_claim (ui_new inp)) = Inr (Some d)"
    using ctx(2) [unfolded claim_refolds_def, rule_format, OF c(1) d app] by (simp_all add: env')
  have "cc_superseded_by c = None" using clean [OF c(1)] c(2) by (auto simp: claim_wf_def)
  then have card: "cc_phase ?c = 2" "cc_superseded_by ?c = Some (ui_new inp)"
    using c(2) by (simp_all add: claim_on_superseded_def superseded_event_def Let_def)
  obtain d' where d': "project env' (entity_for_claim (ui_new inp')) = Inr (Some d')" using again(3) proj(2) by auto
  have run: "claim_supersede B cx enc project inp' env' =
      (if ui_new inp' = ui_new inp then (env', Inr (supersede_done inp' None))
       else (env', Inl (ErrTransition CLAIM_MACHINE 2 2 (Some (already_superseded inp' ?c)))))"
    using again(1,2) d' proj(1) card
    by (auto simp: claim_supersede_def query_view_def ctx(3) op_bind_def op_defs ok_or_def Let_def)
  have "ui_new inp' = ui_new inp \<Longrightarrow> supersede_done inp' None = supersede_done inp None"
    using again(1) by (simp add: supersede_done_def)
  then show ?thesis using c run by (simp add: out supersede_done_def)
qed

section \<open>An instance\<close>

fun claim_payload :: "domain_event \<Rightarrow> ClaimCard \<Rightarrow> ClaimCard" where
  "claim_payload (EvClaimRecorded e) c = claim_on_recorded e c"
| "claim_payload (EvClaimSuperseded e) c = claim_on_superseded e c"
| "claim_payload _ c = c"

definition memory_claims :: "memory_store claim_project" where
  "memory_claims env entity =
     (case js_read (map (snd \<circ> snd) \<circ> filter (\<lambda>row. fst row = entity)) (ap_store env) of
        [] \<Rightarrow> Inr None
      | evs \<Rightarrow> Inr (Some (foldl (\<lambda>c ev. claim_payload ev c) claim_card_default evs)))"

definition demo_supersession :: "string \<Rightarrow> ClaimSupersedeInput" where
  "demo_supersession n = \<lparr>ui_old = ''a'', ui_new = n, ui_reason = ''newer'', ui_decided_by = ''me'', ui_observed_at_ms = 2\<rparr>"

definition demo_superseded :: ClaimSupersededV2 where
  "demo_superseded = superseded_event id ''demo'' (demo_supersession ''b'')"

definition supersede_externals :: "string externals" where
  "supersede_externals = demo_externals\<lparr>ex_decode := (\<lambda>k b. Inr (EvClaimSuperseded demo_superseded))\<rparr>"

definition claim_rows :: "(string \<times> IndexEntry \<times> domain_event) list" where
  "claim_rows = map (\<lambda>(n, i). (''claim:'' @ i, demo_entry n i, EvClaimRecorded (Views.demo_claim i))) [(1, ''a''), (2, ''b''), (3, ''c'')]"

definition superseded_row :: "string \<times> IndexEntry \<times> domain_event" where
  "superseded_row = (''claim:a'', \<lparr>ie_seq = 4, ie_entity = ''claim:a'', ie_kind = KClaimSuperseded, ie_id = length ''demoab''\<rparr>,
     EvClaimSuperseded demo_superseded)"

definition demo_claims_env :: "memory_store append_env" where
  "demo_claims_env = \<lparr>ap_store = Writable claim_rows, ap_workspace_id = ''demo'', ap_receipts = []\<rparr>"

definition demo_claims_after :: "memory_store append_env" where
  "demo_claims_after = \<lparr>ap_store = Writable (claim_rows @ [superseded_row]), ap_workspace_id = ''demo'',
     ap_receipts = [\<lparr>rn_event_id_hex = hex_pad 32 (length ''demoab''), rn_kind_bits = KClaimSuperseded, rn_global_sequence = 4\<rparr>]\<rparr>"

lemma demo_superseded_fields:
  "cs_old_claim_id demo_superseded = ''a''" "cs_new_claim_id demo_superseded = ''b''" "cs_workspace_id demo_superseded = ''demo''"
  by (simp_all add: demo_superseded_def superseded_event_def demo_supersession_def)

lemma demo_supersede_memory:
  "memory_append claim_rows ''claim:a'' (EvClaimSuperseded demo_superseded) (keyed (length ''demoab'')) =
   Inr (\<lparr>ar_event_id = length ''demoab'', ar_global_sequence = 4\<rparr>, claim_rows @ [superseded_row])"
  by (simp add: memory_append_def memory_find_def u128_max_def keyed_def claim_rows_def superseded_row_def demo_entry_def Let_def)

lemma demo_supersede_event:
  "append_event (EvClaimSuperseded demo_superseded) supersede_externals memory_api demo_claims_env =
   Inr (\<lparr>ar_event_id = length ''demoab'', ar_global_sequence = 4\<rparr>, ap_store demo_claims_after)"
  using demo_supersede_memory
  by (simp add: append_claim_superseded_def demo_superseded_fields supersede_externals_def demo_externals_def
      coordinate_def coordinate_for_claim_def entity_for_claim_def append_with_key_def place_def
      append_typed_with_options_def demo_claims_env_def demo_claims_after_def memory_api_def supersede_claim_def)

lemma demo_append_superseded:
  "append_domain_event supersede_externals memory_api demo_claims_env KClaimSuperseded [] = (demo_claims_after, Inr ())"
proof -
  have "policy_append KClaimSuperseded [] supersede_externals memory_api demo_claims_env =
      Inr (\<lparr>ar_event_id = length ''demoab'', ar_global_sequence = 4\<rparr>, ap_store demo_claims_after)"
    using demo_supersede_event by (simp add: policy_append_def APPEND_POLICIES_def supersede_externals_def del: append_event.simps)
  then show ?thesis
    by (simp add: append_domain_event_def verify_and_note_def demo_claims_after_def demo_claims_env_def memory_api_def)
qed

lemma demo_claims_project:
  "memory_claims demo_claims_env ''claim:a'' = Inr (Some (claim_on_recorded (Views.demo_claim ''a'') claim_card_default))"
  "memory_claims demo_claims_env ''claim:b'' = Inr (Some (claim_on_recorded (Views.demo_claim ''b'') claim_card_default))"
  "memory_claims (demo_claims_after\<lparr>ap_receipts := []\<rparr>) ''claim:a'' =
     Inr (Some (claim_on_superseded demo_superseded (claim_on_recorded (Views.demo_claim ''a'') claim_card_default)))"
  "memory_claims (demo_claims_after\<lparr>ap_receipts := []\<rparr>) ''claim:b'' = Inr (Some (claim_on_recorded (Views.demo_claim ''b'') claim_card_default))"
  "memory_claims (demo_claims_after\<lparr>ap_receipts := []\<rparr>) ''claim:c'' = Inr (Some (claim_on_recorded (Views.demo_claim ''c'') claim_card_default))"
  by (simp_all add: memory_claims_def demo_claims_env_def demo_claims_after_def claim_rows_def superseded_row_def)

theorem claim_supersede_once_witness:
  "\<exists>reason. claim_supersede id (backend_ctx supersede_externals memory_api) (\<lambda>_. Inr []) memory_claims
       (demo_supersession ''c'') (demo_claims_after\<lparr>ap_receipts := []\<rparr>) =
     (demo_claims_after\<lparr>ap_receipts := []\<rparr>, Inl (ErrTransition CLAIM_MACHINE 2 2 (Some reason)))"
proof -
  let ?cx = "backend_ctx supersede_externals memory_api" and ?i = "demo_supersession ''b''"
  let ?c = "claim_on_recorded (Views.demo_claim ''a'') claim_card_default"
  have ids: "ui_old (demo_supersession n) = ''a''" "ui_new (demo_supersession n) = n" "ap_workspace_id demo_claims_env = ''demo''" for n
    by (simp_all add: demo_supersession_def demo_claims_env_def)
  have ent: "entity_for_claim i = ''claim:'' @ i" for i by (simp add: entity_for_claim_def)
  have app: "append_json op ?cx (\<lambda>_. Inr []) (EvClaimSuperseded (superseded_event id ''demo'' ?i)) demo_claims_env = (demo_claims_after, Inr ())" for op
    using demo_append_superseded by (simp add: append_json_def backend_ctx_def demo_superseded_def)
  have phase: "cc_phase ?c = 1" "claim_wf ?c" "cc_anomalies ?c = []"
    by (simp_all add: claim_on_recorded_def claim_card_default_def claim_wf_def)
  obtain r where first: "claim_supersede id ?cx (\<lambda>_. Inr []) memory_claims ?i demo_claims_env =
      (demo_claims_after\<lparr>ap_receipts := []\<rparr>, Inr (supersede_done ?i (Some r)))"
    using app phase(1)
    by (simp add: claim_supersede_def query_view_def op_bind_def op_defs ids ent demo_claims_project ok_or_def Let_def
        take_one_receipt_def take_receipts_def backend_ctx_def demo_claims_after_def)
  have refolds: "claim_refolds id ?cx (\<lambda>_. Inr []) memory_claims demo_claims_env ?i"
    unfolding claim_refolds_def ids ent using app demo_claims_project by (auto simp: demo_superseded_def)
  from claim_supersede_once [OF backend_forwards refolds _ _ first, of "demo_supersession ''c''"] phase demo_claims_project
  show ?thesis by (auto simp: ids ent backend_ctx_def supersede_done_def)
qed

section \<open>A search of two pages\<close>

definition demo_search_env :: "PreparedCodeIndex \<Rightarrow> read_env" where
  "demo_search_env p = (demo_read_env p)\<lparr>re_hash := zero_hash, re_scope_entries := [demo_entry 1 ''a'', demo_entry 2 ''b'']\<rparr>"

definition demo_search_view :: WorkspaceView where
  "demo_search_view = demo_read_view\<lparr>wv_claims :=
     map (\<lambda>i. \<lparr>cv_card = claim_on_recorded (Views.demo_claim i) claim_card_default, cv_status = StCurrent, cv_supersedes = []\<rparr>) [''a'', ''b'']\<rparr>"

definition demo_plain_snapshot :: SnapshotRead where
  "demo_plain_snapshot = demo_read_snapshot\<lparr>sr_descriptor := (sr_descriptor demo_read_snapshot)\<lparr>sd_source_snapshot_id := None\<rparr>\<rparr>"

definition demo_search :: KnowledgeSearchInput where
  "demo_search = \<lparr>ks_query = None, ks_subject = None, ks_status = None, ks_limit = Some 1, ks_cursor = None\<rparr>"

lemma demo_search_rows:
  obtains r1 r2 where "claim_list_rows (demo_search_env p) demo_search_view None = Inr [r1, r2]"
  by (simp add: claim_list_rows_def demo_search_view_def demo_search_env_def claim_record_receipts_def demo_entry_def starts_with_def
      bt_or_insert_def push_claim_row_def claim_on_recorded_def Views.demo_claim_def claim_card_default_def Let_def)

lemma demo_search_runs:
  "\<exists>out. search_knowledge_from_view (demo_search_env p) demo_search_view demo_plain_snapshot demo_search = Some (Inr out) \<and> kx_total out = 2"
proof -
  obtain r1 r2 where rows: "claim_list_rows (demo_search_env p) demo_search_view None = Inr [r1, r2]" by (rule demo_search_rows)
  have e: "re_env (demo_search_env p) = re_env (demo_read_env p)" by (simp add: demo_search_env_def)
  have v: "wv_frontier demo_search_view = 2" by (simp add: demo_search_view_def demo_read_view_def)
  have coverage: "coverage_for_view (re_env (demo_search_env p)) demo_search_view demo_plain_snapshot = Some (Inr (uncovered demo_search_view))"
    by (simp add: coverage_for_view_def e v demo_reads_index)
  have code: "searched_code (demo_search_env p) demo_search_view demo_plain_snapshot True =
      Some (Inr \<lparr>la_artifact = None, la_coverage = None, la_unavailable = True\<rparr>)"
    by (simp add: searched_code_def demo_plain_snapshot_def Let_def)
  have i: "ks_subject demo_search = None" "ks_status demo_search = None" "ks_cursor demo_search = None" "ks_query demo_search = None"
    "ks_limit demo_search = Some (Suc 0)" by (simp_all add: demo_search_def)
  obtain ranked rest where r: "ranked_results (demo_search_env p) demo_search_view demo_plain_snapshot [] demo_search = Some (Inr (ranked, rest))"
    "length ranked = 2"
    by (simp add: ranked_results_def i rows coverage code search_code_searched_def status_ok_def ranked_claim_def claim_search_rank_def
        to_ascii_lowercase_def map_filter_simps Let_def)
  have valid: "validated_search ''texo.knowledge.search'' None (Some (Suc 0)) = Inr ([], Suc 0)" by (simp add: validated_search_def or_empty_def)
  show ?thesis
    using r by (cases rest) (simp add: search_knowledge_from_view_def i valid parse_knowledge_search_cursor_def search_page_def Let_def)
qed


end
