(* ===== verification/Ingest.thy ===== *)
theory Ingest
  imports Supersession Convergence CodeIndex
begin

text \<open>
  Ingestion (\<open>src/ops/handlers/ingest.rs\<close>): discovered documents are planned into source and claim events,
  the events are appended, explicit replacements are settled and the failures of single sources are reported.
  The file system, the confined extractor command, JSON and the rendering of library errors are fields of
  \<open>ingest_env\<close>; the timings are left out.
\<close>

section \<open>Plans\<close>

datatype SourceFailureCode = FailUtf8 | FailIo

datatype IngestCompletion = IngestComplete | IngestPartial

record SourceSkipRow =
  sk_path :: string
  sk_code :: SourceFailureCode
  sk_detail :: string

record PlannedSource =
  pl_observed :: SourceObservedV2
  pl_claims :: "ClaimRecordedV2 list"

record SourcePlan =
  sp_sources :: "PlannedSource list"
  sp_skipped :: "SourceSkipRow list"
  sp_empty :: bool
  sp_succeeded :: nat

record CmdClaimLine =
  cm_line_start :: u32
  cm_text :: string
  cm_normalized_text :: string
  cm_subject_hint :: "string option"
  cm_predicate_hint :: "string option"
  cm_object_hint :: "string option"
  cm_confidence_ppm :: u32
  cm_char_start :: "u32 option"
  cm_char_end :: "u32 option"
  cm_extractor_model :: "string option"
  cm_prompt_version :: "string option"

record ingest_env =
  in_hash :: "string \<Rightarrow> string"
  in_utf8 :: "string \<Rightarrow> bool"
  in_utf8_error :: "string \<Rightarrow> string"
  in_describe :: "SourceError \<Rightarrow> string"
  in_exists :: "string \<Rightarrow> bool"
  in_is_file :: "string \<Rightarrow> bool"
  in_walk :: "string \<Rightarrow> walk_item list"
  in_read :: "string \<Rightarrow> (string, string) result"
  in_extract :: "string \<Rightarrow> string \<Rightarrow> (string, string) result"
  in_parse_line :: "string \<Rightarrow> (CmdClaimLine, string) result"
  in_rows_json :: "SourceSkipRow list \<Rightarrow> (string, string) result"
  in_store_file :: "string \<Rightarrow> string \<Rightarrow> (unit, string) result"

definition MAX_INLINE_SOURCE_FAILURES :: nat where
  "MAX_INLINE_SOURCE_FAILURES = 256"

definition MAX_SOURCE_FAILURE_DETAIL_CHARS :: nat where
  "MAX_SOURCE_FAILURE_DETAIL_CHARS = 512"

definition saturating_u32 :: "nat \<Rightarrow> u32" where
  "saturating_u32 n = u32_try n"

definition resolve_path :: "string \<Rightarrow> string \<Rightarrow> string" where
  "resolve_path dir path = (if starts_with path ''/'' then path else dir @ ''/'' @ path)"

text \<open>\<open>chars().take(n)\<close> of a string of bytes: continuation bytes belong to the character before them.\<close>

fun take_chars :: "nat \<Rightarrow> string \<Rightarrow> string" where
  "take_chars n [] = []"
| "take_chars n (c # cs) =
     (if 128 \<le> code c \<and> code c < 192 then c # take_chars n cs
      else case n of 0 \<Rightarrow> [] | Suc m \<Rightarrow> c # take_chars m cs)"

definition bounded_source_detail :: "string \<Rightarrow> string" where
  "bounded_source_detail detail = take_chars MAX_SOURCE_FAILURE_DETAIL_CHARS detail"

section \<open>Extraction\<close>

definition heuristic_claim ::
  "(string \<Rightarrow> string) \<Rightarrow> MarkdownDocument \<Rightarrow> string \<Rightarrow> u64 \<Rightarrow> SourceId \<Rightarrow> MarkdownLine \<Rightarrow> ClaimRecordedV2 option" where
  "heuristic_claim B doc workspace_id observed source_id line =
     (let normalized = normalize_line (ml_text line) in
      map_option (\<lambda>hints.
        \<lparr>cr_claim_id = claim_str (claim_id_from_parts B source_id (ml_number line) normalized), cr_workspace_id = workspace_id,
         cr_source_id = md_source_id doc, cr_source_path = md_path doc, cr_line_start = ml_number line, cr_line_end = ml_number line,
         cr_char_start = saturating_u32 (ml_char_start line),
         cr_char_end = saturating_u32 (ml_char_start line + length (ml_text line)), cr_text = ml_text line,
         cr_normalized_text = normalized, cr_subject_hint = Some (ch_subject_hint hints),
         cr_predicate_hint = Some (ch_predicate_hint hints), cr_object_hint = Some (ch_object_hint hints),
         cr_confidence_ppm = ch_confidence_ppm hints, cr_extractor_kind = ''heuristic-v1'', cr_extractor_model = [],
         cr_prompt_version = [], cr_observed_at_ms = observed\<rparr>)
       (hints_from_line_normalized (ml_text line) normalized))"

definition extract_heuristic_claims ::
  "(string \<Rightarrow> string) \<Rightarrow> MarkdownDocument \<Rightarrow> string \<Rightarrow> u64 \<Rightarrow> (ClaimRecordedV2 list, TexoError) result" where
  "extract_heuristic_claims B doc workspace_id observed =
     res_bind (map_sum ErrIdParse id (source_id_try_from (md_source_id doc))) (\<lambda>source_id.
       Inr (List.map_filter (heuristic_claim B doc workspace_id observed source_id) (md_lines doc)))"

text \<open>\<open>str::lines\<close> numbered from one.\<close>

definition numbered_lines :: "string \<Rightarrow> (nat \<times> string) list" where
  "numbered_lines s = zip [1..<Suc (length (split_inclusive s))] (map strip_terminator (split_inclusive s))"

definition cmd_claim ::
  "(string \<Rightarrow> string) \<Rightarrow> MarkdownDocument \<Rightarrow> string \<Rightarrow> u64 \<Rightarrow> SourceId \<Rightarrow> CmdClaimLine \<Rightarrow> ClaimRecordedV2" where
  "cmd_claim B doc workspace_id observed source_id c =
     \<lparr>cr_claim_id = claim_str (claim_id_from_parts B source_id (cm_line_start c) (cm_normalized_text c)),
      cr_workspace_id = workspace_id, cr_source_id = md_source_id doc, cr_source_path = md_path doc,
      cr_line_start = cm_line_start c, cr_line_end = cm_line_start c,
      cr_char_start = (case cm_char_start c of None \<Rightarrow> 0 | Some n \<Rightarrow> n), cr_char_end = (case cm_char_end c of None \<Rightarrow> 0 | Some n \<Rightarrow> n),
      cr_text = cm_text c, cr_normalized_text = cm_normalized_text c, cr_subject_hint = cm_subject_hint c,
      cr_predicate_hint = cm_predicate_hint c, cr_object_hint = cm_object_hint c, cr_confidence_ppm = cm_confidence_ppm c,
      cr_extractor_kind = ''extractor-cmd'', cr_extractor_model = or_empty (cm_extractor_model c),
      cr_prompt_version = or_empty (cm_prompt_version c), cr_observed_at_ms = observed\<rparr>"

definition cmd_line ::
  "ingest_env \<Rightarrow> string \<Rightarrow> (CmdClaimLine \<Rightarrow> ClaimRecordedV2) \<Rightarrow> nat \<times> string \<Rightarrow> ClaimRecordedV2 list \<Rightarrow>
   (ClaimRecordedV2 list, TexoError) result" where
  "cmd_line ie op claim numbered claims =
     (case numbered of (n, line) \<Rightarrow>
       if trim line = [] then Inr claims
       else res_bind (map_sum (\<lambda>e. ErrExtract (op @ '': extractor line '' @ show_nat n @ '' json error: '' @ e)) id
                        (in_parse_line ie line)) (\<lambda>parsed. Inr (claims @ [claim parsed])))"

definition extract_cmd_claims ::
  "ingest_env \<Rightarrow> string \<Rightarrow> string \<Rightarrow> string \<Rightarrow> MarkdownDocument \<Rightarrow> string \<Rightarrow> u64 \<Rightarrow> (ClaimRecordedV2 list, TexoError) result" where
  "extract_cmd_claims ie op cmd path doc workspace_id observed =
     res_bind (map_sum (\<lambda>e. ErrExtract (op @ '': confined extractor failed: '' @ e)) id (in_extract ie cmd path)) (\<lambda>out.
     if \<not> in_utf8 ie out then Inl (ErrExtract (op @ '': extractor stdout was not utf-8: '' @ in_utf8_error ie out))
     else res_bind (map_sum ErrIdParse id (source_id_try_from (md_source_id doc))) (\<lambda>source_id.
       res_fold (cmd_line ie op (cmd_claim (in_hash ie) doc workspace_id observed source_id)) (numbered_lines out) []))"

section \<open>Planning\<close>

record plan_state =
  ps_hashes :: "string list"
  ps_planned :: "PlannedSource list"
  ps_skipped :: "SourceSkipRow list"
  ps_succeeded :: nat

definition failure_row :: "DiscoveryFailure \<Rightarrow> SourceSkipRow" where
  "failure_row f = \<lparr>sk_path = df_path f, sk_code = FailIo, sk_detail = bounded_source_detail (df_error f)\<rparr>"

definition error_row :: "ingest_env \<Rightarrow> string \<Rightarrow> SourceError \<Rightarrow> SourceSkipRow" where
  "error_row ie path e =
     \<lparr>sk_path = path, sk_code = (case e of SrcUtf8 \<Rightarrow> FailUtf8 | _ \<Rightarrow> FailIo), sk_detail = bounded_source_detail (in_describe ie e)\<rparr>"

definition observed_source :: "MarkdownDocument \<Rightarrow> string \<Rightarrow> u64 \<Rightarrow> SourceObservedV2" where
  "observed_source doc workspace_id observed =
     \<lparr>so_source_id = md_source_id doc, so_workspace_id = workspace_id, so_source_kind = ''markdown'', so_path = md_path doc,
      so_body_hash_hex = md_body_hash_hex doc, so_observed_at_ms = observed\<rparr>"

definition extract_claims ::
  "ingest_env \<Rightarrow> string \<Rightarrow> string option \<Rightarrow> string \<Rightarrow> MarkdownDocument \<Rightarrow> string \<Rightarrow> u64 \<Rightarrow> (ClaimRecordedV2 list, TexoError) result" where
  "extract_claims ie op extractor path doc workspace_id observed =
     (case extractor of
        Some cmd \<Rightarrow> extract_cmd_claims ie op cmd path doc workspace_id observed
      | None \<Rightarrow> extract_heuristic_claims (in_hash ie) doc workspace_id observed)"

definition plan_file ::
  "ingest_env \<Rightarrow> string \<Rightarrow> string \<Rightarrow> string \<Rightarrow> u64 \<Rightarrow> string option \<Rightarrow> string set \<Rightarrow> string \<Rightarrow> plan_state \<Rightarrow>
   (plan_state, TexoError) result" where
  "plan_file ie op dir workspace_id observed extractor existing path s =
     (case document_from_path (in_hash ie) (in_utf8 ie) (in_read ie) dir path of
        Inl e \<Rightarrow> Inr (s\<lparr>ps_skipped := ps_skipped s @ [error_row ie path e]\<rparr>)
      | Inr doc \<Rightarrow>
          let s = s\<lparr>ps_succeeded := Suc (ps_succeeded s)\<rparr>; hash = md_body_hash_hex doc in
          if hash \<in> existing \<or> hash \<in> set (ps_hashes s) then Inr s
          else res_bind (extract_claims ie op extractor path doc workspace_id observed) (\<lambda>claims.
                 Inr (s\<lparr>ps_hashes := hash # ps_hashes s,
                        ps_planned := ps_planned s @ [\<lparr>pl_observed = observed_source doc workspace_id observed, pl_claims = claims\<rparr>]\<rparr>)))"

definition existing_hashes :: "WorkspaceView \<Rightarrow> string set" where
  "existing_hashes view = sc_body_hash_hex ` set (wv_sources view)"

definition discover :: "ingest_env \<Rightarrow> string \<Rightarrow> (MarkdownDiscovery, TexoError) result" where
  "discover ie path =
     map_sum (\<lambda>e. ErrSource path (in_describe ie e)) id (collect_markdown_files (in_exists ie) (in_is_file ie) (in_walk ie) path)"

definition plan_start :: "MarkdownDiscovery \<Rightarrow> plan_state" where
  "plan_start d = \<lparr>ps_hashes = [], ps_planned = [], ps_skipped = map failure_row (mw_failures d), ps_succeeded = 0\<rparr>"

definition plan_sources ::
  "ingest_env \<Rightarrow> string \<Rightarrow> string \<Rightarrow> string \<Rightarrow> string \<Rightarrow> u64 \<Rightarrow> string option \<Rightarrow> WorkspaceView \<Rightarrow> (SourcePlan, TexoError) result" where
  "plan_sources ie op dir path workspace_id observed extractor view =
     res_bind (discover ie path) (\<lambda>d.
     res_bind (res_fold (plan_file ie op dir workspace_id observed extractor (existing_hashes view)) (mw_files d) (plan_start d)) (\<lambda>s.
       Inr \<lparr>sp_sources = ps_planned s, sp_skipped = sort_key sk_path (ps_skipped s), sp_empty = (mw_files d = []),
            sp_succeeded = ps_succeeded s\<rparr>))"

section \<open>Failures\<close>

definition failures_path :: "ingest_env \<Rightarrow> u64 \<Rightarrow> string \<Rightarrow> string" where
  "failures_path ie observed bytes =
     ''.texo/operations/ingest-skips/'' @ show_nat observed @ ''-'' @ take 16 (in_hash ie bytes) @ ''.json''"

definition settle_source_failures ::
  "ingest_env \<Rightarrow> string \<Rightarrow> u64 \<Rightarrow> SourceSkipRow list \<Rightarrow> (SourceSkipRow list \<times> string option, TexoError) result" where
  "settle_source_failures ie dir observed rows =
     (if length rows \<le> MAX_INLINE_SOURCE_FAILURES then Inr (rows, None)
      else res_bind (map_sum ErrJson id (in_rows_json ie rows)) (\<lambda>bytes.
           let relative = failures_path ie observed bytes in
           res_bind (map_sum ErrIo id (in_store_file ie (dir @ ''/'' @ relative) bytes)) (\<lambda>_.
             Inr (take MAX_INLINE_SOURCE_FAILURES rows, Some relative))))"

record IngestRunInput =
  ig_path :: string
  ig_dry_run :: bool
  ig_strict :: bool
  ig_observed_at_ms :: u64

definition reject_failed_ingest_plan ::
  "ingest_env \<Rightarrow> string \<Rightarrow> string \<Rightarrow> SourcePlan \<Rightarrow> IngestRunInput \<Rightarrow> (unit, TexoError) result" where
  "reject_failed_ingest_plan ie dir path plan inp =
     (if sp_skipped plan = [] \<or> (\<not> ig_strict inp \<and> (0 < sp_succeeded plan \<or> sp_empty plan)) then Inr ()
      else res_bind (map_sum ErrJson id (in_rows_json ie (take 8 (sp_skipped plan)))) (\<lambda>sample.
           res_bind (settle_source_failures ie dir (ig_observed_at_ms inp) (sp_skipped plan)) (\<lambda>(_, artifact).
             Inl (ErrSource path
               (show_nat (length (sp_skipped plan)) @ '' source(s) failed during planning; strict='' @
                (if ig_strict inp then ''true'' else ''false'') @ '' good_sources='' @ show_nat (sp_succeeded plan) @
                ''; sample='' @ sample @ ''; artifact='' @ (case artifact of None \<Rightarrow> ''inline'' | Some a \<Rightarrow> a))))))"

section \<open>Execution\<close>

record IngestExecution =
  ix_source_count :: u32
  ix_claim_count :: u32
  ix_supersede_count :: u32
  ix_held :: "HeldExplicitSupersession list"

record IngestRunOutput =
  io_outcome :: IngestCompletion
  io_workspace_id :: string
  io_sources_observed :: u32
  io_claims_recorded :: u32
  io_claims_superseded :: u32
  io_supersessions_held :: nat
  io_held_supersessions :: "HeldExplicitSupersession list"
  io_dry_run :: bool
  io_empty :: bool
  io_skipped :: "SourceSkipRow list"
  io_skipped_total :: nat
  io_skipped_artifact :: "string option"
  io_events_appended :: u64
  io_receipts :: "ReceiptNote list"

type_synonym encoder = "domain_event \<Rightarrow> (string, string) result"

text \<open>A loop that appends and counts, saturating.\<close>

fun append_counted :: "'s ctx \<Rightarrow> encoder \<Rightarrow> domain_event list \<Rightarrow> u32 \<Rightarrow> ('s, u32) op" where
  "append_counted cx enc [] n = op_return n"
| "append_counted cx enc (ev # evs) n =
     op_bind (append_json ''texo.ingest.run'' cx enc ev) (\<lambda>_. append_counted cx enc evs (sat_add32 n 1))"

fun append_planned_sources :: "'s ctx \<Rightarrow> encoder \<Rightarrow> PlannedSource list \<Rightarrow> u32 \<times> u32 \<Rightarrow> ('s, u32 \<times> u32) op" where
  "append_planned_sources cx enc [] counts = op_return counts"
| "append_planned_sources cx enc (source # sources) (source_count, claim_count) =
     op_bind (append_json ''texo.ingest.run'' cx enc (EvSourceObserved (pl_observed source))) (\<lambda>_.
     op_bind (append_counted cx enc (map EvClaimRecorded (pl_claims source)) claim_count) (\<lambda>claim_count.
       append_planned_sources cx enc sources (sat_add32 source_count 1, claim_count)))"

type_synonym 's reader = "'s append_env \<Rightarrow> (WorkspaceView, TexoError) result"
type_synonym 's temporal_reader = "'s append_env \<Rightarrow> WorkspaceView \<Rightarrow> (RelateTemporalPolicy, TexoError) result"

definition infer_and_append_ingest_supersessions ::
  "(string \<Rightarrow> string) \<Rightarrow> 's ctx \<Rightarrow> encoder \<Rightarrow> 's temporal_reader \<Rightarrow> SourcePlan \<Rightarrow> bool \<Rightarrow> WorkspaceView \<Rightarrow> u64 \<Rightarrow>
   ('s, u32 \<times> HeldExplicitSupersession list) op" where
  "infer_and_append_ingest_supersessions B cx enc temporal plan semantics_enabled view observed =
     (if semantics_enabled then op_return (0, [])
      else op_bind (\<lambda>env. (env, temporal env view)) (\<lambda>policy.
           op_bind (op_lift (infer_supersessions B view (concat (map pl_claims (sp_sources plan))) observed policy)) (\<lambda>inference.
           op_bind (append_counted cx enc (map EvClaimSuperseded (xo_applied inference)) 0) (\<lambda>n.
             op_return (n, xo_held inference)))))"

definition dry_execution :: "SourcePlan \<Rightarrow> IngestExecution" where
  "dry_execution plan =
     \<lparr>ix_source_count = u32_try (length (sp_sources plan)),
      ix_claim_count = foldl (\<lambda>n source. sat_add32 n (u32_try (length (pl_claims source)))) 0 (sp_sources plan),
      ix_supersede_count = 0, ix_held = []\<rparr>"

definition execute_ingest_plan ::
  "(string \<Rightarrow> string) \<Rightarrow> 's ctx \<Rightarrow> encoder \<Rightarrow> 's reader \<Rightarrow> 's temporal_reader \<Rightarrow> SourcePlan \<Rightarrow> bool \<Rightarrow> u64 \<Rightarrow> bool \<Rightarrow>
   ('s, IngestExecution) op" where
  "execute_ingest_plan B cx enc reread temporal plan semantics_enabled observed dry_run =
     (if dry_run then op_return (dry_execution plan)
      else op_bind (append_planned_sources cx enc (sp_sources plan) (0, 0)) (\<lambda>(source_count, claim_count).
           op_bind (\<lambda>env. (env, reread env)) (\<lambda>view.
           op_bind (infer_and_append_ingest_supersessions B cx enc temporal plan semantics_enabled view observed) (\<lambda>(n, held).
             op_return \<lparr>ix_source_count = source_count, ix_claim_count = claim_count, ix_supersede_count = n, ix_held = held\<rparr>))))"

definition finish_ingest_output ::
  "ingest_env \<Rightarrow> string \<Rightarrow> string \<Rightarrow> SourcePlan \<Rightarrow> IngestRunInput \<Rightarrow> IngestExecution \<Rightarrow> ('s, IngestRunOutput) op" where
  "finish_ingest_output ie dir workspace_id plan inp x =
     op_bind (op_lift (settle_source_failures ie dir (ig_observed_at_ms inp) (sp_skipped plan))) (\<lambda>(skipped, artifact).
     op_bind (if ig_dry_run inp then op_return [] else take_receipts) (\<lambda>receipts.
       op_return
         \<lparr>io_outcome = (if sp_skipped plan = [] then IngestComplete else IngestPartial), io_workspace_id = workspace_id,
          io_sources_observed = ix_source_count x, io_claims_recorded = ix_claim_count x,
          io_claims_superseded = ix_supersede_count x, io_supersessions_held = length (ix_held x),
          io_held_supersessions = ix_held x, io_dry_run = ig_dry_run inp, io_empty = sp_empty plan, io_skipped = skipped,
          io_skipped_total = length (sp_skipped plan), io_skipped_artifact = artifact,
          io_events_appended = (if ig_dry_run inp then 0
             else sat_add64 (sat_add64 (ix_source_count x) (ix_claim_count x)) (ix_supersede_count x)),
          io_receipts = receipts\<rparr>))"

definition ingest_run ::
  "ingest_env \<Rightarrow> 's ctx \<Rightarrow> encoder \<Rightarrow> 's reader \<Rightarrow> 's temporal_reader \<Rightarrow> string \<Rightarrow> string option \<Rightarrow> bool \<Rightarrow> IngestRunInput \<Rightarrow>
   ('s, IngestRunOutput) op" where
  "ingest_run ie cx enc reread temporal dir extractor semantics_enabled inp =
     op_bind (query_view ''texo.ingest.run'' cx) (\<lambda>_.
     op_bind (\<lambda>env. (env, Inr (ap_workspace_id env))) (\<lambda>workspace_id.
     op_bind (\<lambda>env. (env, reread env)) (\<lambda>view.
     let path = resolve_path dir (ig_path inp) in
     op_bind (op_lift (plan_sources ie ''texo.ingest.run'' dir path workspace_id (ig_observed_at_ms inp) extractor view)) (\<lambda>plan.
     op_bind (op_lift (reject_failed_ingest_plan ie dir path plan inp)) (\<lambda>_.
     op_bind (execute_ingest_plan (in_hash ie) cx enc reread temporal plan semantics_enabled (ig_observed_at_ms inp) (ig_dry_run inp))
       (\<lambda>x. finish_ingest_output ie dir workspace_id plan inp x))))))"

section \<open>Planning again\<close>

lemma plan_file_hashes:
  assumes "plan_file ie op dir ws t ex existing path s = Inr s'"
  shows "set (ps_hashes s) \<subseteq> set (ps_hashes s')"
  using assms by (auto simp: plan_file_def Let_def res_bind_eq_Inr split: sum.splits if_splits)

lemma plan_fold_hashes:
  assumes "res_fold (plan_file ie op dir ws t ex existing) files s = Inr s'"
  shows "set (ps_hashes s) \<subseteq> set (ps_hashes s')"
  by (rule res_fold_invariant [OF assms]) (auto dest: plan_file_hashes)

lemma plan_file_again:
  assumes "plan_file ie op dir ws t ex existing path s = Inr s'" "existing \<union> set (ps_hashes s') \<subseteq> existing'"
    and "ps_skipped r = ps_skipped s" "ps_succeeded r = ps_succeeded s"
  shows "plan_file ie op' dir ws' t' ex' existing' path r = Inr (r\<lparr>ps_skipped := ps_skipped s', ps_succeeded := ps_succeeded s'\<rparr>)"
proof (cases "document_from_path (in_hash ie) (in_utf8 ie) (in_read ie) dir path")
  case (Inl e)
  then show ?thesis using assms(1,3,4) by (auto simp: plan_file_def)
next
  case (Inr doc)
  have "md_body_hash_hex doc \<in> existing \<union> set (ps_hashes s')" "ps_skipped s' = ps_skipped s" "ps_succeeded s' = Suc (ps_succeeded s)"
    using assms(1) Inr by (auto simp: plan_file_def Let_def res_bind_eq_Inr split: if_splits)
  then have "md_body_hash_hex doc \<in> existing'" and s': "ps_skipped s' = ps_skipped r" "ps_succeeded s' = Suc (ps_succeeded r)"
    using assms(2-4) by auto
  then show ?thesis using Inr by (simp add: plan_file_def Let_def s')
qed

lemma plan_fold_again:
  assumes "res_fold (plan_file ie op dir ws t ex existing) files s = Inr s'" "existing \<union> set (ps_hashes s') \<subseteq> existing'"
    and "ps_skipped r = ps_skipped s" "ps_succeeded r = ps_succeeded s"
  shows "res_fold (plan_file ie op' dir ws' t' ex' existing') files r = Inr (r\<lparr>ps_skipped := ps_skipped s', ps_succeeded := ps_succeeded s'\<rparr>)"
  using assms
proof (induction files arbitrary: s r)
  case Nil
  then show ?case by simp
next
  case (Cons path files)
  then obtain s1 where s1: "plan_file ie op dir ws t ex existing path s = Inr s1"
    "res_fold (plan_file ie op dir ws t ex existing) files s1 = Inr s'" by (auto simp: res_bind_eq_Inr)
  let ?r = "r\<lparr>ps_skipped := ps_skipped s1, ps_succeeded := ps_succeeded s1\<rparr>"
  have "existing \<union> set (ps_hashes s1) \<subseteq> existing'" using plan_fold_hashes [OF s1(2)] Cons.prems(2) by blast
  from plan_file_again [OF s1(1) this Cons.prems(3,4)]
  have "plan_file ie op' dir ws' t' ex' existing' path r = Inr ?r" .
  moreover have "res_fold (plan_file ie op' dir ws' t' ex' existing') files ?r =
      Inr (?r\<lparr>ps_skipped := ps_skipped s', ps_succeeded := ps_succeeded s'\<rparr>)"
    by (rule Cons.IH [OF s1(2) Cons.prems(2)]) simp_all
  ultimately show ?case by simp
qed

text \<open>What holds of the sources planned so far.\<close>

abbreviation planned_hashes :: "PlannedSource list \<Rightarrow> string list" where
  "planned_hashes ss \<equiv> map (so_body_hash_hex \<circ> pl_observed) ss"

definition planned_ok :: "string set \<Rightarrow> plan_state \<Rightarrow> bool" where
  "planned_ok existing s \<longleftrightarrow>
     ps_hashes s = rev (planned_hashes (ps_planned s)) \<and> distinct (planned_hashes (ps_planned s)) \<and>
     (\<forall>h \<in> set (planned_hashes (ps_planned s)). h \<notin> existing)"

lemma plan_file_ok:
  assumes "planned_ok existing s" "plan_file ie op dir ws t ex existing path s = Inr s'"
  shows "planned_ok existing s'"
proof (cases "document_from_path (in_hash ie) (in_utf8 ie) (in_read ie) dir path")
  case (Inl e)
  then show ?thesis using assms by (auto simp: plan_file_def planned_ok_def)
next
  case (Inr doc)
  then consider "ps_hashes s' = ps_hashes s" "ps_planned s' = ps_planned s"
    | claims where "md_body_hash_hex doc \<notin> existing" "md_body_hash_hex doc \<notin> set (ps_hashes s)"
        "ps_hashes s' = md_body_hash_hex doc # ps_hashes s"
        "ps_planned s' = ps_planned s @ [\<lparr>pl_observed = observed_source doc ws t, pl_claims = claims\<rparr>]"
    using assms(2) by (auto simp: plan_file_def Let_def res_bind_eq_Inr split: if_splits)
  then show ?thesis using assms(1) by cases (auto simp: planned_ok_def observed_source_def)
qed

lemma plan_state:
  assumes "plan_sources ie op dir path ws t ex view = Inr p"
  obtains d s where "discover ie path = Inr d"
    "res_fold (plan_file ie op dir ws t ex (existing_hashes view)) (mw_files d) (plan_start d) = Inr s"
    "p = \<lparr>sp_sources = ps_planned s, sp_skipped = sort_key sk_path (ps_skipped s), sp_empty = (mw_files d = []), sp_succeeded = ps_succeeded s\<rparr>"
    "planned_ok (existing_hashes view) s"
proof -
  obtain d s where ds: "discover ie path = Inr d"
    "res_fold (plan_file ie op dir ws t ex (existing_hashes view)) (mw_files d) (plan_start d) = Inr s"
    "p = \<lparr>sp_sources = ps_planned s, sp_skipped = sort_key sk_path (ps_skipped s), sp_empty = (mw_files d = []), sp_succeeded = ps_succeeded s\<rparr>"
    using assms by (auto simp: plan_sources_def res_bind_eq_Inr)
  moreover have "planned_ok (existing_hashes view) s"
  proof (rule res_fold_invariant [OF ds(2)])
    show "planned_ok (existing_hashes view) (plan_start d)" by (simp add: planned_ok_def plan_start_def)
  qed (rule plan_file_ok)
  ultimately show thesis by (rule that)
qed

section \<open>Recording a plan\<close>

definition source_events :: "PlannedSource \<Rightarrow> domain_event list" where
  "source_events s = EvSourceObserved (pl_observed s) # map EvClaimRecorded (pl_claims s)"

definition planned_events :: "SourcePlan \<Rightarrow> domain_event list" where
  "planned_events p = concat (map source_events (sp_sources p))"

lemma put_elsewhere: "ie_entity e \<noteq> k \<Longrightarrow> bt_get (card_put j bad e m) k = bt_get m k"
  by (auto simp: card_put_def split: option.splits sum.splits)

lemma put_bt_ok: "bt_ok m \<Longrightarrow> bt_ok (card_put j bad e m)"
  by (simp add: card_put_def split: option.splits sum.splits)

lemma truth_elsewhere: "\<forall>e \<in> set es. ie_entity e \<noteq> k \<Longrightarrow> bt_get (truth_from j bad m es) k = bt_get m k"
  by (induction es arbitrary: m) (simp_all add: put_elsewhere)

lemma truth_bt_ok: "bt_ok m \<Longrightarrow> bt_ok (truth_from j bad m es)"
  by (induction es arbitrary: m) (simp_all add: put_bt_ok)

lemma recorded_entities:
  assumes "list_all2 (recorded_as B j) es evs" "e \<in> set es"
  obtains ev where "ev \<in> set evs" "ie_entity e = entity_of B ev"
  using assms by (induction rule: list_all2_induct) (auto simp: recorded_as_def)

lemma put_observed:
  assumes "recorded_as B j e (EvSourceObserved src)" "bt_get m (entity_for_source (so_source_id src)) = None"
  shows "bt_get (card_put j bad e m) (entity_for_source (so_source_id src)) = Some (CardSource (source_on_observed src source_card_default))"
  using assms by (simp add: card_put_def recorded_as_def card_family_def starts_with_def entity_for_source_def apply_matching_def)

abbreviation planned_id :: "PlannedSource \<Rightarrow> string" where
  "planned_id s \<equiv> so_source_id (pl_observed s)"

lemma source_entity:
  "entity_for_source i = entity_for_source i' \<longleftrightarrow> i = i'" "entity_for_source i \<noteq> entity_for_claim c"
  "entity_for_claim c \<noteq> entity_for_source i"
  by (simp_all add: entity_for_source_def entity_for_claim_def)

lemma source_events_elsewhere:
  assumes "list_all2 (recorded_as B j) es (concat (map source_events ss) @ map EvClaimSuperseded sups)" "i \<notin> planned_id ` set ss" "e \<in> set es"
  shows "ie_entity e \<noteq> entity_for_source i"
proof -
  obtain ev where ev: "ev \<in> set (concat (map source_events ss) @ map EvClaimSuperseded sups)" "ie_entity e = entity_of B ev"
    by (rule recorded_entities [OF assms(1,3)])
  then show ?thesis using assms(2) by (auto simp: source_events_def source_entity)
qed

lemma claim_events_elsewhere:
  assumes "list_all2 (recorded_as B j) es (map EvClaimRecorded cs)"
  shows "\<forall>e \<in> set es. ie_entity e \<noteq> entity_for_source i"
proof
  fix e assume "e \<in> set es"
  then obtain ev where "ev \<in> set (map EvClaimRecorded cs)" "ie_entity e = entity_of B ev" using recorded_entities [OF assms] by metis
  then show "ie_entity e \<noteq> entity_for_source i" by (auto simp: source_entity)
qed

lemma planned_split:
  assumes "list_all2 P es (concat (map source_events (x # ss)) @ after)"
  obtains e cs rest where "es = e # cs @ rest" "P e (EvSourceObserved (pl_observed x))"
    "list_all2 P cs (map EvClaimRecorded (pl_claims x))" "list_all2 P rest (concat (map source_events ss) @ after)"
proof -
  have "list_all2 P es (EvSourceObserved (pl_observed x) # map EvClaimRecorded (pl_claims x) @ concat (map source_events ss) @ after)"
    using assms by (simp add: source_events_def)
  then obtain e es' where e: "es = e # es'" "P e (EvSourceObserved (pl_observed x))"
    and es': "list_all2 P es' (map EvClaimRecorded (pl_claims x) @ concat (map source_events ss) @ after)"
    unfolding list_all2_Cons2 by blast
  obtain cs rest where "es' = cs @ rest" "list_all2 P cs (map EvClaimRecorded (pl_claims x))"
    "list_all2 P rest (concat (map source_events ss) @ after)"
    using es' unfolding list_all2_append2 by blast
  then show thesis using that e by simp
qed

lemma fold_planned:
  assumes "list_all2 (recorded_as B j) es (concat (map source_events ss) @ map EvClaimSuperseded sups)" "distinct (map planned_id ss)"
    and "\<forall>s \<in> set ss. bt_get m (entity_for_source (planned_id s)) = None" "s \<in> set ss"
  shows "\<exists>c. bt_get (truth_from j bad m es) (entity_for_source (planned_id s)) = Some (CardSource c) \<and>
    sc_body_hash_hex c = so_body_hash_hex (pl_observed s)"
  using assms
proof (induction ss arbitrary: m es)
  case Nil
  then show ?case by simp
next
  case (Cons x ss)
  obtain e cs rest where es: "es = e # cs @ rest" "recorded_as B j e (EvSourceObserved (pl_observed x))"
    "list_all2 (recorded_as B j) cs (map EvClaimRecorded (pl_claims x))"
    "list_all2 (recorded_as B j) rest (concat (map source_events ss) @ map EvClaimSuperseded sups)"
    by (rule planned_split [OF Cons.prems(1)])
  let ?m = "truth_from j bad (card_put j bad e m) cs"
  have truth: "truth_from j bad m es = truth_from j bad ?m rest" by (simp add: es(1))
  have at: "bt_get ?m (entity_for_source i) = bt_get (card_put j bad e m) (entity_for_source i)" for i
    by (rule truth_elsewhere [OF claim_events_elsewhere [OF es(3)]])
  have ent: "ie_entity e = entity_for_source (planned_id x)" using es(2) by (simp add: recorded_as_def)
  show ?case
  proof (cases "s = x")
    case True
    have "bt_get ?m (entity_for_source (planned_id x)) = Some (CardSource (source_on_observed (pl_observed x) source_card_default))"
      using put_observed [OF es(2)] Cons.prems(3) at by simp
    moreover have "\<forall>e \<in> set rest. ie_entity e \<noteq> entity_for_source (planned_id x)"
      using source_events_elsewhere [OF es(4)] Cons.prems(2) by auto
    ultimately show ?thesis using True truth_elsewhere by (simp add: truth source_on_observed_def)
  next
    case False
    have "bt_get ?m (entity_for_source (planned_id y)) = None" if "y \<in> set ss" for y
    proof -
      have "planned_id y \<in> planned_id ` set ss" using that by (rule imageI)
      then have "planned_id y \<noteq> planned_id x" using Cons.prems(2) by auto
      then show ?thesis using that Cons.prems(3) at put_elsewhere [of e "entity_for_source (planned_id y)"] ent source_entity(1) by simp
    qed
    then show ?thesis using Cons.IH [OF es(4)] Cons.prems(2,4) False by (simp add: truth)
  qed
qed

lemma source_cards_iff: "c \<in> set (source_cards cds) \<longleftrightarrow> CardSource c \<in> set cds"
  by (induction cds rule: source_cards.induct) auto

lemma existing_iff:
  "bt_ok m \<Longrightarrow> h \<in> existing_hashes (view_of ws fr (bt_values m)) \<longleftrightarrow> (\<exists>k c. bt_get m k = Some (CardSource c) \<and> sc_body_hash_hex c = h)"
  using values_iff [of m] by (force simp: existing_hashes_def view_of_def Let_def source_cards_iff)

lemma recorded_hashes:
  assumes ok: "cards_ok (truth j bad hist)"
    and new: "list_all2 (recorded_as B j) new (concat (map source_events ss) @ map EvClaimSuperseded sups)"
    and ids: "distinct (map planned_id ss)" "\<forall>s \<in> set ss. bt_get (truth j bad hist) (entity_for_source (planned_id s)) = None"
  shows "existing_hashes (view_at j bad ws hist) \<union> (so_body_hash_hex \<circ> pl_observed) ` set ss \<subseteq> existing_hashes (view_at j bad ws (hist @ new))"
proof
  let ?m = "truth j bad hist"
  have t: "truth j bad (hist @ new) = truth_from j bad ?m new" by simp
  have bt: "bt_ok ?m" "bt_ok (truth_from j bad ?m new)" using ok by (simp_all add: cards_ok_def truth_bt_ok)
  fix h
  assume "h \<in> existing_hashes (view_at j bad ws hist) \<union> (so_body_hash_hex \<circ> pl_observed) ` set ss"
  then consider k c where "bt_get ?m k = Some (CardSource c)" "sc_body_hash_hex c = h"
    | s where "s \<in> set ss" "h = so_body_hash_hex (pl_observed s)"
    using existing_iff [OF bt(1)] by (auto simp: view_at_def)
  then have "\<exists>k c. bt_get (truth_from j bad ?m new) k = Some (CardSource c) \<and> sc_body_hash_hex c = h"
  proof cases
    case 1
    then have fam: "card_family k = Some FamSource" using ok unfolding cards_ok_def card_wf_def by fastforce
    have "ie_entity e \<noteq> k" if "e \<in> set new" for e
    proof -
      from recorded_entities [OF new that] obtain ev
        where ev: "ev \<in> set (concat (map source_events ss) @ map EvClaimSuperseded sups)" "ie_entity e = entity_of B ev" .
      have claim: "card_family (entity_for_claim i) = Some FamClaim" for i by (simp add: card_family_def starts_with_def entity_for_claim_def)
      then show ?thesis using ev fam claim ids(2) 1(1) by (auto simp: source_events_def)
    qed
    then show ?thesis using 1 truth_elsewhere [of new k] by metis
  next
    case 2
    then show ?thesis using fold_planned [OF new ids] by metis
  qed
  then show "h \<in> existing_hashes (view_at j bad ws (hist @ new))"
    using existing_iff [OF bt(2)] unfolding view_at_def t by blast
qed

text \<open>
  C27: Ingesting twice plans nothing the second time.  Once the events of a plan are in the journal, with the
  supersessions its claims caused, planning the same files again, by any extractor, plans no source and
  reports the same failures and successes, provided the derived source identities are new and distinct.
\<close>

theorem reingest_plans_nothing:
  assumes plan: "plan_sources ie op dir path ws t ex (view_at j bad ws hist) = Inr p"
    and ok: "cards_ok (truth j bad hist)"
    and new: "list_all2 (recorded_as B j) new (planned_events p @ map EvClaimSuperseded sups)"
    and ids: "distinct (map (so_source_id \<circ> pl_observed) (sp_sources p))"
      "\<forall>s \<in> set (sp_sources p). bt_get (truth j bad hist) (entity_for_source (so_source_id (pl_observed s))) = None"
  shows "plan_sources ie op' dir path ws t' ex' (view_at j bad ws (hist @ new)) = Inr (p\<lparr>sp_sources := []\<rparr>)"
proof -
  obtain d s where d: "discover ie path = Inr d"
    and s: "res_fold (plan_file ie op dir ws t ex (existing_hashes (view_at j bad ws hist))) (mw_files d) (plan_start d) = Inr s"
    and p: "p = \<lparr>sp_sources = ps_planned s, sp_skipped = sort_key sk_path (ps_skipped s), sp_empty = (mw_files d = []), sp_succeeded = ps_succeeded s\<rparr>"
    and planned: "planned_ok (existing_hashes (view_at j bad ws hist)) s"
    by (rule plan_state [OF plan])
  have "existing_hashes (view_at j bad ws hist) \<union> (so_body_hash_hex \<circ> pl_observed) ` set (ps_planned s) \<subseteq>
      existing_hashes (view_at j bad ws (hist @ new))"
    using recorded_hashes [OF ok new [unfolded planned_events_def]] ids by (simp add: p o_def)
  then have known: "existing_hashes (view_at j bad ws hist) \<union> set (ps_hashes s) \<subseteq> existing_hashes (view_at j bad ws (hist @ new))"
    using planned by (simp add: planned_ok_def)
  from plan_fold_again [OF s this refl refl, of op' ws t' ex']
  show ?thesis by (simp add: plan_sources_def d p plan_start_def)
qed

section \<open>Planned claims cite their source\<close>

lemma heuristic_claim_cites:
  assumes "heuristic_claim B doc ws t i line = Some claim" "md_lines doc = parse_lines bytes" "line \<in> set (md_lines doc)"
  shows "cr_source_id claim = md_source_id doc \<and> is_claim_line (cr_text claim) \<and> cr_normalized_text claim = normalize_line (cr_text claim) \<and>
    (length bytes \<le> u32_max \<longrightarrow>
       take (length (cr_text claim)) (drop (cr_char_start claim) bytes) = cr_text claim \<and>
       cr_char_end claim = cr_char_start claim + length (cr_text claim) \<and>
       cr_line_start claim = line_of_offset bytes (cr_char_start claim))"
proof -
  have claim: "cr_source_id claim = md_source_id doc" "cr_text claim = ml_text line" "cr_normalized_text claim = normalize_line (ml_text line)"
    "cr_line_start claim = ml_number line" "cr_char_start claim = saturating_u32 (ml_char_start line)"
    "cr_char_end claim = saturating_u32 (ml_char_start line + length (ml_text line))" "is_claim_line (ml_text line)"
    using assms(1) by (auto simp: heuristic_claim_def hints_from_line_normalized_def Let_def split: if_splits)
  have line: "take (length (ml_text line)) (drop (ml_char_start line) bytes) = ml_text line"
    "ml_number line = line_of_offset bytes (ml_char_start line)"
    using line_provenance [of line bytes] assms(2,3) by auto
  have some: "ml_text line \<noteq> []" using claim(7) trim_free [of "[]"] by (auto simp: is_claim_line_def ws_free_def)
  have "length (ml_text line) = min (length (ml_text line)) (length bytes - ml_char_start line)"
    using arg_cong [OF line(1), of length] by simp
  then have "ml_char_start line + length (ml_text line) \<le> length bytes" using some by (cases "ml_text line") auto
  then have "length bytes \<le> u32_max \<Longrightarrow> saturating_u32 (ml_char_start line) = ml_char_start line \<and>
      saturating_u32 (ml_char_start line + length (ml_text line)) = ml_char_start line + length (ml_text line)"
    by (simp add: saturating_u32_def u32_try_def)
  then show ?thesis using claim line by simp
qed

definition cites :: "ingest_env \<Rightarrow> PlannedSource \<Rightarrow> bool" where
  "cites ie s \<longleftrightarrow>
     (\<exists>path bytes. in_read ie path = Inr bytes \<and> so_body_hash_hex (pl_observed s) = in_hash ie bytes \<and>
        (\<forall>claim \<in> set (pl_claims s). cr_source_id claim = so_source_id (pl_observed s) \<and> is_claim_line (cr_text claim) \<and>
           cr_normalized_text claim = normalize_line (cr_text claim) \<and>
           (length bytes \<le> u32_max \<longrightarrow>
              take (length (cr_text claim)) (drop (cr_char_start claim) bytes) = cr_text claim \<and>
              cr_char_end claim = cr_char_start claim + length (cr_text claim) \<and>
              cr_line_start claim = line_of_offset bytes (cr_char_start claim))))"

lemma planned_cites:
  assumes "document_from_path (in_hash ie) (in_utf8 ie) (in_read ie) dir path = Inr doc"
    and "extract_heuristic_claims (in_hash ie) doc ws t = Inr claims"
  shows "cites ie \<lparr>pl_observed = observed_source doc ws t, pl_claims = claims\<rparr>"
proof -
  obtain bytes where bytes: "in_read ie path = Inr bytes" "md_body_hash_hex doc = in_hash ie bytes" "md_lines doc = parse_lines bytes"
    using assms(1) by (auto simp: document_from_path_def document_from_bytes_def Let_def res_bind_eq_Inr map_sum_eq_Inr split: if_splits)
  obtain i where "claims = List.map_filter (heuristic_claim (in_hash ie) doc ws t i) (md_lines doc)"
    using assms(2) by (auto simp: extract_heuristic_claims_def res_bind_eq_Inr)
  then have "\<exists>line \<in> set (md_lines doc). heuristic_claim (in_hash ie) doc ws t i line = Some claim" if "claim \<in> set claims" for claim
    using that by (auto simp: List.map_filter_def)
  then show ?thesis
    unfolding cites_def using bytes heuristic_claim_cites [OF _ bytes(3)]
    by (intro exI [of _ path] exI [of _ bytes]) (fastforce simp: observed_source_def)
qed

lemma plan_file_cites:
  assumes "\<forall>s \<in> set (ps_planned st). cites ie s" "plan_file ie op dir ws t None existing path st = Inr st'"
  shows "\<forall>s \<in> set (ps_planned st'). cites ie s"
proof (cases "document_from_path (in_hash ie) (in_utf8 ie) (in_read ie) dir path")
  case (Inl e)
  then show ?thesis using assms by (auto simp: plan_file_def)
next
  case (Inr doc)
  then consider "ps_planned st' = ps_planned st"
    | claims where "extract_heuristic_claims (in_hash ie) doc ws t = Inr claims"
        "ps_planned st' = ps_planned st @ [\<lparr>pl_observed = observed_source doc ws t, pl_claims = claims\<rparr>]"
    using assms(2) by (auto simp: plan_file_def extract_claims_def Let_def res_bind_eq_Inr split: if_splits)
  then show ?thesis
  proof cases
    case 1
    then show ?thesis using assms(1) by simp
  next
    case 2
    then show ?thesis using assms(1) planned_cites [OF Inr] by auto
  qed
qed

text \<open>
  C28: A planned source is new and its claims cite it.  Without an extractor command, the planned sources have
  distinct body hashes the view does not hold, and every claim is a claim line of its source: its text stands at
  its byte offsets in the bytes the body hash is of, on the line it names, as long as the source fits 32 bits.
\<close>

theorem planned_claims_cite:
  assumes "plan_sources ie op dir path ws t None view = Inr p"
  shows "distinct (map (so_body_hash_hex \<circ> pl_observed) (sp_sources p)) \<and>
    (\<forall>s \<in> set (sp_sources p). so_body_hash_hex (pl_observed s) \<notin> existing_hashes view \<and> cites ie s)"
proof -
  obtain d s where s: "res_fold (plan_file ie op dir ws t None (existing_hashes view)) (mw_files d) (plan_start d) = Inr s"
    and p: "p = \<lparr>sp_sources = ps_planned s, sp_skipped = sort_key sk_path (ps_skipped s), sp_empty = (mw_files d = []), sp_succeeded = ps_succeeded s\<rparr>"
    and planned: "planned_ok (existing_hashes view) s"
    by (rule plan_state [OF assms])
  have "\<forall>x \<in> set (ps_planned s). cites ie x"
    by (rule res_fold_invariant [OF s]) (auto simp: plan_start_def dest: plan_file_cites)
  moreover have "distinct (map (so_body_hash_hex \<circ> pl_observed) (ps_planned s))"
    using planned by (simp add: planned_ok_def)
  moreover have "so_body_hash_hex (pl_observed x) \<notin> existing_hashes view" if "x \<in> set (ps_planned s)" for x
    using planned that by (auto simp: planned_ok_def)
  ultimately show ?thesis by (simp add: p)
qed

section \<open>Receipts and counts\<close>

lemma sat_add32_add: "sat_add32 (sat_add32 n k) m = sat_add32 n (k + m)"
  by (simp add: sat_add32_def)

lemma sat_add32_try: "sat_add32 n (u32_try k) = sat_add32 n k"
  by (simp add: sat_add32_def u32_try_def)

lemma append_counted_Inr:
  assumes "append_counted cx enc evs n env = (env', Inr m)" "forwards ex api cx" "n \<le> u32_max"
  shows "m = sat_add32 n (length evs) \<and> (\<exists>rs. ap_receipts env' = ap_receipts env @ rs \<and> map rn_kind_bits rs = map kind_of evs)"
  using assms
proof (induction evs arbitrary: n env)
  case Nil
  then show ?case by (simp add: op_return_def sat_add32_def)
next
  case (Cons ev evs)
  then obtain env1 where a: "append_json ''texo.ingest.run'' cx enc ev env = (env1, Inr ())"
    and rest: "append_counted cx enc evs (sat_add32 n 1) env1 = (env', Inr m)" by (auto simp: op_bind_Inr)
  obtain r where r: "ap_receipts env1 = ap_receipts env @ [r]" "rn_kind_bits r = kind_of ev"
    using append_json_receipt [OF a Cons.prems(2)] by blast
  from Cons.IH [OF rest Cons.prems(2)] obtain rs where rs: "m = sat_add32 (sat_add32 n 1) (length evs)"
    "ap_receipts env' = ap_receipts env1 @ rs" "map rn_kind_bits rs = map kind_of evs" by (auto simp: sat_add32_def)
  have "m = sat_add32 n (length (ev # evs))" using rs(1) sat_add32_add [of n 1 "length evs"] by simp
  moreover have "ap_receipts env' = ap_receipts env @ (r # rs)" "map rn_kind_bits (r # rs) = map kind_of (ev # evs)"
    using r rs(2,3) by simp_all
  ultimately show ?case by blast
qed

lemma append_planned_Inr:
  assumes "append_planned_sources cx enc ss (a, b) env = (env', Inr counts)" "forwards ex api cx" "a \<le> u32_max" "b \<le> u32_max"
  shows "counts = (sat_add32 a (length ss), foldl (\<lambda>n s. sat_add32 n (u32_try (length (pl_claims s)))) b ss) \<and>
    (\<exists>rs. ap_receipts env' = ap_receipts env @ rs \<and> map rn_kind_bits rs = map kind_of (concat (map source_events ss)))"
  using assms
proof (induction ss arbitrary: a b env)
  case Nil
  then show ?case by (simp add: op_return_def sat_add32_def)
next
  case (Cons s ss)
  then obtain env1 env2 b' where a: "append_json ''texo.ingest.run'' cx enc (EvSourceObserved (pl_observed s)) env = (env1, Inr ())"
    and c: "append_counted cx enc (map EvClaimRecorded (pl_claims s)) b env1 = (env2, Inr b')"
    and rest: "append_planned_sources cx enc ss (sat_add32 a 1, b') env2 = (env', Inr counts)" by (auto simp: op_bind_Inr)
  obtain r where r: "ap_receipts env1 = ap_receipts env @ [r]" "rn_kind_bits r = kind_of (EvSourceObserved (pl_observed s))"
    using append_json_receipt [OF a Cons.prems(2)] by blast
  obtain rs1 where rs1: "b' = sat_add32 b (length (pl_claims s))" "ap_receipts env2 = ap_receipts env1 @ rs1"
    "map rn_kind_bits rs1 = map kind_of (map EvClaimRecorded (pl_claims s))"
    using append_counted_Inr [OF c Cons.prems(2,4)] by (metis length_map)
  have le: "sat_add32 a 1 \<le> u32_max" "b' \<le> u32_max" by (simp_all add: rs1(1) sat_add32_def)
  from Cons.IH [OF rest Cons.prems(2) le] obtain rs where rs:
    "counts = (sat_add32 (sat_add32 a 1) (length ss), foldl (\<lambda>n s. sat_add32 n (u32_try (length (pl_claims s)))) b' ss)"
    "ap_receipts env' = ap_receipts env2 @ rs" "map rn_kind_bits rs = map kind_of (concat (map source_events ss))" by blast
  have "counts = (sat_add32 a (length (s # ss)), foldl (\<lambda>n s. sat_add32 n (u32_try (length (pl_claims s)))) b (s # ss))"
    using rs(1) sat_add32_add [of a 1 "length ss"] by (simp add: rs1(1) sat_add32_try)
  moreover have "ap_receipts env' = ap_receipts env @ (r # rs1 @ rs)" using r(1) rs1(2) rs(2) by simp
  moreover have "map rn_kind_bits (r # rs1 @ rs) = map kind_of (concat (map source_events (s # ss)))"
    using r(2) rs1(3) rs(3) by (simp add: source_events_def)
  ultimately show ?case by blast
qed

text \<open>
  C29: A dry run predicts the run.  A dry run changes nothing, and its counts of sources and claims are those of a
  run that succeeds; that run leaves exactly one receipt per event, the planned events in order and then
  its supersessions, which are none when the semantic pipeline is enabled.
\<close>

theorem dry_run_predicts:
  assumes "execute_ingest_plan B cx enc reread temporal plan semantics observed False env = (env', Inr x)" "forwards ex api cx"
  shows "execute_ingest_plan B cx enc reread temporal plan semantics observed True env = (env, Inr (dry_execution plan)) \<and>
    ix_source_count (dry_execution plan) = ix_source_count x \<and> ix_claim_count (dry_execution plan) = ix_claim_count x \<and>
    (\<exists>rs n. ap_receipts env' = ap_receipts env @ rs \<and> ix_supersede_count x = u32_try n \<and> (semantics \<longrightarrow> n = 0) \<and>
       map rn_kind_bits rs = map kind_of (planned_events plan) @ replicate n KClaimSuperseded)"
proof -
  obtain env1 a b view n held where app: "append_planned_sources cx enc (sp_sources plan) (0, 0) env = (env1, Inr (a, b))"
    and inf: "infer_and_append_ingest_supersessions B cx enc temporal plan semantics view observed env1 = (env', Inr (n, held))"
    and x: "x = \<lparr>ix_source_count = a, ix_claim_count = b, ix_supersede_count = n, ix_held = held\<rparr>"
    using assms(1) by (auto simp: execute_ingest_plan_def op_bind_Inr op_defs)
  obtain rs where rs: "a = sat_add32 0 (length (sp_sources plan))"
    "b = foldl (\<lambda>n s. sat_add32 n (u32_try (length (pl_claims s)))) 0 (sp_sources plan)"
    "ap_receipts env1 = ap_receipts env @ rs" "map rn_kind_bits rs = map kind_of (planned_events plan)"
    using append_planned_Inr [OF app assms(2)] by (auto simp: planned_events_def)
  obtain rs' k where rs': "ap_receipts env' = ap_receipts env1 @ rs'" "n = u32_try k" "semantics \<longrightarrow> k = 0"
    "map rn_kind_bits rs' = replicate k KClaimSuperseded"
  proof (cases semantics)
    case True
    then have "env' = env1" "n = 0" using inf by (simp_all add: infer_and_append_ingest_supersessions_def op_return_def)
    then show thesis using that [of "[]" 0] by (simp add: u32_try_def)
  next
    case False
    then obtain applied where app': "append_counted cx enc (map EvClaimSuperseded applied) 0 env1 = (env', Inr n)"
      using inf by (auto simp: infer_and_append_ingest_supersessions_def op_bind_Inr op_defs)
    from append_counted_Inr [OF app' assms(2)] obtain rs' where r: "n = sat_add32 0 (length applied)"
      "ap_receipts env' = ap_receipts env1 @ rs'" "map rn_kind_bits rs' = map kind_of (map EvClaimSuperseded applied)" by auto
    have "map kind_of (map EvClaimSuperseded applied) = replicate (length applied) KClaimSuperseded" by (induction applied) simp_all
    moreover have "n = u32_try (length applied)" using r(1) by (simp add: sat_add32_def u32_try_def)
    ultimately show thesis using that r False by simp
  qed
  have "ix_source_count (dry_execution plan) = ix_source_count x" "ix_claim_count (dry_execution plan) = ix_claim_count x"
    by (simp_all add: dry_execution_def x rs(1,2)) (simp add: sat_add32_def u32_try_def)
  moreover have "execute_ingest_plan B cx enc reread temporal plan semantics observed True env = (env, Inr (dry_execution plan))"
    by (simp add: execute_ingest_plan_def op_return_def)
  moreover have "ap_receipts env' = ap_receipts env @ (rs @ rs')" "ix_supersede_count x = u32_try k"
    "map rn_kind_bits (rs @ rs') = map kind_of (planned_events plan) @ replicate k KClaimSuperseded"
    using rs(3,4) rs' by (simp_all add: x)
  ultimately show ?thesis using rs'(3) by blast
qed

section \<open>A file with one claim\<close>

definition demo_line :: MarkdownLine where
  "demo_line = \<lparr>ml_number = Suc 0, ml_text = ''Acme is ready'', ml_char_start = 0\<rparr>"

definition demo_document :: MarkdownDocument where
  "demo_document = \<lparr>md_path = ''a.md'', md_body_hash_hex = replicate 64 (CHR ''0''), md_source_id = ''src_000000000000'', md_lines = [demo_line]\<rparr>"

definition demo_ingest :: ingest_env where
  "demo_ingest =
     \<lparr>in_hash = zero_hash, in_utf8 = (\<lambda>_. True), in_utf8_error = (\<lambda>_. []), in_describe = (\<lambda>_. []), in_exists = (\<lambda>_. True),
      in_is_file = (\<lambda>_. True), in_walk = (\<lambda>_. []), in_read = (\<lambda>_. Inr ''Acme is ready''), in_extract = (\<lambda>_ _. Inl []),
      in_parse_line = (\<lambda>_. Inl []), in_rows_json = (\<lambda>_. Inr []), in_store_file = (\<lambda>_ _. Inr ())\<rparr>"

definition demo_found :: ClaimRecordedV2 where
  "demo_found = the (heuristic_claim zero_hash demo_document ''demo'' 2 (SourceId ''src_000000000000'') demo_line)"

definition demo_planned :: PlannedSource where
  "demo_planned = \<lparr>pl_observed = observed_source demo_document ''demo'' 2, pl_claims = [demo_found]\<rparr>"

definition demo_source_plan :: SourcePlan where
  "demo_source_plan = \<lparr>sp_sources = [demo_planned], sp_skipped = [], sp_empty = False, sp_succeeded = Suc 0\<rparr>"

lemma demo_heuristic:
  "heuristic_claim zero_hash demo_document ''demo'' 2 (SourceId ''src_000000000000'') demo_line = Some demo_found"
proof -
  have "is_claim_line ''Acme is ready''" "normalize_line ''Acme is ready'' \<noteq> []" by code_simp+
  then show ?thesis
    by (simp add: demo_found_def heuristic_claim_def hints_from_line_normalized_def demo_line_def Let_def)
qed

lemma demo_parse: "parse_lines ''Acme is ready'' = [demo_line]"
proof -
  have "trim ''Acme is ready'' = ''Acme is ready''" by code_simp
  then show ?thesis using trim_short
    by (simp add: parse_lines_def Let_def classify_line_def strip_terminator_def MAX_EXTRACTABLE_LINE_BYTES_def u32_max_def
        starts_with_def demo_line_def)
qed

lemma demo_document_read:
  "document_from_path zero_hash (\<lambda>_. True) (\<lambda>_. Inr ''Acme is ready'') ''/w'' ''/w/a.md'' = Inr demo_document"
  by (simp add: document_from_path_def document_from_bytes_def relative_path_def starts_with_def source_id_from_hash_def
      str_get_to_def zero_hash_def SOURCE_ID_HASH_LEN_def ok_or_def demo_document_def demo_parse Let_def numeral_eq_Suc code_def)

lemma demo_plans:
  "plan_sources demo_ingest op ''/w'' ''/w/a.md'' ''demo'' 2 None (view_at j bad ''demo'' []) = Inr demo_source_plan"
proof -
  have md: "is_markdown ''/w/a.md''" by code_simp
  have src: "source_id_try_from (md_source_id demo_document) = Inr (SourceId ''src_000000000000'')"
    by (simp add: source_id_try_from_def expect_prefix_def demo_document_def starts_with_def)
  have claims: "extract_claims demo_ingest op None path demo_document ''demo'' 2 = Inr [demo_found]" for path
    using demo_heuristic
    by (simp add: extract_claims_def extract_heuristic_claims_def src demo_ingest_def) (simp add: demo_document_def map_filter_simps)
  have none: "existing_hashes (view_at j bad ''demo'' []) = {}"
    by (simp add: existing_hashes_def view_at_def view_of_def bt_values_def Let_def sort_key_simps)
  show ?thesis
    using md demo_document_read claims none
    by (simp add: plan_sources_def discover_def collect_markdown_files_def plan_file_def plan_start_def Let_def
        demo_source_plan_def demo_planned_def) (simp add: demo_ingest_def sort_key_simps)
qed

theorem planned_claims_cite_witness:
  "plan_sources demo_ingest [] ''/w'' ''/w/a.md'' ''demo'' 2 None (view_at relation_journal id ''demo'' []) = Inr demo_source_plan \<and>
   pl_claims demo_planned \<noteq> [] \<and> cites demo_ingest demo_planned"
  using planned_claims_cite [OF demo_plans [of "[]" relation_journal id]] demo_plans
  by (simp add: demo_source_plan_def) (simp add: demo_planned_def)

definition ingest_entry :: "nat \<Rightarrow> domain_event \<Rightarrow> IndexEntry" where
  "ingest_entry n ev = \<lparr>ie_seq = n, ie_entity = entity_of zero_hash ev, ie_kind = kind_of ev, ie_id = n\<rparr>"

definition ingest_journal :: journal where
  "ingest_journal = memory_journal ''workspace:demo''
     [(ingest_entry 1 (EvSourceObserved (pl_observed demo_planned)), Inr (Payload (EvSourceObserved (pl_observed demo_planned)))),
      (ingest_entry 2 (EvClaimRecorded demo_found), Inr (Payload (EvClaimRecorded demo_found)))] (\<lambda>_. None)"

theorem reingest_plans_nothing_witness:
  "plan_sources demo_ingest [] ''/w'' ''/w/a.md'' ''demo'' 2 None (view_at ingest_journal id ''demo'' []) = Inr demo_source_plan \<and>
   plan_sources demo_ingest [] ''/w'' ''/w/a.md'' ''demo'' 3 None
     (view_at ingest_journal id ''demo'' [ingest_entry 1 (EvSourceObserved (pl_observed demo_planned)), ingest_entry 2 (EvClaimRecorded demo_found)]) =
   Inr (demo_source_plan\<lparr>sp_sources := []\<rparr>)"
proof -
  let ?new = "[ingest_entry 1 (EvSourceObserved (pl_observed demo_planned)), ingest_entry 2 (EvClaimRecorded demo_found)]"
  have ok: "cards_ok (truth ingest_journal id [])" by (simp add: cards_ok_def)
  have new: "list_all2 (recorded_as zero_hash ingest_journal) ?new (planned_events demo_source_plan @ map EvClaimSuperseded [])"
    by (simp add: planned_events_def source_events_def demo_source_plan_def demo_planned_def)
      (simp add: recorded_as_def ingest_entry_def ingest_journal_def memory_journal_def demo_planned_def)
  have ids: "distinct (map (so_source_id \<circ> pl_observed) (sp_sources demo_source_plan))"
    "\<forall>s \<in> set (sp_sources demo_source_plan). bt_get (truth ingest_journal id []) (entity_for_source (so_source_id (pl_observed s))) = None"
    by (simp_all add: demo_source_plan_def)
  from reingest_plans_nothing [OF demo_plans ok new ids, of "[]" 3 None] show ?thesis using demo_plans by simp
qed

section \<open>A run and its dry run\<close>

definition demo_observed :: SourceObservedV2 where
  "demo_observed = \<lparr>so_source_id = ''src_a'', so_workspace_id = ''demo'', so_source_kind = ''markdown'', so_path = ''docs/a.md'',
     so_body_hash_hex = ''body'', so_observed_at_ms = 1\<rparr>"

definition one_source :: SourcePlan where
  "one_source = \<lparr>sp_sources = [\<lparr>pl_observed = demo_observed, pl_claims = []\<rparr>], sp_skipped = [], sp_empty = False, sp_succeeded = Suc 0\<rparr>"

lemma demo_observed_appended:
  "append_domain_event demo_externals memory_api demo_append_env KSourceObserved ''src_a'' = (demo_append, Inr ())"
  by (simp add: demo_append_def append_domain_event_def policy_append_def verify_and_note_def APPEND_POLICIES_def
      demo_externals_def demo_append_env_def memory_api_def append_source_observed_def coordinate_def
      append_with_key_def place_def append_typed_with_options_def memory_append_def memory_find_def u128_max_def Let_def
      coordinate_for_source_def)

theorem dry_run_predicts_witness:
  "let run = execute_ingest_plan id (backend_ctx demo_externals memory_api) (\<lambda>_. Inr ''src_a'') (\<lambda>_. Inr (view_of ''demo'' 0 []))
       (\<lambda>_ _. Inl (ErrIo [])) one_source True 2
   in run True demo_append_env = (demo_append_env, Inr (dry_execution one_source)) \<and> run False demo_append_env = (demo_append, Inr (dry_execution one_source)) \<and>
      map rn_kind_bits (ap_receipts demo_append) = [KSourceObserved]"
proof -
  let ?run = "execute_ingest_plan id (backend_ctx demo_externals memory_api) (\<lambda>_. Inr ''src_a'') (\<lambda>_. Inr (view_of ''demo'' 0 []))
       (\<lambda>_ _. Inl (ErrIo [])) one_source True 2"
  have one: "append_json op (backend_ctx demo_externals memory_api) (\<lambda>_. Inr ''src_a'') (EvSourceObserved demo_observed) demo_append_env =
      (demo_append, Inr ())" for op
    using demo_observed_appended by (simp add: append_json_def backend_ctx_def)
  have run: "?run False demo_append_env = (demo_append, Inr (dry_execution one_source))"
    using one
    by (simp add: execute_ingest_plan_def one_source_def dry_execution_def infer_and_append_ingest_supersessions_def
        op_bind_def op_defs u32_try_def sat_add32_def u32_max_def)
  have "ap_receipts demo_append_env = []" by (simp add: demo_append_env_def)
  then show ?thesis
    using dry_run_predicts [OF run backend_forwards] run
    by (auto simp: Let_def planned_events_def source_events_def one_source_def dry_execution_def u32_try_def u32_max_def split: if_splits)
qed

section \<open>Identities that collide\<close>

text \<open>
  The derived identity of a claim joins the line number and the normalised text without a separator, so two
  claims of one source can share it.
\<close>

lemma claim_identities_collide:
  "claim_id_from_parts B s 1 ''2fa is required for admins'' = claim_id_from_parts B s 12 ''fa is required for admins''"
proof -
  have "show_nat 1 = ''1''" "show_nat 12 = ''12''" by code_simp+
  then show ?thesis by (simp add: claim_id_from_parts_def)
qed

end
