(* ===== verification/Indexing.thy ===== *)
theory Indexing
  imports Triangulate Convergence
begin

text \<open>
  The indexing handlers (\<open>src/ops/handlers/knowledge.rs\<close>): recording a source snapshot with the evidence of the
  current claims, building the code index of a recorded snapshot, and triangulation over an assembled view;
  with the settlement of indexed claims (\<open>src/ops/handlers/ingest/supersession.rs\<close>) and the bounded read of a
  SCIP file (\<open>src/code_index/persistence.rs\<close>).
\<close>

section \<open>Inputs\<close>

record KnowledgeIndexInput =
  xn_observed_at_ms :: u64
  xn_max_files :: "nat option"
  xn_max_file_bytes :: "u64 option"
  xn_max_total_bytes :: "u64 option"

definition capture_limits_of :: "KnowledgeIndexInput \<Rightarrow> (CaptureLimits, TexoError) result" where
  "capture_limits_of inp =
     (let d = capture_limits_default;
          limits = \<lparr>cl_max_files = or_default (cl_max_files d) (xn_max_files inp),
                    cl_max_file_bytes = or_default (cl_max_file_bytes d) (xn_max_file_bytes inp),
                    cl_max_total_bytes = or_default (cl_max_total_bytes d) (xn_max_total_bytes inp)\<rparr>
      in if cl_max_files limits = 0 \<or> 100000 < cl_max_files limits \<or>
            cl_max_file_bytes limits = 0 \<or> 16 * 1024 * 1024 < cl_max_file_bytes limits \<or>
            cl_max_total_bytes limits = 0 \<or> 512 * 1024 * 1024 < cl_max_total_bytes limits
         then Inl (ErrOpInput ''texo.knowledge.index''
           ''capture limits must be non-zero and at most 100000 files, 16 MiB per file, and 512 MiB total'')
         else Inr limits)"

record CodeIndexBuildInput =
  xb_snapshot_id :: "SourceSnapshotId option"
  xb_scip_path :: "string option"
  xb_observed_at_ms :: u64
  xb_max_scip_bytes :: "u64 option"
  xb_max_documents :: "nat option"
  xb_max_occurrences :: "nat option"
  xb_analysis_budget_secs :: "u64 option"

definition can_reuse_default :: "CodeIndexBuildInput \<Rightarrow> bool" where
  "can_reuse_default inp \<longleftrightarrow>
     xb_scip_path inp = None \<and> xb_max_scip_bytes inp = None \<and> xb_max_documents inp = None \<and>
     xb_max_occurrences inp = None \<and> xb_analysis_budget_secs inp = None"

definition code_limits_of :: "CodeIndexBuildInput \<Rightarrow> (CodeIndexLimits, TexoError) result" where
  "code_limits_of inp =
     (let d = code_index_limits_default;
          limits = \<lparr>xl_max_scip_bytes = or_default (xl_max_scip_bytes d) (xb_max_scip_bytes inp),
                    xl_max_documents = or_default (xl_max_documents d) (xb_max_documents inp),
                    xl_max_occurrences = or_default (xl_max_occurrences d) (xb_max_occurrences inp),
                    xl_analysis_budget_ms = 1000 * or_default (xl_analysis_budget_ms d div 1000) (xb_analysis_budget_secs inp)\<rparr>
      in if xl_max_scip_bytes limits = 0 \<or> 256 * 1024 * 1024 < xl_max_scip_bytes limits \<or>
            xl_max_documents limits = 0 \<or> 100000 < xl_max_documents limits \<or>
            xl_max_occurrences limits = 0 \<or> 2000000 < xl_max_occurrences limits \<or>
            xl_analysis_budget_ms limits = 0 \<or> 300000 < xl_analysis_budget_ms limits
         then Inl (ErrOpInput ''texo.code.index.build''
           ''code-index limits must be non-zero and at most 256 MiB, 100000 documents, 2000000 occurrences, and 300 seconds'')
         else Inr limits)"

section \<open>Reading a SCIP file\<close>

record path_stat =
  pt_symlink :: bool
  pt_file :: bool
  pt_len :: u64

record scip_files =
  sf_canonical :: "string \<Rightarrow> (string, string) result"
  sf_lstat :: "string \<Rightarrow> (path_stat, string) result"
  sf_bytes :: "string \<Rightarrow> (string, string) result"

text \<open>\<open>Path::starts_with\<close> on canonical paths: whole components.\<close>

definition path_within :: "string \<Rightarrow> string \<Rightarrow> bool" where
  "path_within dir path \<longleftrightarrow> path = dir \<or> starts_with path (if dir = ''/'' then dir else dir @ ''/'')"

definition read_scip :: "scip_files \<Rightarrow> string \<Rightarrow> string \<Rightarrow> u64 \<Rightarrow> (string, TexoError) result" where
  "read_scip fs dir path max_bytes =
     (let cand = (if starts_with path ''/'' then path else dir @ ''/'' @ path); failed = (\<lambda>detail. Inl (source_error path detail)) in
      res_bind (map_sum ErrIo id (sf_canonical fs dir)) (\<lambda>canonical_root.
      res_bind (map_sum ErrIo id (sf_canonical fs cand)) (\<lambda>canonical.
      if \<not> path_within canonical_root canonical then failed ''SCIP path escapes the workspace''
      else res_bind (map_sum ErrIo id (sf_lstat fs cand)) (\<lambda>st.
        if pt_symlink st \<or> \<not> pt_file st then failed ''SCIP input must be a regular non-symlink file''
        else if max_bytes < pt_len st then failed ''SCIP input exceeds the configured byte limit''
        else res_bind (map_sum ErrIo id (sf_bytes fs cand)) (\<lambda>bytes.
          if length bytes \<noteq> pt_len st then failed ''SCIP input changed while it was read'' else Inr bytes)))))"

section \<open>Settling indexed claims\<close>

type_synonym 's frontier_policy = "'s append_env \<Rightarrow> WorkspaceView \<Rightarrow> u64 \<Rightarrow> (RelateTemporalPolicy, TexoError) result"

definition evidence_frontier :: "WorkspaceView \<Rightarrow> ReceiptNote list \<Rightarrow> u64" where
  "evidence_frontier view receipts =
     (if receipts = [] then wv_frontier view else fold max (map rn_global_sequence receipts) 0)"

definition settle_indexed_explicit_supersessions ::
  "(string \<Rightarrow> string) \<Rightarrow> 's ctx \<Rightarrow> (domain_event \<Rightarrow> (string, string) result) \<Rightarrow> 's frontier_policy \<Rightarrow> WorkspaceView \<Rightarrow> ClaimId set \<Rightarrow> u64 \<Rightarrow>
   ReceiptNote list \<Rightarrow> ('s, ExplicitSupersessionOutcome \<times> ReceiptNote list) op" where
  "settle_indexed_explicit_supersessions B cx enc temporal view ids observed receipts =
     op_bind (\<lambda>env. (env, temporal env view (evidence_frontier view receipts))) (\<lambda>policy.
     let outcome = infer_indexed_supersessions B view ids observed policy in
     op_bind (op_for (append_json ''texo.knowledge.index'' cx enc) (map EvClaimSuperseded (xo_applied outcome))) (\<lambda>_.
     op_bind take_receipts (\<lambda>rs. op_return (outcome, receipts @ rs))))"

section \<open>Recording a snapshot\<close>

definition repository_id_for_index :: "(string \<Rightarrow> string) \<Rightarrow> string \<Rightarrow> string \<Rightarrow> SourceSnapshotRecordedV1 list \<Rightarrow> RepositoryId" where
  "repository_id_for_index B canonical_root workspace_id previous =
     (if previous = [] then repository_id_derive B (''texo.repository.v1'' @ [US] @ workspace_id @ [US] @ canonical_root)
      else sn_repository_id (last previous))"

definition add_plan_gap :: "CoverageGap \<Rightarrow> KnowledgeCoverage \<Rightarrow> KnowledgeCoverage" where
  "add_plan_gap gap cov =
     (if length (cov_gaps cov) < 256 then cov\<lparr>cov_gaps := cov_gaps cov @ [gap]\<rparr> else cov\<lparr>cov_truncated := True\<rparr>)"

definition attach_evidence :: "EvidencePlan \<Rightarrow> KnowledgeCoverage \<Rightarrow> KnowledgeCoverage" where
  "attach_evidence planned cov =
     (let cov = fold add_plan_gap (pn_gaps planned) cov;
          cov = (if pn_rows planned = [] then cov else cov\<lparr>cov_analysis_quality := Syntactic\<rparr>)
      in cov\<lparr>cov_occurrences := min u64_max (length (pn_rows planned))\<rparr>)"

definition recorded_snapshot :: "WorkspaceId \<Rightarrow> GitCapture \<Rightarrow> CaptureLimits \<Rightarrow> u64 \<Rightarrow> SourceSnapshotRecordedV1" where
  "recorded_snapshot w c limits observed =
     \<lparr>sn_workspace_id = w, sn_repository_id = gt_repository_id c, sn_snapshot_id = gt_snapshot_id c, sn_base_commit = gt_base_commit c,
      sn_base_tree = gt_base_tree c, sn_index_digest_hex = gt_index_digest_hex c, sn_overlay_digest_hex = gt_overlay_digest_hex c,
      sn_dirty = gt_dirty c, sn_coverage = gt_coverage c, sn_capture_max_files = min u64_max (cl_max_files limits),
      sn_capture_max_file_bytes = cl_max_file_bytes limits, sn_capture_max_total_bytes = cl_max_total_bytes limits,
      sn_observed_at_ms = observed\<rparr>"

text \<open>What the operation reads and plans before it appends.\<close>

record IndexPlan =
  ip_workspace :: WorkspaceId
  ip_capture :: GitCapture
  ip_rows :: "(EvidenceOccurrence \<times> ClaimEvidenceLinkedV1) list"
  ip_relations :: "SourceSnapshotRelationV1 list"
  ip_already_indexed :: bool

definition index_plan ::
  "read_env \<Rightarrow> (KnowledgeContractError \<Rightarrow> string) \<Rightarrow> (string \<Rightarrow> bool) \<Rightarrow> git_repo \<Rightarrow> 'c history \<Rightarrow> string \<Rightarrow> WorkspaceView \<Rightarrow> CaptureLimits \<Rightarrow> u64 \<Rightarrow>
   IndexPlan read" where
  "index_plan env contract utf8 repo h canonical_root view limits observed =
     (let B = re_hash env; ws = env_workspace_id (re_env env) in
      read_bind (Some (map_sum ErrIdParse id (workspace_id_new ws))) (\<lambda>w.
      read_bind (source_snapshots_through (re_env env) (Some (wv_frontier view))) (\<lambda>previous.
      read_bind (Some (capture B contract repo (repository_id_for_index B canonical_root ws previous) limits)) (\<lambda>cap.
      read_bind (latest_source_snapshot (re_env env) (Some (wv_frontier view))) (\<lambda>latest.
      read_bind (Some (plan_claim_evidence B contract utf8 view (gt_sources cap) (gt_snapshot_id cap) observed)) (\<lambda>planned.
      read_bind (Some (plan_and_attach_snapshot_relations h w (cap\<lparr>gt_coverage := attach_evidence planned (gt_coverage cap)\<rparr>) previous observed))
        (\<lambda>(relations, cap).
        Some (Inr \<lparr>ip_workspace = w, ip_capture = cap, ip_rows = pn_rows planned, ip_relations = relations,
                   ip_already_indexed = (case latest of None \<Rightarrow> False | Some s \<Rightarrow> sn_snapshot_id s = gt_snapshot_id cap)\<rparr>))))))))"

record KnowledgeIndexOutput =
  xo_workspace_id :: string
  xo_snapshot_id :: SourceSnapshotId
  xo_base_commit :: GitObjectId
  xo_dirty :: bool
  xo_sources_captured :: nat
  xo_evidence_recorded :: nat
  xo_claims_linked :: nat
  xo_relations_recorded :: nat
  xo_supersessions_applied :: nat
  xo_supersessions_held :: nat
  xo_held_supersessions :: "HeldExplicitSupersession list"
  xo_already_indexed :: bool
  xo_coverage :: KnowledgeCoverage
  xo_receipts :: "ReceiptNote list"

definition index_commit ::
  "(string \<Rightarrow> string) \<Rightarrow> 's ctx \<Rightarrow> (domain_event \<Rightarrow> (string, string) result) \<Rightarrow> 's frontier_policy \<Rightarrow> string \<Rightarrow> WorkspaceView \<Rightarrow> CaptureLimits \<Rightarrow> u64 \<Rightarrow>
   IndexPlan \<Rightarrow> ('s, KnowledgeIndexOutput) op" where
  "index_commit B cx enc temporal workspace_id view limits observed p =
     (let c = ip_capture p; snap = recorded_snapshot (ip_workspace p) c limits observed;
          ids = set (map (el_claim_id \<circ> snd) (ip_rows p)) in
      op_bind (append_knowledge_plan cx enc (ip_workspace p) snap (ip_rows p) (ip_relations p) observed) (\<lambda>receipts.
      op_bind (settle_indexed_explicit_supersessions B cx enc temporal view ids observed receipts) (\<lambda>(outcome, receipts).
        op_return \<lparr>xo_workspace_id = workspace_id, xo_snapshot_id = gt_snapshot_id c, xo_base_commit = gt_base_commit c, xo_dirty = gt_dirty c,
          xo_sources_captured = length (gt_sources c), xo_evidence_recorded = length (ip_rows p), xo_claims_linked = length (ip_rows p),
          xo_relations_recorded = length (ip_relations p), xo_supersessions_applied = length (xo_applied outcome),
          xo_supersessions_held = length (xo_held outcome), xo_held_supersessions = xo_held outcome,
          xo_already_indexed = ip_already_indexed p, xo_coverage = gt_coverage c, xo_receipts = receipts\<rparr>)))"

text \<open>A handler that reads the journal and then has effects; \<open>None\<close> if a read does not return.\<close>

definition read_then :: "'a read \<Rightarrow> ('a \<Rightarrow> ('s, 'b) op) \<Rightarrow> 's append_env \<Rightarrow> ('s append_env \<times> ('b, TexoError) result) option" where
  "read_then r f aenv = (case r of None \<Rightarrow> None | Some (Inl e) \<Rightarrow> Some (aenv, Inl e) | Some (Inr x) \<Rightarrow> Some (f x aenv))"

definition knowledge_index ::
  "read_env \<Rightarrow> (KnowledgeContractError \<Rightarrow> string) \<Rightarrow> (string \<Rightarrow> bool) \<Rightarrow> git_repo \<Rightarrow> 'c history \<Rightarrow> string \<Rightarrow> 's ctx \<Rightarrow>
   (domain_event \<Rightarrow> (string, string) result) \<Rightarrow> 's frontier_policy \<Rightarrow> (WorkspaceView, TexoError) result \<Rightarrow> KnowledgeIndexInput \<Rightarrow> 's append_env \<Rightarrow>
   ('s append_env \<times> (KnowledgeIndexOutput, TexoError) result) option" where
  "knowledge_index env contract utf8 repo h canonical_root cx enc temporal assembled inp aenv =
     (case capture_limits_of inp of
        Inl e \<Rightarrow> Some (aenv, Inl e)
      | Inr limits \<Rightarrow>
          (case query_view ''texo.knowledge.index'' cx aenv of
             (aenv, Inl e) \<Rightarrow> Some (aenv, Inl e)
           | (aenv, Inr _) \<Rightarrow>
               read_then (read_bind (Some assembled) (\<lambda>view.
                   read_bind (index_plan env contract utf8 repo h canonical_root view limits (xn_observed_at_ms inp)) (\<lambda>p. Some (Inr (view, p)))))
                 (\<lambda>(view, p). index_commit (re_hash env) cx enc temporal (env_workspace_id (re_env env)) view limits (xn_observed_at_ms inp) p) aenv))"

section \<open>Building the code index\<close>

definition recorded_source_capture ::
  "read_env \<Rightarrow> (KnowledgeContractError \<Rightarrow> string) \<Rightarrow> git_repo \<Rightarrow> SourceSnapshotId option \<Rightarrow> (SourceSnapshotRecordedV1 \<times> GitCapture) read" where
  "recorded_source_capture env contract repo wanted =
     read_bind (case wanted of
         Some i \<Rightarrow> read_bind (source_snapshot_by_id (re_env env) i) (\<lambda>found. Some (ok_or found
           (ErrSnapshot SourceUnavailable ''requested source snapshot is not recorded; run `texo index` first'')))
       | None \<Rightarrow> read_bind (latest_source_snapshot (re_env env) None) (\<lambda>found. Some (ok_or found
           (ErrSnapshot SourceUnavailable ''run `texo index` to record a Git source snapshot first'')))) (\<lambda>recorded.
     read_bind (Some (capture (re_hash env) contract repo (sn_repository_id recorded) (recorded_capture_limits recorded))) (\<lambda>cap.
       Some (if gt_snapshot_id cap \<noteq> sn_snapshot_id recorded
             then Inl (ErrSnapshot SourceUnavailable
               ''Git commit/index/worktree changed; run source indexing again before code indexing'')
             else Inr (recorded, cap))))"

record CodeIndexBuildOutput =
  xd_workspace_id :: string
  xd_snapshot_id :: SourceSnapshotId
  xd_index_id :: CodeIndexId
  xd_format :: CodeIndexFormat
  xd_analyzer_fingerprint :: string
  xd_artifact_digest_hex :: string
  xd_artifact_path :: string
  xd_coverage :: KnowledgeCoverage
  xd_already_indexed :: bool
  xd_receipt :: "ReceiptNote option"

definition reused_index :: "string \<Rightarrow> CodeIndexRecordedV1 \<Rightarrow> CodeIndexArtifact \<Rightarrow> CodeIndexBuildOutput" where
  "reused_index workspace_id existing artifact =
     \<lparr>xd_workspace_id = workspace_id, xd_snapshot_id = ci_snapshot_id existing, xd_index_id = ci_index_id existing,
      xd_format = art_format artifact, xd_analyzer_fingerprint = art_analyzer_fingerprint artifact,
      xd_artifact_digest_hex = ci_artifact_digest_hex existing,
      xd_artifact_path = ''.texo/cache/code-index/'' @ code_index_str (ci_index_id existing) @ ''.bin'',
      xd_coverage = art_coverage artifact, xd_already_indexed = True, xd_receipt = None\<rparr>"

text \<open>The existing index a default build answers with, if it is recorded and still on disk.\<close>

definition reusable_index ::
  "read_env \<Rightarrow> files \<Rightarrow> CodeIndexBuildInput \<Rightarrow> SourceSnapshotId \<Rightarrow> (CodeIndexRecordedV1 \<times> CodeIndexArtifact) option read" where
  "reusable_index env files inp snap =
     (if \<not> can_reuse_default inp then Some (Inr None)
      else read_bind (latest_code_index (re_env env) None snap) (\<lambda>existing.
        case existing of
          None \<Rightarrow> Some (Inr None)
        | Some r \<Rightarrow>
            Some (res_bind (load (re_tools env) files (re_root env) (ci_index_id r) (ci_artifact_digest_hex r)) (\<lambda>found.
              case found of
                None \<Rightarrow> Inr None
              | Some artifact \<Rightarrow>
                  if art_snapshot_id artifact \<noteq> snap
                  then Inl (ErrSnapshot SourceUnavailable ''code-index artifact belongs to a different source snapshot'')
                  else Inr (Some (r, artifact))))))"

definition index_payload :: "WorkspaceId \<Rightarrow> SourceSnapshotId \<Rightarrow> PreparedCodeIndex \<Rightarrow> u64 \<Rightarrow> CodeIndexRecordedV1" where
  "index_payload w snap px observed =
     (let a = px_artifact px in
      \<lparr>ci_workspace_id = w, ci_snapshot_id = snap, ci_index_id = art_index_id a, ci_format = art_format a,
       ci_analyzer_fingerprint = art_analyzer_fingerprint a, ci_artifact_digest_hex = px_artifact_digest_hex px,
       ci_coverage = art_coverage a, ci_observed_at_ms = observed\<rparr>)"

definition built_index :: "string \<Rightarrow> string \<Rightarrow> string \<Rightarrow> CodeIndexRecordedV1 \<Rightarrow> ReceiptNote \<Rightarrow> CodeIndexBuildOutput" where
  "built_index workspace_id dir path payload receipt =
     \<lparr>xd_workspace_id = workspace_id, xd_snapshot_id = ci_snapshot_id payload, xd_index_id = ci_index_id payload,
      xd_format = ci_format payload, xd_analyzer_fingerprint = ci_analyzer_fingerprint payload,
      xd_artifact_digest_hex = ci_artifact_digest_hex payload, xd_artifact_path = relative_path dir path,
      xd_coverage = ci_coverage payload, xd_already_indexed = False, xd_receipt = Some receipt\<rparr>"

text \<open>The build of a recorded snapshot: read, persist, append.\<close>

definition build_and_record ::
  "read_env \<Rightarrow> 's ctx \<Rightarrow> (domain_event \<Rightarrow> (string, string) result) \<Rightarrow> scip_files \<Rightarrow> CodeIndexBuildInput \<Rightarrow> CodeIndexLimits \<Rightarrow>
   SourceSnapshotRecordedV1 \<Rightarrow> GitCapture \<Rightarrow> files \<Rightarrow> 's append_env \<Rightarrow> files \<times> 's append_env \<times> (CodeIndexBuildOutput, TexoError) result" where
  "build_and_record env cx enc fs inp limits recorded cap files aenv =
     (let dir = re_root env; ws = env_workspace_id (re_env env);
          scip = (case xb_scip_path inp of None \<Rightarrow> Inr None
                  | Some path \<Rightarrow> map_sum id Some (read_scip fs dir path (xl_max_scip_bytes limits)))
      in case res_bind scip (\<lambda>bytes. build (re_tools env) cap bytes limits) of
           Inl e \<Rightarrow> (files, aenv, Inl e)
         | Inr px \<Rightarrow>
             let (path, files) = persist dir px files in
             (files, op_bind (op_lift (map_sum ErrIdParse id (workspace_id_new ws))) (\<lambda>w.
                let payload = index_payload w (sn_snapshot_id recorded) px (xb_observed_at_ms inp) in
                op_bind (append_json ''texo.code.index.build'' cx enc (EvCodeIndexRecorded payload)) (\<lambda>_.
                op_bind (take_one_receipt ''texo.code.index.build'') (\<lambda>receipt.
                  op_return (built_index ws dir path payload receipt)))) aenv))"

definition code_index_build ::
  "read_env \<Rightarrow> (KnowledgeContractError \<Rightarrow> string) \<Rightarrow> git_repo \<Rightarrow> 's ctx \<Rightarrow> (domain_event \<Rightarrow> (string, string) result) \<Rightarrow> scip_files \<Rightarrow>
   CodeIndexBuildInput \<Rightarrow> files \<Rightarrow> 's append_env \<Rightarrow> (files \<times> 's append_env \<times> (CodeIndexBuildOutput, TexoError) result) option" where
  "code_index_build env contract repo cx enc fs inp files aenv =
     (case read_bind (Some (code_limits_of inp)) (\<lambda>limits.
             read_bind (recorded_source_capture env contract repo (xb_snapshot_id inp)) (\<lambda>(recorded, cap).
             read_bind (reusable_index env files inp (sn_snapshot_id recorded)) (\<lambda>found. Some (Inr (limits, recorded, cap, found))))) of
        None \<Rightarrow> None
      | Some (Inl e) \<Rightarrow> Some (files, aenv, Inl e)
      | Some (Inr (limits, recorded, cap, found)) \<Rightarrow>
          Some (case found of
                  Some (existing, artifact) \<Rightarrow> (files, aenv, Inr (reused_index (env_workspace_id (re_env env)) existing artifact))
                | None \<Rightarrow> build_and_record env cx enc fs inp limits recorded cap files aenv))"

section \<open>Triangulation\<close>

definition knowledge_triangulate ::
  "read_env \<Rightarrow> 's ctx \<Rightarrow> 's append_env \<Rightarrow> (WorkspaceView \<times> SnapshotRead) read \<Rightarrow> TriangulationTarget \<Rightarrow>
   ('s append_env \<times> (KnowledgeTriangulateOutput, TexoError) result) option" where
  "knowledge_triangulate env cx aenv assembled target =
     (case query_view ''texo.knowledge.triangulate'' cx aenv of
        (aenv, Inl e) \<Rightarrow> Some (aenv, Inl e)
      | (aenv, Inr _) \<Rightarrow>
          read_then (read_bind assembled (\<lambda>(view, snap). triangulate_from_view env view snap target)) op_return aenv)"

section \<open>The code index of the recorded snapshot\<close>

lemma capture_repository: "capture B contract repo repository limits = Inr c \<Longrightarrow> gt_repository_id c = repository"
  by (auto simp: capture_def res_bind_eq_Inr Let_def split: prod.splits if_splits)

lemma attached_capture:
  assumes "plan_and_attach_snapshot_relations h w c previous observed = Inr (relations, c')"
  obtains coverage where "c' = c\<lparr>gt_coverage := coverage\<rparr>"
  using assms by (auto simp: plan_and_attach_snapshot_relations_def res_bind_eq_Inr)

lemma index_plan_capture:
  assumes "index_plan env contract utf8 repo h canonical_root view limits observed = Some (Inr p)"
  obtains cap coverage where "capture (re_hash env) contract repo (gt_repository_id (ip_capture p)) limits = Inr cap"
    "ip_capture p = cap\<lparr>gt_coverage := coverage\<rparr>"
proof -
  obtain repository cap planned w previous relations c' where cap: "capture (re_hash env) contract repo repository limits = Inr cap"
    and rel: "plan_and_attach_snapshot_relations h w (cap\<lparr>gt_coverage := attach_evidence planned (gt_coverage cap)\<rparr>) previous observed = Inr (relations, c')"
    and p: "ip_capture p = c'"
    using assms by (auto simp: index_plan_def Let_def read_bind_Inr)
  obtain coverage where "c' = cap\<lparr>gt_coverage := coverage\<rparr>" by (rule attached_capture [OF rel]) simp
  moreover have "gt_repository_id cap = repository" by (rule capture_repository [OF cap])
  ultimately show thesis using that cap p by simp
qed

lemma capture_limits_bounds: "capture_limits_of inp = Inr limits \<Longrightarrow> cl_max_files limits \<le> 100000"
  by (auto simp: capture_limits_of_def Let_def split: if_splits)

text \<open>
  C37: What was indexed is what gets built.  After an index operation has recorded its snapshot, a code-index build of
  the unchanged repository captures that snapshot again: it finds the recorded identity, with the same sources,
  and is not refused as changed, although the recorded coverage is not that of the capture.
\<close>

theorem index_then_build_agrees:
  assumes "capture_limits_of inp = Inr limits" "index_plan env contract utf8 repo h canonical_root view limits observed = Some (Inr p)"
    and "latest_source_snapshot (re_env env') None = Some (Inr (Some (recorded_snapshot (ip_workspace p) (ip_capture p) limits observed)))"
    and "re_hash env' = re_hash env"
  shows "\<exists>cap. recorded_source_capture env' contract repo None = Some (Inr (recorded_snapshot (ip_workspace p) (ip_capture p) limits observed, cap)) \<and>
    gt_snapshot_id cap = gt_snapshot_id (ip_capture p) \<and> gt_sources cap = gt_sources (ip_capture p)"
proof -
  let ?r = "recorded_snapshot (ip_workspace p) (ip_capture p) limits observed"
  obtain cap coverage where cap: "capture (re_hash env) contract repo (gt_repository_id (ip_capture p)) limits = Inr cap"
    "ip_capture p = cap\<lparr>gt_coverage := coverage\<rparr>" by (rule index_plan_capture [OF assms(2)])
  have "cl_max_files limits \<le> u64_max" using capture_limits_bounds [OF assms(1)] by (simp add: u64_max_def)
  then have "recorded_capture_limits ?r = limits" by (simp add: recorded_capture_limits_def recorded_snapshot_def)
  moreover have "sn_repository_id ?r = gt_repository_id (ip_capture p)" "sn_snapshot_id ?r = gt_snapshot_id cap"
    using cap(2) by (simp_all add: recorded_snapshot_def)
  ultimately have "recorded_source_capture env' contract repo None = Some (Inr (?r, cap))"
    using assms(3,4) cap(1) by (simp add: recorded_source_capture_def ok_or_def)
  then show ?thesis using cap(2) by simp
qed

lemma code_index_fold:
  "foldl (\<lambda>s e. case g e of None \<Rightarrow> s | Some r \<Rightarrow> keep_index snap e r s) s es =
     (case filter (\<lambda>r. ci_snapshot_id r = snap) (rev (List.map_filter g es)) of [] \<Rightarrow> s | r # _ \<Rightarrow> Some r)"
proof (induction es arbitrary: s rule: rev_induct)
  case (snoc e es)
  have "List.map_filter g (es @ [e]) = List.map_filter g es @ (case g e of None \<Rightarrow> [] | Some r \<Rightarrow> [r])"
    by (cases "g e") (simp_all add: List.map_filter_def)
  then show ?case using snoc by (auto simp: keep_index_def split: option.splits)
qed simp

lemma as_code_index_total: "kind_of ev = KCodeIndexRecorded \<Longrightarrow> \<exists>x. as_code_index ev = Some x"
  by (cases ev) auto

lemma latest_code_index_recorded:
  assumes j: "journal_of (env_store env) (scope_for_workspace (env_workspace_id env)) (hist @ [e])" "well_typed (env_store env) (hist @ [e])"
    and e: "ie_seq e \<le> fr" "recorded_as B (env_store env) e (EvCodeIndexRecorded r)"
  shows "latest_code_index env (Some fr) (ci_snapshot_id r) = Some (Inr (Some r))"
proof -
  let ?j = "env_store env"
  let ?g = "\<lambda>e. if ie_kind e = KCodeIndexRecorded then Option.bind (payload_of ?j e) as_code_index else None"
  let ?step = "collect_entry ?j (Some fr) KCodeIndexRecorded as_code_index (keep_index (ci_snapshot_id r))"
  let ?f = "\<lambda>e s. case ?g e of None \<Rightarrow> s | Some x \<Rightarrow> keep_index (ci_snapshot_id r) e x s"
  have n: "0 < (256::nat)" by simp
  have past: "?step e s = (s, Break)" if "fr < ie_seq e" for e s using that by (simp add: collect_entry_def)
  have low: "?step e s = (?f e s, Next)" if "e \<in> set (hist @ [e'])" "ie_seq e \<le> fr" "e' = e0" "well_typed ?j (hist @ [e'])" for e s e' e0
    by (rule collect_step [OF that(4,1)]) (use that as_code_index_total in auto)
  obtain fl where p: "pages (\<lambda>a. jr_query ?j (scope_for_workspace (env_workspace_id env)) a 256) (entries_loop ?step) None None =
      Some (foldl (\<lambda>s e. ?f e s) None (up_to fr (hist @ [e])), fl)" "fl = Next \<or> fl = Break"
    using scan_exact [where f = ?f and s = None, OF j(1) n past low [OF _ _ refl j(2)]] by blast
  have "up_to fr (hist @ [e]) = up_to fr hist @ [e]" using e(1) by (simp add: up_to_def)
  moreover have "?f e s = Some r" for s
    using e(2) by (simp add: recorded_as_def payload_of_def keep_index_def)
  ultimately show ?thesis using p by (auto simp: latest_code_index_def)
qed

lemma build_parts:
  assumes "code_index_build env contract repo cx enc fs inp files aenv = Some (files', aenv', Inr out)" "\<not> xd_already_indexed out"
  obtains recorded cap bytes limits px where
    "recorded_source_capture env contract repo (xb_snapshot_id inp) = Some (Inr (recorded, cap))" "build (re_tools env) cap bytes limits = Inr px"
    "files' = snd (persist (re_root env) px files)" "xd_snapshot_id out = sn_snapshot_id recorded"
    "xd_index_id out = art_index_id (px_artifact px)" "xd_artifact_digest_hex out = px_artifact_digest_hex px"
proof -
  obtain limits recorded cap where r: "recorded_source_capture env contract repo (xb_snapshot_id inp) = Some (Inr (recorded, cap))"
    and b: "build_and_record env cx enc fs inp limits recorded cap files aenv = (files', aenv', Inr out)"
  proof -
    let ?reads = "read_bind (Some (code_limits_of inp)) (\<lambda>limits.
             read_bind (recorded_source_capture env contract repo (xb_snapshot_id inp)) (\<lambda>(recorded, cap).
             read_bind (reusable_index env files inp (sn_snapshot_id recorded)) (\<lambda>found. Some (Inr (limits, recorded, cap, found)))))"
    obtain limits recorded cap found where reads: "?reads = Some (Inr (limits, recorded, cap, found))"
      using assms(1) by (auto simp: code_index_build_def split: option.splits sum.splits)
    have "found = None"
    proof (rule ccontr)
      assume "found \<noteq> None"
      then obtain existing artifact where "found = Some (existing, artifact)" by auto
      then have "out = reused_index (env_workspace_id (re_env env)) existing artifact"
        using assms(1) reads by (simp add: code_index_build_def)
      then show False using assms(2) by (simp add: reused_index_def)
    qed
    then have "build_and_record env cx enc fs inp limits recorded cap files aenv = (files', aenv', Inr out)"
      using assms(1) reads by (simp add: code_index_build_def)
    moreover have "recorded_source_capture env contract repo (xb_snapshot_id inp) = Some (Inr (recorded, cap))"
      using reads by (auto simp: read_bind_Inr)
    ultimately show thesis by (rule that [rotated])
  qed
  from b obtain bytes px path w env1 receipt where "build (re_tools env) cap bytes limits = Inr px"
    "persist (re_root env) px files = (path, files')"
    "out = built_index (env_workspace_id (re_env env)) (re_root env) path (index_payload w (sn_snapshot_id recorded) px (xb_observed_at_ms inp)) receipt"
    by (auto simp: build_and_record_def Let_def res_bind_eq_Inr op_bind_Inr op_defs split: sum.splits prod.splits)
  then show thesis using that [OF r] by (auto simp: built_index_def index_payload_def Let_def)
qed

text \<open>
  C36: A built index is served.  After a build that was not reused, a read whose journal ends with the recorded event
  of the output finds the artifact on disk under the identity and digest of that event: it belongs to the
  recorded snapshot, and its occurrences quote the sources the repository had when it was captured again.
\<close>

theorem built_index_served:
  assumes build: "code_index_build env contract repo cx enc fs inp files aenv = Some (files', aenv', Inr out)" "\<not> xd_already_indexed out"
    and tools: "re_tools env' = re_tools env" "re_root env' = re_root env" "re_files env' = files'"
      "\<forall>a bytes. it_encode_artifact (re_tools env) a = Inr bytes \<and> it_hash (re_tools env) bytes = xd_artifact_digest_hex out \<longrightarrow>
        it_decode_artifact (re_tools env) bytes = Inr a"
    and j: "journal_of (env_store (re_env env')) (scope_for_workspace (env_workspace_id (re_env env'))) (hist @ [e])"
      "well_typed (env_store (re_env env')) (hist @ [e])"
    and e: "ie_seq e \<le> fr" "recorded_as B (env_store (re_env env')) e (EvCodeIndexRecorded r)"
    and r: "ci_snapshot_id r = xd_snapshot_id out" "ci_index_id r = xd_index_id out" "ci_artifact_digest_hex r = xd_artifact_digest_hex out"
  shows "\<exists>recorded cap artifact.
    recorded_source_capture env contract repo (xb_snapshot_id inp) = Some (Inr (recorded, cap)) \<and> gt_snapshot_id cap = xd_snapshot_id out \<and>
    load_code_artifact_at env' fr (xd_snapshot_id out) =
      Some (Inr \<lparr>la_artifact = Some artifact, la_coverage = Some (ci_coverage r), la_unavailable = False\<rparr>) \<and>
    art_snapshot_id artifact = xd_snapshot_id out \<and>
    (length (cov_gaps (gt_coverage cap)) \<le> MAX_GAPS \<longrightarrow>
       (\<forall>o' \<in> set (art_occurrences artifact). \<exists>source \<in> set (gt_sources cap). occurrence_exact (it_hash (re_tools env)) source o'))"
proof -
  obtain recorded cap bytes limits px where parts:
    "recorded_source_capture env contract repo (xb_snapshot_id inp) = Some (Inr (recorded, cap))" "build (re_tools env) cap bytes limits = Inr px"
    "files' = snd (persist (re_root env) px files)" "xd_snapshot_id out = sn_snapshot_id recorded"
    "xd_index_id out = art_index_id (px_artifact px)" "xd_artifact_digest_hex out = px_artifact_digest_hex px"
    by (rule build_parts [OF build])
  have snap: "gt_snapshot_id cap = xd_snapshot_id out"
    using parts(1,4) by (auto simp: recorded_source_capture_def read_bind_Inr split: if_splits)
  have art: "art_snapshot_id (px_artifact px) = gt_snapshot_id cap"
    using parts(2) finish_fields(2) by (auto simp: build_def res_bind_eq_Inr)
  have "px_artifact_digest_hex px = it_hash (re_tools env) (px_bytes px)" "it_encode_artifact (re_tools env) (px_artifact px) = Inr (px_bytes px)"
    using parts(2) finish_fields(4,6) by (auto simp: build_def res_bind_eq_Inr)
  then have "decodes (re_tools env) (px_artifact px)" using tools(4) parts(6) by (auto simp: decodes_def)
  from persisted_loads [OF parts(2) this, of "re_root env" files]
  have "load (re_tools env') (re_files env') (re_root env') (ci_index_id r) (ci_artifact_digest_hex r) = Inr (Some (px_artifact px))"
    by (simp add: tools(1-3) r parts(3,5,6))
  moreover have "latest_code_index (re_env env') (Some fr) (xd_snapshot_id out) = Some (Inr (Some r))"
    using latest_code_index_recorded [OF j e] by (simp add: r(1))
  ultimately have "load_code_artifact_at env' fr (xd_snapshot_id out) =
      Some (Inr \<lparr>la_artifact = Some (px_artifact px), la_coverage = Some (ci_coverage r), la_unavailable = False\<rparr>)"
    using art snap by (simp add: load_code_artifact_at_def)
  then show ?thesis using parts(1) snap art built_exact [OF parts(2)]
    by (intro exI [of _ recorded] exI [of _ cap] exI [of _ "px_artifact px"]) simp
qed

section \<open>One repository, indexed and built\<close>

definition index_ctx :: "'s ctx" where
  "index_ctx =
     \<lparr>cx_append = (\<lambda>env kind bytes. (env\<lparr>ap_receipts := ap_receipts env @
         [\<lparr>rn_event_id_hex = bytes, rn_kind_bits = kind, rn_global_sequence = 1\<rparr>]\<rparr>, Inr ())),
      cx_query = (\<lambda>_ _. Inr ())\<rparr>"

definition index_env :: "(IndexEntry \<times> (stored, string) result) list \<Rightarrow> index_tools \<Rightarrow> files \<Rightarrow> read_env" where
  "index_env rows t files =
     \<lparr>re_env = \<lparr>env_store = memory_journal ''workspace:demo'' rows (\<lambda>_. None), env_workspace_id = ''demo'', env_journal_id = JournalId ''canonical''\<rparr>,
      re_hash = id, re_scope_entries = [], re_entity_entries = (\<lambda>_. []), re_latest_checkpoint = (\<lambda>_. Inr None),
      re_candidate_policy = [], re_root = ''/r'', re_files = files, re_tools = t\<rparr>"

definition snapshot_row :: "SourceSnapshotRecordedV1 \<Rightarrow> IndexEntry \<times> (stored, string) result" where
  "snapshot_row r = (\<lparr>ie_seq = 1, ie_entity = [], ie_kind = KSourceSnapshotRecorded, ie_id = 1\<rparr>, Inr (Payload (EvSourceSnapshotRecorded r)))"

definition index_view :: WorkspaceView where
  "index_view = \<lparr>wv_workspace_id = ''demo'', wv_frontier = 0, wv_freshness = PfFresh, wv_claims = [], wv_conflicts = [], wv_sources = []\<rparr>"

definition index_input :: KnowledgeIndexInput where
  "index_input = \<lparr>xn_observed_at_ms = 1, xn_max_files = Some 1, xn_max_file_bytes = Some 9, xn_max_total_bytes = Some 9\<rparr>"

lemma index_input_limits: "capture_limits_of index_input = Inr demo_limits"
  by (simp add: capture_limits_of_def index_input_def or_default_def demo_limits_def capture_limits_default_def)

lemma latest_of_row: "latest_source_snapshot (re_env (index_env [snapshot_row r] t files)) None = Some (Inr (Some r))"
  by (simp add: latest_source_snapshot_def source_snapshots_through_def index_env_def snapshot_row_def one_page scope_for_workspace_def
      collect_entry_def)
    (simp add: memory_journal_def decode_payload_def)

lemma no_rows: "latest_source_snapshot (re_env (index_env [] t files)) fr = Some (Inr None)"
    "source_snapshots_through (re_env (index_env [] t files)) fr = Some (Inr [])"
  by (simp_all add: latest_source_snapshot_def source_snapshots_through_def index_env_def memory_journal_def pages.simps)

lemma demo_index_plan:
  "\<exists>p. index_plan (index_env [] demo_tools files) (\<lambda>_. []) (\<lambda>_. True) demo_repo h ''/r'' index_view demo_limits 1 = Some (Inr p)"
proof -
  obtain c where c: "capture id (\<lambda>_. []) demo_repo (repository_id_for_index id ''/r'' ''demo'' []) demo_limits = Inr c"
    using demo_capture by blast
  have w: "workspace_id_new ''demo'' = Inr (WorkspaceId ''demo'')" by code_simp
  have f: "re_hash (index_env [] demo_tools files) = id" "env_workspace_id (re_env (index_env [] demo_tools files)) = ''demo''"
    by (simp_all add: index_env_def)
  show ?thesis
    by (simp add: index_plan_def f w no_rows c index_view_def plan_claim_evidence_def plan_and_attach_snapshot_relations_def
        plan_snapshot_relations_def)
qed

theorem index_then_build_agrees_witness:
  "\<exists>p cap. index_plan (index_env [] demo_tools (\<lambda>_. None)) (\<lambda>_. []) (\<lambda>_. True) demo_repo
       (Inr (), Inr, demo_parents) ''/r'' index_view demo_limits 1 = Some (Inr p) \<and>
     recorded_source_capture (index_env [snapshot_row (recorded_snapshot (ip_workspace p) (ip_capture p) demo_limits 1)] demo_tools (\<lambda>_. None))
       (\<lambda>_. []) demo_repo None = Some (Inr (recorded_snapshot (ip_workspace p) (ip_capture p) demo_limits 1, cap)) \<and>
     gt_sources cap = gt_sources (ip_capture p)"
proof -
  let ?h = "(Inr (), Inr, demo_parents)"
  obtain p where p: "index_plan (index_env [] demo_tools (\<lambda>_. None)) (\<lambda>_. []) (\<lambda>_. True) demo_repo ?h ''/r'' index_view demo_limits 1 = Some (Inr p)"
    using demo_index_plan by blast
  from index_then_build_agrees [OF index_input_limits p latest_of_row] show ?thesis
    using p by (fastforce simp: index_env_def)
qed

text \<open>The artifact of a capture no source of which is code, and a codec that knows it.\<close>

definition bare_artifact :: "GitCapture \<Rightarrow> CodeIndexLimits \<Rightarrow> CodeIndexArtifact" where
  "bare_artifact cap limits =
     (let b = builder_new limits (gt_coverage cap) in
      \<lparr>art_schema = ARTIFACT_SCHEMA, art_snapshot_id = gt_snapshot_id cap,
       art_index_id = occurrence_identity demo_tools cap [] LEXICAL_FINGERPRINT, art_format = ab_format b,
       art_analyzer_fingerprint = LEXICAL_FINGERPRINT, art_occurrences = [],
       art_coverage = \<lparr>cov_analysis_quality = ab_quality b, cov_sources_examined = ab_sources_examined b, cov_occurrences = 0,
         cov_truncated = ab_truncated b, cov_gaps = ab_gaps b\<rparr>\<rparr>)"

definition index_codec :: "CodeIndexArtifact \<Rightarrow> index_tools" where
  "index_codec x = demo_tools\<lparr>it_encode_artifact := (\<lambda>a. Inr (if a = x then ''x'' else ''y'')), it_decode_artifact := (\<lambda>_. Inr x)\<rparr>"

definition bare_index :: "GitCapture \<Rightarrow> CodeIndexLimits \<Rightarrow> PreparedCodeIndex" where
  "bare_index cap limits = \<lparr>px_artifact = bare_artifact cap limits, px_artifact_digest_hex = ''x'', px_bytes = ''x''\<rparr>"

lemma bare_builds:
  assumes "gt_sources cap = [demo_source]"
  shows "build (index_codec (bare_artifact cap limits)) cap None limits = Inr (bare_index cap limits)"
proof -
  have "\<not> code_index_path_is_in_scope ''a.md''" by code_simp
  moreover have "ab_occurrences (builder_new limits (gt_coverage cap)) = []" by (simp add: builder_new_def)
  ultimately show ?thesis
    by (simp add: build_def build_scip_def analyze_fallbacks_def assms demo_source_def finish_artifact_def index_codec_def demo_tools_def
        occurrence_identity_def bare_artifact_def bare_index_def Let_def)
qed

definition build_input :: CodeIndexBuildInput where
  "build_input = \<lparr>xb_snapshot_id = None, xb_scip_path = None, xb_observed_at_ms = 1, xb_max_scip_bytes = None, xb_max_documents = None,
     xb_max_occurrences = None, xb_analysis_budget_secs = None\<rparr>"

lemma build_input_limits: "code_limits_of build_input = Inr code_index_limits_default"
  by (simp add: code_limits_of_def build_input_def or_default_def code_index_limits_default_def)

definition index_entry :: "CodeIndexRecordedV1 \<Rightarrow> IndexEntry" where
  "index_entry r = \<lparr>ie_seq = 2, ie_entity = entity_of id (EvCodeIndexRecorded r), ie_kind = KCodeIndexRecorded, ie_id = 2\<rparr>"

abbreviation index_files :: scip_files where
  "index_files \<equiv> \<lparr>sf_canonical = (\<lambda>_. Inl []), sf_lstat = (\<lambda>_. Inl []), sf_bytes = (\<lambda>_. Inl [])\<rparr>"

lemma bare_index_build:
  fixes t files
  defines "env \<equiv> (\<lambda>r. index_env [snapshot_row r] t files)"
  assumes c: "recorded_source_capture (env r) contract repo None = Some (Inr (r, cap))"
    and b: "build t cap None code_index_limits_default = Inr px"
  shows "code_index_build (env r) contract repo index_ctx (\<lambda>_. Inr []) index_files build_input files demo_append_env =
     Some (snd (persist ''/r'' px files), demo_append_env,
       Inr (built_index ''demo'' ''/r'' (fst (persist ''/r'' px files)) (index_payload (WorkspaceId ''demo'') (sn_snapshot_id r) px 1)
              \<lparr>rn_event_id_hex = [], rn_kind_bits = KCodeIndexRecorded, rn_global_sequence = 1\<rparr>))"
proof -
  have w: "workspace_id_new ''demo'' = Inr (WorkspaceId ''demo'')" by code_simp
  have "latest_code_index (re_env (env r)) None i = Some (Inr None)" for i
    by (simp add: latest_code_index_def env_def index_env_def snapshot_row_def one_page scope_for_workspace_def collect_entry_def)
  then have "reusable_index (env r) files build_input i = Some (Inr None)" for i by (simp add: reusable_index_def)
  moreover have "re_tools (env r) = t" "re_root (env r) = ''/r''" "env_workspace_id (re_env (env r)) = ''demo''"
    by (simp_all add: env_def index_env_def)
  moreover have "xb_scip_path build_input = None" "xb_snapshot_id build_input = None" "xb_observed_at_ms build_input = 1"
    by (simp_all add: build_input_def)
  ultimately show ?thesis
    by (simp add: code_index_build_def build_input_limits c build_and_record_def b w persist_def Let_def append_json_def index_ctx_def
        take_one_receipt_def take_receipts_def op_bind_def op_defs demo_append_env_def)
qed

theorem built_index_served_witness:
  "\<exists>env env' out files' aenv' artifact.
     code_index_build env (\<lambda>_. []) demo_repo index_ctx (\<lambda>_. Inr []) index_files build_input (\<lambda>_. None) demo_append_env =
       Some (files', aenv', Inr out) \<and> re_files env' = files' \<and>
     load_code_artifact_at env' 2 (xd_snapshot_id out) =
       Some (Inr \<lparr>la_artifact = Some artifact, la_coverage = Some (xd_coverage out), la_unavailable = False\<rparr>)"
proof -
  obtain c where c: "capture id (\<lambda>_. []) demo_repo (RepositoryId ''r'') demo_limits = Inr c" "gt_sources c = [demo_source]"
    using demo_capture by blast
  have rep: "gt_repository_id c = RepositoryId ''r''" by (rule capture_repository [OF c(1)])
  let ?L = code_index_limits_default
  let ?r = "recorded_snapshot (WorkspaceId ''demo'') c demo_limits 1"
  let ?t = "index_codec (bare_artifact c ?L)" and ?px = "bare_index c ?L"
  let ?env = "index_env [snapshot_row ?r] ?t (\<lambda>_. None)"
  let ?files = "snd (persist ''/r'' ?px (\<lambda>_. None))" and ?x = "index_payload (WorkspaceId ''demo'') (sn_snapshot_id ?r) ?px 1"
  let ?out = "built_index ''demo'' ''/r'' (fst (persist ''/r'' ?px (\<lambda>_. None))) ?x
              \<lparr>rn_event_id_hex = [], rn_kind_bits = KCodeIndexRecorded, rn_global_sequence = 1\<rparr>"
  let ?rows = "[snapshot_row ?r, (index_entry ?x, Inr (Payload (EvCodeIndexRecorded ?x)))]"
  let ?env' = "index_env ?rows ?t ?files"
  have "recorded_capture_limits ?r = demo_limits" "sn_repository_id ?r = RepositoryId ''r''" "sn_snapshot_id ?r = gt_snapshot_id c"
    using rep by (simp_all add: recorded_capture_limits_def recorded_snapshot_def demo_limits_def u64_max_def)
  then have rc: "recorded_source_capture ?env (\<lambda>_. []) demo_repo None = Some (Inr (?r, c))"
    using c(1) by (simp add: recorded_source_capture_def latest_of_row ok_or_def) (simp add: index_env_def)
  have build: "code_index_build ?env (\<lambda>_. []) demo_repo index_ctx (\<lambda>_. Inr []) index_files build_input (\<lambda>_. None) demo_append_env =
       Some (?files, demo_append_env, Inr ?out)"
    by (rule bare_index_build [OF rc bare_builds [OF c(2)]])
  have rows: "map fst ?rows = [fst (snapshot_row ?r)] @ [index_entry ?x]" by simp
  have j: "journal_of (env_store (re_env ?env')) (scope_for_workspace (env_workspace_id (re_env ?env'))) ([fst (snapshot_row ?r)] @ [index_entry ?x])"
    by (simp add: journal_of_def index_env_def memory_journal_def snapshot_row_def index_entry_def scope_for_workspace_def)
  have ty: "well_typed (env_store (re_env ?env')) ([fst (snapshot_row ?r)] @ [index_entry ?x])"
    by (simp add: well_typed_def index_env_def memory_journal_def snapshot_row_def index_entry_def)
  have e: "recorded_as id (env_store (re_env ?env')) (index_entry ?x) (EvCodeIndexRecorded ?x)"
    by (simp add: recorded_as_def index_env_def memory_journal_def snapshot_row_def index_entry_def)
  have "\<not> xd_already_indexed ?out" "ci_snapshot_id ?x = xd_snapshot_id ?out" "ci_index_id ?x = xd_index_id ?out"
    "ci_artifact_digest_hex ?x = xd_artifact_digest_hex ?out" "ci_coverage ?x = xd_coverage ?out" "ie_seq (index_entry ?x) \<le> 2"
    "re_tools ?env' = re_tools ?env" "re_root ?env' = re_root ?env" "re_files ?env' = ?files"
    by (simp_all add: built_index_def index_payload_def index_entry_def bare_index_def index_env_def Let_def)
  moreover have "\<forall>a bytes. it_encode_artifact (re_tools ?env) a = Inr bytes \<and> it_hash (re_tools ?env) bytes = xd_artifact_digest_hex ?out \<longrightarrow>
        it_decode_artifact (re_tools ?env) bytes = Inr a"
    by (simp add: index_env_def index_codec_def demo_tools_def built_index_def index_payload_def bare_index_def Let_def)
  ultimately obtain artifact where "load_code_artifact_at ?env' 2 (xd_snapshot_id ?out) =
      Some (Inr \<lparr>la_artifact = Some artifact, la_coverage = Some (xd_coverage ?out), la_unavailable = False\<rparr>)"
    using built_index_served [OF build _ _ _ _ _ j ty _ e] by metis
  then show ?thesis using build \<open>re_files ?env' = ?files\<close> by blast
qed

section \<open>An index refers to its own snapshot\<close>

lemma plan_gap_bound: "length (cov_gaps cov) \<le> 256 \<Longrightarrow> length (cov_gaps (fold add_plan_gap gaps cov)) \<le> 256"
  by (induction gaps arbitrary: cov) (auto simp: add_plan_gap_def)

lemma attach_gap_bound: "length (cov_gaps cov) \<le> 256 \<Longrightarrow> length (cov_gaps (fold attach_gap gaps cov)) \<le> 256"
  by (induction gaps arbitrary: cov) (auto simp: attach_gap_def)

lemma attach_gap_keeps:
  "cov_occurrences (fold attach_gap gaps cov) = cov_occurrences cov \<and> cov_truncated (fold attach_gap gaps cov) = cov_truncated cov"
  by (induction gaps arbitrary: cov) (auto simp: attach_gap_def)

end
