(* ===== verification/Reconcile.thy ===== *)
theory Reconcile
  imports Triangulate Convergence
begin

text \<open>
  Reconciliation (\<open>src/reconcile.rs\<close>, \<open>src/reconcile/domain.rs\<close>, \<open>src/ops/reconcile.rs\<close> and the handler
  \<open>knowledge_reconcile\<close> of \<open>src/ops/handlers/knowledge.rs\<close>): bounded pairs of a claim and an occurrence of the code
  index are ranked by shared words, a model proposes a relation for each, and a closed policy turns accepted
  proposals into durable evidence.  The Unicode tables and the model backend are parameters.
\<close>

section \<open>Claims, candidates and limits\<close>

record ReconcileLimits =
  rl_per_claim :: nat
  rl_total :: nat
  rl_min_score_ppm :: u32

definition reconcile_limits_default :: ReconcileLimits where
  "reconcile_limits_default = \<lparr>rl_per_claim = 4, rl_total = 256, rl_min_score_ppm = 700000\<rparr>"

record ReconcileClaim =
  kc_claim_id :: ClaimId
  kc_text :: string
  kc_subject_hint :: string
  kc_predicate_hint :: string
  kc_object_hint :: string

record ReconcileCandidate =
  kd_claim_id :: ClaimId
  kd_claim_text :: string
  kd_occurrence :: EvidenceOccurrence
  kd_code_prompt :: string
  kd_rank :: nat

record CandidatePlan =
  kp_candidates :: "ReconcileCandidate list"
  kp_truncated :: bool

definition POLICY_VERSION :: string where
  "POLICY_VERSION = ''evidence-reconcile-v1''"

section \<open>Words\<close>

text \<open>The characters of a string of bytes, and the Unicode tables the code asks for a character.\<close>

definition continuation :: "char \<Rightarrow> bool" where
  "continuation c \<longleftrightarrow> 128 \<le> code c \<and> code c < 192"

function chars :: "string \<Rightarrow> string list" where
  "chars [] = []"
| "chars (c # cs) = (c # takeWhile continuation cs) # chars (dropWhile continuation cs)"
  by pat_completeness auto
termination
  by (relation "measure length") (auto simp: less_Suc_eq_le length_dropWhile_le)

record unicode =
  uc_alphanumeric :: "string \<Rightarrow> bool"
  uc_lowercase :: "string \<Rightarrow> bool"
  uc_to_lower :: "string \<Rightarrow> string"

definition STOP_WORDS :: "string list" where
  "STOP_WORDS = [''and'', ''are'', ''for'', ''from'', ''into'', ''not'', ''our'', ''the'', ''this'', ''that'', ''use'', ''uses'', ''with'']"

definition ascii_upper :: "string \<Rightarrow> bool" where
  "ascii_upper ch \<longleftrightarrow> (case ch of [c] \<Rightarrow> is_upper c | _ \<Rightarrow> False)"

text \<open>Lower-cased words, split before a capital that follows a lower-case letter.\<close>

fun normalized_words :: "unicode \<Rightarrow> string list \<Rightarrow> bool \<Rightarrow> string" where
  "normalized_words u [] previous_lower = []"
| "normalized_words u (ch # chs) previous_lower =
     (if ascii_upper ch \<and> previous_lower then '' '' else []) @
     (if uc_alphanumeric u ch then uc_to_lower u ch @ normalized_words u chs (uc_lowercase u ch)
      else '' '' @ normalized_words u chs False)"

definition tokens :: "unicode \<Rightarrow> string \<Rightarrow> string set" where
  "tokens u s =
     set (filter (\<lambda>token. 3 \<le> length token \<and> token \<notin> set STOP_WORDS) (split_whitespace (normalized_words u (chars s) False)))"

definition claim_tokens :: "unicode \<Rightarrow> ReconcileClaim \<Rightarrow> string set" where
  "claim_tokens u c =
     tokens u (kc_text c @ '' '' @ kc_subject_hint c @ '' '' @ kc_predicate_hint c @ '' '' @ kc_object_hint c)"

definition candidate_rank :: "unicode \<Rightarrow> string set \<Rightarrow> CodeOccurrence \<Rightarrow> nat" where
  "candidate_rank u claim_words o' =
     (let display = tokens u (co_symbol o' @ '' '' @ co_display_name o');
          context_words = tokens u (co_path o' @ '' '' @ co_context o')
      in sat_add64 (min u64_max (card (claim_words \<inter> display) * 4)) (card (claim_words \<inter> context_words)))"

section \<open>Candidates\<close>

definition RECONCILE_EXTENSIONS :: "string list" where
  "RECONCILE_EXTENSIONS =
     [''rs'', ''py'', ''js'', ''jsx'', ''ts'', ''tsx'', ''go'', ''java'', ''kt'', ''kts'', ''rb'', ''php'', ''c'', ''cc'', ''cpp'',
      ''cxx'', ''h'', ''hpp'', ''cs'', ''swift'', ''scala'', ''sh'', ''bash'', ''zsh'', ''fish'', ''sql'', ''toml'', ''yaml'', ''yml'',
      ''json'', ''proto'', ''tf'', ''hcl'', ''ex'', ''exs'', ''erl'', ''hrl'', ''clj'', ''cljs'', ''vue'', ''svelte'']"

definition is_code_path :: "string \<Rightarrow> bool" where
  "is_code_path path =
     (if is_wellknown_source_basename (file_name path) then True
      else case extension path of None \<Rightarrow> False | Some e \<Rightarrow> to_ascii_lowercase e \<in> set RECONCILE_EXTENSIONS)"

fun evidence_kind_of :: "AnalysisQuality \<Rightarrow> EvidenceSourceKind" where
  "evidence_kind_of Precise = SkScip"
| "evidence_kind_of Syntactic = SkSyntax"
| "evidence_kind_of Lexical = SkLexical"
| "evidence_kind_of Unavailable = SkLexical"

definition candidate_material :: "SourceSnapshotId \<Rightarrow> CodeOccurrence \<Rightarrow> string" where
  "candidate_material snap o' =
     ''texo.code.evidence.v1'' @ [US] @ snapshot_str snap @ [US] @ co_symbol o' @ [US] @ co_path o' @ [US] @
     show_nat (br_start (co_context_byte_range o')) @ [US] @ show_nat (br_end (co_context_byte_range o')) @ [US] @
     co_source_digest_hex o'"

definition code_candidate ::
  "(string \<Rightarrow> string) \<Rightarrow> ReconcileClaim \<Rightarrow> SourceSnapshotId \<Rightarrow> CodeOccurrence \<Rightarrow> nat \<Rightarrow> ReconcileCandidate" where
  "code_candidate B claim snap o' rank =
     \<lparr>kd_claim_id = kc_claim_id claim, kd_claim_text = kc_text claim,
      kd_occurrence =
        \<lparr>occ_occurrence_id = evidence_id_derive B (candidate_material snap o'), occ_snapshot_id = snap,
         occ_source_kind = evidence_kind_of (co_analysis_quality o'), occ_path = co_path o',
         occ_byte_range = co_context_byte_range o', occ_line_range = co_context_line_range o', occ_git_blob = None,
         occ_source_digest_hex = co_source_digest_hex o', occ_excerpt = co_context o',
         occ_analyzer_fingerprint = co_analyzer_fingerprint o', occ_analysis_quality = co_analysis_quality o'\<rparr>,
      kd_code_prompt =
        POLICY_VERSION @ [newline] @ ''Code evidence for symbol '' @ [CHR 0x60] @ co_symbol o' @ [CHR 0x60] @ '' at '' @ co_path o' @
        '':'' @ show_nat (lr_start (co_context_line_range o')) @ '':'' @ [newline] @ co_context o',
      kd_rank = rank\<rparr>"

definition ranked_candidate ::
  "unicode \<Rightarrow> (string \<Rightarrow> string) \<Rightarrow> SourceSnapshotId \<Rightarrow> ReconcileClaim \<Rightarrow> CodeOccurrence \<Rightarrow> ReconcileCandidate option" where
  "ranked_candidate u B snap claim o' =
     (if \<not> is_code_path (co_path o') then None
      else let rank = candidate_rank u (claim_tokens u claim) o' in
           if 0 < rank then Some (code_candidate B claim snap o' rank) else None)"

definition candidate_order :: "ReconcileCandidate \<Rightarrow> int \<times> string" where
  "candidate_order c = (- int (kd_rank c), occurrence_str (occ_occurrence_id (kd_occurrence c)))"

definition ranked_candidates ::
  "unicode \<Rightarrow> (string \<Rightarrow> string) \<Rightarrow> CodeIndexArtifact \<Rightarrow> ReconcileClaim \<Rightarrow> ReconcileCandidate list" where
  "ranked_candidates u B artifact claim =
     sort_key candidate_order (List.map_filter (ranked_candidate u B (art_snapshot_id artifact) claim) (art_occurrences artifact))"

fun plan_loop ::
  "unicode \<Rightarrow> (string \<Rightarrow> string) \<Rightarrow> CodeIndexArtifact \<Rightarrow> ReconcileLimits \<Rightarrow> ReconcileClaim list \<Rightarrow>
   ReconcileCandidate list \<Rightarrow> bool \<Rightarrow> CandidatePlan" where
  "plan_loop u B artifact limits [] cs truncated = \<lparr>kp_candidates = cs, kp_truncated = truncated\<rparr>"
| "plan_loop u B artifact limits (claim # claims) cs truncated =
     (let ranked = ranked_candidates u B artifact claim;
          over = rl_per_claim limits < length ranked;
          cs' = cs @ (if over then take (rl_per_claim limits) ranked else ranked)
      in if rl_total limits < length cs' then \<lparr>kp_candidates = take (rl_total limits) cs', kp_truncated = True\<rparr>
         else plan_loop u B artifact limits claims cs' (truncated \<or> over))"

definition plan_candidates ::
  "unicode \<Rightarrow> (string \<Rightarrow> string) \<Rightarrow> ReconcileClaim list \<Rightarrow> CodeIndexArtifact \<Rightarrow> ReconcileLimits \<Rightarrow> CandidatePlan" where
  "plan_candidates u B claims artifact limits = plan_loop u B artifact limits claims [] False"

section \<open>Policy\<close>

definition accept_proposal :: "RelationVerdict \<Rightarrow> u32 \<Rightarrow> (EvidenceStance \<times> u32) option" where
  "accept_proposal verdict min_score_ppm =
     (let score_ppm = unit_interval_to_ppm (rv_score verdict) in
      if score_ppm < min_score_ppm then None
      else case rv_relation verdict of
             RelDuplicate \<Rightarrow> Some (Supports, score_ppm)
           | RelSupersedes \<Rightarrow> Some (Contradicts, score_ppm)
           | RelConflict \<Rightarrow> Some (Contradicts, score_ppm)
           | RelUnrelated \<Rightarrow> None)"

section \<open>Acquiring proposals\<close>

record CandidateProposal =
  pr_candidate :: ReconcileCandidate
  pr_verdict :: RelationVerdict

record UnresolvedCandidate =
  ur_candidate :: ReconcileCandidate
  ur_failure :: PairFailureView

record ProposalBatch =
  pb_proposals :: "CandidateProposal list"
  pb_unresolved :: "UnresolvedCandidate list"

type_synonym proposal_outcome = "(RelationVerdict, PairFailureView) result"

definition budget_failure :: PairFailureView where
  "budget_failure = \<lparr>pf_class = BudgetExhausted, pf_endpoint = None, pf_status = None, pf_attempts = 0\<rparr>"

text \<open>
  The worker threads.  A job is received from the bounded queue, checked against the budget, answered and sent;
  between the steps of one worker the others and the clock may move.
\<close>

datatype job_phase = JobReceived | JobExpired | JobLive

record work_state =
  wk_queue :: "nat list"
  wk_busy :: "(nat \<times> job_phase) list"
  wk_results :: "(nat \<times> proposal_outcome) list"
  wk_elapsed :: nat

definition work_start :: "nat \<Rightarrow> work_state" where
  "work_start n = \<lparr>wk_queue = [0..<n], wk_busy = [], wk_results = [], wk_elapsed = 0\<rparr>"

definition worker_count :: "nat \<Rightarrow> nat \<Rightarrow> nat" where
  "worker_count concurrency n = min (max 1 (min 16 concurrency)) n"

definition call_relater :: "relater \<Rightarrow> ReconcileCandidate \<Rightarrow> proposal_outcome" where
  "call_relater relate c = relate (kd_claim_text c) (kd_code_prompt c)"

fun job_outcome :: "relater \<Rightarrow> ReconcileCandidate list \<Rightarrow> nat \<Rightarrow> job_phase \<Rightarrow> proposal_outcome" where
  "job_outcome relate cs i JobLive = call_relater relate (cs ! i)"
| "job_outcome relate cs i _ = Inl budget_failure"

inductive work_step ::
  "relater \<Rightarrow> ReconcileCandidate list \<Rightarrow> nat \<Rightarrow> nat \<Rightarrow> work_state \<Rightarrow> work_state \<Rightarrow> bool"
  for relate cs budget workers where
  receive: "wk_queue s = i # q \<Longrightarrow> length (wk_busy s) < workers \<Longrightarrow>
    work_step relate cs budget workers s (s\<lparr>wk_queue := q, wk_busy := (i, JobReceived) # wk_busy s\<rparr>)"
| start: "(i, JobReceived) \<in> set (wk_busy s) \<Longrightarrow>
    work_step relate cs budget workers s
      (s\<lparr>wk_busy := (i, if budget \<le> wk_elapsed s then JobExpired else JobLive) # remove1 (i, JobReceived) (wk_busy s)\<rparr>)"
| send: "(i, ph) \<in> set (wk_busy s) \<Longrightarrow> ph \<noteq> JobReceived \<Longrightarrow>
    work_step relate cs budget workers s
      (s\<lparr>wk_busy := remove1 (i, ph) (wk_busy s), wk_results := wk_results s @ [(i, job_outcome relate cs i ph)]\<rparr>)"
| tick: "work_step relate cs budget workers s (s\<lparr>wk_elapsed := Suc (wk_elapsed s)\<rparr>)"

definition work_done :: "work_state \<Rightarrow> bool" where
  "work_done s \<longleftrightarrow> wk_queue s = [] \<and> wk_busy s = []"

text \<open>The results are put back in the order of the candidates; a later result for an index replaces an earlier one.\<close>

definition outcome_of :: "(nat \<times> proposal_outcome) list \<Rightarrow> nat \<Rightarrow> proposal_outcome" where
  "outcome_of results i = (case map_of (rev results) i of None \<Rightarrow> Inl budget_failure | Some r \<Rightarrow> r)"

fun put_outcome :: "ReconcileCandidate \<Rightarrow> proposal_outcome \<Rightarrow> ProposalBatch \<Rightarrow> ProposalBatch" where
  "put_outcome c (Inr verdict) b = b\<lparr>pb_proposals := pb_proposals b @ [\<lparr>pr_candidate = c, pr_verdict = verdict\<rparr>]\<rparr>"
| "put_outcome c (Inl failure) b = b\<lparr>pb_unresolved := pb_unresolved b @ [\<lparr>ur_candidate = c, ur_failure = failure\<rparr>]\<rparr>"

definition batch_of :: "ReconcileCandidate list \<Rightarrow> proposal_outcome list \<Rightarrow> ProposalBatch" where
  "batch_of cs rs = foldl (\<lambda>b (c, r). put_outcome c r b) \<lparr>pb_proposals = [], pb_unresolved = []\<rparr> (zip cs rs)"

definition reassemble :: "ReconcileCandidate list \<Rightarrow> (nat \<times> proposal_outcome) list \<Rightarrow> ProposalBatch" where
  "reassemble cs results = batch_of cs (map (outcome_of results) [0..<length cs])"

text \<open>Spawning a worker may fail; otherwise \<open>results\<close> is what the workers sent.\<close>

definition acquire_proposals ::
  "ReconcileCandidate list \<Rightarrow> (unit, string) result \<Rightarrow> (nat \<times> proposal_outcome) list \<Rightarrow> (ProposalBatch, string) result" where
  "acquire_proposals cs spawned results =
     (if cs = [] then Inr \<lparr>pb_proposals = [], pb_unresolved = []\<rparr>
      else res_bind spawned (\<lambda>_. Inr (reassemble cs results)))"

section \<open>The operation\<close>

record KnowledgeReconcileInput =
  kn_observed_at_ms :: u64
  kn_max_per_claim :: "nat option"
  kn_max_candidates :: "nat option"
  kn_min_score_ppm :: "u32 option"
  kn_budget_secs :: "u64 option"
  kn_concurrency :: "nat option"

definition validated :: "KnowledgeReconcileInput \<Rightarrow> (ReconcileLimits \<times> u64 \<times> nat, TexoError) result" where
  "validated inp =
     (let d = reconcile_limits_default;
          limits = \<lparr>rl_per_claim = or_default (rl_per_claim d) (kn_max_per_claim inp),
                    rl_total = or_default (rl_total d) (kn_max_candidates inp),
                    rl_min_score_ppm = or_default (rl_min_score_ppm d) (kn_min_score_ppm inp)\<rparr>;
          budget_secs = or_default 900 (kn_budget_secs inp); concurrency = or_default 4 (kn_concurrency inp)
      in if \<not> (1 \<le> rl_per_claim limits \<and> rl_per_claim limits \<le> 16) \<or> \<not> (1 \<le> rl_total limits \<and> rl_total limits \<le> 1024) \<or>
            1000000 < rl_min_score_ppm limits \<or> \<not> (1 \<le> budget_secs \<and> budget_secs \<le> 3600) \<or>
            \<not> (1 \<le> concurrency \<and> concurrency \<le> 16)
         then Inl (ErrOpInput ''texo.knowledge.reconcile''
           ''reconcile limits require 1..=16 candidates per claim, 1..=1024 total, score <=1000000 ppm, budget 1..=3600 seconds, and concurrency 1..=16'')
         else Inr (limits, budget_secs, concurrency))"

datatype ReconcileCompletion = ReconcileComplete | ReconcilePartial

record ReconcileAcceptedRow =
  kt_claim_id :: string
  kt_occurrence_id :: string
  kt_stance :: EvidenceStance
  kt_score_ppm :: u32
  kt_code_ref :: string
  kt_cache_key_hex :: string

record ReconcileUnresolvedRow =
  ku_claim_id :: string
  ku_occurrence_id :: string
  ku_code_ref :: string
  ku_failure :: PairFailureView

record KnowledgeReconcileOutput =
  ko_outcome :: ReconcileCompletion
  ko_snapshot_id :: SourceSnapshotId
  ko_candidates_considered :: nat
  ko_already_linked :: nat
  ko_accepted :: "ReconcileAcceptedRow list"
  ko_rejected :: nat
  ko_unresolved :: "ReconcileUnresolvedRow list"
  ko_coverage :: KnowledgeCoverage
  ko_receipts :: "ReceiptNote list"

record CachedCandidateProposal =
  cq_proposal :: CandidateProposal
  cq_cache_key_hex :: string

record ReconcileBackendOutput =
  bo_proposals :: "CachedCandidateProposal list"
  bo_unresolved :: "UnresolvedCandidate list"
  bo_judge_fingerprint :: string

definition empty_backend_output :: ReconcileBackendOutput where
  "empty_backend_output = \<lparr>bo_proposals = [], bo_unresolved = [], bo_judge_fingerprint = []\<rparr>"

text \<open>
  The configured backend: whether it is compiled in, its construction, its fingerprint and cache keys, and what its
  workers did with the candidates.
\<close>

record relate_backend =
  lb_enabled :: bool
  lb_new :: "(unit, string) result"
  lb_fingerprint :: string
  lb_cache_key :: "string \<Rightarrow> string \<Rightarrow> string"
  lb_spawned :: "(unit, string) result"
  lb_results :: "u64 \<Rightarrow> nat \<Rightarrow> ReconcileCandidate list \<Rightarrow> (nat \<times> proposal_outcome) list"

definition cached_proposal :: "relate_backend \<Rightarrow> CandidateProposal \<Rightarrow> CachedCandidateProposal" where
  "cached_proposal be p =
     \<lparr>cq_proposal = p, cq_cache_key_hex = lb_cache_key be (kd_claim_text (pr_candidate p)) (kd_code_prompt (pr_candidate p))\<rparr>"

definition evaluate_with_backends ::
  "relate_backend \<Rightarrow> ReconcileCandidate list \<Rightarrow> u64 \<Rightarrow> nat \<Rightarrow> (ReconcileBackendOutput, TexoError) result" where
  "evaluate_with_backends be cs budget_secs concurrency =
     (if cs = [] then Inr empty_backend_output
      else if \<not> lb_enabled be then Inl (ErrSemantics ''openrouter'' ''openrouter feature is disabled'')
      else res_bind (map_sum (ErrSemantics ''openrouter'') id (lb_new be)) (\<lambda>_.
           res_bind (map_sum ErrIo id (acquire_proposals cs (lb_spawned be) (lb_results be budget_secs concurrency cs))) (\<lambda>batch.
             Inr \<lparr>bo_proposals = map (cached_proposal be) (pb_proposals batch), bo_unresolved = pb_unresolved batch,
                  bo_judge_fingerprint = lb_fingerprint be\<rparr>)))"

definition reconcile_claim :: "ClaimView \<Rightarrow> (ReconcileClaim, TexoError) result" where
  "reconcile_claim v =
     (let c = cv_card v in
      res_bind (map_sum ErrIdParse id (claim_id_try_from (cc_claim_id c))) (\<lambda>i.
        Inr \<lparr>kc_claim_id = i, kc_text = cc_text c, kc_subject_hint = or_empty (cc_subject_hint c),
             kc_predicate_hint = or_empty (cc_predicate_hint c), kc_object_hint = or_empty (cc_object_hint c)\<rparr>))"

definition claims_from_view :: "WorkspaceView \<Rightarrow> (ReconcileClaim list, TexoError) result" where
  "claims_from_view view = map_result reconcile_claim (filter (\<lambda>v. cv_status v = StCurrent) (wv_claims view))"

definition code_ref :: "ReconcileCandidate \<Rightarrow> string" where
  "code_ref c = occ_path (kd_occurrence c) @ '':'' @ show_nat (lr_start (occ_line_range (kd_occurrence c)))"

definition unresolved_row :: "UnresolvedCandidate \<Rightarrow> ReconcileUnresolvedRow" where
  "unresolved_row r =
     (let c = ur_candidate r in
      \<lparr>ku_claim_id = claim_str (kd_claim_id c), ku_occurrence_id = occurrence_str (occ_occurrence_id (kd_occurrence c)),
       ku_code_ref = code_ref c, ku_failure = ur_failure r\<rparr>)"

section \<open>Durable evidence\<close>

definition accepted_events ::
  "WorkspaceId \<Rightarrow> u64 \<Rightarrow> string \<Rightarrow> ReconcileCandidate \<Rightarrow> EvidenceStance \<Rightarrow> u32 \<Rightarrow> string \<Rightarrow> domain_event list" where
  "accepted_events w observed judge c stance score_ppm key =
     (let i = occ_occurrence_id (kd_occurrence c) in
      [EvEvidenceOccurrence \<lparr>eo_workspace_id = w, eo_occurrence = kd_occurrence c, eo_observed_at_ms = observed\<rparr>,
       EvReconciliationAccepted
         \<lparr>ra_workspace_id = w, ra_claim_id = kd_claim_id c, ra_occurrence_id = i, ra_stance = stance, ra_score_ppm = score_ppm,
          ra_judge_fingerprint = judge, ra_cache_key_hex = key, ra_policy_version = POLICY_VERSION, ra_observed_at_ms = observed\<rparr>,
       EvClaimEvidenceLinked
         \<lparr>el_workspace_id = w, el_claim_id = kd_claim_id c, el_occurrence_id = i, el_stance = stance, el_method = SemanticPolicy,
          el_observed_at_ms = observed\<rparr>])"

definition accepted_row :: "ReconcileCandidate \<Rightarrow> EvidenceStance \<Rightarrow> u32 \<Rightarrow> string \<Rightarrow> ReconcileAcceptedRow" where
  "accepted_row c stance score_ppm key =
     \<lparr>kt_claim_id = claim_str (kd_claim_id c), kt_occurrence_id = occurrence_str (occ_occurrence_id (kd_occurrence c)),
      kt_stance = stance, kt_score_ppm = score_ppm, kt_code_ref = code_ref c, kt_cache_key_hex = key\<rparr>"

fun append_proposals ::
  "(KnowledgeContractError \<Rightarrow> string) \<Rightarrow> 's ctx \<Rightarrow> (domain_event \<Rightarrow> (string, string) result) \<Rightarrow> WorkspaceId \<Rightarrow> u64 \<Rightarrow> u32 \<Rightarrow> string \<Rightarrow>
   CachedCandidateProposal list \<Rightarrow> ReconcileAcceptedRow list \<times> nat \<Rightarrow> ('s, ReconcileAcceptedRow list \<times> nat) op" where
  "append_proposals contract cx enc w observed min_score judge [] acc = op_return acc"
| "append_proposals contract cx enc w observed min_score judge (p # ps) (accepted, rejected) =
     (let c = pr_candidate (cq_proposal p); key = cq_cache_key_hex p in
      case accept_proposal (pr_verdict (cq_proposal p)) min_score of
        None \<Rightarrow> append_proposals contract cx enc w observed min_score judge ps (accepted, Suc rejected)
      | Some (stance, score_ppm) \<Rightarrow>
          op_bind (op_lift (map_sum (\<lambda>e. ErrOpInput ''texo.knowledge.reconcile'' (contract e)) id (occurrence_validate (kd_occurrence c)))) (\<lambda>_.
          op_bind (op_for (append_json ''texo.knowledge.reconcile'' cx enc) (accepted_events w observed judge c stance score_ppm key)) (\<lambda>_.
            append_proposals contract cx enc w observed min_score judge ps
              (accepted @ [accepted_row c stance score_ppm key], rejected))))"

section \<open>The handler\<close>

definition already_linked :: "EvidenceProjection \<Rightarrow> ReconcileCandidate \<Rightarrow> bool" where
  "already_linked evidence c \<longleftrightarrow>
     (\<exists>item \<in> set (for_claim (claim_str (kd_claim_id c)) evidence).
        occ_occurrence_id (ce_occurrence item) = occ_occurrence_id (kd_occurrence c))"

record ReconcilePlan =
  kl_snapshot_id :: SourceSnapshotId
  kl_artifact :: CodeIndexArtifact
  kl_plan :: CandidatePlan
  kl_already_linked :: nat
  kl_candidates :: "ReconcileCandidate list"

text \<open>What the operation reads before it calls the backend.\<close>

definition reconcile_plan :: "unicode \<Rightarrow> read_env \<Rightarrow> WorkspaceView \<Rightarrow> ReconcileLimits \<Rightarrow> ReconcilePlan read" where
  "reconcile_plan u env view limits =
     read_bind (latest_source_snapshot (re_env env) (Some (wv_frontier view))) (\<lambda>latest.
     read_bind (Some (ok_or latest (ErrOpInput ''texo.knowledge.reconcile'' ''no source snapshot exists; run `texo index` first''))) (\<lambda>snap.
     read_bind (load_code_artifact_at env (wv_frontier view) (sn_snapshot_id snap)) (\<lambda>loaded.
     read_bind (Some (ok_or (la_artifact loaded) (ErrOpInput ''texo.knowledge.reconcile''
       ''the current source snapshot has no available code index; run `texo index`''))) (\<lambda>artifact.
     read_bind (Some (claims_from_view view)) (\<lambda>claims.
     let plan = plan_candidates u (re_hash env) claims artifact limits in
     read_bind (evidence_through (env_store (re_env env)) (env_workspace_id (re_env env)) (wv_frontier view)) (\<lambda>evidence.
       Some (Inr \<lparr>kl_snapshot_id = sn_snapshot_id snap, kl_artifact = artifact, kl_plan = plan,
                  kl_already_linked = length (filter (already_linked evidence) (kp_candidates plan)),
                  kl_candidates = filter (\<lambda>c. \<not> already_linked evidence c) (kp_candidates plan)\<rparr>)))))))"

definition reconcile_coverage :: "ReconcilePlan \<Rightarrow> KnowledgeCoverage" where
  "reconcile_coverage r =
     (let coverage = art_coverage (kl_artifact r) in
      if kp_truncated (kl_plan r)
      then add_gap_once BudgetExceeded (\<lambda>g. gap_kind g = BudgetExceeded) (coverage\<lparr>cov_truncated := True\<rparr>) else coverage)"

fun reconcile_commit ::
  "(KnowledgeContractError \<Rightarrow> string) \<Rightarrow> 's ctx \<Rightarrow> (domain_event \<Rightarrow> (string, string) result) \<Rightarrow> relate_backend \<Rightarrow> WorkspaceView \<Rightarrow> u64 \<Rightarrow>
   ReconcileLimits \<times> u64 \<times> nat \<Rightarrow> ReconcilePlan \<Rightarrow> ('s, KnowledgeReconcileOutput) op" where
  "reconcile_commit contract cx enc be view observed (limits, budget_secs, concurrency) r =
     op_bind (op_lift (evaluate_with_backends be (kl_candidates r) budget_secs concurrency)) (\<lambda>backend.
     op_bind (op_lift (map_sum ErrIdParse id (workspace_id_new (wv_workspace_id view)))) (\<lambda>w.
     op_bind (append_proposals contract cx enc w observed (rl_min_score_ppm limits) (bo_judge_fingerprint backend) (bo_proposals backend) ([], 0))
       (\<lambda>(accepted, rejected).
     let unresolved = map unresolved_row (bo_unresolved backend); coverage = reconcile_coverage r;
         incomplete = (cov_truncated coverage \<or> cov_gaps coverage \<noteq> [] \<or> unresolved \<noteq> [])
     in op_bind take_receipts (\<lambda>receipts.
          op_return \<lparr>ko_outcome = (if incomplete then ReconcilePartial else ReconcileComplete), ko_snapshot_id = kl_snapshot_id r,
            ko_candidates_considered = length (kp_candidates (kl_plan r)), ko_already_linked = kl_already_linked r,
            ko_accepted = accepted, ko_rejected = rejected, ko_unresolved = unresolved, ko_coverage = coverage,
            ko_receipts = receipts\<rparr>))))"

text \<open>The handler, on the view it assembles; \<open>None\<close> if a read of the journal does not return.\<close>

definition knowledge_reconcile ::
  "unicode \<Rightarrow> read_env \<Rightarrow> (KnowledgeContractError \<Rightarrow> string) \<Rightarrow> 's ctx \<Rightarrow> (domain_event \<Rightarrow> (string, string) result) \<Rightarrow>
   relate_backend \<Rightarrow> (WorkspaceView, TexoError) result \<Rightarrow> KnowledgeReconcileInput \<Rightarrow> 's append_env \<Rightarrow>
   ('s append_env \<times> (KnowledgeReconcileOutput, TexoError) result) option" where
  "knowledge_reconcile u env contract cx enc be assembled inp aenv =
     (case validated inp of
        Inl e \<Rightarrow> Some (aenv, Inl e)
      | Inr (limits, budget_secs, concurrency) \<Rightarrow>
          (case query_view ''texo.knowledge.reconcile'' cx aenv of
             (aenv, Inl e) \<Rightarrow> Some (aenv, Inl e)
           | (aenv, Inr _) \<Rightarrow>
               (case read_bind (Some assembled) (\<lambda>view. reconcile_plan u env view limits) of
                  None \<Rightarrow> None
                | Some (Inl e) \<Rightarrow> Some (aenv, Inl e)
                | Some (Inr r) \<Rightarrow>
                    (case assembled of
                       Inl e \<Rightarrow> Some (aenv, Inl e)
                     | Inr view \<Rightarrow>
                         Some (reconcile_commit contract cx enc be view (kn_observed_at_ms inp) (limits, budget_secs, concurrency) r aenv)))))"

section \<open>Candidates are the best pairs\<close>

lemma plan_loop_candidates:
  assumes "length cs \<le> rl_total limits"
  shows "kp_candidates (plan_loop u B a limits claims cs t) =
    take (rl_total limits) (cs @ concat (map (\<lambda>c. take (rl_per_claim limits) (ranked_candidates u B a c)) claims))"
  using assms
proof (induction claims arbitrary: cs t)
  case Nil
  then show ?case by simp
next
  case (Cons claim claims)
  let ?r = "ranked_candidates u B a claim"
  have kept: "(if rl_per_claim limits < length ?r then take (rl_per_claim limits) ?r else ?r) = take (rl_per_claim limits) ?r" by simp
  show ?case
  proof (cases "rl_total limits < length (cs @ take (rl_per_claim limits) ?r)")
    case True
    then show ?thesis by (simp add: kept Let_def)
  next
    case False
    then show ?thesis using Cons.IH [of "cs @ take (rl_per_claim limits) ?r"] by (simp add: kept Let_def)
  qed
qed

lemma plan_loop_truncated:
  "(\<not> kp_truncated (plan_loop u B a limits claims cs t) \<longrightarrow>
      \<not> t \<and> kp_candidates (plan_loop u B a limits claims cs t) = cs @ concat (map (ranked_candidates u B a) claims)) \<and>
   length (kp_candidates (plan_loop u B a limits claims cs t)) \<le> length cs + length (concat (map (ranked_candidates u B a) claims)) \<and>
   (kp_truncated (plan_loop u B a limits claims cs t) \<longrightarrow> t \<or>
      length (kp_candidates (plan_loop u B a limits claims cs t)) < length cs + length (concat (map (ranked_candidates u B a) claims)))"
proof (induction claims arbitrary: cs t)
  case Nil
  then show ?case by simp
next
  case (Cons claim claims)
  let ?r = "ranked_candidates u B a claim" and ?k = "rl_per_claim limits"
  have kept: "(if ?k < length ?r then take ?k ?r else ?r) = take ?k ?r" by simp
  note IH = Cons.IH [of "cs @ take ?k ?r" "t \<or> ?k < length ?r"]
  show ?case
  proof (cases "rl_total limits < length (cs @ take ?k ?r)")
    case True
    then show ?thesis by (auto simp: kept Let_def)
  next
    case False
    then have "plan_loop u B a limits (claim # claims) cs t = plan_loop u B a limits claims (cs @ take ?k ?r) (t \<or> ?k < length ?r)"
      by (simp add: kept Let_def)
    then show ?thesis using IH by (cases "?k < length ?r") auto
  qed
qed

lemma ranked_candidate_iff:
  "ranked_candidate u B snap claim o' = Some c \<longleftrightarrow>
     is_code_path (co_path o') \<and> 0 < candidate_rank u (claim_tokens u claim) o' \<and>
     c = code_candidate B claim snap o' (candidate_rank u (claim_tokens u claim) o')"
  by (auto simp: ranked_candidate_def Let_def)

lemma ranked_candidates_set:
  "set (ranked_candidates u B a claim) =
     {c. \<exists>o' \<in> set (art_occurrences a). ranked_candidate u B (art_snapshot_id a) claim o' = Some c}"
  by (force simp: ranked_candidates_def List.map_filter_def)

text \<open>
  C33: The candidates of a reconciliation are the best pairs within the bounds.  For each claim the pairs with
  a code occurrence that shares a word, best rank first, are cut to the bound of a claim; their concatenation
  is cut to the total bound; and the plan says it is truncated exactly when some pair was left out.
\<close>

theorem candidates_exact:
  "let plan = plan_candidates u B claims artifact limits; ranked = ranked_candidates u B artifact in
     kp_candidates plan = take (rl_total limits) (concat (map (\<lambda>c. take (rl_per_claim limits) (ranked c)) claims)) \<and>
     (kp_truncated plan \<longleftrightarrow> kp_candidates plan \<noteq> concat (map ranked claims)) \<and>
     (\<forall>claim. sorted (map candidate_order (ranked claim)) \<and>
        set (ranked claim) = {c. \<exists>o' \<in> set (art_occurrences artifact). is_code_path (co_path o') \<and>
          0 < candidate_rank u (claim_tokens u claim) o' \<and>
          c = code_candidate B claim (art_snapshot_id artifact) o' (candidate_rank u (claim_tokens u claim) o')})"
proof -
  let ?plan = "plan_candidates u B claims artifact limits" and ?ranked = "ranked_candidates u B artifact"
  have "kp_candidates ?plan = take (rl_total limits) (concat (map (\<lambda>c. take (rl_per_claim limits) (?ranked c)) claims))"
    using plan_loop_candidates [of "[]" limits] by (simp add: plan_candidates_def)
  moreover have "kp_truncated ?plan \<longleftrightarrow> kp_candidates ?plan \<noteq> concat (map ?ranked claims)"
    using plan_loop_truncated [of u B artifact limits claims "[]" False] by (auto simp: plan_candidates_def)
  moreover have "sorted (map candidate_order (?ranked claim))" for claim by (simp add: ranked_candidates_def)
  ultimately show ?thesis by (simp add: Let_def ranked_candidates_set ranked_candidate_iff)
qed

section \<open>Candidates quote the capture\<close>

definition candidate_quotes :: "(string \<Rightarrow> string) \<Rightarrow> GitCapture \<Rightarrow> ReconcileCandidate \<Rightarrow> bool" where
  "candidate_quotes B cap c \<longleftrightarrow>
     (let occ = kd_occurrence c in
      occ_snapshot_id occ = gt_snapshot_id cap \<and>
      (\<exists>source \<in> set (gt_sources cap).
         occ_path occ = cp_path source \<and> occ_source_digest_hex occ = B (cp_bytes source) \<and>
         br_end (occ_byte_range occ) \<le> length (cp_bytes source) \<and>
         occ_excerpt occ = byte_slice (cp_bytes source) (br_start (occ_byte_range occ)) (br_end (occ_byte_range occ)) \<and>
         (lr_start (occ_line_range occ), lr_end (occ_line_range occ)) =
           byte_line_range (cp_bytes source) (br_start (occ_byte_range occ)) (br_end (occ_byte_range occ)) \<and>
         occurrence_validate occ = validate_lower_hex ''source digest'' (B (cp_bytes source)) 64))"

lemma candidate_occurrence:
  assumes "occurrence_exact B source o'" "source \<in> set (gt_sources cap)"
  shows "candidate_quotes B cap (code_candidate B' claim (gt_snapshot_id cap) o' rank)"
proof -
  let ?occ = "kd_occurrence (code_candidate B' claim (gt_snapshot_id cap) o' rank)"
  have "length (co_context o') \<le> MAX_EVIDENCE_EXCERPT_BYTES"
    using assms(1) unfolding occurrence_exact_def context_exact_def by blast
  then have "length (occ_excerpt ?occ) \<le> MAX_EVIDENCE_EXCERPT_BYTES" by (simp add: code_candidate_def)
  then have "occurrence_validate ?occ = validate_lower_hex ''source digest'' (occ_source_digest_hex ?occ) 64"
    by (cases "validate_lower_hex ''source digest'' (occ_source_digest_hex ?occ) 64") (simp_all add: occurrence_validate_def Let_def)
  then show ?thesis using assms
    by (auto simp: candidate_quotes_def code_candidate_def occurrence_exact_def context_exact_def Let_def)
qed

text \<open>
  C32: Candidates quote the capture.  Every candidate planned on the index built from a capture belongs to a
  claim, is evidence of that snapshot and quotes exactly the bytes of a captured source at its range, with its
  lines and digest; so its validation can only fail on a malformed digest.
\<close>

theorem reconcile_evidence_exact:
  assumes "build t cap scip limits' = Inr p" "length (cov_gaps (gt_coverage cap)) \<le> MAX_GAPS"
    and "c \<in> set (kp_candidates (plan_candidates u (it_hash t) claims (px_artifact p) limits))"
  shows "candidate_quotes (it_hash t) cap c \<and> (\<exists>claim \<in> set claims. kd_claim_id c = kc_claim_id claim \<and> kd_claim_text c = kc_text claim)"
proof -
  have "c \<in> set (concat (map (\<lambda>c. take (rl_per_claim limits) (ranked_candidates u (it_hash t) (px_artifact p) c)) claims))"
    using assms(3) plan_loop_candidates [of "[]" limits] by (auto simp: plan_candidates_def dest: in_set_takeD)
  then obtain claim where claim: "claim \<in> set claims" "c \<in> set (ranked_candidates u (it_hash t) (px_artifact p) claim)"
    by (auto dest: in_set_takeD)
  then obtain o' where o': "o' \<in> set (art_occurrences (px_artifact p))"
    "c = code_candidate (it_hash t) claim (art_snapshot_id (px_artifact p)) o' (candidate_rank u (claim_tokens u claim) o')"
    by (auto simp: ranked_candidates_set ranked_candidate_iff)
  obtain source where source: "source \<in> set (gt_sources cap)" "occurrence_exact (it_hash t) source o'"
    using built_exact [OF assms(1,2) o'(1)] by blast
  have "art_snapshot_id (px_artifact p) = gt_snapshot_id cap"
    using assms(1) finish_fields(2) by (auto simp: build_def res_bind_eq_Inr)
  then show ?thesis using candidate_occurrence [OF source(2,1)] claim(1) by (auto simp: o'(2) code_candidate_def)
qed

section \<open>Acquisition does not depend on the schedule\<close>

definition work_inv :: "relater \<Rightarrow> ReconcileCandidate list \<Rightarrow> nat \<Rightarrow> work_state \<Rightarrow> bool" where
  "work_inv relate cs budget s \<longleftrightarrow>
     mset (wk_queue s @ map fst (wk_busy s) @ map fst (wk_results s)) = mset [0..<length cs] \<and>
     (\<forall>(i, r) \<in> set (wk_results s). r = Inl budget_failure \<or> r = call_relater relate (cs ! i)) \<and>
     (wk_elapsed s < budget \<longrightarrow> (\<forall>(i, ph) \<in> set (wk_busy s). ph \<noteq> JobExpired) \<and>
        (\<forall>(i, r) \<in> set (wk_results s). r = call_relater relate (cs ! i)))"

lemma work_inv_start: "work_inv relate cs budget (work_start (length cs))"
  by (simp add: work_inv_def work_start_def)

lemma mset_move: "x \<in> set xs \<Longrightarrow> image_mset f (mset xs) = add_mset (f x) (image_mset f (mset xs - {#x#}))"
  by (metis image_mset_add_mset insert_DiffM set_mset_mset)

lemma work_inv_step:
  assumes "work_step relate cs budget workers s s'" "work_inv relate cs budget s"
  shows "work_inv relate cs budget s'"
  using assms
proof (cases rule: work_step.cases)
  case (receive i q)
  then show ?thesis using assms(2) by (auto simp: work_inv_def)
next
  case (start i)
  then show ?thesis using assms(2) mset_move [OF start(2), of fst]
    by (auto simp: work_inv_def dest: notin_set_remove1 subsetD [OF set_remove1_subset] split: if_splits)
next
  case (send i ph)
  define r where "r = job_outcome relate cs i ph"
  have "r = Inl budget_failure \<or> r = call_relater relate (cs ! i)" unfolding r_def by (cases ph) simp_all
  moreover have "r = call_relater relate (cs ! i)" if "wk_elapsed s < budget"
  proof -
    have "ph \<noteq> JobExpired" using assms(2) send(2) that by (force simp: work_inv_def)
    then show ?thesis using send(3) unfolding r_def by (cases ph) simp_all
  qed
  moreover have "s' = s\<lparr>wk_busy := remove1 (i, ph) (wk_busy s), wk_results := wk_results s @ [(i, r)]\<rparr>" using send(1) by (simp add: r_def)
  ultimately show ?thesis using assms(2) mset_move [OF send(2), of fst]
    by (auto simp: work_inv_def dest: subsetD [OF set_remove1_subset])
next
  case tick
  then show ?thesis using assms(2) by (auto simp: work_inv_def)
qed

lemma work_inv_reached:
  assumes "(work_step relate cs budget workers)\<^sup>*\<^sup>* (work_start (length cs)) s"
  shows "work_inv relate cs budget s"
  using assms by (induction rule: rtranclp_induct) (auto intro: work_inv_start work_inv_step)

lemma outcome_of_results:
  assumes "mset (map fst results) = mset [0..<n]" "i < n"
  shows "(i, outcome_of results i) \<in> set results"
proof -
  have "i \<in> fst ` set (rev results)" using assms mset_eq_setD [OF assms(1)] by auto
  then obtain r where r: "map_of (rev results) i = Some r" by (metis weak_map_of_SomeI map_of_eq_None_iff not_None_eq)
  then show ?thesis using map_of_SomeD [OF r] by (simp add: outcome_of_def)
qed

lemma batch_members:
  assumes "length cs = length rs"
  shows "mset (map pr_candidate (pb_proposals (foldl (\<lambda>b (c, r). put_outcome c r b) b (zip cs rs))) @
      map ur_candidate (pb_unresolved (foldl (\<lambda>b (c, r). put_outcome c r b) b (zip cs rs)))) =
    mset (map pr_candidate (pb_proposals b) @ map ur_candidate (pb_unresolved b)) + mset cs"
  using assms
proof (induction cs rs arbitrary: b rule: list_induct2)
  case Nil
  then show ?case by simp
next
  case (Cons c cs r rs)
  show ?case using Cons.IH [of "put_outcome c r b"] by (cases r) simp_all
qed

text \<open>
  C31: What the workers propose does not depend on their schedule.  However the workers and the clock interleave, a
  finished run has one result per candidate; put back in order, each candidate is either judged by the model or
  failed for the budget, none is lost or answered twice; and if the budget was not reached, the batch is that
  of asking the model about the candidates one after the other.
\<close>

theorem acquisition_exact:
  assumes "(work_step relate cs budget workers)\<^sup>*\<^sup>* (work_start (length cs)) s" "work_done s"
  shows "mset (map fst (wk_results s)) = mset [0..<length cs] \<and>
    (\<exists>expired. reassemble cs (wk_results s) =
       batch_of cs (map (\<lambda>i. if expired i then Inl budget_failure else call_relater relate (cs ! i)) [0..<length cs])) \<and>
    mset (map pr_candidate (pb_proposals (reassemble cs (wk_results s))) @ map ur_candidate (pb_unresolved (reassemble cs (wk_results s)))) = mset cs \<and>
    (wk_elapsed s < budget \<longrightarrow> reassemble cs (wk_results s) = batch_of cs (map (call_relater relate) cs))"
proof -
  have inv: "work_inv relate cs budget s" by (rule work_inv_reached [OF assms(1)])
  then have all: "mset (map fst (wk_results s)) = mset [0..<length cs]"
    using assms(2) by (simp add: work_inv_def work_done_def)
  have at: "(i, outcome_of (wk_results s) i) \<in> set (wk_results s)" if "i < length cs" for i
    by (rule outcome_of_results [OF all that])
  let ?expired = "\<lambda>i. outcome_of (wk_results s) i \<noteq> call_relater relate (cs ! i)"
  have "outcome_of (wk_results s) i = (if ?expired i then Inl budget_failure else call_relater relate (cs ! i))" if "i < length cs" for i
    using at [OF that] inv by (force simp: work_inv_def)
  then have "reassemble cs (wk_results s) =
      batch_of cs (map (\<lambda>i. if ?expired i then Inl budget_failure else call_relater relate (cs ! i)) [0..<length cs])"
    unfolding reassemble_def by (intro arg_cong [where f = "batch_of cs"] map_cong) simp_all
  then have "\<exists>expired. reassemble cs (wk_results s) =
       batch_of cs (map (\<lambda>i. if expired i then Inl budget_failure else call_relater relate (cs ! i)) [0..<length cs])"
    by (intro exI [of _ ?expired], assumption)
  moreover have "reassemble cs (wk_results s) = batch_of cs (map (call_relater relate) cs)" if "wk_elapsed s < budget"
  proof -
    have "map (outcome_of (wk_results s)) [0..<length cs] = map (\<lambda>i. call_relater relate (cs ! i)) [0..<length cs]"
      using at inv that by (force simp: work_inv_def)
    also have "\<dots> = map (call_relater relate) cs" by (rule nth_equalityI) simp_all
    finally show ?thesis by (simp add: reassemble_def)
  qed
  moreover have "mset (map pr_candidate (pb_proposals (reassemble cs (wk_results s))) @ map ur_candidate (pb_unresolved (reassemble cs (wk_results s)))) = mset cs"
    unfolding reassemble_def batch_of_def by (subst batch_members) simp_all
  ultimately show ?thesis using all by blast
qed

fun phase_steps :: "job_phase \<Rightarrow> nat" where
  "phase_steps JobReceived = 2"
| "phase_steps _ = 1"

definition work_left :: "work_state \<Rightarrow> nat" where
  "work_left s = 3 * length (wk_queue s) + sum_list (map (phase_steps \<circ> snd) (wk_busy s))"

lemma sum_move: "x \<in> set xs \<Longrightarrow> f x + sum_list (map f (remove1 x xs)) = sum_list (map (f :: 'a \<Rightarrow> nat) xs)"
  by (induction xs) auto

lemma work_progress:
  assumes "\<not> work_done s" "0 < workers"
  obtains s' where "work_step relate cs budget workers s s'" "work_left s' < work_left s" "wk_elapsed s' = wk_elapsed s"
proof (cases "wk_busy s")
  case Nil
  then obtain i q where q: "wk_queue s = i # q" using assms(1) by (auto simp: work_done_def neq_Nil_conv)
  show thesis
    by (rule that [OF work_step.receive [OF q]]) (use assms(2) Nil q in \<open>simp_all add: work_left_def\<close>)
next
  case (Cons job jobs)
  obtain i ph where job: "job = (i, ph)" by fastforce
  then have mem: "(i, ph) \<in> set (wk_busy s)" using Cons by simp
  note sum = sum_move [OF mem, of "phase_steps \<circ> snd"]
  show thesis
  proof (cases "ph = JobReceived")
    case True
    show thesis
      by (rule that [OF work_step.start [OF mem [unfolded True]]])
        (use sum True in \<open>simp_all add: work_left_def\<close>)
  next
    case False
    have "0 < phase_steps ph" by (cases ph) simp_all
    then show thesis
      by (intro that [OF work_step.send [OF mem False]]) (use sum in \<open>simp_all add: work_left_def\<close>)
  qed
qed

lemma work_completes:
  assumes "0 < workers"
  shows "\<exists>n s'. (work_step relate cs budget workers ^^ n) s s' \<and> work_done s' \<and> wk_elapsed s' = wk_elapsed s \<and> n \<le> work_left s"
proof (induction "work_left s" arbitrary: s rule: less_induct)
  case less
  show ?case
  proof (cases "work_done s")
    case True
    then show ?thesis by (intro exI [of _ 0] exI [of _ s]) simp
  next
    case False
    obtain s1 where s1: "work_step relate cs budget workers s s1" "work_left s1 < work_left s" "wk_elapsed s1 = wk_elapsed s"
      by (rule work_progress [OF False assms])
    obtain n s' where s': "(work_step relate cs budget workers ^^ n) s1 s'" "work_done s'" "wk_elapsed s' = wk_elapsed s1" "n \<le> work_left s1"
      using less [OF s1(2)] by blast
    then have "(work_step relate cs budget workers ^^ Suc n) s s'" using s1(1) by (meson relpowp_Suc_I2)
    then show ?thesis using s1 s' by (intro exI [of _ "Suc n"] exI [of _ s']) simp
  qed
qed

lemma some_worker: "0 < n \<Longrightarrow> 0 < worker_count concurrency n"
  by (simp add: worker_count_def)

text \<open>
  C35: Acquisition finishes.  Whatever concurrency is asked for, even none, there is a worker for a non-empty list
  of candidates; a run that has not finished can always go on without waiting for the clock, in at most three
  steps per job, so from every state a finished one is reached at the same time.
\<close>

theorem acquisition_completes:
  assumes "cs \<noteq> []"
  shows "\<exists>n s'. (work_step relate cs budget (worker_count concurrency (length cs)) ^^ n) s s' \<and> work_done s' \<and>
    wk_elapsed s' = wk_elapsed s \<and> n \<le> work_left s"
proof -
  have "0 < worker_count concurrency (length cs)" using assms by (intro some_worker) simp
  then show ?thesis by (rule work_completes)
qed

section \<open>Accepted evidence is durable\<close>

definition proposal_events ::
  "WorkspaceId \<Rightarrow> u64 \<Rightarrow> u32 \<Rightarrow> string \<Rightarrow> CachedCandidateProposal \<Rightarrow> domain_event list" where
  "proposal_events w observed min_score judge p =
     (case accept_proposal (pr_verdict (cq_proposal p)) min_score of
        None \<Rightarrow> []
      | Some (stance, score) \<Rightarrow> accepted_events w observed judge (pr_candidate (cq_proposal p)) stance score (cq_cache_key_hex p))"

definition proposal_row :: "u32 \<Rightarrow> CachedCandidateProposal \<Rightarrow> ReconcileAcceptedRow option" where
  "proposal_row min_score p =
     map_option (\<lambda>(stance, score). accepted_row (pr_candidate (cq_proposal p)) stance score (cq_cache_key_hex p))
       (accept_proposal (pr_verdict (cq_proposal p)) min_score)"

lemma op_for_receipts:
  assumes "op_for (append_json op cx enc) evs env = (env', Inr ())" "forwards ex api cx"
  shows "\<exists>rs. ap_receipts env' = ap_receipts env @ rs \<and> map rn_kind_bits rs = map kind_of evs"
  using assms(1)
proof (induction evs arbitrary: env)
  case Nil
  then show ?case by (simp add: op_return_def)
next
  case (Cons ev evs)
  then obtain env1 where a: "append_json op cx enc ev env = (env1, Inr ())" and rest: "op_for (append_json op cx enc) evs env1 = (env', Inr ())"
    by (auto simp: op_bind_Inr)
  obtain r where "ap_receipts env1 = ap_receipts env @ [r]" "rn_kind_bits r = kind_of ev" using append_json_receipt [OF a assms(2)] by blast
  moreover obtain rs where "ap_receipts env' = ap_receipts env1 @ rs" "map rn_kind_bits rs = map kind_of evs" using Cons.IH [OF rest] by blast
  ultimately show ?case by (intro exI [of _ "r # rs"]) simp
qed

lemma accept_score: "accept_proposal v m = Some (stance, score) \<Longrightarrow> m \<le> score \<and> score = unit_interval_to_ppm (rv_score v)"
  by (auto simp: accept_proposal_def Let_def split: if_splits ClaimRelation.splits)

lemma proposals_appended:
  assumes "append_proposals contract cx enc w observed min_score judge ps (acc, n) env = (env', Inr (accepted, rejected))" "forwards ex api cx"
  shows "accepted = acc @ List.map_filter (proposal_row min_score) ps \<and>
    rejected = n + length (filter (\<lambda>p. proposal_row min_score p = None) ps) \<and>
    (\<exists>rs. ap_receipts env' = ap_receipts env @ rs \<and> map rn_kind_bits rs = map kind_of (concat (map (proposal_events w observed min_score judge) ps)) \<and>
       length rs = 3 * length (List.map_filter (proposal_row min_score) ps))"
  using assms(1)
proof (induction ps arbitrary: acc n env)
  case Nil
  then show ?case by (simp add: op_return_def map_filter_simps)
next
  case (Cons p ps)
  let ?c = "pr_candidate (cq_proposal p)"
  show ?case
  proof (cases "accept_proposal (pr_verdict (cq_proposal p)) min_score")
    case None
    then show ?thesis using Cons.IH [of acc "Suc n" env] Cons.prems
      by (simp add: proposal_row_def proposal_events_def map_filter_simps)
  next
    case (Some sc)
    obtain stance score where sc: "sc = (stance, score)" by fastforce
    let ?row = "accepted_row ?c stance score (cq_cache_key_hex p)"
    obtain env1 where a: "op_for (append_json ''texo.knowledge.reconcile'' cx enc)
        (accepted_events w observed judge ?c stance score (cq_cache_key_hex p)) env = (env1, Inr ())"
      and rest: "append_proposals contract cx enc w observed min_score judge ps (acc @ [?row], n) env1 = (env', Inr (accepted, rejected))"
      using Cons.prems by (auto simp: Some sc op_bind_Inr op_defs Let_def)
    obtain rs1 where rs1: "ap_receipts env1 = ap_receipts env @ rs1"
      "map rn_kind_bits rs1 = map kind_of (accepted_events w observed judge ?c stance score (cq_cache_key_hex p))"
      using op_for_receipts [OF a assms(2)] by blast
    have "length rs1 = length (accepted_events w observed judge ?c stance score (cq_cache_key_hex p))"
      using arg_cong [OF rs1(2), of length] by (simp only: length_map)
    then have three: "length rs1 = 3" by (simp add: accepted_events_def Let_def)
    from Cons.IH [OF rest] obtain rs where rs: "accepted = (acc @ [?row]) @ List.map_filter (proposal_row min_score) ps"
      "rejected = n + length (filter (\<lambda>p. proposal_row min_score p = None) ps)" "ap_receipts env' = ap_receipts env1 @ rs"
      "map rn_kind_bits rs = map kind_of (concat (map (proposal_events w observed min_score judge) ps))"
      "length rs = 3 * length (List.map_filter (proposal_row min_score) ps)" by blast
    have row: "proposal_row min_score p = Some ?row" by (simp add: proposal_row_def Some sc)
    have evs: "proposal_events w observed min_score judge p = accepted_events w observed judge ?c stance score (cq_cache_key_hex p)"
      by (simp add: proposal_events_def Some sc)
    show ?thesis
      using rs rs1 three by (auto simp: row evs map_filter_simps intro!: exI [of _ "rs1 @ rs"])
  qed
qed

text \<open>
  C34: Only what the policy accepts becomes evidence.  When the proposals are appended, the accepted rows are those of
  the proposals that the policy accepts, in order, the others are counted as rejected; each accepted one left three
  receipts, its occurrence, its acceptance and its link, and nothing else was appended.
\<close>

theorem proposals_appended_exact:
  assumes "append_proposals contract cx enc w observed min_score judge ps ([], 0) env = (env', Inr (accepted, rejected))" "forwards ex api cx"
  shows "accepted = List.map_filter (proposal_row min_score) ps \<and> length accepted + rejected = length ps \<and>
    (\<forall>row \<in> set accepted. min_score \<le> kt_score_ppm row) \<and>
    (\<exists>rs. ap_receipts env' = ap_receipts env @ rs \<and> length rs = 3 * length accepted \<and>
       map rn_kind_bits rs = map kind_of (concat (map (proposal_events w observed min_score judge) ps)))"
proof -
  note a = proposals_appended [OF assms]
  then have rows: "accepted = List.map_filter (proposal_row min_score) ps" by simp
  have "length (List.map_filter f xs) + length (filter (\<lambda>x. f x = None) xs) = length xs" for f :: "'c \<Rightarrow> 'd option" and xs
    by (induction xs) (auto simp: map_filter_simps split: option.splits)
  moreover have "min_score \<le> kt_score_ppm row" if "row \<in> set accepted" for row
    using that accept_score by (fastforce simp: rows List.map_filter_def proposal_row_def accepted_row_def)
  ultimately show ?thesis using a by auto
qed

section \<open>Accepted evidence is not proposed again\<close>

definition occurrences_ok :: "occurrences \<Rightarrow> bool" where
  "occurrences_ok occs \<longleftrightarrow> (\<forall>k o' n. bt_get occs k = Some (o', n) \<longrightarrow> occ_occurrence_id o' = k)"

lemma evidence_put_keeps:
  assumes "evidence_put j e (occs, recs, links) = (occs', recs', links')"
  shows "(occurrences_ok occs \<longrightarrow> occurrences_ok occs') \<and> (bt_get occs k \<noteq> None \<longrightarrow> bt_get occs' k \<noteq> None) \<and> set links \<subseteq> set links'"
  using assms by (auto simp: evidence_put_def put_occurrence_def put_link_def put_acceptance_def occurrences_ok_def split: if_splits option.splits)

lemma evidence_fold_keeps:
  assumes "foldl (\<lambda>s e. evidence_put j e s) (occs, recs, links) es = (occs', recs', links')"
  shows "(occurrences_ok occs \<longrightarrow> occurrences_ok occs') \<and> (bt_get occs k \<noteq> None \<longrightarrow> bt_get occs' k \<noteq> None) \<and> set links \<subseteq> set links'"
  using assms
proof (induction es arbitrary: occs recs links)
  case Nil
  then show ?case by simp
next
  case (Cons e es)
  obtain occs1 recs1 links1 where s: "evidence_put j e (occs, recs, links) = (occs1, recs1, links1)" by (cases "evidence_put j e (occs, recs, links)") auto
  show ?case using evidence_put_keeps [OF s, of k] Cons.IH [of occs1 recs1 links1] Cons.prems s by auto
qed

lemma evidence_fold_collects:
  assumes "foldl (\<lambda>s e. evidence_put j e s) s0 es = (occs, recs, links)" "e \<in> set es"
  shows "(recorded_as B j e (EvEvidenceOccurrence p) \<longrightarrow> bt_get occs (occ_occurrence_id (eo_occurrence p)) \<noteq> None) \<and>
    (recorded_as B j e (EvClaimEvidenceLinked l) \<longrightarrow> (\<exists>n. (l, n) \<in> set links))"
  using assms
proof (induction es arbitrary: s0)
  case Nil
  then show ?case by simp
next
  case (Cons d es)
  obtain o0 r0 l0 where s0: "s0 = (o0, r0, l0)" by (cases s0) auto
  obtain occs1 recs1 links1 where s: "evidence_put j d s0 = (occs1, recs1, links1)" by (cases "evidence_put j d s0") auto
  have rest: "foldl (\<lambda>s e. evidence_put j e s) (occs1, recs1, links1) es = (occs, recs, links)" using Cons.prems(1) s by simp
  show ?case
  proof (cases "e = d")
    case True
    have "recorded_as B j e (EvEvidenceOccurrence p) \<Longrightarrow> bt_get occs1 (occ_occurrence_id (eo_occurrence p)) \<noteq> None"
      using s by (auto simp: True s0 evidence_put_def recorded_as_def payload_of_def put_occurrence_def)
    moreover have "recorded_as B j e (EvClaimEvidenceLinked l) \<Longrightarrow> (l, ie_seq e) \<in> set links1"
      using s by (auto simp: True s0 evidence_put_def recorded_as_def payload_of_def put_link_def)
    ultimately show ?thesis
      using evidence_fold_keeps [OF rest, of "occ_occurrence_id (eo_occurrence p)"] by blast
  next
    case False
    then show ?thesis using Cons.IH [OF rest] Cons.prems(2) by simp
  qed
qed

lemma linked_evidence:
  assumes "occurrences_ok occs" "bt_get occs (el_occurrence_id l) \<noteq> None" "(l, n) \<in> set links"
  shows "\<exists>item \<in> set (for_claim (claim_str (el_claim_id l)) (evidence_join occs recs links)).
    occ_occurrence_id (ce_occurrence item) = el_occurrence_id l"
proof -
  obtain o' m where o': "bt_get occs (el_occurrence_id l) = Some (o', m)" using assms(2) by auto
  then have "claim_evidence recs l n o' m \<in> set (joined_for occs recs (claim_str (el_claim_id l)) links)"
    using assms(3) by (force simp: joined_for_def List.map_filter_def)
  moreover have "occ_occurrence_id o' = el_occurrence_id l" using assms(1) o' by (auto simp: occurrences_ok_def)
  ultimately show ?thesis by (intro bexI [of _ "claim_evidence recs l n o' m"]) (simp_all add: for_claim_join claim_evidence_def)
qed

text \<open>
  C30: Accepted evidence is not proposed again.  Once the events of the accepted proposals are in the journal, the
  evidence of the journal links every accepted pair of a claim and an occurrence, so a later reconciliation
  keeps none of them among the candidates it sends to the model.
\<close>

theorem reconcile_settles:
  assumes app: "append_proposals contract cx enc w observed min_score judge ps ([], 0) env = (env', Inr (accepted, rejected))" "forwards ex api cx"
    and j: "journal_of j (scope_for_workspace ws) entries" "well_typed j entries"
    and new: "list_all2 (recorded_as B j) new (concat (map (proposal_events w observed min_score judge) ps))" "set new \<subseteq> set (up_to fr entries)"
  shows "\<exists>evidence. evidence_through j ws fr = Some (Inr evidence) \<and>
    (\<forall>cs. \<forall>c \<in> set (filter (\<lambda>c. \<not> already_linked evidence c) cs). \<forall>row \<in> set accepted.
       (claim_str (kd_claim_id c), occurrence_str (occ_occurrence_id (kd_occurrence c))) \<noteq> (kt_claim_id row, kt_occurrence_id row))"
proof -
  obtain occs recs links where fold: "foldl (\<lambda>s e. evidence_put j e s) ([], [], []) (up_to fr entries) = (occs, recs, links)"
    and through: "evidence_through j ws fr = Some (Inr (evidence_join occs recs links))"
    using evidence_through_returns [OF j, of fr] by blast
  have ok: "occurrences_ok occs" using evidence_fold_keeps [OF fold] by (simp add: occurrences_ok_def)
  have linked: "already_linked (evidence_join occs recs links) c"
    if row: "row \<in> set accepted" "claim_str (kd_claim_id c) = kt_claim_id row" "occurrence_str (occ_occurrence_id (kd_occurrence c)) = kt_occurrence_id row" for row c
  proof -
    obtain p where p: "p \<in> set ps" "proposal_row min_score p = Some row"
      using proposals_appended [OF app] row(1) by (auto simp: List.map_filter_def)
    let ?c = "pr_candidate (cq_proposal p)"
    obtain stance score where acc: "accept_proposal (pr_verdict (cq_proposal p)) min_score = Some (stance, score)"
      and r: "row = accepted_row ?c stance score (cq_cache_key_hex p)" using p(2) by (auto simp: proposal_row_def)
    let ?o = "\<lparr>eo_workspace_id = w, eo_occurrence = kd_occurrence ?c, eo_observed_at_ms = observed\<rparr>"
    let ?l = "\<lparr>el_workspace_id = w, el_claim_id = kd_claim_id ?c, el_occurrence_id = occ_occurrence_id (kd_occurrence ?c),
      el_stance = stance, el_method = SemanticPolicy, el_observed_at_ms = observed\<rparr>"
    have evs: "EvEvidenceOccurrence ?o \<in> set (proposal_events w observed min_score judge p)"
      "EvClaimEvidenceLinked ?l \<in> set (proposal_events w observed min_score judge p)"
      by (simp_all add: proposal_events_def acc accepted_events_def Let_def)
    have "\<exists>e \<in> set (up_to fr entries). recorded_as B j e ev" if "ev \<in> set (proposal_events w observed min_score judge p)" for ev
    proof -
      have "ev \<in> set (concat (map (proposal_events w observed min_score judge) ps))" using that p(1) by auto
      then show ?thesis using new by (metis in_set_conv_nth list_all2_conv_all_nth nth_mem subsetD)
    qed
    then have "bt_get occs (occ_occurrence_id (kd_occurrence ?c)) \<noteq> None" "\<exists>n. (?l, n) \<in> set links"
      using evs evidence_fold_collects [OF fold] by fastforce+
    then obtain n where known: "bt_get occs (el_occurrence_id ?l) \<noteq> None" and link: "(?l, n) \<in> set links" by auto
    obtain item where "item \<in> set (for_claim (claim_str (kd_claim_id ?c)) (evidence_join occs recs links))"
      "occ_occurrence_id (ce_occurrence item) = occ_occurrence_id (kd_occurrence ?c)"
      using linked_evidence [OF ok known link] by auto
    moreover have "claim_str (kd_claim_id c) = claim_str (kd_claim_id ?c)" "occ_occurrence_id (kd_occurrence c) = occ_occurrence_id (kd_occurrence ?c)"
      using row(2,3) by (simp_all add: r accepted_row_def EvidenceOccurrenceId.expand)
    ultimately show ?thesis by (auto simp: already_linked_def)
  qed
  then show ?thesis using through by auto
qed

section \<open>Repeated references\<close>

text \<open>Two references to a symbol in one context window are one piece of evidence, but two candidates.\<close>

lemma repeated_reference_repeats_candidate:
  assumes "co_symbol o1 = co_symbol o2" "co_path o1 = co_path o2" "co_context_byte_range o1 = co_context_byte_range o2"
    and "co_source_digest_hex o1 = co_source_digest_hex o2"
  shows "occ_occurrence_id (kd_occurrence (code_candidate B claim snap o1 r1)) = occ_occurrence_id (kd_occurrence (code_candidate B claim snap o2 r2))"
  using assms by (simp add: code_candidate_def candidate_material_def)

section \<open>Candidates of a small index\<close>

definition ascii_unicode :: unicode where
  "ascii_unicode =
     \<lparr>uc_alphanumeric = (\<lambda>ch. case ch of [c] \<Rightarrow> is_alnum c | _ \<Rightarrow> False), uc_lowercase = (\<lambda>ch. case ch of [c] \<Rightarrow> is_lower c | _ \<Rightarrow> False),
      uc_to_lower = to_ascii_lowercase\<rparr>"

definition abc_claim :: ReconcileClaim where
  "abc_claim = \<lparr>kc_claim_id = ClaimId ''claim_1'', kc_text = ''abc is short'', kc_subject_hint = ''abc'', kc_predicate_hint = [], kc_object_hint = []\<rparr>"

lemma plain_ws_free: "\<forall>c \<in> set w. code c < 128 \<and> \<not> ws1 c \<Longrightarrow> ws_free w"
proof (rule ws_freeI)
  fix u v assume w: "w = u @ v" and v: "v \<noteq> []" and plain: "\<forall>c \<in> set w. code c < 128 \<and> \<not> ws1 c"
  then obtain c s where "v = c # s" by (cases v) auto
  then show "ws_len v = 0" using plain w by (cases "c # s" rule: ws_len.cases) (auto simp: ws2_def ws3_def)
qed

lemma abc_tokens:
  "''abc'' \<in> tokens ascii_unicode ''abc is short abc  ''" "''abc'' \<in> tokens ascii_unicode ''lexical a.c#abc@4 abc''"
proof -
  have words: "normalized_words ascii_unicode (chars ''abc is short abc  '') False = ''abc is short abc  ''"
    "normalized_words ascii_unicode (chars ''lexical a.c#abc@4 abc'') False = ''lexical a c abc 4 abc''"
    by (simp_all add: ascii_unicode_def continuation_def ascii_upper_def is_alnum_def is_lower_def is_upper_def is_digit_def to_ascii_lowercase_def lower_char_def code_def)
  have free: "list_all (\<lambda>w. w \<noteq> [] \<and> ws_free w) [''lexical'', ''a'', ''c'', ''abc'', ''4'', ''abc'']"
    by (simp add: plain_ws_free ws1_def code_def)
  have "split_whitespace ''abc is short abc  '' = [''abc'', ''is'', ''short'', ''abc'']" by code_simp
  moreover have "split_whitespace ''lexical a c abc 4 abc'' = [''lexical'', ''a'', ''c'', ''abc'', ''4'', ''abc'']"
    using split_join [OF free] by simp
  ultimately show "''abc'' \<in> tokens ascii_unicode ''abc is short abc  ''" "''abc'' \<in> tokens ascii_unicode ''lexical a.c#abc@4 abc''"
    unfolding tokens_def words by (simp_all add: STOP_WORDS_def)
qed

lemma finite_tokens: "finite (tokens u s)"
  by (simp add: tokens_def)

lemma shared_word_ranks:
  assumes "w \<in> claim_words" "w \<in> tokens u (co_symbol o' @ '' '' @ co_display_name o')"
  shows "0 < candidate_rank u claim_words o'"
proof -
  have "0 < card (claim_words \<inter> tokens u (co_symbol o' @ '' '' @ co_display_name o'))"
    using assms by (auto simp: card_gt_0_iff finite_tokens)
  then show ?thesis by (simp add: candidate_rank_def Let_def sat_add64_def u64_max_def)
qed

lemma lexical_fields:
  assumes "lexical_occurrence B utf8 source name s e = Some occ"
  shows "co_symbol occ = ''lexical '' @ cp_path source @ ''#'' @ name @ ''@'' @ show_nat s \<and> co_display_name occ = name \<and> co_path occ = cp_path source"
  using assms by (auto simp: lexical_occurrence_def Let_def split: prod.splits)

lemma demo_occurrence_fields:
  "co_symbol demo_occurrence = ''lexical a.c#abc@4''" "co_display_name demo_occurrence = ''abc''" "co_path demo_occurrence = ''a.c''"
proof -
  have "\<exists>occ. lexical_occurrence id (\<lambda>_. True) demo_code ''abc'' 4 7 = Some occ \<and> co_display_name occ = ''abc''"
    by (rule lexical_occurrence_ascii) (simp_all add: accepts_ascii_def ascii_def demo_code_def MAX_EVIDENCE_EXCERPT_BYTES_def, code_simp)
  then have occ: "lexical_occurrence id (\<lambda>_. True) demo_code ''abc'' 4 7 = Some demo_occurrence" by (auto simp: demo_occurrence_def)
  have "show_nat 4 = ''4''" by code_simp
  then show "co_symbol demo_occurrence = ''lexical a.c#abc@4''" "co_display_name demo_occurrence = ''abc''" "co_path demo_occurrence = ''a.c''"
    using lexical_fields [OF occ] by (simp_all add: demo_code_def)
qed

theorem reconcile_evidence_exact_witness:
  "\<exists>p c. build demo_tools demo_code_capture (Some []) (demo_code_limits 1) = Inr p \<and>
     kp_candidates (plan_candidates ascii_unicode id [abc_claim] (px_artifact p) reconcile_limits_default) = [c] \<and>
     candidate_quotes id demo_code_capture c \<and> kd_claim_text c = ''abc is short''"
proof -
  obtain p where p: "build demo_tools demo_code_capture (Some []) (demo_code_limits 1) = Inr p"
    "art_occurrences (px_artifact p) = [demo_occurrence]" using demo_build [of 1] by auto
  have cov: "length (cov_gaps (gt_coverage demo_code_capture)) \<le> MAX_GAPS" by (simp add: demo_code_capture_def)
  have "''abc'' \<in> claim_tokens ascii_unicode abc_claim" using abc_tokens(1) by (simp add: claim_tokens_def abc_claim_def)
  then have "0 < candidate_rank ascii_unicode (claim_tokens ascii_unicode abc_claim) demo_occurrence"
    using abc_tokens(2) by (intro shared_word_ranks) (simp_all add: demo_occurrence_fields)
  moreover have "is_code_path ''a.c''" by code_simp
  ultimately obtain c where "ranked_candidate ascii_unicode id (art_snapshot_id (px_artifact p)) abc_claim demo_occurrence = Some c"
    by (simp add: ranked_candidate_def demo_occurrence_fields)
  then have "ranked_candidates ascii_unicode id (px_artifact p) abc_claim = [c]"
    by (simp add: ranked_candidates_def p(2) map_filter_simps)
  then have c: "kp_candidates (plan_candidates ascii_unicode id [abc_claim] (px_artifact p) reconcile_limits_default) = [c]"
    by (simp add: plan_candidates_def reconcile_limits_default_def)
  have hash: "it_hash demo_tools = id" by (simp add: demo_tools_def)
  from reconcile_evidence_exact [OF p(1) cov, of c ascii_unicode "[abc_claim]" reconcile_limits_default] c p(1)
  show ?thesis by (auto simp: hash abc_claim_def)
qed

section \<open>One accepted proposal\<close>

definition pair_occurrence :: EvidenceOccurrence where
  "pair_occurrence =
     \<lparr>occ_occurrence_id = EvidenceOccurrenceId ''o'', occ_snapshot_id = SourceSnapshotId ''s'', occ_source_kind = SkLexical, occ_path = ''a.c'',
      occ_byte_range = \<lparr>br_start = 0, br_end = 1\<rparr>, occ_line_range = \<lparr>lr_start = 1, lr_end = 1\<rparr>, occ_git_blob = None,
      occ_source_digest_hex = replicate 64 (CHR ''0''), occ_excerpt = ''x'', occ_analyzer_fingerprint = [], occ_analysis_quality = Lexical\<rparr>"

definition pair_candidate :: ReconcileCandidate where
  "pair_candidate = \<lparr>kd_claim_id = ClaimId ''c'', kd_claim_text = ''x'', kd_occurrence = pair_occurrence, kd_code_prompt = [], kd_rank = 1\<rparr>"

definition pair_proposal :: "ClaimRelation \<Rightarrow> CachedCandidateProposal" where
  "pair_proposal r =
     \<lparr>cq_proposal = \<lparr>pr_candidate = pair_candidate, pr_verdict = \<lparr>rv_relation = r, rv_score = 0x3F800000\<rparr>\<rparr>, cq_cache_key_hex = ''k''\<rparr>"

abbreviation pair_events :: "domain_event list" where
  "pair_events \<equiv> accepted_events (WorkspaceId ''demo'') 5 ''judge'' pair_candidate Supports 1000000 ''k''"

definition pair_externals :: "string externals" where
  "pair_externals = demo_externals\<lparr>ex_key := (\<lambda>op parts. if op = ''texo.evidence.occurrence.recorded.v1'' then 1
       else if op = ''texo.evidence.reconciliation.accepted.v1'' then 2 else 3),
     ex_decode := (\<lambda>k b. Inr (if k = KEvidenceOccurrence then pair_events ! 0 else if k = KReconciliationAccepted then pair_events ! 1 else pair_events ! 2))\<rparr>"

lemma pair_policy:
  "accept_proposal (pr_verdict (cq_proposal (pair_proposal RelDuplicate))) 700000 = Some (Supports, 1000000)"
  "accept_proposal (pr_verdict (cq_proposal (pair_proposal RelUnrelated))) 700000 = None"
proof -
  have "f32_exponent 0x3F800000 = 127" "f32_fraction 0x3F800000 = 0" "\<not> f32_negative 0x3F800000"
    by (simp_all add: f32_exponent_def f32_fraction_def f32_negative_def)
  then have "unit_interval_to_ppm 0x3F800000 = 1000000"
    by (simp add: unit_interval_to_ppm_def f32_is_nan_def f32_le_zero_def f32_ge_one_def PPM_SCALE_def)
  then show "accept_proposal (pr_verdict (cq_proposal (pair_proposal RelDuplicate))) 700000 = Some (Supports, 1000000)"
    "accept_proposal (pr_verdict (cq_proposal (pair_proposal RelUnrelated))) 700000 = None"
    by (simp_all add: accept_proposal_def pair_proposal_def)
qed

lemma pair_valid: "occurrence_validate pair_occurrence = Inr ()"
  by (simp add: occurrence_validate_def validate_lower_hex_def pair_occurrence_def is_lower_hex_def is_digit_def code_def
      MAX_EVIDENCE_EXCERPT_BYTES_def list_all_iff Let_def)

lemma pair_ids: "occ_occurrence_id pair_occurrence = EvidenceOccurrenceId ''o''" "occ_snapshot_id pair_occurrence = SourceSnapshotId ''s''"
  by (simp_all add: pair_occurrence_def)

lemmas append_eval = append_domain_event_def policy_append_def verify_and_note_def APPEND_POLICIES_def pair_externals_def demo_externals_def
  memory_api_def coordinate_def coordinate_defs place_def append_typed_with_options_def memory_append_def memory_find_def u128_max_def keyed_def
  code_index_append_options_def snapshot_root_def entries_of_def read_of_def evidence_chain_options_def decode_payload_def ok_or_def
  accepted_events_def pair_candidate_def pair_valid Let_def

definition pair_env :: "nat \<Rightarrow> memory_store append_env" where
  "pair_env n =
     (let rows = take n
        [(''evidence:o'', \<lparr>ie_seq = 1, ie_entity = ''evidence:o'', ie_kind = KEvidenceOccurrence, ie_id = 1\<rparr>, pair_events ! 0),
         (''claim:c'', \<lparr>ie_seq = 2, ie_entity = ''claim:c'', ie_kind = KReconciliationAccepted, ie_id = 2\<rparr>, pair_events ! 1),
         (''claim:c'', \<lparr>ie_seq = 3, ie_entity = ''claim:c'', ie_kind = KClaimEvidenceLinked, ie_id = 3\<rparr>, pair_events ! 2)]
      in \<lparr>ap_store = Writable rows, ap_workspace_id = ''demo'',
          ap_receipts = map (\<lambda>(c, e, ev). \<lparr>rn_event_id_hex = hex_pad 32 (ie_id e), rn_kind_bits = ie_kind e, rn_global_sequence = ie_seq e\<rparr>) rows\<rparr>)"

lemma pair_entities:
  "entity_for_evidence ''o'' = ''evidence:o''" "entity_for_claim ''c'' = ''claim:c''" "entity_for_source_snapshot ''s'' = ''source-snapshot:s''"
  by (simp_all add: entity_for_evidence_def entity_for_claim_def entity_for_source_snapshot_def)

lemma pair_append:
  "append_domain_event pair_externals memory_api (pair_env 0) KEvidenceOccurrence [] = (pair_env 1, Inr ())"
  "append_domain_event pair_externals memory_api (pair_env 1) KReconciliationAccepted [] = (pair_env 2, Inr ())"
  "append_domain_event pair_externals memory_api (pair_env 2) KClaimEvidenceLinked [] = (pair_env 3, Inr ())"
    apply (simp add: append_eval append_evidence_occurrence_recorded_def pair_env_def pair_ids pair_entities)
   apply (simp add: append_eval append_evidence_reconciliation_accepted_def pair_env_def pair_ids pair_entities numeral_2_eq_2)
  apply (simp add: append_eval append_claim_evidence_linked_def pair_env_def pair_ids pair_entities numeral_2_eq_2 numeral_3_eq_3)
  done

definition pair_log :: "IndexEntry list" where
  "pair_log = [\<lparr>ie_seq = 1, ie_entity = ''evidence:o'', ie_kind = KEvidenceOccurrence, ie_id = 1\<rparr>,
     \<lparr>ie_seq = 2, ie_entity = ''claim:c'', ie_kind = KReconciliationAccepted, ie_id = 2\<rparr>,
     \<lparr>ie_seq = 3, ie_entity = ''claim:c'', ie_kind = KClaimEvidenceLinked, ie_id = 3\<rparr>]"

definition pair_journal :: journal where
  "pair_journal = memory_journal ''workspace:demo''
     [(pair_log ! 0, Inr (Payload (pair_events ! 0))), (pair_log ! 1, Inr (Payload (pair_events ! 1))),
      (pair_log ! 2, Inr (Payload (pair_events ! 2)))] (\<lambda>_. None)"

abbreviation pair_run :: "(memory_store, ReconcileAcceptedRow list \<times> nat) op" where
  "pair_run \<equiv> append_proposals (\<lambda>_. []) (backend_ctx pair_externals memory_api) (\<lambda>_. Inr []) (WorkspaceId ''demo'') 5 700000 ''judge''
     [pair_proposal RelUnrelated, pair_proposal RelDuplicate] ([], 0)"

lemma pair_run_done: "pair_run (pair_env 0) = (pair_env 3, Inr ([accepted_row pair_candidate Supports 1000000 ''k''], 1))"
proof -
  have one: "append_json op (backend_ctx pair_externals memory_api) (\<lambda>_. Inr []) ev env = (env', Inr ())"
    if "append_domain_event pair_externals memory_api env (kind_of ev) [] = (env', Inr ())" for op ev env env'
    using that by (simp add: append_json_def backend_ctx_def)
  have "op_for (append_json op (backend_ctx pair_externals memory_api) (\<lambda>_. Inr [])) pair_events (pair_env 0) = (pair_env 3, Inr ())" for op
    using one pair_append by (simp add: accepted_events_def Let_def op_bind_def op_defs)
  moreover have "pr_candidate (cq_proposal (pair_proposal r)) = pair_candidate" "cq_cache_key_hex (pair_proposal r) = ''k''" "kd_occurrence pair_candidate = pair_occurrence" for r
    by (simp_all add: pair_proposal_def pair_candidate_def)
  ultimately show ?thesis by (simp add: pair_policy op_bind_def op_defs pair_valid Let_def)
qed

lemma pair_proposal_events:
  "concat (map (proposal_events (WorkspaceId ''demo'') 5 700000 ''judge'') [pair_proposal RelUnrelated, pair_proposal RelDuplicate]) = pair_events"
proof -
  have "pr_candidate (cq_proposal (pair_proposal r)) = pair_candidate" "cq_cache_key_hex (pair_proposal r) = ''k''" for r
    by (simp_all add: pair_proposal_def)
  then show ?thesis by (simp add: proposal_events_def pair_policy)
qed

theorem proposals_appended_exact_witness:
  "\<exists>accepted rejected. pair_run (pair_env 0) = (pair_env 3, Inr (accepted, rejected)) \<and> length accepted = 1 \<and> rejected = 1 \<and>
     map rn_kind_bits (ap_receipts (pair_env 3)) = [KEvidenceOccurrence, KReconciliationAccepted, KClaimEvidenceLinked]"
proof -
  have none: "ap_receipts (pair_env 0) = []" by (simp add: pair_env_def)
  obtain rs where "ap_receipts (pair_env 3) = ap_receipts (pair_env 0) @ rs" "map rn_kind_bits rs = map kind_of pair_events"
    using proposals_appended_exact [OF pair_run_done backend_forwards] unfolding pair_proposal_events by blast
  then have "map rn_kind_bits (ap_receipts (pair_env 3)) = [KEvidenceOccurrence, KReconciliationAccepted, KClaimEvidenceLinked]"
    by (simp add: none accepted_events_def Let_def)
  then show ?thesis using pair_run_done
    by (intro exI [of _ "[accepted_row pair_candidate Supports 1000000 ''k'']"] exI [of _ 1]) (simp del: append_proposals.simps)
qed

theorem reconcile_settles_witness:
  "\<exists>evidence. evidence_through pair_journal ''demo'' 3 = Some (Inr evidence) \<and> filter (\<lambda>c. \<not> already_linked evidence c) [pair_candidate] = []"
proof -
  have j: "journal_of pair_journal (scope_for_workspace ''demo'') pair_log" "well_typed pair_journal pair_log"
    by (simp_all add: journal_of_def well_typed_def pair_journal_def memory_journal_def pair_log_def scope_for_workspace_def accepted_events_def Let_def)
  have "list_all2 (recorded_as id pair_journal) pair_log pair_events"
    by (simp add: recorded_as_def pair_log_def pair_journal_def memory_journal_def accepted_events_def Let_def pair_candidate_def pair_ids pair_entities)
  then have new: "list_all2 (recorded_as id pair_journal) pair_log
      (concat (map (proposal_events (WorkspaceId ''demo'') 5 700000 ''judge'') [pair_proposal RelUnrelated, pair_proposal RelDuplicate]))"
    unfolding pair_proposal_events .
  have low: "set pair_log \<subseteq> set (up_to 3 pair_log)" by (simp add: up_to_def pair_log_def)
  from reconcile_settles [OF pair_run_done backend_forwards j new low] obtain evidence where
    e: "evidence_through pair_journal ''demo'' 3 = Some (Inr evidence)" and
    out: "\<And>cs c row. c \<in> set (filter (\<lambda>c. \<not> already_linked evidence c) cs) \<Longrightarrow> row \<in> set [accepted_row pair_candidate Supports 1000000 ''k''] \<Longrightarrow>
       (claim_str (kd_claim_id c), occurrence_str (occ_occurrence_id (kd_occurrence c))) \<noteq> (kt_claim_id row, kt_occurrence_id row)"
    by blast
  have "already_linked evidence pair_candidate"
  proof (rule ccontr)
    assume "\<not> already_linked evidence pair_candidate"
    then have "pair_candidate \<in> set (filter (\<lambda>c. \<not> already_linked evidence c) [pair_candidate])" by simp
    from out [OF this, of "accepted_row pair_candidate Supports 1000000 ''k''"] show False by (simp add: accepted_row_def)
  qed
  then show ?thesis using e by simp
qed

section \<open>Two workers\<close>

theorem acquisition_completes_witness:
  "\<exists>n s'. (work_step (\<lambda>_ _. Inl budget_failure) [pair_candidate, pair_candidate] 9
       (worker_count 0 (length [pair_candidate, pair_candidate])) ^^ n) (work_start (length [pair_candidate, pair_candidate])) s' \<and>
     work_done s' \<and> n \<le> 6"
proof -
  have "work_left (work_start (length [pair_candidate, pair_candidate])) = 6" by (simp add: work_left_def work_start_def)
  then show ?thesis
    using acquisition_completes [of "[pair_candidate, pair_candidate]" "\<lambda>_ _. Inl budget_failure" 9 0
        "work_start (length [pair_candidate, pair_candidate])"] by auto
qed

theorem acquisition_exact_witness:
  "\<exists>s. (work_step (\<lambda>_ _. Inr \<lparr>rv_relation = RelDuplicate, rv_score = 0\<rparr>) [pair_candidate] 9 1)\<^sup>*\<^sup>* (work_start (length [pair_candidate])) s \<and> work_done s \<and>
     pb_proposals (reassemble [pair_candidate] (wk_results s)) = [\<lparr>pr_candidate = pair_candidate, pr_verdict = \<lparr>rv_relation = RelDuplicate, rv_score = 0\<rparr>\<rparr>]"
proof -
  let ?step = "work_step (\<lambda>_ _. Inr \<lparr>rv_relation = RelDuplicate, rv_score = 0\<rparr>) [pair_candidate] 9 1"
  obtain n s where s: "(?step ^^ n) (work_start (length [pair_candidate])) s" "work_done s" "wk_elapsed s = 0"
    using work_completes [of 1 "\<lambda>_ _. Inr \<lparr>rv_relation = RelDuplicate, rv_score = 0\<rparr>" "[pair_candidate]" 9 "work_start (length [pair_candidate])"]
    by (auto simp: work_start_def)
  have run: "?step\<^sup>*\<^sup>* (work_start (length [pair_candidate])) s" by (rule relpowp_imp_rtranclp [OF s(1)])
  from acquisition_exact [OF run s(2)] run s(2,3) show ?thesis
    by (intro exI [of _ s]) (simp add: batch_of_def call_relater_def)
qed

end
