(* ===== verification/Spec2Isabelle.thy ===== *)
theory Spec2Isabelle
  imports Tokens Lifecycle Views Replay Snapshots Pipeline Scores Appends Supersession Conflicts Convergence Markdown Search Ingest Indexing Reconcile
begin

text \<open>
  Texo is an event-sourced knowledge base: documents are ingested into claims, claims are
  related by a semantic pipeline, every decision is an event of an append-only journal, and
  all state shown to users and agents is a replay of that journal.  This development models
  the core of the Rust crate under \<open>src/src/\<close>.

  \<^bold>\<open>Theories.\<close>
  \<^item> \<open>Prelude\<close>, \<open>Text\<close>: integer widths, results, the ordered map, byte-level strings.
  \<^item> \<open>Ids\<close>, \<open>Coordinates\<close>, \<open>Machines\<close>, \<open>Payloads\<close>: \<open>events/ids.rs\<close>, \<open>events/coordinate.rs\<close>,
    \<open>events/machines.rs\<close>, \<open>events/payloads.rs\<close>: identities, stream coordinates, the two state
    machines with their transition records, the event payloads and the version-one upcasters.
  \<^item> \<open>Topology\<close>: \<open>topology.rs\<close> and \<open>compat/netbat.rs\<close>: journal topologies and their validation.
  \<^item> \<open>Knowledge\<close>, \<open>Tokens\<close>: \<open>knowledge.rs\<close>: the contracts of snapshot-consistent reads and the
    round trip of snapshot tokens.
  \<^item> \<open>Settlement\<close>, \<open>Projections\<close>, \<open>Lifecycle\<close>: \<open>relate/settlement.rs\<close> and the card projections of
    \<open>claims/\<close>, with what a replayed card says about its event stream.
  \<^item> \<open>Errors\<close>: \<open>error.rs\<close>: the error, its codes and its recovery facts.
  \<^item> \<open>Journal\<close>: \<open>journal_store.rs\<close> and the paging loop every projection runs.
  \<^item> \<open>Workspace\<close>, \<open>Assembly\<close>, \<open>Views\<close>: \<open>claims/workspace.rs\<close>: the incremental workspace
    projection, its equivalence with the full replay, historical reads, restarts and views.

  \<^item> \<open>Candidates\<close>, \<open>Reduction\<close>, \<open>Decisions\<close>, \<open>Pipeline\<close>: \<open>semantics/pipeline.rs\<close> and its
    submodules: candidate paging, settlement of pairs (sequential and parallel), reduction.
  \<^item> \<open>Replay\<close>, \<open>Snapshots\<close>: \<open>claims/temporal.rs\<close>, \<open>claims/evidence.rs\<close> and the snapshot reads of
    \<open>ops/handlers/common.rs\<close>.
  \<^item> \<open>Words\<close>, \<open>Markdown\<close>, \<open>Scores\<close>, \<open>Heuristic\<close>: \<open>extract/\<close>, \<open>lexicon.rs\<close>, \<open>semantics/score.rs\<close>,
    \<open>relate/heuristic.rs\<close>: the lines and prose blocks of a source, word and phrase matching, claim
    heuristics, scores as bits, and the pairwise contradiction detector.
  \<^item> \<open>Radix\<close>, \<open>Appends\<close>, \<open>Effects\<close>: \<open>ops/backend/policy.rs\<close> and \<open>ops/backend.rs\<close>: the append
    policies with their idempotency keys, and the operation monad of the handlers.
  \<^item> \<open>Supersession\<close>, \<open>Conflicts\<close>: \<open>ops/handlers/ingest/supersession.rs\<close>, \<open>ops/handlers/conflicts.rs\<close>.
  \<^item> \<open>Campaign\<close>, \<open>Publication\<close>, \<open>Relate\<close>, \<open>Passes\<close>, \<open>Convergence\<close>: \<open>ops/handlers/relate.rs\<close> and its
    submodules: the campaign basis and checkpoints, the evaluation and the publication of a pass, and
    the convergence of the campaign.
  \<^item> \<open>Ancestry\<close>, \<open>Capture\<close>: \<open>git_source.rs\<close>: the bounded comparison of two commits, and the capture of a
    commit with the changes of its work tree.
  \<^item> \<open>Ordering\<close>, \<open>Excerpts\<close>: the rest of \<open>ops/handlers/common.rs\<close> and the evidence of
    \<open>ops/handlers/knowledge_read.rs\<close>: relations between snapshots, the temporal policy, coverage, and the
    exact excerpts planned for claims.
  \<^item> \<open>CodeIndex\<close>: \<open>code_index/\<close>: SCIP import, lexical and syntactic fallbacks, the artifact and its persisted form.
  \<^item> \<open>Triangulate\<close>, \<open>Search\<close>: the rest of \<open>ops/handlers/knowledge_read.rs\<close> and \<open>ops/handlers/claims.rs\<close>: claim
    rows, code evidence, coverage and triangulation, the two searches with their cursors, explanation and manual
    supersession.
  \<^item> \<open>Ingest\<close>: \<open>ops/handlers/ingest.rs\<close>: the plan of an ingest, its execution and its failures.
  \<^item> \<open>Indexing\<close>: \<open>ops/handlers/knowledge.rs\<close>: recording a source snapshot, building its code index, and triangulation
    over an assembled view; the repository is captured once by each operation, and the two captures are shown to agree.
  \<^item> \<open>Reconcile\<close>: \<open>reconcile.rs\<close>, \<open>reconcile/domain.rs\<close>, \<open>ops/reconcile.rs\<close>: the bounded candidates of code for claims,
    their judgment by a pool of workers (a step relation), and the durable evidence of the accepted ones.

  \<^bold>\<open>Outside code.\<close>  BLAKE3, the coordinate constructor and the event store of BatPak, socket
  address parsing, the binary codec, the CommonMark parser, the SCIP and tree-sitter parsers, the directory walk, the Git repository,
  the file system, the Unicode tables, the clock, the embedder and the judge are parameters.  What the code relies on is stated as named hypotheses:
  \<^item> \<open>blake3_hex\<close>: a digest is 64 lower-case hexadecimal digits;
  \<^item> \<open>journal_of\<close>: a scope is paged in sequence order after an exclusive sequence, and sequences are
    positive;
  \<^item> \<open>replays\<close>, \<open>grows\<close>: an append under a committed key answers with the original receipt and writes
    nothing; streams grow at the end and stored events stay readable;
  \<^item> \<open>forwards\<close>: the context of an operation hands its effects to the backend;
  \<^item> \<open>refolds\<close>: the projection of a conflict after its resolution is the card with that event folded;
  \<^item> \<open>claim_refolds\<close>: the same for a claim and its supersession;
  \<^item> \<open>decodes\<close>: the codec decodes the artifact it encoded;
  \<^item> \<open>recorded_as\<close>: an appended event is what the journal later reads, up to its transition record.

  \<^bold>\<open>Bounds and fuel.\<close>  The paging loop is a \<open>partial_function\<close> and is proved to return on every
  store that meets \<open>journal_of\<close>; every other loop is structural or has a measure, and no fuel is used;
  the worker pools are step relations, with a bound on the steps to the end.
  Integers keep the width of the source where it saturates, wraps or is checked.

  \<^bold>\<open>What the model showed.\<close>  \<open>failed_scan_folds_twice\<close>, \<open>mutual_retirement\<close>, \<open>nested_item_overlap\<close>,
  \<open>object_inside_word\<close>, \<open>repeated_reference_repeats_candidate\<close> and \<open>claim_identities_collide\<close> state behaviour the code does not intend.

  \<^bold>\<open>Not modelled.\<close>  The agent and chat loops, model clients, HTTP, MCP and command-line surfaces, process
  hosting, installation and diagnostics: they are input and output around the operations.  The rendering handlers,
  configuration, replication, backup and the faithfulness gate of \<open>extract/\<close> are not modelled.
\<close>

end
